(* ===== verification/Prelude.thy ===== *)
theory Prelude
  imports Main "HOL-Library.Word" "HOL-Library.Monad_Syntax"
begin

text \<open>
  Shared vocabulary of the development: the fixed-width integers of the C and C++ code, the
  byte-level memory operations, the lookup tables of \<open>src/src/util/array_find.h\<close>, and the
  generic list lemmas the component theories use.

  A \<open>size_t\<close> is a \<^typ>\<open>nat\<close> below \<open>2 ^ 64\<close>; its arithmetic is written with \<open>uadd\<close>, \<open>usub\<close>
  and \<open>umul\<close>, which wrap around, and the conditional simplification rules below remove the
  wrap-around where the operands are known to be in range. A signed machine integer is an
  \<^typ>\<open>int\<close> kept in range by \<open>s16\<close>, \<open>s32\<close> or \<open>s64\<close>.
\<close>

named_theorems cint \<open>facts that remove an integer conversion whose argument is in range\<close>
named_theorems membytes \<open>facts about the byte copies\<close>

subsection \<open>Unsigned 64-bit arithmetic (size_t)\<close>

definition uadd :: "nat \<Rightarrow> nat \<Rightarrow> nat" where
  "uadd a b = (a + b) mod 2 ^ 64"

definition usub :: "nat \<Rightarrow> nat \<Rightarrow> nat" where
  "usub a b = (a + (2 ^ 64 - b mod 2 ^ 64)) mod 2 ^ 64"

definition umul :: "nat \<Rightarrow> nat \<Rightarrow> nat" where
  "umul a b = (a * b) mod 2 ^ 64"

lemma uadd_id [cint]: "a + b < 2 ^ 64 \<Longrightarrow> uadd a b = a + b"
  by (simp add: uadd_def)

lemma usub_id [cint]:
  assumes "b \<le> a" and "a < 2 ^ 64"
  shows "usub a b = a - b"
proof -
  have "usub a b = ((a - b) + 2 ^ 64) mod 2 ^ 64"
    using assms by (simp add: usub_def)
  also have "\<dots> = (a - b) mod 2 ^ 64" by (rule mod_add_self2)
  also have "\<dots> = a - b" using assms by (intro mod_less) linarith
  finally show ?thesis .
qed

lemma umul_id [cint]: "a * b < 2 ^ 64 \<Longrightarrow> umul a b = a * b"
  by (simp add: umul_def)

lemma uadd_lt [simp]: "uadd a b < 2 ^ 64"
  by (simp add: uadd_def)

lemma usub_lt [simp]: "usub a b < 2 ^ 64"
  by (simp add: usub_def)

lemma usub_self [simp]: "usub a a = 0"
proof -
  define m :: nat where "m = 2 ^ 64"
  have "0 < m" by (simp add: m_def)
  have "a + (m - a mod m) = m * (a div m) + m"
    using mult_div_mod_eq [of m a] mod_less_divisor [OF \<open>0 < m\<close>, of a] by linarith
  then show ?thesis unfolding usub_def m_def [symmetric] by simp
qed

subsection \<open>Conversions between integer types\<close>

definition s16 :: "int \<Rightarrow> int" where
  "s16 x = (x + 2 ^ 15) mod 2 ^ 16 - 2 ^ 15"

definition s32 :: "int \<Rightarrow> int" where
  "s32 x = (x + 2 ^ 31) mod 2 ^ 32 - 2 ^ 31"

definition s64 :: "int \<Rightarrow> int" where
  "s64 x = (x + 2 ^ 63) mod 2 ^ 64 - 2 ^ 63"

definition u16 :: "int \<Rightarrow> int" where
  "u16 x = x mod 2 ^ 16"

definition u32 :: "int \<Rightarrow> int" where
  "u32 x = x mod 2 ^ 32"

definition u64 :: "int \<Rightarrow> int" where
  "u64 x = x mod 2 ^ 64"

text \<open>The conversion of a signed integer to \<open>size_t\<close>, and of a \<open>size_t\<close> to \<open>int\<close>.\<close>

definition size_of_int :: "int \<Rightarrow> nat" where
  "size_of_int x = nat (x mod 2 ^ 64)"

definition int_of_size :: "nat \<Rightarrow> int" where
  "int_of_size n = s32 (int n)"

lemma s16_id [cint]: "- (2 ^ 15) \<le> x \<Longrightarrow> x < 2 ^ 15 \<Longrightarrow> s16 x = x"
  by (simp add: s16_def)

lemma s32_id [cint]: "- (2 ^ 31) \<le> x \<Longrightarrow> x < 2 ^ 31 \<Longrightarrow> s32 x = x"
  by (simp add: s32_def)

lemma s64_id [cint]: "- (2 ^ 63) \<le> x \<Longrightarrow> x < 2 ^ 63 \<Longrightarrow> s64 x = x"
  by (simp add: s64_def)

lemma s64_nonneg: "0 \<le> x \<Longrightarrow> x < 2 ^ 63 \<Longrightarrow> s64 x = x"
  by (rule s64_id) simp_all

lemma s32_nonneg: "0 \<le> x \<Longrightarrow> x < 2 ^ 31 \<Longrightarrow> s32 x = x"
  by (rule s32_id) simp_all

lemma u64_neg: "- (2 ^ 64) \<le> x \<Longrightarrow> x < 0 \<Longrightarrow> u64 x = x + 2 ^ 64"
  unfolding u64_def by (subst mod_add_self2 [symmetric], rule mod_pos_pos_trivial) simp_all

lemma u16_id [cint]: "0 \<le> x \<Longrightarrow> x < 2 ^ 16 \<Longrightarrow> u16 x = x"
  by (simp add: u16_def)

lemma u32_id [cint]: "0 \<le> x \<Longrightarrow> x < 2 ^ 32 \<Longrightarrow> u32 x = x"
  by (simp add: u32_def)

lemma u64_id [cint]: "0 \<le> x \<Longrightarrow> x < 2 ^ 64 \<Longrightarrow> u64 x = x"
  by (simp add: u64_def)

lemma int_of_size_id [cint]: "n < 2 ^ 31 \<Longrightarrow> int_of_size n = int n"
  by (simp add: int_of_size_def s32_id)

lemma size_of_int_id [cint]: "0 \<le> x \<Longrightarrow> x < 2 ^ 64 \<Longrightarrow> size_of_int x = nat x"
  by (simp add: size_of_int_def)

text \<open>The difference of two small sizes, read as an \<open>int\<close>, is their integer difference.\<close>

lemma int_of_size_usub [cint]:
  assumes "a < 2 ^ 31" and "b < 2 ^ 31"
  shows "int_of_size (usub a b) = int a - int b"
proof (cases "b \<le> a")
  case True
  with assms show ?thesis by (simp add: usub_id int_of_size_id of_nat_diff)
next
  case False
  then have "usub a b = 2 ^ 64 - (b - a)" using assms by (simp add: usub_def)
  then have "int (usub a b) = 2 ^ 64 - (int b - int a)" using False assms by (simp add: of_nat_diff)
  moreover have "((2 :: int) ^ 64 - (int b - int a) + 2 ^ 31) mod 2 ^ 32 = int a - int b + 2 ^ 31"
  proof -
    have "(2 :: int) ^ 64 - (int b - int a) + 2 ^ 31 = (int a - int b + 2 ^ 31) + 2 ^ 32 * 2 ^ 32"
      by simp
    also have "\<dots> mod 2 ^ 32 = (int a - int b + 2 ^ 31) mod 2 ^ 32" by (rule mod_mult_self2)
    also have "\<dots> = int a - int b + 2 ^ 31" using False assms by simp
    finally show ?thesis .
  qed
  ultimately show ?thesis by (simp add: int_of_size_def s32_def)
qed

lemma s16_range: "- (2 ^ 15) \<le> s16 x \<and> s16 x < 2 ^ 15"
  by (simp add: s16_def)

lemma s32_range: "- (2 ^ 31) \<le> s32 x \<and> s32 x < 2 ^ 31"
  by (simp add: s32_def)

lemma s64_range: "- (2 ^ 63) \<le> s64 x \<and> s64 x < 2 ^ 63"
  by (simp add: s64_def)

subsection \<open>Signed division of C, which truncates towards zero\<close>

definition c_div :: "int \<Rightarrow> int \<Rightarrow> int" where
  "c_div a b = sgn a * sgn b * (\<bar>a\<bar> div \<bar>b\<bar>)"

definition c_mod :: "int \<Rightarrow> int \<Rightarrow> int" where
  "c_mod a b = a - c_div a b * b"

lemma c_div_nonneg: "0 \<le> a \<Longrightarrow> 0 < b \<Longrightarrow> c_div a b = a div b"
  by (cases "a = 0") (simp_all add: c_div_def)

lemma c_mod_nonneg: "0 \<le> a \<Longrightarrow> 0 < b \<Longrightarrow> c_mod a b = a mod b"
  by (simp add: c_mod_def c_div_nonneg minus_div_mult_eq_mod)

subsection \<open>Bytes in memory\<close>

type_synonym byte = "8 word"

text \<open>
  A block of memory is the list of its bytes. \<open>mem_write d off src\<close> is \<open>memcpy(d + off, src, n)\<close>
  with \<open>n = length src\<close>: a copy that ran past the end of the block would change its length, so
  "the length is unchanged" is the statement that no copy leaves the block.
\<close>

definition mem_write :: "'a list \<Rightarrow> nat \<Rightarrow> 'a list \<Rightarrow> 'a list" where
  "mem_write d off src = take off d @ src @ drop (off + length src) d"

definition mem_read :: "'a list \<Rightarrow> nat \<Rightarrow> nat \<Rightarrow> 'a list" where
  "mem_read d off n = take n (drop off d)"

text \<open>A store of bytes into a block, with the check that it stays inside.\<close>

definition poke :: "'a list \<Rightarrow> nat \<Rightarrow> 'a list \<Rightarrow> 'a list option" where
  "poke data off bs = (if off + length bs \<le> length data then Some (mem_write data off bs) else None)"

lemma length_mem_write [membytes]:
  "off + length src \<le> length d \<Longrightarrow> length (mem_write d off src) = length d"
  by (simp add: mem_write_def)

lemma length_mem_read [membytes]: "off + n \<le> length d \<Longrightarrow> length (mem_read d off n) = n"
  by (simp add: mem_read_def)

lemma mem_write_nil [simp]: "mem_write d off [] = d"
  by (simp add: mem_write_def)

lemma take_mem_write_before [membytes]:
  "k \<le> off \<Longrightarrow> off \<le> length d \<Longrightarrow> take k (mem_write d off src) = take k d"
  by (simp add: mem_write_def min_def)

lemma take_mem_write_through [membytes]:
  "k = off + length src \<Longrightarrow> off \<le> length d \<Longrightarrow> take k (mem_write d off src) = take off d @ src"
  by (simp add: mem_write_def)

lemma drop_mem_write_after [membytes]:
  "off + length src \<le> k \<Longrightarrow> off \<le> length d \<Longrightarrow> drop k (mem_write d off src) = drop k d"
  by (simp add: mem_write_def)

lemma drop_mem_write_before [membytes]:
  "k \<le> off \<Longrightarrow> off \<le> length d \<Longrightarrow>
   drop k (mem_write d off src) = take (off - k) (drop k d) @ src @ drop (off + length src) d"
  by (simp add: mem_write_def drop_take)

lemma mem_write_append [membytes]:
  "k = off + length xs \<Longrightarrow> off + length xs + length ys \<le> length d \<Longrightarrow>
   mem_write (mem_write d off xs) k ys = mem_write d off (xs @ ys)"
  by (simp add: mem_write_def ac_simps)

lemma mem_read_0 [simp]: "mem_read d off 0 = []"
  by (simp add: mem_read_def)

lemma mem_read_all [simp]: "mem_read d 0 (length d) = d"
  by (simp add: mem_read_def)

lemma mem_read_join [membytes]: "mem_read d 0 a @ mem_read d a b = mem_read d 0 (a + b)"
  by (simp add: mem_read_def take_add)

text \<open>The first bytes of a region that wraps around the end of its block.\<close>

lemma take_wrapped [membytes]:
  assumes "a + m = length d" and "k \<le> w"
  shows "take (m + k) (drop a d @ take w d) = mem_read d a m @ mem_read d 0 k"
proof -
  have "m = length (drop a d)" using assms(1) by simp
  then show ?thesis using assms(2) by (simp add: mem_read_def min_def)
qed

subsection \<open>Lookup tables: util::ArrayFind and util::ArrayFindKey\<close>

text \<open>
  \<open>util/array_find.h\<close>: a linear search of a constant table of pairs that returns the default
  when the key is absent. \<open>RTC_DCHECK\<close> is compiled out of a release build and is not modelled.
\<close>

fun ArrayFind :: "('k \<times> 'v) list \<Rightarrow> 'k \<Rightarrow> 'v \<Rightarrow> 'v" where
  "ArrayFind [] key default_val = default_val"
| "ArrayFind ((k, v) # arr) key default_val =
     (if key = k then v else ArrayFind arr key default_val)"

fun ArrayFindKey :: "('k \<times> 'v) list \<Rightarrow> 'v \<Rightarrow> 'k \<Rightarrow> 'k" where
  "ArrayFindKey [] val default_val = default_val"
| "ArrayFindKey ((k, v) # arr) val default_val =
     (if val = v then k else ArrayFindKey arr val default_val)"

lemma ArrayFind_map_of:
  "ArrayFind arr key d = (case map_of arr key of None \<Rightarrow> d | Some v \<Rightarrow> v)"
  by (induction arr key d rule: ArrayFind.induct) auto

lemma ArrayFindKey_ArrayFind:
  "ArrayFindKey arr v d = ArrayFind (map prod.swap arr) v d"
  by (induction arr v d rule: ArrayFindKey.induct) auto

lemma ArrayFind_roundtrip:
  assumes "distinct (map snd arr)" and "k \<in> fst ` set arr"
  shows "ArrayFindKey arr (ArrayFind arr k d) d' = k"
  using assms
proof (induction arr)
  case Nil
  then show ?case by simp
next
  case (Cons p arr)
  obtain k' v' where p: "p = (k', v')" by (cases p)
  show ?case
  proof (cases "k = k'")
    case True
    then show ?thesis by (simp add: p)
  next
    case False
    with Cons.prems p have mem: "k \<in> fst ` set arr" by auto
    have "ArrayFind arr k d \<in> snd ` set arr"
      using mem by (induction arr k d rule: ArrayFind.induct) auto
    with Cons.prems p have "ArrayFind arr k d \<noteq> v'" by auto
    with False Cons mem show ?thesis by (simp add: p)
  qed
qed

subsection \<open>Lists\<close>

lemma take_drop_split: "a \<le> b \<Longrightarrow> take a xs @ take (b - a) (drop a xs) = take b xs"
  by (metis le_add_diff_inverse take_add)

lemma drop_take_append: "k \<le> length xs \<Longrightarrow> drop k xs = take n (drop k xs) @ drop (k + n) xs"
  by (metis append_take_drop_id drop_drop add.commute)

lemma bind_Some_iff: "(Option.bind m f = Some y) = (\<exists>x. m = Some x \<and> f x = Some y)"
  by (cases m) auto

end
