(* ===== verification/FifoQueue.thy ===== *)
theory FifoQueue
  imports Prelude "HOL-Library.Sublist"
begin

text \<open>
  The interface the audio buffers rely on: a bounded queue of bytes. \<open>push\<close> appends what fits
  and says how much that was, \<open>pop\<close> removes from the front. The locale states the laws; the
  ring buffer is interpreted in it where it is modelled, and the conservation law proved here
  (what comes out, followed by what is still inside, is what went in) is then a fact about the
  code. \<open>overwriting_queue\<close> adds the contract of the wrapper in its non-expanding mode, which
  makes room by dropping the oldest bytes.
\<close>

datatype queue_op = Push "byte list" | Pop nat

text \<open>A run of operations: the final state, all bytes accepted and all bytes taken out.\<close>

fun queue_run :: "('s \<Rightarrow> byte list \<Rightarrow> 's \<times> nat) \<Rightarrow> ('s \<Rightarrow> nat \<Rightarrow> 's \<times> byte list) \<Rightarrow>
    's \<Rightarrow> queue_op list \<Rightarrow> 's \<times> byte list \<times> byte list" where
  "queue_run push pop s [] = (s, [], [])"
| "queue_run push pop s (Push xs # ops) =
     (case push s xs of (s1, k) \<Rightarrow>
        (case queue_run push pop s1 ops of (s2, ins, outs) \<Rightarrow> (s2, take k xs @ ins, outs)))"
| "queue_run push pop s (Pop n # ops) =
     (case pop s n of (s1, ys) \<Rightarrow>
        (case queue_run push pop s1 ops of (s2, ins, outs) \<Rightarrow> (s2, ins, ys @ outs)))"

locale byte_source =
  fixes inv :: "'s \<Rightarrow> bool"
    and contents :: "'s \<Rightarrow> byte list"
    and capacity :: "'s \<Rightarrow> nat"
    and pop :: "'s \<Rightarrow> nat \<Rightarrow> 's \<times> byte list"
  assumes bounded: "inv s \<Longrightarrow> length (contents s) \<le> capacity s"
    and pop_law: "inv s \<Longrightarrow> pop s n = (s', ys) \<Longrightarrow>
      inv s' \<and> capacity s' = capacity s \<and>
      ys = take n (contents s) \<and> contents s' = drop n (contents s)"

locale byte_queue = byte_source +
  fixes push :: "'s \<Rightarrow> byte list \<Rightarrow> 's \<times> nat"
  assumes push_law: "inv s \<Longrightarrow> push s xs = (s', k) \<Longrightarrow>
      inv s' \<and> capacity s' = capacity s \<and>
      k = min (capacity s - length (contents s)) (length xs) \<and>
      contents s' = contents s @ take k xs"
begin

lemma run_conserves:
  assumes "inv s" and "queue_run push pop s ops = (s', ins, outs)"
  shows "inv s' \<and> capacity s' = capacity s \<and> outs @ contents s' = contents s @ ins"
  using assms
proof (induction ops arbitrary: s s' ins outs)
  case Nil
  then show ?case by simp
next
  case (Cons op ops)
  show ?case
  proof (cases op)
    case (Push xs)
    obtain s1 k where p: "push s xs = (s1, k)" by fastforce
    obtain s2 ins2 outs2 where r: "queue_run push pop s1 ops = (s2, ins2, outs2)"
      by (metis prod_cases3)
    note law = push_law [OF Cons.prems(1) p]
    have "inv s2 \<and> capacity s2 = capacity s1 \<and> outs2 @ contents s2 = contents s1 @ ins2"
      using law r by (intro Cons.IH) simp_all
    with Cons.prems(2) law show ?thesis by (simp add: Push p r)
  next
    case (Pop n)
    obtain s1 ys where p: "pop s n = (s1, ys)" by fastforce
    obtain s2 ins2 outs2 where r: "queue_run push pop s1 ops = (s2, ins2, outs2)"
      by (metis prod_cases3)
    note law = pop_law [OF Cons.prems(1) p]
    have IH: "inv s2 \<and> capacity s2 = capacity s1 \<and> outs2 @ contents s2 = contents s1 @ ins2"
      using law r by (intro Cons.IH) simp_all
    have eqs: "s' = s2" "ins = ins2" "outs = ys @ outs2"
      using Cons.prems(2) by (simp_all add: Pop p r)
    have "outs @ contents s' = ys @ drop n (contents s) @ ins"
      using IH law eqs by simp
    also have "\<dots> = contents s @ ins"
      using law by (simp flip: append_assoc)
    finally show ?thesis using IH law eqs by simp
  qed
qed

text \<open>Nothing is reordered or invented: the bytes taken out are a prefix of what went in.\<close>

lemma run_prefix:
  assumes "inv s" and "contents s = []" and "queue_run push pop s ops = (s', ins, outs)"
  shows "outs = take (length outs) ins"
  using run_conserves [OF assms(1,3)] assms(2) by (metis append_Nil append_eq_conv_conj)

end

text \<open>\<open>max_put\<close> is the largest write the implementation's integers can describe.\<close>

locale overwriting_queue = byte_source +
  fixes put :: "'s \<Rightarrow> byte list \<Rightarrow> 's \<times> nat"
    and max_put :: nat
  assumes put_law: "inv s \<Longrightarrow> length xs \<le> max_put \<Longrightarrow> put s xs = (s', k) \<Longrightarrow>
      inv s' \<and> capacity s' = capacity s \<and> k = min (capacity s) (length xs) \<and>
      contents s' = drop (length (contents s) + length xs - capacity s) (contents s) @ take k xs"
begin

text \<open>A write that fits the capacity is never refused, and its bytes are the newest ones.\<close>

lemma put_keeps_newest:
  assumes "inv s" and "length xs \<le> max_put" and "put s xs = (s', k)" and "length xs \<le> capacity s"
  shows "k = length xs" and "drop (length (contents s') - length xs) (contents s') = xs"
    and "length (contents s') = min (capacity s) (length (contents s) + length xs)"
  using put_law [OF assms(1-3)] assms(4) bounded [OF assms(1)] by (auto simp: min_def)

text \<open>
  Over a run, what is inside is always the end of the stream of accepted bytes, and what was
  taken out is a subsequence of the part that is gone: bytes may be dropped, but they are
  never duplicated or reordered.
\<close>

lemma run_stream:
  assumes "inv s" and "\<forall>xs. Push xs \<in> set ops \<longrightarrow> length xs \<le> max_put"
    and "queue_run put pop s ops = (s', ins, outs)"
  shows "\<exists>gone. inv s' \<and> capacity s' = capacity s \<and>
           contents s @ ins = gone @ contents s' \<and> subseq outs gone"
  using assms
proof (induction ops arbitrary: s s' ins outs)
  case Nil
  then show ?case by simp
next
  case (Cons op ops)
  have small: "\<forall>xs. Push xs \<in> set ops \<longrightarrow> length xs \<le> max_put" using Cons.prems(2) by simp
  show ?case
  proof (cases op)
    case (Push xs)
    obtain s1 k where p: "put s xs = (s1, k)" by fastforce
    obtain s2 ins2 outs2 where r: "queue_run put pop s1 ops = (s2, ins2, outs2)"
      by (metis prod_cases3)
    have eqs: "s' = s2" "ins = take k xs @ ins2" "outs = outs2"
      using Cons.prems(3) by (simp_all add: Push p r)
    let ?d = "length (contents s) + length xs - capacity s"
    have "length xs \<le> max_put" using Cons.prems(2) Push by simp
    note law = put_law [OF Cons.prems(1) this p]
    obtain gone where IH: "inv s2" "capacity s2 = capacity s1"
      "contents s1 @ ins2 = gone @ contents s2" "subseq outs2 gone"
      using Cons.IH [OF _ small r] law by blast
    have "contents s @ ins = take ?d (contents s) @ contents s1 @ ins2"
      using law eqs by (simp flip: append_assoc)
    also have "\<dots> = (take ?d (contents s) @ gone) @ contents s2" using IH by simp
    finally have "contents s @ ins = (take ?d (contents s) @ gone) @ contents s'" using eqs by simp
    moreover have "subseq outs (take ?d (contents s) @ gone)"
      using IH eqs by (simp add: list_emb_append2)
    ultimately show ?thesis using IH law eqs by auto
  next
    case (Pop n)
    obtain s1 ys where p: "pop s n = (s1, ys)" by fastforce
    obtain s2 ins2 outs2 where r: "queue_run put pop s1 ops = (s2, ins2, outs2)"
      by (metis prod_cases3)
    note law = pop_law [OF Cons.prems(1) p]
    obtain gone where IH: "inv s2" "capacity s2 = capacity s1"
      "contents s1 @ ins2 = gone @ contents s2" "subseq outs2 gone"
      using Cons.IH [OF _ small r] law by blast
    have eqs: "s' = s2" "ins = ins2" "outs = ys @ outs2"
      using Cons.prems(3) by (simp_all add: Pop p r)
    have "contents s @ ins = ys @ contents s1 @ ins2"
      using law eqs by (simp flip: append_assoc)
    then have "contents s @ ins = (ys @ gone) @ contents s'" using IH eqs by simp
    moreover have "subseq outs (ys @ gone)" using IH eqs by (simp add: list_emb_append_mono)
    ultimately show ?thesis using IH law eqs by auto
  qed
qed

end

end
