(* ===== verification/RingBuffer.thy ===== *)
theory RingBuffer
  imports FifoQueue
begin

text \<open>
  \<open>src/src/webrtc/common_audio/ring_buffer.c\<close>: the byte ring buffer under every audio buffer of
  the program. The state is the C struct; a handle is an \<open>option\<close>, \<open>None\<close> being \<open>NULL\<close>. Each
  operation returns the updated handle with the C return value. The abstract view of a buffer
  is \<open>rb_contents\<close>, the readable bytes in order; \<open>rb_inv\<close> is the invariant of the positions and
  the wrap flag.
\<close>

datatype wrap = SAME_WRAP | DIFF_WRAP

record ring_buffer =
  read_pos :: nat
  write_pos :: nat
  element_count :: nat
  element_size :: nat
  rw_wrap :: wrap
  buf_data :: "byte list"

subsection \<open>The operations\<close>

definition WebRtc_InitBuffer :: "ring_buffer \<Rightarrow> ring_buffer" where
  "WebRtc_InitBuffer self =
     self\<lparr>read_pos := 0, write_pos := 0, rw_wrap := SAME_WRAP,
          buf_data := mem_write (buf_data self) 0
            (replicate (umul (element_count self) (element_size self)) 0)\<rparr>"

text \<open>
  \<open>malloc_ok n\<close> says whether \<open>malloc(n)\<close> returns memory. The bytes of the fresh block are
  indeterminate; \<open>WebRtc_InitBuffer\<close> overwrites all of them before the handle is returned.
\<close>

definition sizeof_RingBuffer :: nat where
  "sizeof_RingBuffer = 48"

definition WebRtc_CreateBuffer :: "(nat \<Rightarrow> bool) \<Rightarrow> nat \<Rightarrow> nat \<Rightarrow> ring_buffer option" where
  "WebRtc_CreateBuffer malloc_ok n esize =
     (if n = 0 \<or> esize = 0 then None
      else if \<not> malloc_ok sizeof_RingBuffer then None
      else if \<not> malloc_ok (umul n esize) then None
      else Some (WebRtc_InitBuffer
        \<lparr>read_pos = 0, write_pos = 0, element_count = n, element_size = esize,
         rw_wrap = SAME_WRAP, buf_data = replicate (umul n esize) 0\<rparr>))"

fun WebRtc_available_read :: "ring_buffer option \<Rightarrow> nat" where
  "WebRtc_available_read None = 0"
| "WebRtc_available_read (Some self) =
     (if rw_wrap self = SAME_WRAP then usub (write_pos self) (read_pos self)
      else uadd (usub (element_count self) (read_pos self)) (write_pos self))"

fun WebRtc_available_write :: "ring_buffer option \<Rightarrow> nat" where
  "WebRtc_available_write None = 0"
| "WebRtc_available_write (Some self) =
     usub (element_count self) (WebRtc_available_read (Some self))"

text \<open>
  The two regions, each an offset into the block with its length in bytes; the second offset is
  \<open>None\<close> where the code stores \<open>NULL\<close>.
\<close>

definition GetBufferReadRegions ::
    "ring_buffer \<Rightarrow> nat \<Rightarrow> nat \<times> (nat \<times> nat) \<times> (nat option \<times> nat)" where
  "GetBufferReadRegions buf n =
     (let readable_elements = WebRtc_available_read (Some buf);
          read_elements = (if readable_elements < n then readable_elements else n);
          margin = usub (element_count buf) (read_pos buf);
          ptr_1 = umul (read_pos buf) (element_size buf)
      in if margin < read_elements
         then (read_elements, (ptr_1, umul margin (element_size buf)),
               (Some 0, umul (usub read_elements margin) (element_size buf)))
         else (read_elements, (ptr_1, umul read_elements (element_size buf)), (None, 0)))"

fun WebRtc_MoveReadPtr :: "ring_buffer option \<Rightarrow> int \<Rightarrow> ring_buffer option \<times> int" where
  "WebRtc_MoveReadPtr None n = (None, 0)"
| "WebRtc_MoveReadPtr (Some self) n =
     (let free_elements = int_of_size (WebRtc_available_write (Some self));
          readable_elements = int_of_size (WebRtc_available_read (Some self));
          n1 = (if n > readable_elements then readable_elements else n);
          n2 = (if n1 < - free_elements then - free_elements else n1);
          pos1 = s32 (int_of_size (read_pos self) + n2);
          over = int_of_size (element_count self) < pos1;
          pos2 = (if over then pos1 - int_of_size (element_count self) else pos1);
          wrap1 = (if over then SAME_WRAP else rw_wrap self);
          under = pos2 < 0;
          pos3 = (if under then pos2 + int_of_size (element_count self) else pos2);
          wrap2 = (if under then DIFF_WRAP else wrap1)
      in (Some (self\<lparr>rw_wrap := wrap2, read_pos := size_of_int pos3\<rparr>), n2))"

text \<open>
  \<open>WebRtc_ReadBuffer(self, data_ptr, data, n)\<close>. \<open>want_ptr\<close> says that \<open>data_ptr\<close> is not \<open>NULL\<close>.
  Where the bytes are contiguous and a pointer is wanted, nothing is copied and the pointer
  leads into the ring; otherwise they are copied to \<open>data\<close>.
\<close>

datatype data_pointer = NullPtr | IntoRing nat | IntoData

definition ReadCopy :: "ring_buffer \<Rightarrow> bool \<Rightarrow> byte list \<Rightarrow> nat \<Rightarrow> byte list" where
  "ReadCopy self want_ptr out n =
     (case GetBufferReadRegions self n of (read_count, (p1, b1), (p2, b2)) \<Rightarrow>
        if 0 < b2 then
          mem_write (mem_write out 0 (mem_read (buf_data self) p1 b1)) b1
            (mem_read (buf_data self) (the p2) b2)
        else if \<not> want_ptr then mem_write out 0 (mem_read (buf_data self) p1 b1)
        else out)"

definition ReadPointer :: "ring_buffer \<Rightarrow> bool \<Rightarrow> nat \<Rightarrow> data_pointer" where
  "ReadPointer self want_ptr n =
     (case GetBufferReadRegions self n of (read_count, (p1, b1), (p2, b2)) \<Rightarrow>
        if \<not> want_ptr \<or> read_count = 0 then NullPtr
        else if 0 < b2 then IntoData else IntoRing p1)"

fun WebRtc_ReadBuffer :: "ring_buffer option \<Rightarrow> bool \<Rightarrow> byte list option \<Rightarrow> nat \<Rightarrow>
    ring_buffer option \<times> byte list option \<times> data_pointer \<times> nat" where
  "WebRtc_ReadBuffer None want_ptr data n = (None, data, NullPtr, 0)"
| "WebRtc_ReadBuffer (Some self) want_ptr None n = (Some self, None, NullPtr, 0)"
| "WebRtc_ReadBuffer (Some self) want_ptr (Some out) n =
     (let read_count = fst (GetBufferReadRegions self n)
      in (fst (WebRtc_MoveReadPtr (Some self) (int_of_size read_count)),
          Some (ReadCopy self want_ptr out n), ReadPointer self want_ptr n, read_count))"

fun WebRtc_WriteBuffer ::
    "ring_buffer option \<Rightarrow> byte list option \<Rightarrow> nat \<Rightarrow> ring_buffer option \<times> nat" where
  "WebRtc_WriteBuffer None data n = (None, 0)"
| "WebRtc_WriteBuffer (Some self) None n = (Some self, 0)"
| "WebRtc_WriteBuffer (Some self) (Some data) n =
     (let free_elements = WebRtc_available_write (Some self);
          write_elements = (if free_elements < n then free_elements else n);
          margin = usub (element_count self) (write_pos self);
          esize = element_size self;
          self1 = (if margin < write_elements
            then self\<lparr>buf_data := mem_write (buf_data self) (umul (write_pos self) esize)
                        (mem_read data 0 (umul margin esize)),
                      write_pos := 0, rw_wrap := DIFF_WRAP\<rparr>
            else self);
          k = (if margin < write_elements then usub write_elements margin else write_elements);
          self2 = self1\<lparr>buf_data := mem_write (buf_data self1) (umul (write_pos self1) esize)
                          (mem_read data (umul (usub write_elements k) esize) (umul k esize)),
                        write_pos := uadd (write_pos self1) k\<rparr>
      in (Some self2, write_elements))"

text \<open>
  On a live handle the operations are used through the lemmas below; the equations of the
  \<open>NULL\<close> handle stay simplification rules, and \<open>rb_eval\<close> evaluates closed terms.
\<close>

lemmas rb_eval =
  WebRtc_available_read.simps WebRtc_available_write.simps WebRtc_MoveReadPtr.simps
  WebRtc_ReadBuffer.simps WebRtc_WriteBuffer.simps

declare WebRtc_available_read.simps(2) [simp del] WebRtc_available_write.simps(2) [simp del]
  WebRtc_MoveReadPtr.simps(2) [simp del] WebRtc_ReadBuffer.simps(3) [simp del]
  WebRtc_WriteBuffer.simps(3) [simp del]

subsection \<open>Invariant and abstraction\<close>

text \<open>
  The bound on \<open>element_count\<close> keeps the \<open>int\<close> arithmetic of \<open>WebRtc_MoveReadPtr\<close> in range.
\<close>

definition rb_inv :: "ring_buffer \<Rightarrow> bool" where
  "rb_inv b \<longleftrightarrow>
     0 < element_count b \<and> element_count b < 2 ^ 30 \<and> 0 < element_size b \<and>
     element_count b * element_size b < 2 ^ 64 \<and>
     length (buf_data b) = element_count b * element_size b \<and>
     read_pos b \<le> element_count b \<and> write_pos b \<le> element_count b \<and>
     (rw_wrap b = SAME_WRAP \<longrightarrow> read_pos b \<le> write_pos b) \<and>
     (rw_wrap b = DIFF_WRAP \<longrightarrow> write_pos b \<le> read_pos b)"

definition rb_used :: "ring_buffer \<Rightarrow> nat" where
  "rb_used b = (if rw_wrap b = SAME_WRAP then write_pos b - read_pos b
                else element_count b - read_pos b + write_pos b)"

definition rb_free :: "ring_buffer \<Rightarrow> nat" where
  "rb_free b = element_count b - rb_used b"

definition rb_contents :: "ring_buffer \<Rightarrow> byte list" where
  "rb_contents b =
     (let r = read_pos b * element_size b; w = write_pos b * element_size b
      in if rw_wrap b = SAME_WRAP then drop r (take w (buf_data b))
         else drop r (buf_data b) @ take w (buf_data b))"

lemma rb_invD:
  assumes "rb_inv b"
  shows "0 < element_count b" "element_count b < 2 ^ 30" "0 < element_size b"
    "element_count b * element_size b < 2 ^ 64"
    "length (buf_data b) = element_count b * element_size b"
    "read_pos b \<le> element_count b" "write_pos b \<le> element_count b"
    "rw_wrap b = SAME_WRAP \<Longrightarrow> read_pos b \<le> write_pos b"
    "rw_wrap b = DIFF_WRAP \<Longrightarrow> write_pos b \<le> read_pos b"
  using assms by (auto simp: rb_inv_def)

lemma wrap_cases: "(w = DIFF_WRAP) = (w \<noteq> SAME_WRAP)"
  by (cases w) auto

lemma rb_used_le: "rb_inv b \<Longrightarrow> rb_used b \<le> element_count b"
  using rb_invD [of b] by (cases "rw_wrap b") (auto simp: rb_used_def)

lemma umul_pos [cint]: "rb_inv b \<Longrightarrow> k \<le> element_count b \<Longrightarrow>
    umul k (element_size b) = k * element_size b"
  by (rule umul_id, rule le_less_trans [of _ "element_count b * element_size b"])
    (auto dest: rb_invD)

lemma pos_le_length: "rb_inv b \<Longrightarrow> k \<le> element_count b \<Longrightarrow>
    k * element_size b \<le> length (buf_data b)"
  by (simp add: rb_invD(5))

lemma available_read_used: "rb_inv b \<Longrightarrow> WebRtc_available_read (Some b) = rb_used b"
  using rb_invD [of b]
  by (cases "rw_wrap b") (auto simp: WebRtc_available_read.simps rb_used_def uadd_id usub_id)

lemma available_write_free: "rb_inv b \<Longrightarrow> WebRtc_available_write (Some b) = rb_free b"
  using rb_invD(2) [of b] rb_used_le [of b]
  by (simp add: WebRtc_available_write.simps available_read_used rb_free_def usub_id)

lemma length_rb_contents:
  assumes "rb_inv b"
  shows "length (rb_contents b) = rb_used b * element_size b"
proof -
  have w: "write_pos b * element_size b \<le> length (buf_data b)"
    using assms by (simp add: pos_le_length rb_invD)
  show ?thesis
    using rb_invD [OF assms] w
    by (cases "rw_wrap b")
      (simp_all add: rb_contents_def rb_used_def Let_def diff_mult_distrib add_mult_distrib)
qed

subsection \<open>What each operation does to the contents\<close>

text \<open>A position of the ring, in bytes, cuts the block as the same position in elements.\<close>

lemma mult_le_pos: "a \<le> c \<Longrightarrow> a * k \<le> c * (k::nat)"
  by (rule mult_le_mono1)

lemma init_buffer_inv:
  assumes "0 < element_count b" "element_count b < 2 ^ 30" "0 < element_size b"
    and "element_count b * element_size b < 2 ^ 64"
    and "length (buf_data b) = element_count b * element_size b"
  shows "rb_inv (WebRtc_InitBuffer b)" "rb_contents (WebRtc_InitBuffer b) = []"
  using assms
  by (simp_all add: rb_inv_def WebRtc_InitBuffer_def rb_contents_def umul_id length_mem_write)

lemma create_buffer_inv:
  assumes "WebRtc_CreateBuffer mok n k = Some b" and "n < 2 ^ 30" and "n * k < 2 ^ 64"
  shows "rb_inv b" "rb_contents b = []" "element_count b = n" "element_size b = k"
proof -
  define b0 where "b0 = \<lparr>read_pos = 0, write_pos = 0, element_count = n, element_size = k,
         rw_wrap = SAME_WRAP, buf_data = replicate (n * k) 0\<rparr>"
  have b: "b = WebRtc_InitBuffer b0" and "0 < n" "0 < k"
    using assms by (auto simp: WebRtc_CreateBuffer_def b0_def umul_id split: if_splits)
  show "rb_inv b" "rb_contents b = []"
    unfolding b using assms \<open>0 < n\<close> \<open>0 < k\<close>
    by (auto simp: b0_def intro!: init_buffer_inv)
  show "element_count b = n" "element_size b = k"
    by (simp_all add: b b0_def WebRtc_InitBuffer_def)
qed

lemma move_read_ptr_forward:
  assumes inv: "rb_inv b" and n: "0 \<le> n"
  defines "k \<equiv> min (rb_used b) (nat n)"
  obtains b' where "WebRtc_MoveReadPtr (Some b) n = (Some b', int k)" "rb_inv b'"
    "rb_used b' = rb_used b - k"
    "rb_contents b' = drop (k * element_size b) (rb_contents b)"
    "element_count b' = element_count b" "element_size b' = element_size b"
proof -
  note D = rb_invD [OF inv]
  have used: "rb_used b \<le> element_count b" using inv by (rule rb_used_le)
  have k: "k \<le> rb_used b" by (simp add: k_def)
  define r where "r = read_pos b + k"
  define over where "over = (element_count b < r)"
  define b' where "b' = b\<lparr>rw_wrap := (if over then SAME_WRAP else rw_wrap b),
      read_pos := (if over then r - element_count b else r)\<rparr>"
  have n1: "(if n > int (rb_used b) then int (rb_used b) else n) = int k"
    using n by (auto simp: k_def min_def)
  have r_le: "r \<le> 2 * element_count b" using D k used by (simp add: r_def)
  have over_diff: "over \<Longrightarrow> rw_wrap b = DIFF_WRAP"
    using D k by (cases "rw_wrap b") (simp_all add: over_def r_def rb_used_def)
  have over_le: "over \<Longrightarrow> r - element_count b \<le> write_pos b"
    using D k over_diff by (simp add: over_def r_def rb_used_def)
  have "WebRtc_MoveReadPtr (Some b) n = (Some b', int k)"
    using D used k r_le n1
    by (simp add: WebRtc_MoveReadPtr.simps Let_def available_read_used [OF inv] available_write_free [OF inv] rb_free_def
        int_of_size_id s32_id size_of_int_id b'_def over_def r_def nat_diff_distrib)
  moreover have "rb_inv b'"
    using D over_diff over_le k
    by (cases over; cases "rw_wrap b")
      (auto simp: b'_def rb_inv_def r_def over_def rb_used_def)
  moreover have "rb_used b' = rb_used b - k"
    using D over_diff over_le k
    by (cases over; cases "rw_wrap b") (auto simp: b'_def r_def over_def rb_used_def)
  moreover have "rb_contents b' = drop (k * element_size b) (rb_contents b)"
  proof (cases over)
    case True
    have "length (buf_data b) \<le> k * element_size b + read_pos b * element_size b"
      using True D(5) mult_le_pos [of "element_count b" r "element_size b"]
      by (simp add: over_def r_def add_mult_distrib add.commute)
    moreover have "(r - element_count b) * element_size b =
        k * element_size b - (length (buf_data b) - read_pos b * element_size b)"
      using True D(5,6) by (simp add: over_def r_def diff_mult_distrib add_mult_distrib)
    ultimately show ?thesis
      using True over_diff [OF True]
      by (simp add: b'_def rb_contents_def Let_def)
  next
    case False
    have "k * element_size b \<le> length (buf_data b) - read_pos b * element_size b"
      using False D(5) mult_le_pos [of r "element_count b" "element_size b"]
      by (simp add: over_def r_def add_mult_distrib)
    then show ?thesis
      using False
      by (simp add: b'_def rb_contents_def Let_def r_def add_mult_distrib add.commute)
  qed
  moreover have "element_count b' = element_count b" "element_size b' = element_size b"
    by (simp_all add: b'_def)
  ultimately show ?thesis by (rule that)
qed

text \<open>
  A negative offset moves the read position back over bytes that were read before ("stuffing"):
  it never makes more readable than the buffer holds, and the bytes that were readable stay
  readable, behind the recovered ones.
\<close>

lemma move_read_ptr_back:
  assumes inv: "rb_inv b" and n: "n < 0"
  defines "k \<equiv> min (rb_free b) (nat (- n))"
  obtains b' where "WebRtc_MoveReadPtr (Some b) n = (Some b', - int k)" "rb_inv b'"
    "rb_used b' = rb_used b + k"
    "drop (k * element_size b) (rb_contents b') = rb_contents b"
    "element_count b' = element_count b" "element_size b' = element_size b"
proof -
  note D = rb_invD [OF inv]
  have used: "rb_used b \<le> element_count b" using inv by (rule rb_used_le)
  have k: "k \<le> rb_free b" by (simp add: k_def)
  define under where "under = (read_pos b < k)"
  define r where "r = (if under then read_pos b + element_count b - k else read_pos b - k)"
  define b' where "b' = b\<lparr>rw_wrap := (if under then DIFF_WRAP else rw_wrap b), read_pos := r\<rparr>"
  have n1: "n < - int (rb_free b) \<and> k = rb_free b \<or> \<not> n < - int (rb_free b) \<and> n = - int k"
    using n by (auto simp: k_def min_def)
  have under_same: "under \<Longrightarrow> rw_wrap b = SAME_WRAP"
    using D k by (cases "rw_wrap b") (simp_all add: under_def rb_free_def rb_used_def)
  have under_ge: "under \<Longrightarrow> write_pos b \<le> r"
    using D k under_same by (simp add: under_def r_def rb_free_def rb_used_def)
  have kc: "k \<le> element_count b" using k by (simp add: rb_free_def)
  have free: "rb_free b \<le> element_count b" by (simp add: rb_free_def)
  have "WebRtc_MoveReadPtr (Some b) n = (Some b', - int k)"
    using n1 D used k kc n free
    by (elim disjE conjE)
      (simp_all add: WebRtc_MoveReadPtr.simps Let_def available_read_used [OF inv] available_write_free [OF inv]
        int_of_size_id s32_id size_of_int_id b'_def under_def r_def nat_diff_distrib nat_add_distrib)
  moreover have "rb_inv b'"
    using D under_same under_ge k kc
    by (cases under; cases "rw_wrap b") (auto simp: b'_def rb_inv_def r_def under_def rb_free_def rb_used_def)
  moreover have "rb_used b' = rb_used b + k"
    using D under_same under_ge k kc
    by (cases under; cases "rw_wrap b") (auto simp: b'_def r_def under_def rb_free_def rb_used_def)
  moreover have "drop (k * element_size b) (rb_contents b') = rb_contents b"
  proof (cases under)
    case True
    have e: "r * element_size b + k * element_size b =
        length (buf_data b) + read_pos b * element_size b"
      using True D(5) kc by (simp add: r_def add_mult_distrib [symmetric] add.commute)
    have "length (buf_data b) - r * element_size b \<le> k * element_size b"
      using e by simp
    moreover have "k * element_size b - (length (buf_data b) - r * element_size b) =
        read_pos b * element_size b"
      using e D(5) True kc mult_le_pos [of "read_pos b" k "element_size b"]
      by (simp add: r_def under_def diff_mult_distrib add_mult_distrib)
    ultimately show ?thesis
      using True under_same [OF True]
      by (simp add: b'_def rb_contents_def Let_def)
  next
    case False
    have e: "k * element_size b + r * element_size b = read_pos b * element_size b"
      using False by (simp add: r_def under_def add_mult_distrib [symmetric])
    have le: "k * element_size b \<le> length (buf_data b) - r * element_size b"
      using e pos_le_length [OF inv D(6)] by simp
    show ?thesis using False e le by (simp add: b'_def rb_contents_def Let_def add.commute)
  qed
  moreover have "element_count b' = element_count b" "element_size b' = element_size b"
    by (simp_all add: b'_def)
  ultimately show ?thesis by (rule that)
qed

text \<open>
  Reading copies (or points at) the first bytes of the contents and drops them; the number of
  elements read is the number asked for, bounded by what is readable.
\<close>

lemma read_regions:
  fixes b :: ring_buffer and n :: nat
  assumes inv: "rb_inv b"
  defines "k \<equiv> min (rb_used b) n"
  obtains p1 b1 p2 b2 where "GetBufferReadRegions b n = (k, (p1, b1), (p2, b2))"
    "p1 + b1 \<le> length (buf_data b)" "b1 + b2 = k * element_size b"
    "0 < b2 \<Longrightarrow> p2 = Some 0" "b2 \<le> length (buf_data b)"
    "take (k * element_size b) (rb_contents b) =
       mem_read (buf_data b) p1 b1 @ mem_read (buf_data b) 0 b2"
proof -
  note D = rb_invD [OF inv]
  let ?s = "element_size b" and ?m = "element_count b - read_pos b"
  have used: "rb_used b \<le> element_count b" using inv by (rule rb_used_le)
  have k: "k \<le> rb_used b" "k \<le> element_count b" using used by (simp_all add: k_def)
  have m: "usub (element_count b) (read_pos b) = ?m" using D by (simp add: usub_id)
  have kk: "(if rb_used b < n then rb_used b else n) = k" by (simp add: k_def)
  have p: "umul (read_pos b) ?s = read_pos b * ?s" "umul k ?s = k * ?s"
      "umul ?m ?s = ?m * ?s" "umul (k - ?m) ?s = (k - ?m) * ?s"
    using inv D(6) k by (simp_all add: umul_pos)
  have tail: "read_pos b * ?s + ?m * ?s = length (buf_data b)"
    using D(5,6) by (simp add: add_mult_distrib [symmetric])
  show ?thesis
  proof (cases "?m < k")
    case True
    have diff: "rw_wrap b = DIFF_WRAP"
      using True k D by (cases "rw_wrap b") (simp_all add: rb_used_def)
    have w: "k - ?m \<le> write_pos b" using diff k D by (simp add: rb_used_def)
    have u: "usub k ?m = k - ?m" using True k(2) D(2) by (simp add: usub_id)
    have split: "k * ?s = ?m * ?s + (k - ?m) * ?s"
      using True by (simp add: add_mult_distrib [symmetric])
    have le: "(k - ?m) * ?s \<le> write_pos b * ?s" using w by (rule mult_le_pos)
    have "GetBufferReadRegions b n =
        (k, (read_pos b * ?s, ?m * ?s), (Some 0, (k - ?m) * ?s))"
      using True by (simp add: GetBufferReadRegions_def available_read_used [OF inv] kk m u p Let_def)
    moreover have "take (k * ?s) (rb_contents b) =
        mem_read (buf_data b) (read_pos b * ?s) (?m * ?s) @ mem_read (buf_data b) 0 ((k - ?m) * ?s)"
      using diff take_wrapped [OF tail le] unfolding split by (simp add: rb_contents_def Let_def)
    moreover have "(k - ?m) * ?s \<le> length (buf_data b)"
      using inv k(2) by (intro pos_le_length) simp_all
    ultimately show ?thesis using tail split by (intro that) simp_all
  next
    case False
    have bound: "read_pos b * ?s + k * ?s \<le> length (buf_data b)"
      using False D(5,6) mult_le_pos [of "read_pos b + k" "element_count b" ?s]
      by (simp add: add_mult_distrib)
    have "GetBufferReadRegions b n = (k, (read_pos b * ?s, k * ?s), (None, 0))"
      using False by (simp add: GetBufferReadRegions_def available_read_used [OF inv] kk m p Let_def)
    moreover have "take (k * ?s) (rb_contents b) =
        mem_read (buf_data b) (read_pos b * ?s) (k * ?s) @ mem_read (buf_data b) 0 0"
    proof (cases "rw_wrap b")
      case SAME_WRAP
      have "k * ?s + read_pos b * ?s \<le> write_pos b * ?s"
        using SAME_WRAP k D mult_le_pos [of "k + read_pos b" "write_pos b" ?s]
        by (simp add: rb_used_def add_mult_distrib)
      then show ?thesis
        using SAME_WRAP by (simp add: rb_contents_def mem_read_def Let_def drop_take)
    next
      case DIFF_WRAP
      then show ?thesis using bound by (simp add: rb_contents_def mem_read_def Let_def)
    qed
    ultimately show ?thesis
      using bound by (intro that [of "read_pos b * ?s" "k * ?s" None 0]) simp_all
  qed
qed

lemma read_buffer:
  fixes b :: ring_buffer and n :: nat
  assumes inv: "rb_inv b"
  defines "k \<equiv> min (rb_used b) n"
  assumes room: "k * element_size b \<le> length out"
  obtains b' where
    "WebRtc_ReadBuffer (Some b) False (Some out) n =
       (Some b', Some (mem_write out 0 (take (k * element_size b) (rb_contents b))), NullPtr, k)"
    "rb_inv b'" "rb_contents b' = drop (k * element_size b) (rb_contents b)"
    "rb_used b' = rb_used b - k"
    "element_count b' = element_count b" "element_size b' = element_size b"
proof -
  obtain p1 b1 p2 b2 where R: "GetBufferReadRegions b n = (k, (p1, b1), (p2, b2))"
    and in1: "p1 + b1 \<le> length (buf_data b)" and len: "b1 + b2 = k * element_size b"
    and p2: "0 < b2 \<Longrightarrow> p2 = Some 0" and in2: "b2 \<le> length (buf_data b)"
    and bytes: "take (k * element_size b) (rb_contents b) =
       mem_read (buf_data b) p1 b1 @ mem_read (buf_data b) 0 b2"
    using read_regions [OF inv, of n] unfolding k_def by blast
  have kc: "k \<le> rb_used b" "k < 2 ^ 31"
    using rb_used_le [OF inv] rb_invD(2) [OF inv] by (simp_all add: k_def)
  have mk: "min (rb_used b) (nat (int k)) = k" using kc(1) by simp
  obtain b' where b': "WebRtc_MoveReadPtr (Some b) (int k) = (Some b', int k)" "rb_inv b'"
    "rb_used b' = rb_used b - k" "rb_contents b' = drop (k * element_size b) (rb_contents b)"
    "element_count b' = element_count b" "element_size b' = element_size b"
    using move_read_ptr_forward [OF inv of_nat_0_le_iff, of k] unfolding mk by blast
  have "ReadCopy b False out n = mem_write out 0 (take (k * element_size b) (rb_contents b))"
  proof (cases "0 < b2")
    case True
    have "mem_write (mem_write out 0 (mem_read (buf_data b) p1 b1)) b1 (mem_read (buf_data b) 0 b2)
        = mem_write out 0 (mem_read (buf_data b) p1 b1 @ mem_read (buf_data b) 0 b2)"
      using in1 in2 len room by (intro mem_write_append) (simp_all add: length_mem_read)
    with True p2 show ?thesis by (simp add: ReadCopy_def R bytes)
  next
    case False
    then show ?thesis by (simp add: ReadCopy_def R bytes)
  qed
  with b' R kc(2) show ?thesis
    by (intro that [of b'])
      (simp_all add: WebRtc_ReadBuffer.simps Let_def int_of_size_id ReadPointer_def)
qed

text \<open>
  Writing appends: the number of elements written is the number offered, bounded by the free
  room, and exactly these bytes are appended to the contents. The write never leaves the block.
\<close>

lemma write_buffer_nowrap:
  assumes inv: "rb_inv b" and k: "k \<le> rb_free b" "k \<le> element_count b - write_pos b"
    and src: "length src = k * element_size b"
  defines "b' \<equiv> b\<lparr>buf_data := mem_write (buf_data b) (write_pos b * element_size b) src,
                  write_pos := write_pos b + k\<rparr>"
  shows "rb_inv b'" "rb_contents b' = rb_contents b @ src" "rb_used b' = rb_used b + k"
proof -
  note D = rb_invD [OF inv]
  let ?s = "element_size b"
  have le: "write_pos b * ?s + k * ?s \<le> length (buf_data b)"
    using k(2) D(5,7) mult_le_pos [of "write_pos b + k" "element_count b" ?s]
    by (simp add: add_mult_distrib)
  have data: "take ((write_pos b + k) * ?s) (buf_data b') = take (write_pos b * ?s) (buf_data b) @ src"
    using le src by (simp add: b'_def take_mem_write_through add_mult_distrib)
  show "rb_inv b'"
    using D k le src
    by (cases "rw_wrap b") (auto simp: rb_inv_def b'_def length_mem_write rb_free_def rb_used_def)
  show "rb_used b' = rb_used b + k"
    using D k by (cases "rw_wrap b") (auto simp: b'_def rb_free_def rb_used_def)
  show "rb_contents b' = rb_contents b @ src"
  proof (cases "rw_wrap b")
    case SAME_WRAP
    then show ?thesis
      using data D(8) mult_le_pos [of "read_pos b" "write_pos b" ?s] le
      by (simp add: rb_contents_def Let_def b'_def)
  next
    case DIFF_WRAP
    have "write_pos b * ?s + k * ?s \<le> read_pos b * ?s"
      using DIFF_WRAP D k mult_le_pos [of "write_pos b + k" "read_pos b" ?s]
      by (simp add: rb_free_def rb_used_def add_mult_distrib)
    then show ?thesis
      using DIFF_WRAP data le src
      by (simp add: rb_contents_def Let_def b'_def drop_mem_write_after)
  qed
qed

lemma write_buffer_wrap:
  assumes inv: "rb_inv b" and k: "k \<le> rb_free b" "element_count b - write_pos b < k"
    and src: "length src = k * element_size b"
  defines "m \<equiv> element_count b - write_pos b"
  defines "b' \<equiv> b\<lparr>buf_data := mem_write (mem_write (buf_data b) (write_pos b * element_size b)
                      (mem_read src 0 (m * element_size b))) 0
                      (mem_read src (m * element_size b) ((k - m) * element_size b)),
                  write_pos := k - m, rw_wrap := DIFF_WRAP\<rparr>"
  shows "rb_inv b'" "rb_contents b' = rb_contents b @ src" "rb_used b' = rb_used b + k"
proof -
  note D = rb_invD [OF inv]
  let ?s = "element_size b" and ?r = "read_pos b" and ?w = "write_pos b"
  have same: "rw_wrap b = SAME_WRAP"
    using D k by (cases "rw_wrap b") (simp_all add: rb_free_def rb_used_def)
  have rw: "?r \<le> ?w" using same D by simp
  have mk: "m < k" using k by (simp add: m_def)
  have km: "k - m \<le> ?r" using same D k by (simp add: m_def rb_free_def rb_used_def)
  have split: "k * ?s = m * ?s + (k - m) * ?s" using mk by (simp add: add_mult_distrib [symmetric])
  have tail: "?w * ?s + m * ?s = length (buf_data b)"
    using D(5,7) by (simp add: m_def add_mult_distrib [symmetric])
  have le: "(k - m) * ?s \<le> ?r * ?s" "?r * ?s \<le> ?w * ?s"
    using km rw by (simp_all add: mult_le_pos)
  define d1 where "d1 = mem_write (buf_data b) (?w * ?s) (mem_read src 0 (m * ?s))"
  have l1: "length (mem_read src 0 (m * ?s)) = m * ?s"
    "length (mem_read src (m * ?s) ((k - m) * ?s)) = (k - m) * ?s"
    using src split by (simp_all add: length_mem_read)
  have len1: "length d1 = length (buf_data b)"
    using tail l1 by (simp add: d1_def length_mem_write)
  have b': "buf_data b' = mem_write d1 0 (mem_read src (m * ?s) ((k - m) * ?s))"
    by (simp add: b'_def d1_def)
  have len: "length (buf_data b') = length (buf_data b)"
  proof -
    have "(k - m) * ?s \<le> length (buf_data b)" using le tail by linarith
    then show ?thesis unfolding b' by (subst length_mem_write) (simp_all only: l1 len1)
  qed
  show "rb_inv b'"
    using D km rw len by (auto simp: rb_inv_def b'_def)
  show "rb_used b' = rb_used b + k"
    using same D k km mk rw by (auto simp: b'_def rb_used_def m_def)
  have "drop (?r * ?s) (buf_data b') = drop (?r * ?s) (take (?w * ?s) (buf_data b)) @ mem_read src 0 (m * ?s)"
    using le l1 tail
    by (simp add: b' drop_mem_write_after d1_def drop_mem_write_before drop_take)
  moreover have "take ((k - m) * ?s) (buf_data b') = mem_read src (m * ?s) ((k - m) * ?s)"
    using l1 by (simp add: b' take_mem_write_through)
  moreover have "mem_read src 0 (m * ?s) @ mem_read src (m * ?s) ((k - m) * ?s) = src"
    using src by (simp add: mem_read_join split [symmetric] flip: src)
  ultimately show "rb_contents b' = rb_contents b @ src"
    using same by (simp add: rb_contents_def Let_def b'_def)
qed

lemma write_buffer:
  fixes b :: ring_buffer and n :: nat
  assumes inv: "rb_inv b"
  defines "k \<equiv> min (rb_free b) n"
  assumes src: "k * element_size b \<le> length src"
  obtains b' where "WebRtc_WriteBuffer (Some b) (Some src) n = (Some b', k)"
    "rb_inv b'" "rb_contents b' = rb_contents b @ take (k * element_size b) src"
    "rb_used b' = rb_used b + k"
    "element_count b' = element_count b" "element_size b' = element_size b"
proof -
  note D = rb_invD [OF inv]
  let ?s = "element_size b" and ?m = "element_count b - write_pos b"
  let ?src = "take (k * ?s) src"
  have kf: "k \<le> rb_free b" "k \<le> element_count b" by (simp_all add: k_def rb_free_def)
  have kk: "(if rb_free b < n then rb_free b else n) = k" by (simp add: k_def)
  have m: "usub (element_count b) (write_pos b) = ?m" using D by (simp add: usub_id)
  have len: "length ?src = k * ?s" using src by simp
  have u: "umul (write_pos b) ?s = write_pos b * ?s" "umul k ?s = k * ?s"
      "umul ?m ?s = ?m * ?s" "umul (k - ?m) ?s = (k - ?m) * ?s" "umul 0 ?s = 0"
    using inv D kf by (simp_all add: umul_pos)
  show ?thesis
  proof (cases "?m < k")
    case True
    have u2: "usub k ?m = k - ?m" "usub k (k - ?m) = ?m" "uadd 0 (k - ?m) = k - ?m"
      using True kf D(2) by (simp_all add: usub_id uadd_id)
    have cut: "mem_read src 0 (?m * ?s) = mem_read ?src 0 (?m * ?s)"
      "mem_read src (?m * ?s) ((k - ?m) * ?s) = mem_read ?src (?m * ?s) ((k - ?m) * ?s)"
      using True mult_le_pos [of ?m k ?s]
      by (simp_all add: mem_read_def drop_take min_def diff_mult_distrib)
    show ?thesis
      by (rule that [OF _ write_buffer_wrap [OF inv kf(1) True len]])
        (use True in \<open>simp_all add: WebRtc_WriteBuffer.simps available_write_free [OF inv] Let_def
          kk m u u2 cut\<close>)
  next
    case False
    have u2: "usub k k = 0" "uadd (write_pos b) k = write_pos b + k"
      using False kf D by (simp_all add: uadd_id)
    have le: "k \<le> ?m" using False by simp
    show ?thesis
      by (rule that [OF _ write_buffer_nowrap [OF inv kf(1) le len]])
        (use False in \<open>simp_all add: WebRtc_WriteBuffer.simps available_write_free [OF inv] Let_def
          kk m u u2 mem_read_def\<close>)
  qed
qed

subsection \<open>The byte ring is a bounded queue\<close>

text \<open>The program creates every ring with element size 1.\<close>

definition byte_ring :: "ring_buffer \<Rightarrow> bool" where
  "byte_ring b \<longleftrightarrow> rb_inv b \<and> element_size b = 1"

definition rb_push :: "ring_buffer \<Rightarrow> byte list \<Rightarrow> ring_buffer \<times> nat" where
  "rb_push b xs = (case WebRtc_WriteBuffer (Some b) (Some xs) (length xs) of (h, k) \<Rightarrow> (the h, k))"

definition rb_pop :: "ring_buffer \<Rightarrow> nat \<Rightarrow> ring_buffer \<times> byte list" where
  "rb_pop b n =
     (case WebRtc_ReadBuffer (Some b) False (Some (replicate n 0)) n of (h, out, p, k) \<Rightarrow>
        (the h, take k (the out)))"

lemma byte_ring_length: "byte_ring b \<Longrightarrow> length (rb_contents b) = rb_used b"
  by (simp add: byte_ring_def length_rb_contents)

lemma byte_ring_write:
  assumes b: "byte_ring b" and n: "min (rb_free b) n \<le> length src"
  obtains b' where "WebRtc_WriteBuffer (Some b) (Some src) n = (Some b', min (rb_free b) n)"
    "byte_ring b'" "rb_contents b' = rb_contents b @ take (min (rb_free b) n) src"
    "element_count b' = element_count b"
proof -
  have inv: "rb_inv b" and es: "element_size b = 1" using b by (simp_all add: byte_ring_def)
  have "min (rb_free b) n * element_size b \<le> length src" using es n by simp
  from write_buffer [OF inv this] obtain b' where
    "WebRtc_WriteBuffer (Some b) (Some src) n = (Some b', min (rb_free b) n)" "rb_inv b'"
    "rb_contents b' = rb_contents b @ take (min (rb_free b) n * element_size b) src"
    "element_count b' = element_count b" "element_size b' = element_size b"
    by blast
  then show ?thesis using es by (intro that [of b']) (simp_all add: byte_ring_def)
qed

lemma byte_ring_discard:
  assumes b: "byte_ring b" and n: "0 \<le> n"
  obtains b' where "WebRtc_MoveReadPtr (Some b) n = (Some b', int (min (rb_used b) (nat n)))"
    "byte_ring b'" "rb_contents b' = drop (nat n) (rb_contents b)"
    "element_count b' = element_count b" "rb_used b' = rb_used b - nat n"
proof -
  have inv: "rb_inv b" and es: "element_size b = 1" using b by (simp_all add: byte_ring_def)
  have cut: "drop (min (rb_used b) (nat n)) (rb_contents b) = drop (nat n) (rb_contents b)"
    using byte_ring_length [OF b] by (simp add: min_def)
  from move_read_ptr_forward [OF inv n] obtain b' where
    "WebRtc_MoveReadPtr (Some b) n = (Some b', int (min (rb_used b) (nat n)))" "rb_inv b'"
    "rb_used b' = rb_used b - min (rb_used b) (nat n)"
    "rb_contents b' = drop (min (rb_used b) (nat n) * element_size b) (rb_contents b)"
    "element_count b' = element_count b" "element_size b' = element_size b"
    by blast
  then show ?thesis using es cut by (intro that [of b']) (simp_all add: byte_ring_def)
qed

lemma byte_ring_create:
  assumes "0 < n" and "n < 2 ^ 30"
  obtains b where "WebRtc_CreateBuffer (\<lambda>_. True) n 1 = Some b" "byte_ring b"
    "rb_contents b = []" "element_count b = n" "rb_used b = 0"
proof -
  obtain b where b: "WebRtc_CreateBuffer (\<lambda>_. True) n 1 = Some b"
    using assms by (simp add: WebRtc_CreateBuffer_def)
  then have "rb_used b = 0" using assms
    by (auto simp: WebRtc_CreateBuffer_def WebRtc_InitBuffer_def rb_used_def)
  with b show ?thesis
    using create_buffer_inv [OF b assms(2)] assms by (intro that) (simp_all add: byte_ring_def)
qed

lemma rb_push_law:
  assumes b: "byte_ring b" and p: "rb_push b xs = (b', k)"
  shows "byte_ring b' \<and> element_count b' = element_count b \<and>
      k = min (element_count b - length (rb_contents b)) (length xs) \<and>
      rb_contents b' = rb_contents b @ take k xs"
proof -
  let ?k = "min (rb_free b) (length xs)"
  have inv: "rb_inv b" and es: "element_size b = 1" using b by (simp_all add: byte_ring_def)
  have "?k * element_size b \<le> length xs" using es by simp
  from write_buffer [OF inv this]
  obtain b1 where "WebRtc_WriteBuffer (Some b) (Some xs) (length xs) = (Some b1, ?k)"
    "rb_inv b1" "rb_contents b1 = rb_contents b @ take (?k * element_size b) xs"
    "element_count b1 = element_count b" "element_size b1 = element_size b"
    by blast
  then show ?thesis
    using p es byte_ring_length [OF b] by (auto simp: rb_push_def byte_ring_def rb_free_def)
qed

lemma rb_pop_law:
  assumes b: "byte_ring b" and p: "rb_pop b n = (b', ys)"
  shows "byte_ring b' \<and> element_count b' = element_count b \<and>
      ys = take n (rb_contents b) \<and> rb_contents b' = drop n (rb_contents b)"
proof -
  let ?k = "min (rb_used b) n" and ?out = "replicate n (0 :: byte)"
  have inv: "rb_inv b" and es: "element_size b = 1" using b by (simp_all add: byte_ring_def)
  have "?k * element_size b \<le> length ?out" using es by simp
  from read_buffer [OF inv this]
  obtain b1 where R: "WebRtc_ReadBuffer (Some b) False (Some ?out) n =
       (Some b1, Some (mem_write ?out 0 (take (?k * element_size b) (rb_contents b))), NullPtr, ?k)"
    and b1: "rb_inv b1" "rb_contents b1 = drop (?k * element_size b) (rb_contents b)"
    "element_count b1 = element_count b" "element_size b1 = element_size b"
    by blast
  have len: "length (rb_contents b) = rb_used b" using b by (rule byte_ring_length)
  have cut: "take ?k (rb_contents b) = take n (rb_contents b)"
    "drop ?k (rb_contents b) = drop n (rb_contents b)"
    using len by (auto simp: min_def)
  have "b' = b1" "ys = take n (rb_contents b)"
    using p R es len by (auto simp: rb_pop_def mem_write_def min_def)
  then show ?thesis using b1 es cut by (simp add: byte_ring_def)
qed

interpretation ring: byte_queue byte_ring rb_contents element_count rb_pop rb_push
proof unfold_locales
  fix b b' :: ring_buffer and n :: nat and xs ys :: "byte list" and k :: nat
  assume b: "byte_ring b"
  then show "length (rb_contents b) \<le> element_count b"
    by (simp add: byte_ring_length rb_used_le byte_ring_def)
  show "byte_ring b' \<and> element_count b' = element_count b \<and>
      ys = take n (rb_contents b) \<and> rb_contents b' = drop n (rb_contents b)"
    if "rb_pop b n = (b', ys)" using that by (rule rb_pop_law [OF b])
  show "byte_ring b' \<and> element_count b' = element_count b \<and>
      k = min (element_count b - length (rb_contents b)) (length xs) \<and>
      rb_contents b' = rb_contents b @ take k xs"
    if "rb_push b xs = (b', k)" using that by (rule rb_push_law [OF b])
qed

subsection \<open>Properties\<close>

text \<open>Two small buffers for the concrete instances: contiguous contents, and contents that wrap.\<close>

definition ring_same :: ring_buffer where
  "ring_same = \<lparr>read_pos = 1, write_pos = 3, element_count = 4, element_size = 1,
                rw_wrap = SAME_WRAP, buf_data = [10, 20, 30, 40]\<rparr>"

definition ring_diff :: ring_buffer where
  "ring_diff = \<lparr>read_pos = 3, write_pos = 2, element_count = 4, element_size = 1,
                rw_wrap = DIFF_WRAP, buf_data = [10, 20, 30, 40]\<rparr>"

lemma ring_samples: "rb_inv ring_same" "rb_inv ring_diff"
  "rb_contents ring_same = [20, 30]" "rb_contents ring_diff = [40, 10, 20]"
  "rb_free ring_same = 2" "rb_used ring_same = 2" "rb_free ring_diff = 1" "rb_used ring_diff = 3"
  "element_size ring_same = 1" "element_size ring_diff = 1"
  by (simp_all add: ring_same_def ring_diff_def rb_inv_def rb_contents_def rb_free_def rb_used_def)

text \<open>
  C1: \<open>WebRtc_WriteBuffer\<close> on a well-formed buffer of any element size returns the number of
  elements that fit, appends exactly these elements to the readable contents, keeps the
  invariant and copies only inside the block.
\<close>

theorem ring_write_appends:
  assumes "rb_inv b" and "n * element_size b \<le> length src"
  shows "\<exists>b'. WebRtc_WriteBuffer (Some b) (Some src) n = (Some b', min (rb_free b) n) \<and>
     rb_inv b' \<and> length (buf_data b') = length (buf_data b) \<and>
     rb_contents b' = rb_contents b @ take (min (rb_free b) n * element_size b) src"
proof -
  have "min (rb_free b) n * element_size b \<le> length src"
    using assms(2) mult_le_pos [of "min (rb_free b) n" n "element_size b"] by linarith
  from write_buffer [OF assms(1) this]
  obtain b' where "WebRtc_WriteBuffer (Some b) (Some src) n = (Some b', min (rb_free b) n)"
    "rb_inv b'" "rb_contents b' = rb_contents b @ take (min (rb_free b) n * element_size b) src"
    "element_count b' = element_count b" "element_size b' = element_size b"
    by blast
  then show ?thesis using assms(1) by (auto simp: rb_invD(5))
qed

theorem ring_write_appends_witness:
  "\<exists>b'. WebRtc_WriteBuffer (Some ring_same) (Some [50, 60, 70]) 3 = (Some b', 2) \<and>
       rb_contents b' = [20, 30, 50, 60]"
proof -
  have "3 * element_size ring_same \<le> length [50 :: byte, 60, 70]" by (simp add: ring_samples)
  from ring_write_appends [OF ring_samples(1) this] show ?thesis by (auto simp: ring_samples)
qed

text \<open>
  C2: \<open>WebRtc_ReadBuffer\<close> with a copy requested returns the oldest elements, at most as many as
  are readable, in the order they were written, writes nothing else into the caller's block,
  and leaves exactly the remaining elements readable.
\<close>

theorem ring_read_front:
  assumes "rb_inv b" and "n * element_size b \<le> length out"
  shows "\<exists>b'. WebRtc_ReadBuffer (Some b) False (Some out) n =
       (Some b', Some (take (n * element_size b) (rb_contents b) @
                       drop (min (rb_used b) n * element_size b) out), NullPtr, min (rb_used b) n) \<and>
     rb_inv b' \<and> rb_contents b' = drop (n * element_size b) (rb_contents b)"
proof -
  let ?k = "min (rb_used b) n"
  have "?k * element_size b \<le> length out"
    using assms(2) mult_le_pos [of ?k n "element_size b"] by linarith
  from read_buffer [OF assms(1) this]
  obtain b' where R: "WebRtc_ReadBuffer (Some b) False (Some out) n =
      (Some b', Some (mem_write out 0 (take (?k * element_size b) (rb_contents b))), NullPtr, ?k)"
    "rb_inv b'" "rb_contents b' = drop (?k * element_size b) (rb_contents b)"
    by blast
  have k: "?k * element_size b = min (length (rb_contents b)) (n * element_size b)"
    using length_rb_contents [OF assms(1)] by (simp add: min_def)
  have "take (?k * element_size b) (rb_contents b) = take (n * element_size b) (rb_contents b)"
    "drop (?k * element_size b) (rb_contents b) = drop (n * element_size b) (rb_contents b)"
    unfolding k by (auto simp: min_def)
  moreover have "length (take (n * element_size b) (rb_contents b)) = ?k * element_size b"
    unfolding k by simp
  ultimately show ?thesis using R by (simp add: mem_write_def)
qed

theorem ring_read_front_witness:
  "\<exists>b'. WebRtc_ReadBuffer (Some ring_diff) False (Some [0, 0, 9]) 2 =
         (Some b', Some [40, 10, 9], NullPtr, 2) \<and> rb_contents b' = [20]"
proof -
  have "2 * element_size ring_diff \<le> length [0 :: byte, 0, 9]" by (simp add: ring_samples)
  from ring_read_front [OF ring_samples(2) this] show ?thesis
    by (auto simp: ring_samples numeral_2_eq_2)
qed

text \<open>
  \<open>WebRtc_MoveReadPtr\<close> moves forward over at most the readable elements (discarding the
  oldest) and backward over at most the free ones, where the elements that were readable stay
  readable behind the recovered ones; it reports the distance moved.
\<close>

theorem ring_move_read_ptr:
  assumes "rb_inv b"
  shows "\<exists>b'. WebRtc_MoveReadPtr (Some b) n =
       (Some b', max (- int (rb_free b)) (min (int (rb_used b)) n)) \<and> rb_inv b' \<and>
     int (rb_used b') = int (rb_used b) - max (- int (rb_free b)) (min (int (rb_used b)) n) \<and>
     (if 0 \<le> n then rb_contents b' = drop (nat n * element_size b) (rb_contents b)
      else rb_contents b = drop (min (rb_free b) (nat (- n)) * element_size b) (rb_contents b'))"
proof (cases "0 \<le> n")
  case True
  let ?k = "min (rb_used b) (nat n)"
  obtain b' where M: "WebRtc_MoveReadPtr (Some b) n = (Some b', int ?k)" "rb_inv b'"
    "rb_used b' = rb_used b - ?k" "rb_contents b' = drop (?k * element_size b) (rb_contents b)"
    using move_read_ptr_forward [OF assms True] by blast
  have "drop (?k * element_size b) (rb_contents b) = drop (nat n * element_size b) (rb_contents b)"
    using length_rb_contents [OF assms] by (auto simp: min_def)
  moreover have "max (- int (rb_free b)) (min (int (rb_used b)) n) = int ?k"
    using True by (auto simp: min_def max_def)
  ultimately show ?thesis using M True by simp
next
  case False
  let ?k = "min (rb_free b) (nat (- n))"
  obtain b' where M: "WebRtc_MoveReadPtr (Some b) n = (Some b', - int ?k)" "rb_inv b'"
    "rb_used b' = rb_used b + ?k" "drop (?k * element_size b) (rb_contents b') = rb_contents b"
    using move_read_ptr_back [OF assms, of n] False by force
  moreover have "max (- int (rb_free b)) (min (int (rb_used b)) n) = - int ?k"
    using False by (auto simp: min_def max_def)
  ultimately show ?thesis using False by simp
qed

theorem ring_move_read_ptr_witness:
  "\<exists>b'. WebRtc_MoveReadPtr (Some ring_same) (- 5) = (Some b', - 2) \<and> rb_inv b'"
  using ring_move_read_ptr [OF ring_samples(1), of "- 5"] by (simp add: ring_samples) blast

text \<open>
  C3: over any sequence of writes and reads on a fresh byte ring, the bytes that come out are,
  in order, the first of the bytes that were accepted, and the rest is still in the ring.
\<close>

theorem ring_run_fifo:
  assumes "WebRtc_CreateBuffer mok n 1 = Some b" and "n < 2 ^ 30"
    and "queue_run rb_push rb_pop b ops = (b', ins, outs)"
  shows "outs @ rb_contents b' = ins \<and> length (rb_contents b') \<le> n"
proof -
  have b: "byte_ring b" "rb_contents b = []" "element_count b = n"
    using create_buffer_inv [OF assms(1,2)] assms(2) by (simp_all add: byte_ring_def)
  from ring.run_conserves [OF b(1) assms(3)] b
  show ?thesis using ring.bounded [of b'] by simp
qed

theorem ring_run_fifo_witness:
  "case WebRtc_CreateBuffer (\<lambda>_. True) 4 1 of None \<Rightarrow> False | Some b \<Rightarrow>
     (case queue_run rb_push rb_pop b [Push [1, 2, 3], Pop 2, Push [4, 5, 6, 7], Pop 3] of
        (b', ins, outs) \<Rightarrow> outs @ rb_contents b' = ins)"
proof -
  obtain b where b: "WebRtc_CreateBuffer (\<lambda>_. True) 4 1 = Some b"
    by (simp add: WebRtc_CreateBuffer_def)
  obtain b' ins outs where
    r: "queue_run rb_push rb_pop b [Push [1, 2, 3], Pop 2, Push [4, 5, 6, 7], Pop 3] = (b', ins, outs)"
    by (metis prod_cases3)
  have "outs @ rb_contents b' = ins" using ring_run_fifo [OF b _ r] by simp
  with b r show ?thesis by simp
qed

end
