(* ===== verification/RingBufferWrapper.thy ===== *)
theory RingBufferWrapper
  imports RingBuffer
begin

text \<open>
  \<open>src/src/util/ring_buffer_wrapper.cc\<close> (namespace \<open>core\<close>): the byte queue of the audio code on
  top of the C ring buffer. In expanding mode a full buffer is copied into a larger one, up to
  a maximum; otherwise the oldest bytes make room for the new ones.

  Results are \<open>option\<close> values where a call may fail to complete: \<open>None\<close> is an endless loop or a
  dereference of \<open>NULL\<close>. Memory allocation is taken to succeed.
\<close>

definition kMaxBufferSize :: nat where
  "kMaxBufferSize = 50 * 1024 * 1024"

definition kExponentialGrowthThreshold :: nat where
  "kExponentialGrowthThreshold = 1024 * 10"

record ring_buffer_wrapper =
  buff_handle :: "ring_buffer option"
  auto_adjust_capacity :: bool
  max_buffer_capacity :: nat

abbreviation create_byte_ring :: "nat \<Rightarrow> ring_buffer option" where
  "create_byte_ring n \<equiv> WebRtc_CreateBuffer (\<lambda>_. True) n 1"

definition RingBufferWrapper_new :: "nat \<Rightarrow> bool \<Rightarrow> nat \<Rightarrow> ring_buffer_wrapper" where
  "RingBufferWrapper_new capacity auto_adjust max_capacity =
     \<lparr>buff_handle = create_byte_ring capacity, auto_adjust_capacity = auto_adjust,
      max_buffer_capacity =
        (if max_capacity < kMaxBufferSize then max_capacity else kMaxBufferSize)\<rparr>"

subsection \<open>Queries, reads and seeks\<close>

definition BufferCurrentSize :: "ring_buffer_wrapper \<Rightarrow> nat" where
  "BufferCurrentSize w = WebRtc_available_read (buff_handle w)"

definition BufferCapacity :: "ring_buffer_wrapper \<Rightarrow> nat" where
  "BufferCapacity w =
     (case buff_handle w of None \<Rightarrow> 0 | Some b \<Rightarrow> umul (element_count b) (element_size b))"

definition BufferSeek :: "ring_buffer_wrapper \<Rightarrow> int \<Rightarrow> ring_buffer_wrapper \<times> int" where
  "BufferSeek w offset =
     (case buff_handle w of None \<Rightarrow> (w, 0)
      | Some b \<Rightarrow> (case WebRtc_MoveReadPtr (Some b) offset of (h, k) \<Rightarrow> (w\<lparr>buff_handle := h\<rparr>, k)))"

definition BufferRead :: "ring_buffer_wrapper \<Rightarrow> byte list option \<Rightarrow> nat \<Rightarrow>
    ring_buffer_wrapper \<times> byte list option \<times> nat" where
  "BufferRead w data n =
     (case WebRtc_ReadBuffer (buff_handle w) False data n of (h, data', p, k) \<Rightarrow>
        (w\<lparr>buff_handle := h\<rparr>, data', k))"

text \<open>
  The overload that returns a pointer; \<open>has_out\<close> says that \<open>out_size\<close> is not \<open>NULL\<close>. The last
  component is \<open>*out_size\<close>, \<open>None\<close> where it is not written.
\<close>

definition BufferReadPtr :: "ring_buffer_wrapper \<Rightarrow> byte list option \<Rightarrow> nat \<Rightarrow> bool \<Rightarrow>
    ring_buffer_wrapper \<times> byte list option \<times> data_pointer \<times> nat option" where
  "BufferReadPtr w data in_size has_out =
     (if data = None \<or> \<not> has_out then (w, data, NullPtr, None)
      else (case WebRtc_ReadBuffer (buff_handle w) True data in_size of (h, data', p, k) \<Rightarrow>
        (w\<lparr>buff_handle := h\<rparr>, data', p, Some k)))"

text \<open>\<open>WebRtc_InitBuffer\<close> dereferences its argument.\<close>

definition Clear :: "ring_buffer_wrapper \<Rightarrow> ring_buffer_wrapper option" where
  "Clear w = (case buff_handle w of None \<Rightarrow> None
              | Some b \<Rightarrow> Some (w\<lparr>buff_handle := Some (WebRtc_InitBuffer b)\<rparr>))"

subsection \<open>Growing\<close>

text \<open>The loop of \<open>CalculatedExpansionCapacity\<close>; \<open>None\<close> is a loop that does not end.\<close>

partial_function (option) expansion_loop :: "nat \<Rightarrow> nat \<Rightarrow> nat \<Rightarrow> nat option" where
  "expansion_loop current_size write_size new_size =
     (if usub new_size current_size < write_size
      then expansion_loop current_size write_size
        (uadd new_size (if new_size > kExponentialGrowthThreshold
                        then kExponentialGrowthThreshold else new_size))
      else Some new_size)"

definition CalculatedExpansionCapacity :: "ring_buffer_wrapper \<Rightarrow> nat \<Rightarrow> nat option" where
  "CalculatedExpansionCapacity w write_size =
     map_option (\<lambda>new_size. min new_size (max_buffer_capacity w))
       (expansion_loop (BufferCurrentSize w) write_size (BufferCapacity w))"

text \<open>The copy of the readable bytes of \<open>b\<close> into the new ring, in the two steps of the code.\<close>

definition copy_readable :: "ring_buffer \<Rightarrow> ring_buffer option \<Rightarrow> ring_buffer option" where
  "copy_readable b new_buff =
     (let read_size = WebRtc_available_read (Some b);
          diff = int_of_size (usub (write_pos b) (read_pos b));
          read_size1 = (if diff < 0 then int_of_size (usub (element_count b) (read_pos b)) else diff)
      in if 0 < read_size then
           (let new1 = fst (WebRtc_WriteBuffer new_buff (Some (drop (read_pos b) (buf_data b)))
                              (size_of_int read_size1))
            in if read_size1 < int_of_size read_size
               then fst (WebRtc_WriteBuffer new1 (Some (buf_data b))
                          (usub read_size (size_of_int read_size1)))
               else new1)
         else new_buff)"

definition AdjustCapacity :: "ring_buffer_wrapper \<Rightarrow> nat \<Rightarrow> ring_buffer_wrapper" where
  "AdjustCapacity w capacity =
     (if capacity < BufferCurrentSize w \<or> capacity = BufferCapacity w then w
      else (case buff_handle w of
              None \<Rightarrow> w\<lparr>buff_handle := create_byte_ring capacity\<rparr>
            | Some b \<Rightarrow> w\<lparr>buff_handle := copy_readable b (create_byte_ring capacity)\<rparr>))"

subsection \<open>Writing\<close>

text \<open>What \<open>BufferWrite\<close> does to make room before it writes.\<close>

definition make_room :: "ring_buffer_wrapper \<Rightarrow> nat \<Rightarrow> ring_buffer_wrapper option" where
  "make_room w n =
     (let size_canbe_write = usub (BufferCapacity w) (BufferCurrentSize w) in
      if size_canbe_write < n then
        if auto_adjust_capacity w then
          do {
            capacity \<leftarrow> CalculatedExpansionCapacity w n;
            let w1 = AdjustCapacity w capacity;
            Some (if max_buffer_capacity w1 \<le> BufferCapacity w1 then
                    (let w2 = w1\<lparr>auto_adjust_capacity := False\<rparr>
                     in if usub (BufferCapacity w2) (BufferCurrentSize w2) < n
                        then w2\<lparr>buff_handle := fst (WebRtc_MoveReadPtr (buff_handle w2)
                               (int_of_size (uadd (usub n (BufferCapacity w2)) (BufferCurrentSize w2))))\<rparr>
                        else w2)
                  else w1)
          }
        else Some (w\<lparr>buff_handle := fst (WebRtc_MoveReadPtr (buff_handle w)
                      (int_of_size (usub n size_canbe_write)))\<rparr>)
      else Some w)"

definition BufferWrite ::
    "ring_buffer_wrapper \<Rightarrow> byte list option \<Rightarrow> nat \<Rightarrow> (ring_buffer_wrapper \<times> nat) option" where
  "BufferWrite w data n =
     do {
       w1 \<leftarrow> make_room w n;
       (case WebRtc_WriteBuffer (buff_handle w1) data n of (h, k) \<Rightarrow>
          Some (w1\<lparr>buff_handle := h\<rparr>, k))
     }"

subsection \<open>Invariant\<close>

definition wr_inv :: "ring_buffer_wrapper \<Rightarrow> bool" where
  "wr_inv w \<longleftrightarrow> (case buff_handle w of None \<Rightarrow> False | Some b \<Rightarrow> byte_ring b) \<and>
     0 < max_buffer_capacity w \<and> max_buffer_capacity w \<le> kMaxBufferSize"

definition wr_contents :: "ring_buffer_wrapper \<Rightarrow> byte list" where
  "wr_contents w = (case buff_handle w of None \<Rightarrow> [] | Some b \<Rightarrow> rb_contents b)"

lemma wr_invE:
  assumes "wr_inv w"
  obtains b where "buff_handle w = Some b" "byte_ring b" "rb_inv b" "element_size b = 1"
    "0 < max_buffer_capacity w" "max_buffer_capacity w \<le> kMaxBufferSize"
  using assms by (auto simp: wr_inv_def byte_ring_def split: option.splits)

lemma wrapper_views:
  assumes "buff_handle w = Some b" and "byte_ring b"
  shows "wr_contents w = rb_contents b" "BufferCapacity w = element_count b"
    "BufferCurrentSize w = rb_used b" "length (rb_contents b) = rb_used b"
    "rb_used b \<le> element_count b" "0 < element_count b" "element_count b < 2 ^ 30"
proof -
  have inv: "rb_inv b" and es: "element_size b = 1" using assms(2) by (simp_all add: byte_ring_def)
  show "wr_contents w = rb_contents b" using assms(1) by (simp add: wr_contents_def)
  show "BufferCapacity w = element_count b"
    using assms(1) es rb_invD(2) [OF inv] by (simp add: BufferCapacity_def umul_id)
  show "BufferCurrentSize w = rb_used b"
    using assms(1) inv by (simp add: BufferCurrentSize_def available_read_used)
  show "length (rb_contents b) = rb_used b" using assms(2) by (rule byte_ring_length)
  show "rb_used b \<le> element_count b" "0 < element_count b" "element_count b < 2 ^ 30"
    using rb_used_le [OF inv] rb_invD [OF inv] by simp_all
qed

subsection \<open>The growth loop\<close>

lemma expansion_loop_returns:
  assumes "0 < new_size" "cur \<le> new_size" "cur + n \<le> 2 ^ 62" "new_size \<le> 2 ^ 62"
  shows "\<exists>m. expansion_loop cur n new_size = Some m \<and> new_size \<le> m \<and> cur + n \<le> m \<and>
             (m = new_size \<or> m < 2 * (cur + n)) \<and> (new_size < cur + n \<or> m = new_size)"
  using assms
proof (induction "cur + n - new_size" arbitrary: new_size rule: less_induct)
  case less
  have u: "usub new_size cur = new_size - cur" using less.prems by (simp add: usub_id)
  show ?case
  proof (cases "new_size - cur < n")
    case True
    define step where
      "step = (if new_size > kExponentialGrowthThreshold then kExponentialGrowthThreshold else new_size)"
    have step: "0 < step" "step \<le> new_size"
      using less.prems(1) by (auto simp: step_def kExponentialGrowthThreshold_def)
    have lt: "new_size < cur + n" using True less.prems(2) by simp
    have a: "uadd new_size step = new_size + step" using step less.prems(4) by (simp add: uadd_id)
    have eq: "expansion_loop cur n new_size = expansion_loop cur n (new_size + step)"
      using True by (subst expansion_loop.simps) (simp add: u step_def [symmetric] a)
    show ?thesis
    proof (cases "new_size + step < cur + n")
      case True
      have "\<exists>m. expansion_loop cur n (new_size + step) = Some m \<and> new_size + step \<le> m \<and>
          cur + n \<le> m \<and> (m = new_size + step \<or> m < 2 * (cur + n)) \<and>
          (new_size + step < cur + n \<or> m = new_size + step)"
        using True step less.prems lt by (intro less.hyps) linarith+
      then show ?thesis using eq lt step True by auto
    next
      case False
      have "usub (new_size + step) cur = new_size + step - cur"
        using less.prems step by (simp add: usub_id)
      then have "expansion_loop cur n (new_size + step) = Some (new_size + step)"
        using False less.prems by (subst expansion_loop.simps) auto
      then show ?thesis using eq False lt step by auto
    qed
  next
    case False
    then have "expansion_loop cur n new_size = Some new_size"
      by (subst expansion_loop.simps) (simp add: u)
    then show ?thesis using False less.prems by auto
  qed
qed

text \<open>From capacity 0 the loop never ends: doubling 0 makes no progress.\<close>

lemma expansion_loop_zero: "0 < n \<Longrightarrow> expansion_loop 0 n 0 = None"
proof (rule ccontr)
  assume n: "0 < n" and "expansion_loop 0 n 0 \<noteq> None"
  then obtain r where r: "expansion_loop 0 n 0 = Some r" by auto
  have "0 = (0::nat) \<and> 0 = (0::nat) \<longrightarrow> n = 0"
  proof (rule expansion_loop.raw_induct [where P = "\<lambda>c n s r. c = 0 \<and> s = 0 \<longrightarrow> n = 0", OF _ r])
    fix f c n s r
    assume IH: "\<And>c n s r. f c n s = Some r \<Longrightarrow> c = 0 \<and> s = 0 \<longrightarrow> n = 0"
      and eq: "(if usub s c < n then f c n (uadd s (if kExponentialGrowthThreshold < s
           then kExponentialGrowthThreshold else s)) else Some s) = Some r"
    show "c = 0 \<and> s = 0 \<longrightarrow> n = 0"
    proof
      assume cs: "c = 0 \<and> s = 0"
      show "n = 0"
      proof (rule ccontr)
        assume "n \<noteq> 0"
        then have "f 0 n 0 = Some r"
          using eq cs by (simp add: uadd_def)
        then show False using IH \<open>n \<noteq> 0\<close> by blast
      qed
    qed
  qed
  with n show False by simp
qed

subsection \<open>Copying into a larger ring\<close>

text \<open>
  The one case in which the copy goes wrong: a full buffer whose contents start inside the
  block. There \<open>write_pos - read_pos\<close> is 0, which the code takes for an unwrapped region of
  length 0, and the whole block is copied from its beginning.
\<close>

definition full_wrapped :: "ring_buffer \<Rightarrow> bool" where
  "full_wrapped b \<longleftrightarrow> rw_wrap b = DIFF_WRAP \<and> read_pos b = write_pos b"

text \<open>The length of the first region, as the code computes it.\<close>

definition first_region :: "ring_buffer \<Rightarrow> nat" where
  "first_region b = (if write_pos b < read_pos b then element_count b - read_pos b
                     else write_pos b - read_pos b)"

lemma first_region_int:
  assumes "rb_inv b"
  shows "(let diff = int_of_size (usub (write_pos b) (read_pos b))
     in if diff < 0 then int_of_size (usub (element_count b) (read_pos b)) else diff)
     = int (first_region b)"
proof -
  note D = rb_invD [OF assms]
  have "int_of_size (usub (write_pos b) (read_pos b)) = int (write_pos b) - int (read_pos b)"
    using D by (intro int_of_size_usub) simp_all
  moreover have "int_of_size (usub (element_count b) (read_pos b)) = int (element_count b - read_pos b)"
    using D by (simp add: usub_id int_of_size_id)
  ultimately show ?thesis by (simp add: first_region_def of_nat_diff)
qed

lemma first_region_le:
  assumes "rb_inv b"
  shows "first_region b \<le> rb_used b" "first_region b \<le> element_count b - read_pos b"
proof -
  note D = rb_invD [OF assms]
  show "first_region b \<le> rb_used b"
    using D by (cases "rw_wrap b") (auto simp: first_region_def rb_used_def)
  show "first_region b \<le> element_count b - read_pos b"
    using D by (auto simp: first_region_def)
qed

text \<open>The regions, put together, are the contents, except in a \<open>full_wrapped\<close> buffer.\<close>

lemma regions_contents:
  assumes "byte_ring b"
  defines "k \<equiv> first_region b"
  shows "take k (drop (read_pos b) (buf_data b)) @ take (rb_used b - k) (buf_data b) =
         (if full_wrapped b then buf_data b else rb_contents b)"
proof -
  have inv: "rb_inv b" and es: "element_size b = 1" using assms by (simp_all add: byte_ring_def)
  note D = rb_invD [OF inv]
  show ?thesis
  proof (cases "rw_wrap b")
    case SAME_WRAP
    then show ?thesis using D es
      by (simp add: k_def first_region_def rb_used_def full_wrapped_def rb_contents_def drop_take Let_def)
  next
    case DIFF_WRAP
    then show ?thesis using D es
      by (simp add: k_def first_region_def rb_used_def full_wrapped_def rb_contents_def Let_def)
  qed
qed

lemma copy_readable_unfold:
  assumes b: "rb_inv b"
  defines "k \<equiv> first_region b"
  shows "copy_readable b nb =
    (if 0 < rb_used b then
       (let n1 = fst (WebRtc_WriteBuffer nb (Some (drop (read_pos b) (buf_data b))) k)
        in if k < rb_used b
           then fst (WebRtc_WriteBuffer n1 (Some (buf_data b)) (rb_used b - k)) else n1)
     else nb)"
proof -
  have "rb_used b < 2 ^ 30" "k \<le> rb_used b"
    using rb_used_le [OF b] rb_invD(2) [OF b] first_region_le(1) [OF b] by (simp_all add: k_def)
  then show ?thesis
    unfolding copy_readable_def available_read_used [OF b]
    using first_region_int [OF b, folded k_def]
    by (simp add: Let_def int_of_size_id size_of_int_id usub_id)
qed

lemma copy_readable_spec:
  assumes b: "byte_ring b" and nb: "byte_ring nb" "rb_contents nb = []"
    and room: "rb_used b \<le> element_count nb"
  obtains nb' where "copy_readable b (Some nb) = Some nb'" "byte_ring nb'"
    "element_count nb' = element_count nb"
    "rb_contents nb' = (if full_wrapped b then buf_data b else rb_contents b)"
proof -
  define k where "k = first_region b"
  have inv: "rb_inv b" and es: "element_size b = 1" using b by (simp_all add: byte_ring_def)
  have len: "length (buf_data b) = element_count b" using rb_invD(5) [OF inv] es by simp
  have ule: "rb_used b \<le> element_count b" using inv by (rule rb_used_le)
  have k: "k \<le> rb_used b" "k \<le> element_count b - read_pos b"
    unfolding k_def using inv by (simp_all add: first_region_le)
  have free: "rb_free nb = element_count nb"
    using byte_ring_length [OF nb(1)] nb(2) by (simp add: rb_free_def)
  note unf = copy_readable_unfold [OF inv, folded k_def]
  note regions = regions_contents [OF b, folded k_def]
  show ?thesis
  proof (cases "0 < rb_used b")
    case False
    then have "copy_readable b (Some nb) = Some nb" by (simp add: unf)
    then show ?thesis using regions False k nb by (intro that [of nb]) simp_all
  next
    case True
    have m1: "min (rb_free nb) k = k" using k(1) room free by simp
    have "min (rb_free nb) k \<le> length (drop (read_pos b) (buf_data b))" using k len m1 by simp
    from byte_ring_write [OF nb(1) this] obtain n1 where
      n1: "WebRtc_WriteBuffer (Some nb) (Some (drop (read_pos b) (buf_data b))) k = (Some n1, k)"
      "byte_ring n1" "rb_contents n1 = take k (drop (read_pos b) (buf_data b))"
      "element_count n1 = element_count nb"
      unfolding m1 nb(2) append_Nil by blast
    show ?thesis
    proof (cases "k < rb_used b")
      case False
      then have "copy_readable b (Some nb) = Some n1" using True n1(1) by (simp add: unf Let_def)
      then show ?thesis using regions False k n1 by (intro that [of n1]) simp_all
    next
      case more: True
      have "rb_used n1 = k" using n1(2,3) k(2) len byte_ring_length [of n1] by simp
      then have m2: "min (rb_free n1) (rb_used b - k) = rb_used b - k"
        using n1(4) room by (simp add: rb_free_def)
      have "min (rb_free n1) (rb_used b - k) \<le> length (buf_data b)" using m2 ule len by simp
      from byte_ring_write [OF n1(2) this] obtain n2 where
        n2: "WebRtc_WriteBuffer (Some n1) (Some (buf_data b)) (rb_used b - k) = (Some n2, rb_used b - k)"
        "byte_ring n2" "rb_contents n2 = rb_contents n1 @ take (rb_used b - k) (buf_data b)"
        "element_count n2 = element_count n1"
        unfolding m2 by blast
      have "copy_readable b (Some nb) = Some n2"
        using True more n1(1) n2(1) by (simp add: unf Let_def)
      then show ?thesis using regions n1 n2 by (intro that [of n2]) simp_all
    qed
  qed
qed

text \<open>The bytes that \<open>AdjustCapacity\<close> carries over when it replaces the block.\<close>

definition carried :: "ring_buffer \<Rightarrow> byte list" where
  "carried b = (if full_wrapped b then buf_data b else rb_contents b)"

lemma length_carried: "byte_ring b \<Longrightarrow> length (carried b) = rb_used b"
  by (auto simp: carried_def full_wrapped_def byte_ring_def byte_ring_length rb_used_def rb_inv_def)

lemma adjust_capacity_same:
  assumes "buff_handle w = Some b" and "byte_ring b" and "c < rb_used b \<or> c = element_count b"
  shows "AdjustCapacity w c = w"
  using assms(3) by (auto simp: AdjustCapacity_def wrapper_views [OF assms(1,2)])

lemma adjust_capacity_spec:
  assumes h: "buff_handle w = Some b" and b: "byte_ring b"
    and c: "rb_used b \<le> c" "c \<noteq> element_count b" "0 < c" "c < 2 ^ 30"
  obtains b' where "AdjustCapacity w c = w\<lparr>buff_handle := Some b'\<rparr>" "byte_ring b'"
    "element_count b' = c" "rb_contents b' = carried b"
proof -
  from byte_ring_create [OF c(3,4)] obtain nb where
    nb: "create_byte_ring c = Some nb" "byte_ring nb" "rb_contents nb = []" "element_count nb = c"
    by blast
  have "rb_used b \<le> element_count nb" using c(1) nb(4) by simp
  from copy_readable_spec [OF b nb(2,3) this] obtain b' where
    b': "copy_readable b (Some nb) = Some b'" "byte_ring b'" "element_count b' = element_count nb"
    "rb_contents b' = (if full_wrapped b then buf_data b else rb_contents b)"
    by blast
  have "AdjustCapacity w c = w\<lparr>buff_handle := Some b'\<rparr>"
    using c(1,2) b'(1) nb(1) h
    by (simp add: AdjustCapacity_def wrapper_views [OF h b])
  then show ?thesis using b' nb(4) by (intro that [of b']) (simp_all add: carried_def)
qed

subsection \<open>Writing\<close>

text \<open>Dropping the oldest bytes of a ring and writing: what both modes end with.\<close>

lemma write_fitting:
  assumes h: "buff_handle w = Some b" and b: "byte_ring b"
  obtains b' where "WebRtc_WriteBuffer (buff_handle w) (Some xs) (length xs)
      = (Some b', min (rb_free b) (length xs))" "byte_ring b'"
    "rb_contents b' = rb_contents b @ take (rb_free b) xs" "element_count b' = element_count b"
proof -
  have "min (rb_free b) (length xs) \<le> length xs" by simp
  from byte_ring_write [OF b this] obtain b' where
    "WebRtc_WriteBuffer (Some b) (Some xs) (length xs) = (Some b', min (rb_free b) (length xs))"
    "byte_ring b'" "rb_contents b' = rb_contents b @ take (min (rb_free b) (length xs)) xs"
    "element_count b' = element_count b"
    by blast
  then show ?thesis using h by (intro that [of b']) (auto simp: min_def)
qed

lemma free_used: "byte_ring b \<Longrightarrow> rb_free b = element_count b - length (rb_contents b)"
  by (simp add: rb_free_def byte_ring_length)

lemma make_room_overwrite:
  assumes h: "buff_handle w = Some b" and b: "byte_ring b" and mode: "\<not> auto_adjust_capacity w"
    and n: "n < 2 ^ 31"
  obtains b' where "make_room w n = Some (w\<lparr>buff_handle := Some b'\<rparr>)" "byte_ring b'"
    "element_count b' = element_count b" "rb_contents b' = drop (n - rb_free b) (rb_contents b)"
proof -
  note V = wrapper_views [OF h b]
  have free: "usub (BufferCapacity w) (BufferCurrentSize w) = rb_free b"
    using V by (simp add: usub_id rb_free_def)
  show ?thesis
  proof (cases "rb_free b < n")
    case True
    have d: "int_of_size (usub n (rb_free b)) = int (n - rb_free b)"
      using True n by (simp add: usub_id int_of_size_id)
    have "0 \<le> int (n - rb_free b)" by simp
    from byte_ring_discard [OF b this, unfolded nat_int] obtain b' k where
      "WebRtc_MoveReadPtr (Some b) (int (n - rb_free b)) = (Some b', k)" "byte_ring b'"
      "rb_contents b' = drop (n - rb_free b) (rb_contents b)"
      "element_count b' = element_count b"
      by blast
    then show ?thesis using True mode d h free
      by (intro that [of b']) (simp_all add: make_room_def)
  next
    case False
    then show ?thesis using h b free by (intro that [of b]) (simp_all add: make_room_def)
  qed
qed

lemma buffer_write_room:
  assumes m: "make_room w (length xs) = Some w1" and h: "buff_handle w1 = Some b1"
    and b: "byte_ring b1"
  obtains b' where
    "BufferWrite w (Some xs) (length xs) =
       Some (w1\<lparr>buff_handle := Some b'\<rparr>, min (rb_free b1) (length xs))" "byte_ring b'"
    "element_count b' = element_count b1"
    "rb_contents b' = rb_contents b1 @ take (rb_free b1) xs"
proof -
  from write_fitting [OF h b] obtain b' where
    "WebRtc_WriteBuffer (buff_handle w1) (Some xs) (length xs)
      = (Some b', min (rb_free b1) (length xs))" "byte_ring b'"
    "rb_contents b' = rb_contents b1 @ take (rb_free b1) xs" "element_count b' = element_count b1"
    by blast
  then show ?thesis using m by (intro that [of b']) (simp_all add: BufferWrite_def)
qed

lemma buffer_write_overwrite:
  assumes h: "buff_handle w = Some b" and b: "byte_ring b" and mode: "\<not> auto_adjust_capacity w"
    and n: "length xs < 2 ^ 31"
  obtains b' where
    "BufferWrite w (Some xs) (length xs) =
       Some (w\<lparr>buff_handle := Some b'\<rparr>, min (element_count b) (length xs))" "byte_ring b'"
    "element_count b' = element_count b"
    "rb_contents b' = drop (length (rb_contents b) + length xs - element_count b) (rb_contents b)
       @ take (element_count b) xs"
proof -
  from make_room_overwrite [OF h b mode n] obtain b1 where
    m: "make_room w (length xs) = Some (w\<lparr>buff_handle := Some b1\<rparr>)" and b1: "byte_ring b1"
    "element_count b1 = element_count b"
    "rb_contents b1 = drop (length xs - rb_free b) (rb_contents b)"
    by blast
  have le: "length (rb_contents b) \<le> element_count b" using wrapper_views [OF h b] by simp
  have f: "rb_free b1 = element_count b - (length (rb_contents b) - (length xs - rb_free b))"
    using b1 by (simp add: free_used)
  have k: "min (rb_free b1) (length xs) = min (element_count b) (length xs)"
    "take (rb_free b1) xs = take (element_count b) xs"
    using le unfolding f
    by (cases "length xs \<le> rb_free b"; cases "length xs \<le> element_count b"; simp add: free_used [OF b])+
  have d: "length xs - rb_free b = length (rb_contents b) + length xs - element_count b"
    using le by (simp add: free_used b)
  from buffer_write_room [OF m _ b1(1)] obtain b' where
    "BufferWrite w (Some xs) (length xs) =
       Some (w\<lparr>buff_handle := Some b1\<rparr>\<lparr>buff_handle := Some b'\<rparr>, min (rb_free b1) (length xs))"
    "byte_ring b'" "element_count b' = element_count b1"
    "rb_contents b' = rb_contents b1 @ take (rb_free b1) xs"
    by (metis ring_buffer_wrapper.select_convs(1) ring_buffer_wrapper.surjective ring_buffer_wrapper.update_convs(1))
  then show ?thesis using b1 k d by (intro that [of b']) simp_all
qed

text \<open>
  Expanding mode. \<open>grown w b n\<close> is the ring after making room for \<open>n\<close> bytes: the old one when
  they fit; otherwise the bytes carried over, without the oldest ones if even the maximal
  capacity is too small.
\<close>

lemma calculated_capacity:
  assumes h: "buff_handle w = Some b" and b: "byte_ring b" and n: "n < 2 ^ 31"
    and full: "element_count b < rb_used b + n"
  obtains c where "CalculatedExpansionCapacity w n = Some c" "c \<le> max_buffer_capacity w"
    "rb_used b + n \<le> c \<or> c = max_buffer_capacity w"
proof -
  note V = wrapper_views [OF h b]
  have "rb_used b + n \<le> 2 ^ 62" "element_count b \<le> 2 ^ 62" using V n by simp_all
  from expansion_loop_returns [OF V(6) V(5) this] obtain m where
    "expansion_loop (rb_used b) n (element_count b) = Some m" "rb_used b + n \<le> m"
    by blast
  then show ?thesis using V
    by (intro that [of "min m (max_buffer_capacity w)"])
      (auto simp: CalculatedExpansionCapacity_def min_def)
qed

text \<open>The distance that the code computes with wrapping subtraction and addition.\<close>

lemma wrapped_distance:
  assumes "n < 2 ^ 30" "c < 2 ^ 30" "u \<le> c" "c < u + n"
  shows "int_of_size (uadd (usub n c) u) = int (u + n - c)"
proof -
  have "uadd (usub n c) u = (n + (2 ^ 64 - c) + u) mod 2 ^ 64"
    using assms by (simp add: uadd_def usub_def mod_add_left_eq)
  also have "n + (2 ^ 64 - c) + u = (u + n - c) + 2 ^ 64" using assms by simp
  also have "\<dots> mod 2 ^ 64 = (u + n - c) mod 2 ^ 64" by (rule mod_add_self2)
  also have "\<dots> = u + n - c" using assms by (intro mod_less) simp
  finally show ?thesis using assms by (simp add: int_of_size_id)
qed

lemma make_room_expand:
  assumes w: "wr_inv w" and h: "buff_handle w = Some b" and mode: "auto_adjust_capacity w"
    and n: "n < 2 ^ 30" and full: "rb_free b < n"
  obtains w1 b1 base where "make_room w n = Some w1" "buff_handle w1 = Some b1" "byte_ring b1"
    "max_buffer_capacity w1 = max_buffer_capacity w"
    "base = (if element_count b1 = element_count b then rb_contents b else carried b)"
    "rb_contents b1 = drop (rb_used b + n - element_count b1) base"
    "rb_used b + n \<le> max_buffer_capacity w \<Longrightarrow>
       rb_used b + n \<le> element_count b1 \<and> element_count b1 \<le> max_buffer_capacity w"
proof -
  have b: "byte_ring b" and mx: "0 < max_buffer_capacity w" "max_buffer_capacity w \<le> kMaxBufferSize"
    using w h by (auto simp: wr_inv_def)
  note V = wrapper_views [OF h b]
  have free: "usub (BufferCapacity w) (BufferCurrentSize w) = rb_free b"
    using V by (simp add: usub_id rb_free_def)
  have full': "element_count b < rb_used b + n" using full V by (simp add: rb_free_def)
  have "n < 2 ^ 31" using n by simp
  from calculated_capacity [OF h b this full'] obtain c where c:
    "CalculatedExpansionCapacity w n = Some c" "c \<le> max_buffer_capacity w"
    "rb_used b + n \<le> c \<or> c = max_buffer_capacity w"
    by blast
  have c30: "c < 2 ^ 30" "0 < c" using c mx full by (auto simp: kMaxBufferSize_def)
  obtain b2 where b2: "AdjustCapacity w c = w\<lparr>buff_handle := Some b2\<rparr>" "byte_ring b2"
    "rb_contents b2 = (if element_count b2 = element_count b then rb_contents b else carried b)"
    "element_count b2 = (if c < rb_used b then element_count b else c)"
  proof (cases "c < rb_used b \<or> c = element_count b")
    case True
    then show ?thesis using adjust_capacity_same [OF h b True] h b
      by (intro that [of b]) auto
  next
    case False
    then have "rb_used b \<le> c" "c \<noteq> element_count b" by simp_all
    from adjust_capacity_spec [OF h b this c30(2,1)] obtain b2 where
      "AdjustCapacity w c = w\<lparr>buff_handle := Some b2\<rparr>" "byte_ring b2" "element_count b2 = c"
      "rb_contents b2 = carried b"
      by blast
    then show ?thesis using False by (intro that [of b2]) simp_all
  qed
  define w1 where "w1 = w\<lparr>buff_handle := Some b2\<rparr>"
  have h1: "buff_handle w1 = Some b2" and mx1: "max_buffer_capacity w1 = max_buffer_capacity w"
    by (simp_all add: w1_def)
  note V1 = wrapper_views [OF h1 b2(2)]
  have used: "rb_used b2 = rb_used b"
    using byte_ring_length [OF b2(2)] byte_ring_length [OF b] length_carried [OF b] b2(3)
    by (simp split: if_splits)
  let ?base = "if element_count b2 = element_count b then rb_contents b else carried b"
  have room: "make_room w n = Some (if max_buffer_capacity w \<le> element_count b2 then
       (if element_count b2 - rb_used b < n
        then w1\<lparr>auto_adjust_capacity := False, buff_handle := fst (WebRtc_MoveReadPtr (Some b2)
              (int_of_size (uadd (usub n (element_count b2)) (rb_used b))))\<rparr>
        else w1\<lparr>auto_adjust_capacity := False\<rparr>) else w1)"
    using full mode c(1) b2(1) free V1 used h1 mx1
    by (simp add: make_room_def w1_def [symmetric] BufferCapacity_def BufferCurrentSize_def usub_id)
  have fit: "rb_used b + n \<le> max_buffer_capacity w \<Longrightarrow>
      rb_used b + n \<le> element_count b2 \<and> element_count b2 \<le> max_buffer_capacity w"
    using b2(4) c(2,3) full by (auto split: if_splits)
  have over: "element_count b2 < rb_used b + n \<Longrightarrow> max_buffer_capacity w \<le> element_count b2"
    using b2(4) c V(5) by (auto split: if_splits)
  show ?thesis
  proof (cases "element_count b2 < rb_used b + n")
    case False
    then have "make_room w n = Some (if max_buffer_capacity w \<le> element_count b2
        then w1\<lparr>auto_adjust_capacity := False\<rparr> else w1)"
      using full by (simp add: room)
    with False b2 fit h1 show ?thesis
      by (intro that [of "if max_buffer_capacity w \<le> element_count b2
        then w1\<lparr>auto_adjust_capacity := False\<rparr> else w1" b2 ?base]) (simp_all add: w1_def)
  next
    case True
    have "rb_used b \<le> element_count b2" using V1(5) used by simp
    from wrapped_distance [OF n V1(7) this True] have
      d: "int_of_size (uadd (usub n (element_count b2)) (rb_used b)) = int (rb_used b + n - element_count b2)" .
    have "0 \<le> int (rb_used b + n - element_count b2)" by simp
    from byte_ring_discard [OF b2(2) this, unfolded nat_int] obtain b3 k where b3:
      "WebRtc_MoveReadPtr (Some b2) (int (rb_used b + n - element_count b2)) = (Some b3, k)"
      "byte_ring b3" "rb_contents b3 = drop (rb_used b + n - element_count b2) (rb_contents b2)"
      "element_count b3 = element_count b2"
      by blast
    have "element_count b2 - rb_used b < n" using True full by arith
    then have "make_room w n = Some (w1\<lparr>auto_adjust_capacity := False, buff_handle := Some b3\<rparr>)"
      using over [OF True] by (simp only: room d b3(1) if_True fst_conv)
    with True b3 b2(3) fit show ?thesis
      by (intro that [of "w1\<lparr>auto_adjust_capacity := False, buff_handle := Some b3\<rparr>" b3 ?base])
        (simp_all add: w1_def)
  qed
qed

lemma buffer_write_expand:
  assumes w: "wr_inv w" and h: "buff_handle w = Some b" and mode: "auto_adjust_capacity w"
    and n: "length xs < 2 ^ 30" and full: "rb_free b < length xs"
  obtains w' b' base where
    "BufferWrite w (Some xs) (length xs) = Some (w', min (element_count b') (length xs))"
    "buff_handle w' = Some b'" "byte_ring b'"
    "max_buffer_capacity w' = max_buffer_capacity w"
    "base = (if element_count b' = element_count b then rb_contents b else carried b)"
    "rb_contents b' = drop (rb_used b + length xs - element_count b') base @ take (element_count b') xs"
    "rb_used b + length xs \<le> max_buffer_capacity w \<Longrightarrow>
       rb_used b + length xs \<le> element_count b' \<and> element_count b' \<le> max_buffer_capacity w"
proof -
  have b: "byte_ring b" using w h by (simp add: wr_inv_def)
  from make_room_expand [OF w h mode n full] obtain w1 b1 base where
    m: "make_room w (length xs) = Some w1" and h1: "buff_handle w1 = Some b1" and b1: "byte_ring b1"
    and mx: "max_buffer_capacity w1 = max_buffer_capacity w"
    and base: "base = (if element_count b1 = element_count b then rb_contents b else carried b)"
    and cont: "rb_contents b1 = drop (rb_used b + length xs - element_count b1) base"
    and fit: "rb_used b + length xs \<le> max_buffer_capacity w \<Longrightarrow>
       rb_used b + length xs \<le> element_count b1 \<and> element_count b1 \<le> max_buffer_capacity w"
    by blast
  have len: "length base = rb_used b"
    unfolding base using b by (simp add: length_carried byte_ring_length)
  have le: "rb_used b1 \<le> element_count b1" using wrapper_views [OF h1 b1] by simp
  have u: "rb_used b1 = rb_used b - (rb_used b + length xs - element_count b1)"
    using byte_ring_length [OF b1] cont len by simp
  have k: "min (rb_free b1) (length xs) = min (element_count b1) (length xs)"
    "take (rb_free b1) xs = take (element_count b1) xs"
    using le unfolding rb_free_def u
    by (cases "rb_used b + length xs \<le> element_count b1";
        cases "length xs \<le> element_count b1"; simp)+
  from buffer_write_room [OF m h1 b1] obtain b' where b':
    "BufferWrite w (Some xs) (length xs) =
       Some (w1\<lparr>buff_handle := Some b'\<rparr>, min (rb_free b1) (length xs))"
    "byte_ring b'" "element_count b' = element_count b1"
    "rb_contents b' = rb_contents b1 @ take (rb_free b1) xs"
    by blast
  show ?thesis
  proof (rule that [of "w1\<lparr>buff_handle := Some b'\<rparr>" b' base])
    show "BufferWrite w (Some xs) (length xs) =
        Some (w1\<lparr>buff_handle := Some b'\<rparr>, min (element_count b') (length xs))"
      using b'(1,3) k(1) by simp
    show "rb_contents b' = drop (rb_used b + length xs - element_count b') base @ take (element_count b') xs"
      using b'(3,4) k(2) cont by simp
  qed (use b' mx base fit in simp_all)
qed

lemma buffer_write_fits:
  assumes h: "buff_handle w = Some b" and b: "byte_ring b" and fits: "length xs \<le> rb_free b"
  obtains b' where "BufferWrite w (Some xs) (length xs) = Some (w\<lparr>buff_handle := Some b'\<rparr>, length xs)"
    "byte_ring b'" "element_count b' = element_count b" "rb_contents b' = rb_contents b @ xs"
proof -
  note V = wrapper_views [OF h b]
  have "usub (BufferCapacity w) (BufferCurrentSize w) = rb_free b"
    using V by (simp add: usub_id rb_free_def)
  then have m: "make_room w (length xs) = Some w" using fits by (simp add: make_room_def)
  from buffer_write_room [OF m h b] obtain b' where
    "BufferWrite w (Some xs) (length xs) =
       Some (w\<lparr>buff_handle := Some b'\<rparr>, min (rb_free b) (length xs))"
    "byte_ring b'" "element_count b' = element_count b" "rb_contents b' = rb_contents b @ take (rb_free b) xs"
    by blast
  then show ?thesis using fits by (intro that [of b']) simp_all
qed

subsection \<open>The wrapper as an overwriting queue\<close>

definition wr_put :: "ring_buffer_wrapper \<Rightarrow> byte list \<Rightarrow> ring_buffer_wrapper \<times> nat" where
  "wr_put w xs = the (BufferWrite w (Some xs) (length xs))"

definition wr_pop :: "ring_buffer_wrapper \<Rightarrow> nat \<Rightarrow> ring_buffer_wrapper \<times> byte list" where
  "wr_pop w n =
     (case BufferRead w (Some (replicate n 0)) n of (w', out, k) \<Rightarrow> (w', take k (the out)))"

definition wr_fixed :: "ring_buffer_wrapper \<Rightarrow> bool" where
  "wr_fixed w \<longleftrightarrow> wr_inv w \<and> \<not> auto_adjust_capacity w"

lemma wr_pop_ring:
  assumes h: "buff_handle w = Some b" and b: "byte_ring b"
  shows "wr_pop w n = (w\<lparr>buff_handle := Some (fst (rb_pop b n))\<rparr>, snd (rb_pop b n))"
proof -
  have "min (rb_used b) n * element_size b \<le> length (replicate n (0 :: byte))"
    and inv: "rb_inv b" using b by (simp_all add: byte_ring_def)
  from read_buffer [OF inv this(1)] obtain b' out k where
    "WebRtc_ReadBuffer (Some b) False (Some (replicate n 0)) n = (Some b', Some out, NullPtr, k)"
    by blast
  then show ?thesis using h by (simp add: wr_pop_def BufferRead_def rb_pop_def)
qed

lemma wr_pop_law:
  assumes w: "wr_inv w" and p: "wr_pop w n = (w', ys)"
  shows "wr_inv w' \<and> BufferCapacity w' = BufferCapacity w \<and>
    auto_adjust_capacity w' = auto_adjust_capacity w \<and>
    ys = take n (wr_contents w) \<and> wr_contents w' = drop n (wr_contents w)"
proof -
  obtain b where h: "buff_handle w = Some b" and b: "byte_ring b" using w by (rule wr_invE)
  obtain b' zs where r: "rb_pop b n = (b', zs)" by (meson surj_pair)
  have w': "w' = w\<lparr>buff_handle := Some b'\<rparr>" and ys: "ys = zs"
    using p unfolding wr_pop_ring [OF h b] r by simp_all
  have law: "byte_ring b'" "element_count b' = element_count b"
    "zs = take n (rb_contents b)" "rb_contents b' = drop n (rb_contents b)"
    using rb_pop_law [OF b r] by blast+
  have h': "buff_handle w' = Some b'" by (simp add: w')
  have "wr_inv w'" using w law(1) by (simp add: wr_inv_def w')
  moreover have "BufferCapacity w' = BufferCapacity w"
    using wrapper_views(2) [OF h b] wrapper_views(2) [OF h' law(1)] law(2) by simp
  moreover have "ys = take n (wr_contents w)" "wr_contents w' = drop n (wr_contents w)"
    using wrapper_views(1) [OF h b] wrapper_views(1) [OF h' law(1)] law(3,4) ys by simp_all
  ultimately show ?thesis by (simp add: w')
qed

lemma wr_put_law:
  assumes w: "wr_fixed w" and n: "length xs \<le> 2 ^ 31 - 1" and p: "wr_put w xs = (w', k)"
  shows "wr_fixed w' \<and> BufferCapacity w' = BufferCapacity w \<and>
    k = min (BufferCapacity w) (length xs) \<and>
    wr_contents w' = drop (length (wr_contents w) + length xs - BufferCapacity w) (wr_contents w)
      @ take k xs"
proof -
  have mode: "\<not> auto_adjust_capacity w" and inv: "wr_inv w" using w by (simp_all add: wr_fixed_def)
  obtain b where h: "buff_handle w = Some b" and b: "byte_ring b" using inv by (rule wr_invE)
  have "length xs < 2 ^ 31" using n by simp
  from buffer_write_overwrite [OF h b mode this] obtain b' where b':
    "BufferWrite w (Some xs) (length xs) =
       Some (w\<lparr>buff_handle := Some b'\<rparr>, min (element_count b) (length xs))" "byte_ring b'"
    "element_count b' = element_count b"
    "rb_contents b' = drop (length (rb_contents b) + length xs - element_count b) (rb_contents b)
       @ take (element_count b) xs"
    by blast
  have w': "w' = w\<lparr>buff_handle := Some b'\<rparr>" "k = min (element_count b) (length xs)"
    using p b'(1) by (simp_all add: wr_put_def)
  have h': "buff_handle w' = Some b'" by (simp add: w')
  note V = wrapper_views(1,2) [OF h b] wrapper_views(1,2) [OF h' b'(2)]
  have "take k xs = take (element_count b) xs" by (auto simp: w'(2) min_def)
  then show ?thesis using V b' w' inv mode by (simp add: wr_fixed_def wr_inv_def)
qed

interpretation wrapper: overwriting_queue wr_fixed wr_contents BufferCapacity wr_pop wr_put "2 ^ 31 - 1"
proof unfold_locales
  fix w w' :: ring_buffer_wrapper and n :: nat and xs ys :: "byte list" and k :: nat
  assume w: "wr_fixed w"
  then obtain b where "buff_handle w = Some b" "byte_ring b"
    by (auto simp: wr_fixed_def elim: wr_invE)
  from wrapper_views [OF this] show "length (wr_contents w) \<le> BufferCapacity w" by simp
  show "wr_fixed w' \<and> BufferCapacity w' = BufferCapacity w \<and>
      ys = take n (wr_contents w) \<and> wr_contents w' = drop n (wr_contents w)"
    if "wr_pop w n = (w', ys)" using wr_pop_law [OF _ that] w by (auto simp: wr_fixed_def)
  show "wr_fixed w' \<and> BufferCapacity w' = BufferCapacity w \<and>
      k = min (BufferCapacity w) (length xs) \<and>
      wr_contents w' = drop (length (wr_contents w) + length xs - BufferCapacity w) (wr_contents w)
        @ take k xs"
    if "length xs \<le> 2 ^ 31 - 1" "wr_put w xs = (w', k)"
    using wr_put_law [OF w that] .
qed

subsection \<open>Properties\<close>

text \<open>Small wrappers for the concrete instances: a wrapped full ring, and a partly filled one.\<close>

definition wrapped_full :: ring_buffer where
  "wrapped_full = \<lparr>read_pos = 2, write_pos = 2, element_count = 4, element_size = 1,
                    rw_wrap = DIFF_WRAP, buf_data = [5, 6, 3, 4]\<rparr>"

definition sample_wrapper :: "ring_buffer \<Rightarrow> bool \<Rightarrow> ring_buffer_wrapper" where
  "sample_wrapper b auto_adjust =
     \<lparr>buff_handle = Some b, auto_adjust_capacity = auto_adjust, max_buffer_capacity = 64\<rparr>"

lemma sample_wrappers:
  "wr_inv (sample_wrapper ring_diff a)" "wr_contents (sample_wrapper ring_diff a) = [40, 10, 20]"
  "wr_inv (sample_wrapper wrapped_full a)" "wr_contents (sample_wrapper wrapped_full a) = [3, 4, 5, 6]"
  "BufferCapacity (sample_wrapper ring_diff a) = 4"
  "BufferCapacity (sample_wrapper wrapped_full a) = 4"
  "\<not> full_wrapped ring_diff" "full_wrapped wrapped_full"
  by (simp_all add: wr_inv_def sample_wrapper_def byte_ring_def rb_inv_def ring_diff_def
      wrapped_full_def kMaxBufferSize_def wr_contents_def rb_contents_def BufferCapacity_def
      umul_def full_wrapped_def)



text \<open>
  a write in the expanding mode that fits the maximal capacity always completes, accepts all
  bytes and appends them to the contents, unless the ring is full and its contents start inside
  the block; the invariant, the maximum and the mode bound are kept.
\<close>

theorem wrapper_expanding_write:
  assumes "wr_inv w" and "auto_adjust_capacity w" and "buff_handle w = Some b"
    and "length xs < 2 ^ 30" and "length (wr_contents w) + length xs \<le> max_buffer_capacity w"
    and "\<not> full_wrapped b"
  shows "\<exists>w'. BufferWrite w (Some xs) (length xs) = Some (w', length xs) \<and> wr_inv w' \<and>
     wr_contents w' = wr_contents w @ xs \<and> max_buffer_capacity w' = max_buffer_capacity w \<and>
     length (wr_contents w') \<le> BufferCapacity w'"
proof -
  have b: "byte_ring b" using assms(1,3) by (simp add: wr_inv_def)
  note V = wrapper_views [OF assms(3) b]
  show ?thesis
  proof (cases "length xs \<le> rb_free b")
    case True
    from buffer_write_fits [OF assms(3) b True] obtain b' where b':
      "BufferWrite w (Some xs) (length xs) = Some (w\<lparr>buff_handle := Some b'\<rparr>, length xs)"
      "byte_ring b'" "element_count b' = element_count b" "rb_contents b' = rb_contents b @ xs"
      by blast
    have h': "buff_handle (w\<lparr>buff_handle := Some b'\<rparr>) = Some b'" by simp
    show ?thesis using b' assms(1) V wrapper_views [OF h' b'(2)]
      by (intro exI [of _ "w\<lparr>buff_handle := Some b'\<rparr>"]) (simp add: wr_inv_def)
  next
    case False
    then have full: "rb_free b < length xs" by simp
    from buffer_write_expand [OF assms(1,3,2,4) full] obtain w' b' base where w':
      "BufferWrite w (Some xs) (length xs) = Some (w', min (element_count b') (length xs))"
      "buff_handle w' = Some b'" "byte_ring b'"
      "max_buffer_capacity w' = max_buffer_capacity w"
      "base = (if element_count b' = element_count b then rb_contents b else carried b)"
      "rb_contents b' = drop (rb_used b + length xs - element_count b') base @ take (element_count b') xs"
      "rb_used b + length xs \<le> max_buffer_capacity w \<Longrightarrow>
         rb_used b + length xs \<le> element_count b' \<and> element_count b' \<le> max_buffer_capacity w"
      by blast
    have fit: "rb_used b + length xs \<le> element_count b'"
      using w'(7) assms(5) V(1,4) by simp
    have base: "base = rb_contents b" using assms(6) w'(5) by (simp add: carried_def)
    have "rb_contents b' = rb_contents b @ xs" using w'(6) fit base by simp
    moreover have "min (element_count b') (length xs) = length xs" using fit by simp
    moreover have "wr_inv w'" using assms(1) w'(2,3,4) by (simp add: wr_inv_def)
    ultimately show ?thesis using w'(1,4) V(1) wrapper_views [OF w'(2,3)]
      by (intro exI [of _ w']) simp
  qed
qed

theorem wrapper_expanding_write_witness:
  "\<exists>w'. BufferWrite (sample_wrapper ring_diff True) (Some [1, 2, 3]) 3 = Some (w', 3) \<and>
        wr_contents w' = [40, 10, 20, 1, 2, 3]"
proof -
  have "auto_adjust_capacity (sample_wrapper ring_diff True)"
    "buff_handle (sample_wrapper ring_diff True) = Some ring_diff" "length [1 :: byte, 2, 3] < 2 ^ 30"
    "length (wr_contents (sample_wrapper ring_diff True)) + length [1 :: byte, 2, 3]
      \<le> max_buffer_capacity (sample_wrapper ring_diff True)"
    unfolding sample_wrappers by (simp_all add: sample_wrapper_def)
  from wrapper_expanding_write [OF sample_wrappers(1) this sample_wrappers(7)]
  show ?thesis unfolding sample_wrappers by (simp add: numeral_3_eq_3) blast
qed

text \<open>
  the excluded case is real. A full ring whose contents start inside the block loses its
  order when it grows: the bytes carried over are those of the block from its beginning, so a
  reader gets the newest bytes before the oldest ones.
\<close>

theorem wrapper_growth_rotates:
  assumes "wr_inv w" and "buff_handle w = Some b" and "full_wrapped b"
    and "element_count b < capacity" and "capacity < 2 ^ 30"
  shows "wr_contents (AdjustCapacity w capacity) = buf_data b \<and>
    wr_contents w = drop (read_pos b) (buf_data b) @ take (read_pos b) (buf_data b)"
proof -
  have b: "byte_ring b" using assms(1,2) by (simp add: wr_inv_def)
  note V = wrapper_views [OF assms(2) b]
  have "rb_used b \<le> capacity" "capacity \<noteq> element_count b" "0 < capacity"
    using V assms(4) by simp_all
  from adjust_capacity_spec [OF assms(2) b this assms(5)] obtain b' where
    "AdjustCapacity w capacity = w\<lparr>buff_handle := Some b'\<rparr>" "rb_contents b' = carried b"
    by blast
  then have "wr_contents (AdjustCapacity w capacity) = buf_data b"
    using assms(3) by (simp add: wr_contents_def carried_def)
  moreover have "wr_contents w = drop (read_pos b) (buf_data b) @ take (read_pos b) (buf_data b)"
    using assms(3) b V(1) by (simp add: full_wrapped_def rb_contents_def byte_ring_def Let_def)
  ultimately show ?thesis by simp
qed

theorem wrapper_growth_rotates_witness:
  "wr_contents (sample_wrapper wrapped_full True) = [3, 4, 5, 6] \<and>
   wr_contents (AdjustCapacity (sample_wrapper wrapped_full True) 8) = [5, 6, 3, 4]"
proof -
  have h: "buff_handle (sample_wrapper wrapped_full True) = Some wrapped_full"
    and c: "element_count wrapped_full < 8" "(8 :: nat) < 2 ^ 30"
    by (simp_all add: sample_wrapper_def wrapped_full_def)
  from wrapper_growth_rotates [OF sample_wrappers(3) h sample_wrappers(8) c] show ?thesis
    unfolding sample_wrappers by (simp add: wrapped_full_def)
qed

end
