(* ===== verification/TimeClass.thy ===== *)
theory TimeClass
  imports Prelude
begin

text \<open>
  \<open>src/src/util/time_to_class.h\<close>: durations as a 64-bit count of milliseconds. The class template
  \<open>TimeBaseClass<int64_t, factor>\<close> has the factor 1 (milliseconds), 1000 (seconds), 60000 or
  3600000; its one member \<open>data_\<close> is an \<^typ>\<open>int\<close> kept in range by \<open>s64\<close>. \<open>factor\<close> is a
  \<open>size_t\<close>, so \<open>data * factor\<close>, \<open>data % factor\<close> and \<open>data / factor\<close> are computed in unsigned
  64-bit arithmetic. \<open>None\<close> is \<open>std::abort()\<close> or a division by zero.
\<close>

type_synonym time_data = int

definition ms_factor :: nat where "ms_factor = 1"
definition sec_factor :: nat where "sec_factor = 1000"
definition min_factor :: nat where "min_factor = 1000 * 60"
definition hour_factor :: nat where "hour_factor = 1000 * 60 * 60"

text \<open>The constructor from a number of units; the literals \<open>_ms\<close>, \<open>_sec\<close>, \<open>_min\<close> and \<open>_hour\<close> use it.\<close>

definition time_new :: "nat \<Rightarrow> int \<Rightarrow> time_data" where
  "time_new factor data = s64 (data * int factor)"

definition time_literal :: "nat \<Rightarrow> nat \<Rightarrow> time_data" where
  "time_literal factor a = time_new factor (s64 (int a))"

text \<open>The converting constructor between classes of different factors copies \<open>data_\<close>.\<close>

definition time_convert :: "time_data \<Rightarrow> time_data" where
  "time_convert data = data"

definition CheckData :: "time_data \<Rightarrow> nat \<Rightarrow> bool" where
  "CheckData data factor = (u64 data mod int factor = 0)"

definition Value :: "nat \<Rightarrow> time_data \<Rightarrow> int option" where
  "Value factor data =
     (if CheckData data factor then Some (s64 (u64 data div int factor)) else None)"

text \<open>The operators of \<open>BaseTimeData\<close>, on \<open>data_\<close>.\<close>

definition time_less :: "time_data \<Rightarrow> time_data \<Rightarrow> bool" where
  "time_less a b = (a < b)"

definition time_less_eq :: "time_data \<Rightarrow> time_data \<Rightarrow> bool" where
  "time_less_eq a b = (a \<le> b)"

definition time_add_assign :: "time_data \<Rightarrow> time_data \<Rightarrow> time_data" where
  "time_add_assign a b = s64 (a + b)"

definition time_sub_assign :: "time_data \<Rightarrow> time_data \<Rightarrow> time_data" where
  "time_sub_assign a b = s64 (a - b)"

definition time_mul_assign :: "time_data \<Rightarrow> int \<Rightarrow> time_data" where
  "time_mul_assign a k = s64 (a * k)"

definition time_div_assign :: "time_data \<Rightarrow> int \<Rightarrow> time_data option" where
  "time_div_assign a k = (if k = 0 then None else Some (s64 (c_div a k)))"

text \<open>The operators that \<open>DEFINE_TIME_CLASS\<close> generates: they build the result with \<open>time_new\<close>.\<close>

definition time_plus :: "nat \<Rightarrow> time_data \<Rightarrow> time_data \<Rightarrow> time_data option" where
  "time_plus factor a b = map_option (\<lambda>v. time_new factor (s64 (a + v))) (Value factor b)"

definition time_minus :: "nat \<Rightarrow> time_data \<Rightarrow> time_data \<Rightarrow> time_data option" where
  "time_minus factor a b = map_option (\<lambda>v. time_new factor (s64 (a - v))) (Value factor b)"

definition time_neg :: "nat \<Rightarrow> time_data \<Rightarrow> time_data" where
  "time_neg factor a = time_new factor (s64 (- a))"

definition time_mult :: "nat \<Rightarrow> time_data \<Rightarrow> int \<Rightarrow> time_data" where
  "time_mult factor a k = time_new factor (s64 (a * k))"

definition time_div :: "nat \<Rightarrow> time_data \<Rightarrow> int \<Rightarrow> time_data option" where
  "time_div factor a k = (if k = 0 then None else Some (time_new factor (s64 (c_div a k))))"

subsection \<open>Milliseconds\<close>

lemma s64_u64 [simp]: "s64 (u64 x) = s64 x"
  by (simp add: s64_def u64_def mod_add_left_eq)

lemma ms_new: "- (2 ^ 63) \<le> x \<Longrightarrow> x < 2 ^ 63 \<Longrightarrow> time_new ms_factor x = x"
  by (simp add: time_new_def ms_factor_def s64_id)

lemma ms_Value: "- (2 ^ 63) \<le> x \<Longrightarrow> x < 2 ^ 63 \<Longrightarrow> Value ms_factor x = Some x"
  by (simp add: Value_def ms_factor_def CheckData_def s64_id)

text \<open>On milliseconds every operator computes what its name says, while nothing overflows.\<close>

lemma ms_operators:
  assumes "- (2 ^ 63) \<le> a" "a < 2 ^ 63" "- (2 ^ 63) \<le> b" "b < 2 ^ 63"
  shows "- (2 ^ 63) \<le> a + b \<Longrightarrow> a + b < 2 ^ 63 \<Longrightarrow> time_plus ms_factor a b = Some (a + b)"
    and "- (2 ^ 63) \<le> a - b \<Longrightarrow> a - b < 2 ^ 63 \<Longrightarrow> time_minus ms_factor a b = Some (a - b)"
    and "- (2 ^ 63) \<le> a * k \<Longrightarrow> a * k < 2 ^ 63 \<Longrightarrow> time_mult ms_factor a k = a * k"
    and "- (2 ^ 63) < a \<Longrightarrow> time_neg ms_factor a = - a"
  using assms
  by (simp_all add: time_plus_def time_minus_def time_mult_def time_neg_def ms_Value s64_id ms_new)

subsection \<open>The other units\<close>

lemma Value_new:
  assumes "0 < factor" "0 \<le> x" "x * int factor < 2 ^ 63"
  shows "Value factor (time_new factor x) = Some x"
proof -
  have x: "x \<le> x * int factor" using assms(1,2) by (simp add: mult_le_cancel_left1)
  have "0 \<le> x * int factor" using assms(1,2) by (intro mult_nonneg_nonneg) simp_all
  then have "time_new factor x = x * int factor"
    using assms(3) by (simp add: time_new_def s64_nonneg)
  moreover have "u64 (x * int factor) = x * int factor"
    using assms by (intro u64_id) simp_all
  ultimately show ?thesis
    using assms x by (simp add: Value_def CheckData_def s64_id)
qed

lemma time_plus_units:
  assumes "0 < factor" "0 \<le> x" "0 \<le> y" "y * int factor < 2 ^ 63"
    and "(x * int factor + y) * int factor < 2 ^ 63"
  shows "time_plus factor (time_new factor x) (time_new factor y)
           = Some ((x * int factor + y) * int factor)"
proof -
  have f: "(1 :: int) \<le> int factor" using assms(1) by simp
  have "x * int factor + y \<le> (x * int factor + y) * int factor"
    using mult_left_mono [OF f, of "x * int factor + y"] assms by simp
  moreover from this have "x * int factor < 2 ^ 63" using assms by linarith
  moreover have "0 \<le> x * int factor" "0 \<le> (x * int factor + y) * int factor"
    using assms(2,3) by (intro mult_nonneg_nonneg add_nonneg_nonneg; simp)+
  ultimately have "s64 (x * int factor) = x * int factor"
    "s64 (x * int factor + y) = x * int factor + y"
    "s64 ((x * int factor + y) * int factor) = (x * int factor + y) * int factor"
    using assms by (simp_all add: s64_nonneg)
  then show ?thesis using assms by (simp add: time_plus_def Value_new) (simp add: time_new_def)
qed

subsection \<open>Properties\<close>

text \<open>
  \<open>operator+\<close> on two values of a unit with factor \<open>f\<close> is right only where \<open>f\<close> is 1 or the
  left operand is zero: the result is built from the left operand's milliseconds as if they
  were units, so one second plus one second is 1001 seconds.
\<close>

theorem time_plus_correct_iff:
  assumes "0 < factor" "0 \<le> x" "0 \<le> y" "y * int factor < 2 ^ 63"
    and "(x * int factor + y) * int factor < 2 ^ 63"
  shows "time_plus factor (time_new factor x) (time_new factor y) = Some (time_new factor (x + y))
     \<longleftrightarrow> factor = 1 \<or> x = 0"
proof -
  have f: "(1 :: int) \<le> int factor" using assms(1) by simp
  have "(x + y) * int factor \<le> (x * int factor + y) * int factor"
    using mult_left_mono [OF f, of x] assms(2) by (intro mult_right_mono) simp_all
  moreover have "0 \<le> (x + y) * int factor"
    using assms(2,3) by (intro mult_nonneg_nonneg) simp_all
  ultimately have "time_new factor (x + y) = (x + y) * int factor"
    using assms(5) by (simp add: time_new_def s64_nonneg)
  moreover have "(x * int factor + y) * int factor = (x + y) * int factor \<longleftrightarrow> factor = 1 \<or> x = 0"
    using assms(1) by auto
  ultimately show ?thesis using time_plus_units [OF assms] by simp
qed

theorem time_plus_correct_iff_witness:
  "time_plus sec_factor (time_new sec_factor 1) (time_new sec_factor 1)
     \<noteq> Some (time_new sec_factor 2)"
  using time_plus_correct_iff [of sec_factor 1 1] by (simp add: sec_factor_def)

text \<open>
  \<open>Value\<close> of a non-negative number of units gives that number back; of a negative number
  of seconds, minutes or hours it aborts, since the remainder is taken in unsigned arithmetic
  and \<open>2 ^ 64\<close> is not a multiple of the factor.
\<close>

theorem Value_of_units:
  assumes "factor = sec_factor \<or> factor = min_factor \<or> factor = hour_factor"
    and "- (2 ^ 63) \<le> x * int factor" "x * int factor < 2 ^ 63"
  shows "Value factor (time_new factor x) = (if 0 \<le> x then Some x else None)"
proof (cases "0 \<le> x")
  case True
  have "0 < factor" using assms(1) by (auto simp: sec_factor_def min_factor_def hour_factor_def)
  then show ?thesis using True assms(3) by (simp add: Value_new)
next
  case False
  have f: "0 < int factor" "2 ^ 64 mod int factor \<noteq> 0"
    using assms(1) by (auto simp: sec_factor_def min_factor_def hour_factor_def)
  have "x * int factor < 0" using False f(1) by (simp add: mult_neg_pos)
  then have "u64 (x * int factor) = x * int factor + 2 ^ 64"
    using assms(2) by (intro u64_neg) simp_all
  then have "u64 (x * int factor) mod int factor = 2 ^ 64 mod int factor"
    by (simp add: mod_mult_self3)
  then show ?thesis
    using False f(2) assms(2,3) by (simp add: Value_def CheckData_def time_new_def s64_id)
qed

theorem Value_of_units_witness: "Value sec_factor (time_new sec_factor (- 1)) = None"
  using Value_of_units [of sec_factor "- 1"] by (simp add: sec_factor_def)

end
