(* ===== verification/AudioFormat.thy ===== *)
theory AudioFormat
  imports TimeClass
begin

text \<open>
  \<open>src/src/core/audio/audio_common_types_define.h\<close>, \<open>audio_format_util.cc\<close> and
  \<open>audio_format_define.cc\<close>: the audio format of a stream and the conversions between durations
  and sizes. \<open>None\<close> is a division by zero. Logging is not modelled.
\<close>

datatype VadStatus = kVadStatusNone | kVadStatusPassive | kVadStatusActive

datatype AudioSampleRate = RateNull | kSampleRate8k | kSampleRate16k | kSampleRate32k
  | kSampleRate44dot1k | kSampleRate48k

datatype AudioChannelLayout = LayoutNull | kMono | kStereo

datatype AudioSampleFormat = kAudioSampleFormatNone | kAudioSampleFormatPcmInt16
  | kAudioSampleFormatPcmFloat | kAudioSampleFormatPcmInt16Planar | kAudioSampleFormatPcmFloatPlanar

fun AudioSampleFormat_int :: "AudioSampleFormat \<Rightarrow> int" where
  "AudioSampleFormat_int kAudioSampleFormatNone = - 1"
| "AudioSampleFormat_int kAudioSampleFormatPcmInt16 = 0"
| "AudioSampleFormat_int kAudioSampleFormatPcmFloat = 1"
| "AudioSampleFormat_int kAudioSampleFormatPcmInt16Planar = 101"
| "AudioSampleFormat_int kAudioSampleFormatPcmFloatPlanar = 102"

subsection \<open>The tables of audio_format_util.cc\<close>

definition kPlanarIndexStart :: int where
  "kPlanarIndexStart = AudioSampleFormat_int kAudioSampleFormatPcmInt16Planar"

definition kSampleRateToInt :: "(AudioSampleRate \<times> int) list" where
  "kSampleRateToInt = [(RateNull, 0), (kSampleRate8k, 8000), (kSampleRate16k, 16000),
     (kSampleRate32k, 32000), (kSampleRate44dot1k, 44100), (kSampleRate48k, 48000)]"

definition kChannelLayoutToInt :: "(AudioChannelLayout \<times> int) list" where
  "kChannelLayoutToInt = [(LayoutNull, 0), (kMono, 1), (kStereo, 2)]"

definition kAudioSampleFormatName :: "(AudioSampleFormat \<times> string) list" where
  "kAudioSampleFormatName =
     [(kAudioSampleFormatPcmInt16, ''kPcmInt16''), (kAudioSampleFormatPcmFloat, ''kPcmFloat''),
      (kAudioSampleFormatPcmFloatPlanar, ''kPcmFloatPlanar''),
      (kAudioSampleFormatPcmInt16Planar, ''kPcmInt16Planar''),
      (kAudioSampleFormatNone, ''kAudioSampleFormatNone'')]"

definition kIntToSampleRate :: "(int \<times> AudioSampleRate) list" where
  "kIntToSampleRate = [(8000, kSampleRate8k), (16000, kSampleRate16k), (32000, kSampleRate32k),
     (44100, kSampleRate44dot1k), (48000, kSampleRate48k)]"

definition kIntToChannelLayout :: "(int \<times> AudioChannelLayout) list" where
  "kIntToChannelLayout = [(1, kMono), (2, kStereo)]"

definition kAudioSampleFormatSizeMap :: "(AudioSampleFormat \<times> nat) list" where
  "kAudioSampleFormatSizeMap =
     [(kAudioSampleFormatPcmInt16, 2), (kAudioSampleFormatPcmInt16Planar, 2),
      (kAudioSampleFormatPcmFloat, 4), (kAudioSampleFormatPcmFloatPlanar, 4)]"

definition kAudioSampleFormatAllArray :: "AudioSampleFormat list" where
  "kAudioSampleFormatAllArray = [kAudioSampleFormatPcmInt16, kAudioSampleFormatPcmFloat,
     kAudioSampleFormatPcmInt16Planar, kAudioSampleFormatPcmFloatPlanar]"

definition kPlanarToInterleaved :: "(AudioSampleFormat \<times> AudioSampleFormat) list" where
  "kPlanarToInterleaved =
     [(kAudioSampleFormatPcmInt16Planar, kAudioSampleFormatPcmInt16),
      (kAudioSampleFormatPcmFloatPlanar, kAudioSampleFormatPcmFloat)]"

definition IntToAudioSampleRate :: "int \<Rightarrow> AudioSampleRate" where
  "IntToAudioSampleRate sample_rate_hz = ArrayFind kIntToSampleRate sample_rate_hz RateNull"

definition IntToAudioChannelLayout :: "int \<Rightarrow> AudioChannelLayout" where
  "IntToAudioChannelLayout num_channels = ArrayFind kIntToChannelLayout num_channels LayoutNull"

definition AudioChannlsLayoutToInt :: "AudioChannelLayout \<Rightarrow> int" where
  "AudioChannlsLayoutToInt layout = ArrayFind kChannelLayoutToInt layout 0"

definition AudioSampleRateToInt :: "AudioSampleRate \<Rightarrow> int" where
  "AudioSampleRateToInt rate = ArrayFind kSampleRateToInt rate 0"

definition AudioSampleFormatName :: "AudioSampleFormat \<Rightarrow> string" where
  "AudioSampleFormatName fmt = ArrayFind kAudioSampleFormatName fmt ''AudioSampleFormatNone''"

definition IsPlanar :: "AudioSampleFormat \<Rightarrow> bool" where
  "IsPlanar fmt = (kPlanarIndexStart \<le> AudioSampleFormat_int fmt)"

definition PlanarToInterleaved :: "AudioSampleFormat \<Rightarrow> AudioSampleFormat" where
  "PlanarToInterleaved fmt =
     (if \<not> IsPlanar fmt then fmt else ArrayFind kPlanarToInterleaved fmt kAudioSampleFormatNone)"

definition ByteSizePerSample :: "AudioSampleFormat \<Rightarrow> nat" where
  "ByteSizePerSample fmt = ArrayFind kAudioSampleFormatSizeMap fmt 0"

definition ValidSampleRate :: "int \<Rightarrow> bool" where
  "ValidSampleRate sample_rate_hz = (ArrayFind kIntToSampleRate sample_rate_hz RateNull \<noteq> RateNull)"

definition ValidChannel :: "int \<Rightarrow> bool" where
  "ValidChannel channels = (ArrayFind kIntToChannelLayout channels LayoutNull \<noteq> LayoutNull)"

lemmas format_tables = kSampleRateToInt_def kChannelLayoutToInt_def kAudioSampleFormatName_def
  kIntToSampleRate_def kIntToChannelLayout_def kAudioSampleFormatSizeMap_def
  kPlanarToInterleaved_def kPlanarIndexStart_def

lemmas format_lookups = IntToAudioSampleRate_def IntToAudioChannelLayout_def
  AudioChannlsLayoutToInt_def AudioSampleRateToInt_def AudioSampleFormatName_def IsPlanar_def
  PlanarToInterleaved_def ByteSizePerSample_def ValidSampleRate_def ValidChannel_def

subsection \<open>AudioFormatInfo\<close>

record AudioFormatInfo =
  sample_rate_hz :: AudioSampleRate
  channel_layout :: AudioChannelLayout
  audio_sample_format :: AudioSampleFormat

definition kNullAudioFormatInfo :: AudioFormatInfo where
  "kNullAudioFormatInfo =
     \<lparr>sample_rate_hz = RateNull, channel_layout = LayoutNull,
      audio_sample_format = kAudioSampleFormatNone\<rparr>"

definition AudioFormatInfo_new :: "int \<Rightarrow> int \<Rightarrow> AudioSampleFormat \<Rightarrow> AudioFormatInfo" where
  "AudioFormatInfo_new sample_rate channels sample_format =
     \<lparr>sample_rate_hz = IntToAudioSampleRate sample_rate,
      channel_layout = IntToAudioChannelLayout channels, audio_sample_format = sample_format\<rparr>"

definition k48kStereoPcm16 :: AudioFormatInfo where
  "k48kStereoPcm16 = \<lparr>sample_rate_hz = kSampleRate48k, channel_layout = kStereo,
     audio_sample_format = kAudioSampleFormatPcmInt16\<rparr>"

definition k48kMonoPcm16 :: AudioFormatInfo where
  "k48kMonoPcm16 = \<lparr>sample_rate_hz = kSampleRate48k, channel_layout = kMono,
     audio_sample_format = kAudioSampleFormatPcmInt16\<rparr>"

definition k16kStereoPcm16 :: AudioFormatInfo where
  "k16kStereoPcm16 = \<lparr>sample_rate_hz = kSampleRate16k, channel_layout = kStereo,
     audio_sample_format = kAudioSampleFormatPcmInt16\<rparr>"

definition k16kMonoPcm16 :: AudioFormatInfo where
  "k16kMonoPcm16 = \<lparr>sample_rate_hz = kSampleRate16k, channel_layout = kMono,
     audio_sample_format = kAudioSampleFormatPcmInt16\<rparr>"

definition format_eq :: "AudioFormatInfo \<Rightarrow> AudioFormatInfo \<Rightarrow> bool" where
  "format_eq f info \<longleftrightarrow> sample_rate_hz f = sample_rate_hz info \<and>
     channel_layout f = channel_layout info \<and> audio_sample_format f = audio_sample_format info"

definition SetSampleRate :: "AudioFormatInfo \<Rightarrow> int \<Rightarrow> AudioFormatInfo" where
  "SetSampleRate f sample_rate = f\<lparr>sample_rate_hz := IntToAudioSampleRate sample_rate\<rparr>"

definition SetChannels :: "AudioFormatInfo \<Rightarrow> int \<Rightarrow> AudioFormatInfo" where
  "SetChannels f channels = f\<lparr>channel_layout := IntToAudioChannelLayout channels\<rparr>"

definition SetSampleFormat :: "AudioFormatInfo \<Rightarrow> AudioSampleFormat \<Rightarrow> AudioFormatInfo" where
  "SetSampleFormat f sample_format = f\<lparr>audio_sample_format := sample_format\<rparr>"

definition ResetFormat :: "AudioFormatInfo \<Rightarrow> AudioFormatInfo \<Rightarrow> AudioFormatInfo" where
  "ResetFormat f info = f\<lparr>sample_rate_hz := sample_rate_hz info,
     channel_layout := channel_layout info, audio_sample_format := audio_sample_format info\<rparr>"

definition GetSampleRateToInt :: "AudioFormatInfo \<Rightarrow> int" where
  "GetSampleRateToInt f = AudioSampleRateToInt (sample_rate_hz f)"

definition GetChannelsCount :: "AudioFormatInfo \<Rightarrow> int" where
  "GetChannelsCount f = AudioChannlsLayoutToInt (channel_layout f)"

definition ByteSizePerFrame :: "AudioFormatInfo \<Rightarrow> nat" where
  "ByteSizePerFrame f =
     umul (size_of_int (GetChannelsCount f)) (ByteSizePerSample (audio_sample_format f))"

definition MaybeSameAudioFormat :: "AudioFormatInfo \<Rightarrow> int \<Rightarrow> int \<Rightarrow> bool" where
  "MaybeSameAudioFormat f rate_hz channels \<longleftrightarrow>
     IntToAudioSampleRate rate_hz = sample_rate_hz f \<and>
     IntToAudioChannelLayout channels = channel_layout f"

definition IsPlanner :: "AudioFormatInfo \<Rightarrow> bool" where
  "IsPlanner f = IsPlanar (audio_sample_format f)"

text \<open>Durations are the \<open>data_\<close> of a \<open>MillisecondsClass\<close>, whose \<open>Value()\<close> is \<open>data_\<close> itself.\<close>

definition AudioMsToFrameSize :: "AudioFormatInfo \<Rightarrow> time_data \<Rightarrow> nat" where
  "AudioMsToFrameSize f time_ms = size_of_int (GetSampleRateToInt f * time_ms) div 1000"

definition AudioMsToSampleSize :: "AudioFormatInfo \<Rightarrow> time_data \<Rightarrow> nat" where
  "AudioMsToSampleSize f time_ms =
     umul (AudioMsToFrameSize f time_ms) (size_of_int (GetChannelsCount f))"

definition AudioMsToByteSize :: "AudioFormatInfo \<Rightarrow> time_data \<Rightarrow> nat" where
  "AudioMsToByteSize f time_ms =
     umul (AudioMsToSampleSize f time_ms) (ByteSizePerSample (audio_sample_format f))"

definition AudioFrameSizeToMs :: "AudioFormatInfo \<Rightarrow> nat \<Rightarrow> time_data option" where
  "AudioFrameSizeToMs f frames =
     (if GetSampleRateToInt f = 0 then None
      else Some (time_new ms_factor
             (c_div (s64 (int (umul frames 1000))) (GetSampleRateToInt f))))"

definition AudioSampleSizeToMs :: "AudioFormatInfo \<Rightarrow> nat \<Rightarrow> time_data option" where
  "AudioSampleSizeToMs f samples =
     (if size_of_int (GetChannelsCount f) = 0 then None
      else AudioFrameSizeToMs f (samples div size_of_int (GetChannelsCount f)))"

definition AudioByteSizeToMs :: "AudioFormatInfo \<Rightarrow> nat \<Rightarrow> time_data option" where
  "AudioByteSizeToMs f bytes =
     (if ByteSizePerFrame f = 0 then None else AudioFrameSizeToMs f (bytes div ByteSizePerFrame f))"

definition AudioConvertByteSize :: "AudioFormatInfo \<Rightarrow> AudioFormatInfo \<Rightarrow> nat \<Rightarrow> nat option" where
  "AudioConvertByteSize f src_format src_size =
     (if AudioMsToByteSize src_format (time_literal ms_factor 100) = 0 then None
      else Some (umul src_size (AudioMsToByteSize f (time_literal ms_factor 100))
                 div AudioMsToByteSize src_format (time_literal ms_factor 100)))"

definition ValidSampleRateAndChannelCheck :: "AudioFormatInfo \<Rightarrow> bool" where
  "ValidSampleRateAndChannelCheck f \<longleftrightarrow> sample_rate_hz f \<noteq> RateNull \<and> channel_layout f \<noteq> LayoutNull"

definition ValidPcmCheck :: "AudioFormatInfo \<Rightarrow> bool" where
  "ValidPcmCheck f \<longleftrightarrow> sample_rate_hz f \<noteq> RateNull \<and> channel_layout f \<noteq> LayoutNull \<and>
     audio_sample_format f \<noteq> kAudioSampleFormatNone"

definition ValidPcmInt16Check :: "AudioFormatInfo \<Rightarrow> bool" where
  "ValidPcmInt16Check f \<longleftrightarrow> sample_rate_hz f \<noteq> RateNull \<and> channel_layout f \<noteq> LayoutNull \<and>
     audio_sample_format f = kAudioSampleFormatPcmInt16"

subsection \<open>Lemmas\<close>

lemma format_eq_iff [simp]: "format_eq f g \<longleftrightarrow> f = g"
  by (cases f; cases g) (auto simp: format_eq_def)

lemma rate_roundtrip: "IntToAudioSampleRate (AudioSampleRateToInt r) = r"
  by (cases r) (simp_all add: format_lookups format_tables)

lemma layout_roundtrip: "IntToAudioChannelLayout (AudioChannlsLayoutToInt l) = l"
  by (cases l) (simp_all add: format_lookups format_tables)

lemma ValidSampleRate_iff: "ValidSampleRate hz \<longleftrightarrow> hz \<in> {8000, 16000, 32000, 44100, 48000}"
  by (simp add: format_lookups format_tables)

lemma ValidChannel_iff: "ValidChannel c \<longleftrightarrow> c \<in> {1, 2}"
  by (simp add: format_lookups format_tables)

lemma PlanarToInterleaved_not_planar: "\<not> IsPlanar (PlanarToInterleaved fmt)"
  by (cases fmt) (simp_all add: format_lookups format_tables)

lemma PlanarToInterleaved_size: "ByteSizePerSample (PlanarToInterleaved fmt) = ByteSizePerSample fmt"
  by (cases fmt) (simp_all add: format_lookups format_tables)

lemma valid_rate:
  assumes "ValidPcmCheck f"
  shows "GetSampleRateToInt f \<in> {8000, 16000, 32000, 44100, 48000}"
  using assms by (cases "sample_rate_hz f")
    (simp_all add: ValidPcmCheck_def GetSampleRateToInt_def format_lookups format_tables)

lemma valid_channels:
  assumes "ValidPcmCheck f"
  shows "size_of_int (GetChannelsCount f) \<in> {1, 2}"
  using assms by (cases "channel_layout f")
    (simp_all add: ValidPcmCheck_def GetChannelsCount_def format_lookups format_tables size_of_int_def)

lemma valid_sample_size:
  assumes "ValidPcmCheck f"
  shows "ByteSizePerSample (audio_sample_format f) \<in> {2, 4}"
  using assms by (cases "audio_sample_format f")
    (simp_all add: ValidPcmCheck_def format_lookups format_tables)

lemma valid_frame_size:
  assumes "ValidPcmCheck f"
  shows "ByteSizePerFrame f \<in> {2, 4, 8}"
    "ByteSizePerFrame f = size_of_int (GetChannelsCount f) * ByteSizePerSample (audio_sample_format f)"
  using valid_channels [OF assms] valid_sample_size [OF assms]
  by (auto simp: ByteSizePerFrame_def umul_def)

lemma ms_to_frames:
  assumes "ValidPcmCheck f" and "0 \<le> t" and "t < 2 ^ 40"
  shows "AudioMsToFrameSize f t = nat (GetSampleRateToInt f * t) div 1000"
    "AudioMsToFrameSize f t < 2 ^ 50"
    "AudioMsToByteSize f t = AudioMsToFrameSize f t * ByteSizePerFrame f"
proof -
  let ?r = "GetSampleRateToInt f"
  have r: "0 < ?r" "?r \<le> 48000" using valid_rate [OF assms(1)] by auto
  have rt: "0 \<le> ?r * t" "?r * t \<le> 48000 * 2 ^ 40"
    using r assms(2,3) mult_mono [of ?r 48000 t "2 ^ 40"] by simp_all
  show fr: "AudioMsToFrameSize f t = nat (?r * t) div 1000"
    using rt by (simp add: AudioMsToFrameSize_def size_of_int_id)
  have "nat (?r * t) \<le> 48000 * 2 ^ 40" using rt by (simp add: nat_le_iff)
  then show lt: "AudioMsToFrameSize f t < 2 ^ 50" unfolding fr by simp
  show "AudioMsToByteSize f t = AudioMsToFrameSize f t * ByteSizePerFrame f"
    using lt valid_channels [OF assms(1)] valid_sample_size [OF assms(1)]
      valid_frame_size [OF assms(1)]
    by (auto simp: AudioMsToByteSize_def AudioMsToSampleSize_def umul_id)
qed

lemma frames_to_ms:
  assumes "ValidPcmCheck f" and "n < 2 ^ 50"
  shows "AudioFrameSizeToMs f n = Some (int n * 1000 div GetSampleRateToInt f)"
proof -
  have r: "0 < GetSampleRateToInt f" using valid_rate [OF assms(1)] by auto
  have "int n * 1000 div GetSampleRateToInt f \<le> int n * 1000"
    using zdiv_mono2 [of "int n * 1000" 1 "GetSampleRateToInt f"] r by simp
  then show ?thesis
    using r assms(2) pos_imp_zdiv_nonneg_iff [OF r, of "int n * 1000"]
    by (simp add: AudioFrameSizeToMs_def umul_id s64_nonneg c_div_nonneg ms_factor_def time_new_def)
qed

lemma rate_values:
  "sample_rate_hz f = kSampleRate8k \<Longrightarrow> GetSampleRateToInt f = 8000"
  "sample_rate_hz f = kSampleRate16k \<Longrightarrow> GetSampleRateToInt f = 16000"
  "sample_rate_hz f = kSampleRate32k \<Longrightarrow> GetSampleRateToInt f = 32000"
  "sample_rate_hz f = kSampleRate44dot1k \<Longrightarrow> GetSampleRateToInt f = 44100"
  "sample_rate_hz f = kSampleRate48k \<Longrightarrow> GetSampleRateToInt f = 48000"
  by (simp_all add: GetSampleRateToInt_def format_lookups format_tables)

lemma scaled_div: "0 < k \<Longrightarrow> (k * 1000) * t div 1000 * 1000 div (k * 1000) = (t :: int)"
proof -
  assume k: "0 < k"
  have "(k * 1000) * t div 1000 = k * t" by (simp add: mult.assoc mult.left_commute [of k])
  then show ?thesis using k by (simp add: mult.assoc mult.left_commute [of k])
qed

lemma rate_rounding:
  fixes t :: int
  shows "8000 * t div 1000 * 1000 div 8000 = t" "16000 * t div 1000 * 1000 div 16000 = t"
    "32000 * t div 1000 * 1000 div 32000 = t" "48000 * t div 1000 * 1000 div 48000 = t"
    "t - 1 \<le> 44100 * t div 1000 * 1000 div 44100" "44100 * t div 1000 * 1000 div 44100 \<le> t"
proof -
  show "8000 * t div 1000 * 1000 div 8000 = t" "16000 * t div 1000 * 1000 div 16000 = t"
    "32000 * t div 1000 * 1000 div 32000 = t" "48000 * t div 1000 * 1000 div 48000 = t"
    using scaled_div [of 8 t] scaled_div [of 16 t] scaled_div [of 32 t] scaled_div [of 48 t] by simp_all
  define q where "q = 44100 * t div 1000"
  define r where "r = q * 1000 div 44100"
  have q: "1000 * q \<le> 44100 * t" "44100 * t < 1000 * q + 1000"
    using mult_div_mod_eq [of 1000 "44100 * t"] pos_mod_bound [of 1000 "44100 * t"]
      pos_mod_sign [of 1000 "44100 * t"] unfolding q_def by linarith+
  have r: "44100 * r \<le> 1000 * q" "1000 * q < 44100 * r + 44100"
    using mult_div_mod_eq [of 44100 "q * 1000"] pos_mod_bound [of 44100 "q * 1000"]
      pos_mod_sign [of 44100 "q * 1000"] unfolding r_def by linarith+
  have "t - 1 \<le> r" "r \<le> t" using q r by linarith+
  then show "t - 1 \<le> 44100 * t div 1000 * 1000 div 44100" "44100 * t div 1000 * 1000 div 44100 \<le> t"
    unfolding r_def q_def by simp_all
qed

subsection \<open>Properties\<close>

text \<open>
  for a valid format, converting a duration to bytes and back loses at most one
  millisecond, and nothing at all except at 44100 Hz; the number of bytes is a whole number of
  frames.
\<close>

theorem ms_bytes_roundtrip:
  assumes "ValidPcmCheck f" and "0 \<le> t" and "t < 2 ^ 40"
  shows "\<exists>r. AudioByteSizeToMs f (AudioMsToByteSize f t) = Some r \<and> t - 1 \<le> r \<and> r \<le> t \<and>
     (sample_rate_hz f = kSampleRate44dot1k \<or> r = t) \<and>
     AudioMsToByteSize f t mod ByteSizePerFrame f = 0"
proof -
  note fr_ms = ms_to_frames [OF assms]
  have pf: "0 < ByteSizePerFrame f" using valid_frame_size(1) [OF assms(1)] by auto
  let ?R = "GetSampleRateToInt f"
  let ?r = "int (AudioMsToFrameSize f t) * 1000 div ?R"
  have rt: "AudioByteSizeToMs f (AudioMsToByteSize f t) = Some ?r"
    using pf fr_ms frames_to_ms [OF assms(1) fr_ms(2)] by (simp add: AudioByteSizeToMs_def)
  have fr_int: "int (AudioMsToFrameSize f t) = ?R * t div 1000"
    using fr_ms(1) assms(2) valid_rate [OF assms(1)] by (auto simp: zdiv_int)
  have "t - 1 \<le> ?r \<and> ?r \<le> t \<and> (sample_rate_hz f = kSampleRate44dot1k \<or> ?r = t)"
    unfolding fr_int using rate_rounding [of t] assms(1)
    by (cases "sample_rate_hz f") (simp_all add: ValidPcmCheck_def rate_values)
  then show ?thesis using rt fr_ms(3) by auto
qed

theorem ms_bytes_roundtrip_witness:
  "\<exists>r. AudioByteSizeToMs k48kStereoPcm16 (AudioMsToByteSize k48kStereoPcm16 20) = Some r \<and> r = 20"
proof -
  have "ValidPcmCheck k48kStereoPcm16" by (simp add: ValidPcmCheck_def k48kStereoPcm16_def)
  from ms_bytes_roundtrip [OF this, of 20] show ?thesis by (auto simp: k48kStereoPcm16_def)
qed

end
