(* ===== verification/AudioSource.thy ===== *)
theory AudioSource
  imports Prelude
begin

text \<open>
  \<open>src/src/core/audio/audio_io_define.h\<close>: the interface \<open>AudioRawSource\<close> that the renderer, the mixer
  and the resampler read from. \<open>SourceStatus\<close> says whether more data may come. The locale states
  what a reader may rely on while the sizes fit the \<open>int\<close>s of the implementations: a read hands out
  the front of a stream of bytes, and the size is the length of that stream.
\<close>

datatype SourceStatus = kStreaming | kStatic | SourceError

text \<open>A sequence of reads and all the bytes that it hands out.\<close>

fun read_all :: "('s \<Rightarrow> nat \<Rightarrow> ('s \<times> byte list) option) \<Rightarrow> 's \<Rightarrow> nat list \<Rightarrow> ('s \<times> byte list) option" where
  "read_all read_op s [] = Some (s, [])"
| "read_all read_op s (n # ns) =
     do {
       (s1, xs) \<leftarrow> read_op s n;
       (s2, ys) \<leftarrow> read_all read_op s1 ns;
       Some (s2, xs @ ys)
     }"

locale raw_source =
  fixes source_ok :: "'s \<Rightarrow> bool"
    and source_stream :: "'s \<Rightarrow> byte list"
    and source_read :: "'s \<Rightarrow> nat \<Rightarrow> ('s \<times> byte list) option"
    and source_size :: "'s \<Rightarrow> nat"
  assumes read_front: "source_ok s \<Longrightarrow> 0 < n \<Longrightarrow> n < 2 ^ 29 \<Longrightarrow>
      \<exists>s'. source_read s n = Some (s', take n (source_stream s)) \<and> source_ok s' \<and>
        source_stream s' = drop n (source_stream s)"
    and size_stream: "source_ok s \<Longrightarrow> source_size s = length (source_stream s)"
begin

lemma reads_stream:
  assumes "source_ok s" and "\<forall>n\<in>set ns. 0 < n \<and> n < 2 ^ 29"
  shows "\<exists>s'. read_all source_read s ns = Some (s', take (sum_list ns) (source_stream s)) \<and>
     source_ok s' \<and> source_stream s' = drop (sum_list ns) (source_stream s)"
  using assms
proof (induction ns arbitrary: s)
  case Nil
  then show ?case by simp
next
  case (Cons n ns)
  have n: "0 < n" "n < 2 ^ 29" using Cons.prems(2) by simp_all
  from read_front [OF Cons.prems(1) n] obtain s1 where
    s1: "source_read s n = Some (s1, take n (source_stream s))" "source_ok s1"
      "source_stream s1 = drop n (source_stream s)"
    by blast
  from Cons.IH [OF s1(2)] Cons.prems(2) obtain s2 where
    "read_all source_read s1 ns = Some (s2, take (sum_list ns) (source_stream s1))" "source_ok s2"
      "source_stream s2 = drop (sum_list ns) (source_stream s1)"
    by auto
  then show ?case using s1 by (auto simp: take_add add.commute)
qed

lemma reads_bounded:
  assumes "source_ok s" and "\<forall>n\<in>set ns. 0 < n \<and> n < 2 ^ 29"
    and "read_all source_read s ns = Some (s', xs)"
  shows "length xs = min (sum_list ns) (source_size s)" "source_size s' = source_size s - length xs"
  using reads_stream [OF assms(1,2)] assms(3) size_stream [OF assms(1)] size_stream [of s'] by auto

end

end
