(* ===== verification/CommonReader.thy ===== *)
theory CommonReader
  imports RingBufferWrapper AudioFormat AudioSource
begin

text \<open>
  \<open>src/src/core/audio/audio_buffer_common_reader.cc\<close>: reading from one byte queue per channel
  (planar formats) or from a single one, with a signed amount that is still to be skipped
  (positive: bytes to drop when they arrive) or to be filled with zeros (negative).

  The derived class divides by the number of queues before it constructs them, so the vector is
  never empty. \<open>CheckStatus\<close> is not overridden anywhere and does nothing; \<open>ReadForInterweave\<close> is
  never called. \<open>None\<close> is a division by zero, a \<open>NULL\<close> dereference or an endless loop.
\<close>

record common_reader =
  status :: SourceStatus
  should_seek_size :: int
  circular_buffer_vec :: "ring_buffer_wrapper list"

definition common_reader_new :: "nat \<Rightarrow> nat \<Rightarrow> bool \<Rightarrow> common_reader" where
  "common_reader_new buffer_count buffer_capacity auto_expand =
     \<lparr>status = kStreaming, should_seek_size = 0,
      circular_buffer_vec =
        replicate buffer_count (RingBufferWrapper_new buffer_capacity auto_expand kMaxBufferSize)\<rparr>"

abbreviation buffer_count :: "'a common_reader_scheme \<Rightarrow> nat" where
  "buffer_count c \<equiv> length (circular_buffer_vec c)"

definition GetSingleBufferMinSize :: "'a common_reader_scheme \<Rightarrow> nat" where
  "GetSingleBufferMinSize c =
     foldl (\<lambda>min_size i. min min_size (BufferCurrentSize (circular_buffer_vec c ! 1)))
       (BufferCurrentSize (circular_buffer_vec c ! 0)) [1..<buffer_count c]"

definition CurrentSizeInternal :: "'a common_reader_scheme \<Rightarrow> nat" where
  "CurrentSizeInternal c =
     (if should_seek_size c < int_of_size (GetSingleBufferMinSize c)
      then umul (usub (GetSingleBufferMinSize c) (size_of_int (should_seek_size c))) (buffer_count c)
      else 0)"

text \<open>
  \<open>ReadForPlanner\<close>, with \<open>off\<close> the distance of \<open>read_ptr\<close> from the start of the caller's block.
\<close>

definition read_one :: "ring_buffer_wrapper \<Rightarrow> byte list \<Rightarrow> nat \<Rightarrow> nat \<Rightarrow> ring_buffer_wrapper \<times> byte list" where
  "read_one w data off n =
     (case BufferRead w (Some (drop off data)) n of (w', out, k) \<Rightarrow>
        (w', take off data @ the out))"

fun ReadForPlanner :: "int \<Rightarrow> int \<Rightarrow> nat \<Rightarrow> ring_buffer_wrapper list \<Rightarrow> byte list \<Rightarrow>
    ring_buffer_wrapper list \<times> byte list" where
  "ReadForPlanner seek_size read_size off [] data = ([], data)"
| "ReadForPlanner seek_size read_size off (w # ws) data =
     (let data1 = (if 0 < seek_size then mem_write data off (replicate (nat seek_size) 0) else data);
          off1 = (if 0 < seek_size then off + nat seek_size else off);
          (w', data2) = read_one w data1 off1 (size_of_int read_size);
          (ws', data3) = ReadForPlanner seek_size read_size (off1 + nat read_size) ws data2
      in (w' # ws', data3))"

definition BaseRead :: "'a common_reader_scheme \<Rightarrow> byte list option \<Rightarrow> nat \<Rightarrow>
    ('a common_reader_scheme \<times> byte list option \<times> nat) option" where
  "BaseRead c data_ptr data_size =
     (case data_ptr of
        None \<Rightarrow> Some (c, None, 0)
      | Some data \<Rightarrow>
          if data_size = 0 then Some (c, data_ptr, 0)
          else if buffer_count c = 0 then None
          else if data_size mod buffer_count c \<noteq> 0 then Some (c, data_ptr, 0)
          else
            (let read0 = data_size div buffer_count c;
                 seek = (if should_seek_size c < 0
                         then min read0 (size_of_int (s32 (- should_seek_size c))) else 0);
                 read1 = usub read0 seek;
                 c1 = (if should_seek_size c < 0
                       then c\<lparr>should_seek_size := s32 (should_seek_size c + int_of_size seek)\<rparr> else c);
                 read2 = min (CurrentSizeInternal c1) read1;
                 (ws, data') = ReadForPlanner (int_of_size seek) (int_of_size read2) 0
                                 (circular_buffer_vec c1) data
             in Some (c1\<lparr>circular_buffer_vec := ws\<rparr>, Some data',
                      umul (uadd seek read2) (buffer_count c))))"

definition BaseDiscardDataSizeInByte :: "'a common_reader_scheme \<Rightarrow> nat \<Rightarrow>
    ('a common_reader_scheme \<times> int) option" where
  "BaseDiscardDataSizeInByte c byte_size =
     (if buffer_count c = 0 then None
      else if byte_size mod buffer_count c \<noteq> 0 then Some (c, - 1)
      else
        (let seek1 = s32 (should_seek_size c + int_of_size (byte_size div buffer_count c));
             can_seek = min (int_of_size (GetSingleBufferMinSize c)) seek1
         in Some (if 0 < seek1
                  then c\<lparr>should_seek_size := s32 (seek1 - can_seek),
                         circular_buffer_vec :=
                           map (\<lambda>w. fst (BufferSeek w can_seek)) (circular_buffer_vec c)\<rparr>
                  else c\<lparr>should_seek_size := seek1\<rparr>,
                  int_of_size byte_size)))"

definition BaseFillZeroFront :: "'a common_reader_scheme \<Rightarrow> nat \<Rightarrow>
    ('a common_reader_scheme \<times> int) option" where
  "BaseFillZeroFront c data_size =
     (if status c = SourceError then Some (c, - 1)
      else if buffer_count c = 0 then None
      else if data_size mod buffer_count c \<noteq> 0 then Some (c, - 1)
      else Some (c\<lparr>should_seek_size := s32 (0 - int_of_size (data_size div buffer_count c))\<rparr>, 0))"

fun clear_all :: "ring_buffer_wrapper list \<Rightarrow> ring_buffer_wrapper list option" where
  "clear_all [] = Some []"
| "clear_all (w # ws) = do { w' \<leftarrow> Clear w; ws' \<leftarrow> clear_all ws; Some (w' # ws') }"

definition BaseReset :: "'a common_reader_scheme \<Rightarrow> ('a common_reader_scheme \<times> int) option" where
  "BaseReset c =
     do {
       ws \<leftarrow> clear_all (circular_buffer_vec c);
       Some (c\<lparr>circular_buffer_vec := ws, should_seek_size := 0, status := kStreaming\<rparr>, 0)
     }"

subsection \<open>A single queue\<close>

text \<open>
  With one queue the state is an abstract stream of readable bytes (pending zeros, then the
  contents of the queue) and a debt of bytes to drop as they arrive; a debt is only left when
  nothing is readable. \<open>single c w\<close> says that \<open>w\<close> is the only queue.
\<close>

definition single :: "'a common_reader_scheme \<Rightarrow> ring_buffer_wrapper \<Rightarrow> bool" where
  "single c w \<longleftrightarrow> circular_buffer_vec c = [w] \<and> wr_inv w \<and>
     - (2 ^ 30) < should_seek_size c \<and> should_seek_size c < 2 ^ 30 \<and>
     (0 < should_seek_size c \<longrightarrow> wr_contents w = [])"

definition stream :: "'a common_reader_scheme \<Rightarrow> byte list" where
  "stream c = replicate (nat (- should_seek_size c)) 0 @ wr_contents (hd (circular_buffer_vec c))"

definition debt :: "'a common_reader_scheme \<Rightarrow> nat" where
  "debt c = nat (should_seek_size c)"

lemma singleD:
  assumes "single c w"
  shows "circular_buffer_vec c = [w]" "wr_inv w" "- (2 ^ 30) < should_seek_size c"
    "should_seek_size c < 2 ^ 30" "0 < should_seek_size c \<Longrightarrow> wr_contents w = []"
    "buffer_count c = 1" "stream c = replicate (nat (- should_seek_size c)) 0 @ wr_contents w"
  using assms by (simp_all add: single_def stream_def)

lemma wr_views:
  assumes "wr_inv w"
  shows "BufferCurrentSize w = length (wr_contents w)" "length (wr_contents w) \<le> BufferCapacity w"
    "0 < BufferCapacity w" "BufferCapacity w < 2 ^ 30"
proof -
  obtain b where "buff_handle w = Some b" "byte_ring b" using assms by (rule wr_invE)
  from wrapper_views [OF this]
  show "BufferCurrentSize w = length (wr_contents w)" "length (wr_contents w) \<le> BufferCapacity w"
    "0 < BufferCapacity w" "BufferCapacity w < 2 ^ 30"
    by simp_all
qed

lemma single_min_size: "single c w \<Longrightarrow> GetSingleBufferMinSize c = length (wr_contents w)"
  by (simp add: GetSingleBufferMinSize_def singleD(1) wr_views(1) [OF singleD(2)])

lemma single_current_size:
  assumes "single c w"
  shows "CurrentSizeInternal c = length (stream c)"
proof -
  note S = singleD [OF assms] and V = wr_views [OF singleD(2) [OF assms]]
  have i: "int_of_size (length (wr_contents w)) = int (length (wr_contents w))"
    using V by (simp add: int_of_size_id)
  show ?thesis
  proof (cases "should_seek_size c < 0")
    case True
    have "size_of_int (should_seek_size c) = 2 ^ 64 - nat (- should_seek_size c)"
      using True S(3) u64_neg [of "should_seek_size c"]
      by (simp add: size_of_int_def u64_def nat_diff_distrib) 
    then have "usub (length (wr_contents w)) (size_of_int (should_seek_size c))
        = length (wr_contents w) + nat (- should_seek_size c)"
      using True S(3) V by (simp add: usub_def)
    then show ?thesis using True S V i
      by (simp add: CurrentSizeInternal_def single_min_size [OF assms] umul_id)
  next
    case False
    then show ?thesis using S V i
      by (cases "0 < should_seek_size c")
        (simp_all add: CurrentSizeInternal_def single_min_size [OF assms] size_of_int_id usub_id umul_id)
  qed
qed

lemma read_one_spec:
  assumes w: "wr_inv w" and room: "off + n \<le> length data"
  obtains w' where "read_one w data off n = (w', mem_write data off (take n (wr_contents w)))"
    "wr_inv w'" "wr_contents w' = drop n (wr_contents w)" "BufferCapacity w' = BufferCapacity w"
    "auto_adjust_capacity w' = auto_adjust_capacity w"
    "max_buffer_capacity w' = max_buffer_capacity w"
proof -
  obtain b where h: "buff_handle w = Some b" and b: "byte_ring b" using w by (rule wr_invE)
  note V = wrapper_views [OF h b]
  have inv: "rb_inv b" and es: "element_size b = 1" using b by (simp_all add: byte_ring_def)
  let ?k = "min (rb_used b) n"
  have k: "take ?k (rb_contents b) = take n (rb_contents b)" "drop ?k (rb_contents b) = drop n (rb_contents b)"
    using V by (auto simp: min_def)
  have "min (rb_used b) n * element_size b \<le> length (drop off data)"
    using es room by simp
  from read_buffer [OF inv this] obtain b' where
    R: "WebRtc_ReadBuffer (Some b) False (Some (drop off data)) n =
         (Some b', Some (mem_write (drop off data) 0 (take (?k * element_size b) (rb_contents b))), NullPtr, ?k)"
    and b': "rb_inv b'" "rb_contents b' = drop (?k * element_size b) (rb_contents b)"
      "element_count b' = element_count b" "element_size b' = element_size b"
    by blast
  let ?w = "w\<lparr>buff_handle := Some b'\<rparr>"
  have bb: "byte_ring b'" using b'(1,4) es by (simp add: byte_ring_def)
  have h': "buff_handle ?w = Some b'" by simp
  have "take off data @ mem_write (drop off data) 0 (take n (rb_contents b))
      = mem_write data off (take n (rb_contents b))"
    by (simp add: mem_write_def add.commute)
  then have "read_one w data off n = (?w, mem_write data off (take n (wr_contents w)))"
    using R h es V(1) k(1) by (simp add: read_one_def BufferRead_def)
  then show ?thesis
    using b' es V k(2) wrapper_views(1,2) [OF h' bb] w bb
    by (intro that [of ?w]) (simp_all add: wr_inv_def)
qed

lemma stream_split:
  "take n (replicate z 0 @ xs) = replicate (min n z) 0 @ take (n - z) xs"
  "drop n (replicate z 0 @ xs) = replicate (z - n) 0 @ drop (n - z) xs"
  by simp_all

lemma base_read_single:
  assumes s: "single c w" and n: "0 < n" "n < 2 ^ 30" and room: "n \<le> length data"
  obtains w' z where
    "BaseRead c (Some data) n =
       Some (c\<lparr>should_seek_size := z, circular_buffer_vec := [w']\<rparr>,
             Some (mem_write data 0 (take n (stream c))), min n (length (stream c)))"
    "single (c\<lparr>should_seek_size := z, circular_buffer_vec := [w']\<rparr>) w'"
    "stream (c\<lparr>should_seek_size := z, circular_buffer_vec := [w']\<rparr>) = drop n (stream c)"
    "nat z = debt c" "BufferCapacity w' = BufferCapacity w"
    "auto_adjust_capacity w' = auto_adjust_capacity w"
    "max_buffer_capacity w' = max_buffer_capacity w"
proof -
  note S = singleD [OF s] and V = wr_views [OF singleD(2) [OF s]]
  define z0 where "z0 = nat (- should_seek_size c)"
  define seek where "seek = min n z0"
  define z where "z = should_seek_size c + int seek"
  define k where "k = min (length (wr_contents w)) (n - z0)"
  have neg: "should_seek_size c < 0 \<Longrightarrow> size_of_int (s32 (- should_seek_size c)) = z0"
    using S(3) by (simp add: z0_def s32_id size_of_int_id)
  have seek_eq: "(if should_seek_size c < 0
       then min n (size_of_int (s32 (- should_seek_size c))) else 0) = seek"
    using neg by (simp add: seek_def z0_def)
  have seek_small: "int_of_size seek = int seek"
    using n(2) by (simp add: seek_def int_of_size_id)
  have c1: "(if should_seek_size c < 0
       then c\<lparr>should_seek_size := s32 (should_seek_size c + int seek)\<rparr> else c)
     = c\<lparr>should_seek_size := z\<rparr>"
    using S(3,4) seek_small by (cases "should_seek_size c < 0")
      (simp_all add: z_def s32_id seek_def z0_def)
  have z: "- (2 ^ 30) < z" "z < 2 ^ 30" "nat (- z) = z0 - seek" "0 < z \<Longrightarrow> wr_contents w = []"
    "nat z = debt c"
    using S(3,4,5) by (auto simp: z_def seek_def z0_def debt_def)
  have s1: "single (c\<lparr>should_seek_size := z\<rparr>) w" using S(1,2) z by (simp add: single_def)
  have len1: "CurrentSizeInternal (c\<lparr>should_seek_size := z\<rparr>) = (z0 - seek) + length (wr_contents w)"
    using single_current_size [OF s1] singleD(7) [OF s1] z(3) by simp
  have k_eq: "min (CurrentSizeInternal (c\<lparr>should_seek_size := z\<rparr>)) (usub n seek) = k"
    using n(2) unfolding len1 by (auto simp: usub_id seek_def k_def min_def)
  have k_small: "int_of_size k = int k" "k \<le> length (wr_contents w)" "seek + k \<le> n"
    using n(2) by (auto simp: int_of_size_id k_def seek_def)
  define data1 where "data1 = mem_write data 0 (replicate seek 0)"
  have d1: "length data1 = length data" using room k_small by (simp add: data1_def length_mem_write)
  have "seek + k \<le> length data1" using d1 room k_small by simp
  from read_one_spec [OF S(2) this] obtain w' where
    w': "read_one w data1 seek k = (w', mem_write data1 seek (take k (wr_contents w)))"
    "wr_inv w'" "wr_contents w' = drop k (wr_contents w)" "BufferCapacity w' = BufferCapacity w"
    "auto_adjust_capacity w' = auto_adjust_capacity w"
    "max_buffer_capacity w' = max_buffer_capacity w"
    by blast
  have size_k: "size_of_int (int k) = k" using n(2) k_small(3) by (simp add: size_of_int_id)
  have planner: "ReadForPlanner (int seek) (int k) 0 [w] data
      = ([w'], mem_write data1 seek (take k (wr_contents w)))"
    using w'(1) size_k by (cases "seek = 0") (simp_all add: Let_def data1_def)
  have upd: "circular_buffer_vec (c\<lparr>should_seek_size := z\<rparr>) = [w]" using S(1) by simp
  have tk: "take k (wr_contents w) = take (n - z0) (wr_contents w)"
    by (auto simp: k_def min_def)
  have out: "mem_write data1 seek (take k (wr_contents w)) = mem_write data 0 (take n (stream c))"
    using room k_small unfolding data1_def S(7) stream_split z0_def [symmetric] tk [symmetric]
    by (simp add: mem_write_append seek_def)
  have ret: "umul (uadd seek k) 1 = min n (length (stream c))"
    using n(2) k_small(3) unfolding S(7) z0_def [symmetric]
    by (auto simp: uadd_id umul_id seek_def k_def min_def)
  have "BaseRead c (Some data) n =
       Some (c\<lparr>should_seek_size := z, circular_buffer_vec := [w']\<rparr>,
             Some (mem_write data 0 (take n (stream c))), min n (length (stream c)))"
    unfolding BaseRead_def option.case S(6) div_by_1 Let_def seek_eq c1 k_eq seek_small k_small(1)
      upd planner prod.case ret out
    using n(1) by simp
  moreover have "drop k (wr_contents w) = drop (n - z0) (wr_contents w)"
    by (auto simp: k_def min_def)
  ultimately show ?thesis
    using w' z S(7) 
    by (intro that [of w' z])
      (simp_all add: single_def stream_def z0_def [symmetric] seek_def)
qed

lemma buffer_seek_single:
  assumes w: "wr_inv w" and n: "0 \<le> n" "n \<le> int (length (wr_contents w))"
  obtains w' where "BufferSeek w n = (w', n)" "wr_inv w'"
    "wr_contents w' = drop (nat n) (wr_contents w)" "BufferCapacity w' = BufferCapacity w"
    "auto_adjust_capacity w' = auto_adjust_capacity w"
    "max_buffer_capacity w' = max_buffer_capacity w"
proof -
  obtain b where h: "buff_handle w = Some b" and b: "byte_ring b" using w by (rule wr_invE)
  note V = wrapper_views [OF h b]
  from byte_ring_discard [OF b n(1)] obtain b' where
    b': "WebRtc_MoveReadPtr (Some b) n = (Some b', int (min (rb_used b) (nat n)))" "byte_ring b'"
    "rb_contents b' = drop (nat n) (rb_contents b)" "element_count b' = element_count b"
    by blast
  let ?w = "w\<lparr>buff_handle := Some b'\<rparr>"
  have h': "buff_handle ?w = Some b'" by simp
  have "int (min (rb_used b) (nat n)) = n" using n V by (auto simp: min_def)
  then have "BufferSeek w n = (?w, n)" using b'(1) h by (simp add: BufferSeek_def)
  then show ?thesis
    using b' V w wrapper_views(1,2) [OF h' b'(2)]
    by (intro that [of ?w]) (simp_all add: wr_inv_def)
qed

lemma base_discard_single:
  assumes s: "single c w" and n: "n < 2 ^ 29" "debt c + n < 2 ^ 30"
  obtains w' z where
    "BaseDiscardDataSizeInByte c n =
       Some (c\<lparr>should_seek_size := z, circular_buffer_vec := [w']\<rparr>, int n)"
    "single (c\<lparr>should_seek_size := z, circular_buffer_vec := [w']\<rparr>) w'"
    "stream (c\<lparr>should_seek_size := z, circular_buffer_vec := [w']\<rparr>) = drop n (stream c)"
    "nat z = debt c + (n - length (stream c))" "0 \<le> should_seek_size c \<Longrightarrow> 0 \<le> z" "BufferCapacity w' = BufferCapacity w"
    "auto_adjust_capacity w' = auto_adjust_capacity w"
    "max_buffer_capacity w' = max_buffer_capacity w"
proof -
  note S = singleD [OF s] and V = wr_views [OF singleD(2) [OF s]]
  define seek1 where "seek1 = should_seek_size c + int n"
  have i: "int_of_size n = int n" "int_of_size (length (wr_contents w)) = int (length (wr_contents w))"
    using n V by (simp_all add: int_of_size_id)
  have lim: "- (2 ^ 30) < seek1" "seek1 < 2 ^ 30"
    using S(3) n(2) by (auto simp: seek1_def debt_def)
  have s1: "s32 (should_seek_size c + int_of_size (n div buffer_count c)) = seek1"
    using lim S(6) i by (simp add: seek1_def s32_id)
  show ?thesis
  proof (cases "0 < seek1")
    case False
    have "BaseDiscardDataSizeInByte c n = Some (c\<lparr>should_seek_size := seek1\<rparr>, int n)"
      using False S(6) i unfolding BaseDiscardDataSizeInByte_def s1 by simp
    moreover have "c\<lparr>should_seek_size := seek1\<rparr>
        = c\<lparr>should_seek_size := seek1, circular_buffer_vec := [w]\<rparr>"
      using S(1) by simp
    ultimately show ?thesis
      using False S lim unfolding S(7)
      by (intro that [of w seek1]) (simp_all add: single_def stream_def seek1_def debt_def)
  next
    case True
    define k where "k = min (int (length (wr_contents w))) seek1"
    define z where "z = seek1 - k"
    have k: "0 \<le> k" "k \<le> int (length (wr_contents w))" using True by (simp_all add: k_def)
    from buffer_seek_single [OF S(2) k] obtain w' where
      w': "BufferSeek w k = (w', k)" "wr_inv w'" "wr_contents w' = drop (nat k) (wr_contents w)"
      "BufferCapacity w' = BufferCapacity w" "auto_adjust_capacity w' = auto_adjust_capacity w"
      "max_buffer_capacity w' = max_buffer_capacity w"
      by blast
    have "0 \<le> z" "z < 2 ^ 31" using lim k by (auto simp: z_def k_def)
    then have zs: "s32 z = z" by (rule s32_nonneg)
    have "BaseDiscardDataSizeInByte c n =
       Some (c\<lparr>should_seek_size := z, circular_buffer_vec := [w']\<rparr>, int n)"
      using True S(1,6) i w'(1) zs unfolding BaseDiscardDataSizeInByte_def s1
      by (simp add: single_min_size [OF s] Let_def k_def [symmetric] z_def [symmetric])
    moreover have "single (c\<lparr>should_seek_size := z, circular_buffer_vec := [w']\<rparr>) w'"
      using w'(2,3) lim k True by (auto simp: single_def z_def k_def)
    moreover have "nat z = debt c + (n - length (stream c))"
      using S(5) True unfolding S(7) z_def k_def debt_def seek1_def
      by (cases "0 < should_seek_size c") (simp_all add: min_def, linarith?)
    moreover have "stream (c\<lparr>should_seek_size := z, circular_buffer_vec := [w']\<rparr>) = drop n (stream c)"
    proof -
      have z0: "nat (- z) = 0" using True by (simp add: z_def k_def)
      have e: "nat seek1 = n - nat (- should_seek_size c)" if "should_seek_size c \<le> 0"
        using that True unfolding seek1_def by arith
      have "drop (nat k) (wr_contents w) = drop (n - nat (- should_seek_size c)) (wr_contents w)"
        using e S(5) True by (cases "0 < should_seek_size c") (auto simp: k_def min_def)
      moreover have "nat (- should_seek_size c) - n = 0" using True by (simp add: seek1_def)
      ultimately show ?thesis using w'(3) z0 unfolding S(7) stream_split by (simp add: stream_def)
    qed
    ultimately show ?thesis using w' \<open>0 \<le> z\<close> by (intro that [of w' z]) simp_all
  qed
qed

subsection \<open>Several queues\<close>

text \<open>
  \<open>BaseRead\<close> limits the bytes per queue by \<open>CurrentSizeInternal\<close>, which counts the bytes of all
  queues together: with two queues of \<open>k\<close> bytes each a request for up to \<open>2 * k\<close> bytes per queue
  passes, although only \<open>k\<close> are there.
\<close>

lemma two_queues_size:
  assumes "circular_buffer_vec c = [w1, w2]" "wr_inv w1" "wr_inv w2" "should_seek_size c = 0"
    and "length (wr_contents w1) = k" "length (wr_contents w2) = k"
  shows "CurrentSizeInternal c = 2 * k"
proof -
  have k: "k < 2 ^ 30" using wr_views(2,4) [OF assms(2)] assms(5) by simp
  have "GetSingleBufferMinSize c = k"
    using assms wr_views(1) by (simp add: GetSingleBufferMinSize_def)
  then show ?thesis using assms(1,4) k
    by (simp add: CurrentSizeInternal_def int_of_size_id size_of_int_def usub_id umul_id)
qed

lemma two_queues_read:
  assumes c: "circular_buffer_vec c = [w1, w2]" "wr_inv w1" "wr_inv w2" "should_seek_size c = 0"
    and k: "length (wr_contents w1) = k" "length (wr_contents w2) = k"
    and m: "0 < m" "m \<le> 2 * k" and room: "2 * m \<le> length data" and lim: "m < 2 ^ 30"
  shows "\<exists>c' data'. BaseRead c (Some data) (2 * m) = Some (c', Some data', 2 * m)"
proof -
  have "0 + m \<le> length data" using room by simp
  from read_one_spec [OF c(2) this] obtain w1' where
    r1: "read_one w1 data 0 m = (w1', mem_write data 0 (take m (wr_contents w1)))"
    by blast
  let ?d = "mem_write data 0 (take m (wr_contents w1))"
  have "m + m \<le> length ?d" using room by (simp add: length_mem_write)
  from read_one_spec [OF c(3) this] obtain w2' where
    r2: "read_one w2 ?d m m = (w2', mem_write ?d m (take m (wr_contents w2)))"
    by blast
  have u: "usub m 0 = m" "size_of_int (int m) = m" "int_of_size m = int m" "int_of_size 0 = 0"
    "umul (uadd 0 m) 2 = 2 * m"
    using lim by (simp_all add: usub_id size_of_int_id int_of_size_id uadd_id umul_id)
  have "buffer_count c = 2" using c(1) by simp
  then have "2 * m mod buffer_count c = 0" "2 * m div buffer_count c = m" by simp_all
  moreover have "min (CurrentSizeInternal c) m = m"
    using two_queues_size [OF c k] m(2) by simp
  ultimately show ?thesis
    using c m(1) r1 r2 u by (simp add: BaseRead_def Let_def numeral_2_eq_2 [symmetric])
qed

end
