(* ===== verification/AudioRingBufferIo.thy ===== *)
theory AudioRingBufferIo
  imports CommonReader
begin

text \<open>
  \<open>src/src/core/audio/audio_ring_buffer_io_impl.cc\<close>: the queue between an audio producer and a
  consumer. Every operation takes the mutex, so each is one atomic function on the state; the
  blocking variants are split at their waits. A function returns, with its result, the condition
  variables it notifies. \<open>None\<close> as in the modules below: the call does not complete.
\<close>

record audio_io = common_reader +
  cancel_read :: bool
  cancel_write :: bool
  is_auto_expand_capacity :: bool
  format_info :: AudioFormatInfo
  waiting_read_size :: nat
  waiting_write_size :: nat
  buffer_useable_capacity :: nat

datatype cv = ReaderCv | WriterCv

definition GetBufferCount :: "AudioFormatInfo \<Rightarrow> nat" where
  "GetBufferCount info = (if IsPlanner info then size_of_int (GetChannelsCount info) else 1)"

definition AudioRingBufferIo_new :: "AudioFormatInfo \<Rightarrow> nat \<Rightarrow> bool \<Rightarrow> audio_io option" where
  "AudioRingBufferIo_new info capacity auto_expand =
     (if GetBufferCount info = 0 then None
      else Some
        \<lparr>status = (if ValidSampleRateAndChannelCheck info then kStreaming else kStatic),
         should_seek_size = 0,
         circular_buffer_vec = circular_buffer_vec (common_reader_new (GetBufferCount info)
           (capacity div GetBufferCount info) auto_expand),
         cancel_read = False, cancel_write = False, is_auto_expand_capacity = auto_expand,
         format_info = info, waiting_read_size = 0, waiting_write_size = 0,
         buffer_useable_capacity = capacity div GetBufferCount info\<rparr>)"

definition ResetUseableCapacity :: "audio_io \<Rightarrow> nat \<Rightarrow> audio_io option" where
  "ResetUseableCapacity io size_in_byte =
     (if buffer_count io = 0 then None
      else
        (let capacity = size_in_byte div buffer_count io;
             io1 = (if buffer_useable_capacity io < capacity
                    then io\<lparr>circular_buffer_vec :=
                           map (\<lambda>w. AdjustCapacity w capacity) (circular_buffer_vec io)\<rparr>
                    else io)
         in Some (io1\<lparr>buffer_useable_capacity := capacity\<rparr>)))"

definition FreeSpaceBeforeOverwriting :: "audio_io \<Rightarrow> nat" where
  "FreeSpaceBeforeOverwriting io =
     (if status io = kStatic then 0
      else
        (let n = buffer_count io;
             free = s64 (int (umul (usub (buffer_useable_capacity io)
                       (BufferCurrentSize (circular_buffer_vec io ! 0))) n));
             can_write = (if 0 < should_seek_size io
                          then s64 (free + int (umul (size_of_int (should_seek_size io)) n))
                          else free)
         in if 0 < can_write then nat can_write else 0))"

subsection \<open>Notifications\<close>

definition CheckIfNotifyRead :: "audio_io \<Rightarrow> cv list" where
  "CheckIfNotifyRead io =
     (if 0 < waiting_read_size io \<and> waiting_read_size io \<le> CurrentSizeInternal io
      then [ReaderCv] else [])"

definition CheckIfNotifyWrite :: "audio_io \<Rightarrow> cv list" where
  "CheckIfNotifyWrite io =
     (if 0 < waiting_write_size io \<and> waiting_write_size io \<le> FreeSpaceBeforeOverwriting io
      then [WriterCv] else [])"

definition NotifyReader :: "audio_io \<Rightarrow> audio_io \<times> cv list" where
  "NotifyReader io =
     (if 0 < waiting_read_size io then (io\<lparr>cancel_read := True\<rparr>, [ReaderCv]) else (io, []))"

definition NotifyWriter :: "audio_io \<Rightarrow> audio_io \<times> cv list" where
  "NotifyWriter io =
     (if 0 < waiting_write_size io then (io\<lparr>cancel_write := True\<rparr>, [WriterCv]) else (io, []))"

definition CancelAll :: "audio_io \<Rightarrow> audio_io \<times> cv list" where
  "CancelAll io =
     (case NotifyReader io of (io1, e1) \<Rightarrow> case NotifyWriter io1 of (io2, e2) \<Rightarrow> (io2, e1 @ e2))"

definition Reset :: "audio_io \<Rightarrow> (audio_io \<times> int \<times> cv list) option" where
  "Reset io =
     (case CancelAll io of (io1, e) \<Rightarrow>
        map_option (\<lambda>(io2, r). (io2, r, e)) (BaseReset io1))"

definition DiscardDataSizeInByte :: "audio_io \<Rightarrow> nat \<Rightarrow> (audio_io \<times> int \<times> cv list) option" where
  "DiscardDataSizeInByte io n =
     map_option (\<lambda>(io1, r). (io1, r, CheckIfNotifyWrite io1)) (BaseDiscardDataSizeInByte io n)"

definition FillZeroFront :: "audio_io \<Rightarrow> time_data \<Rightarrow> (audio_io \<times> int) option" where
  "FillZeroFront io time_ms = BaseFillZeroFront io (AudioMsToByteSize (format_info io) time_ms)"

definition WriteCompletion :: "audio_io \<Rightarrow> audio_io" where
  "WriteCompletion io = (if status io = kStreaming then io\<lparr>status := kStatic\<rparr> else io)"

definition CurrentSizeMs :: "audio_io \<Rightarrow> time_data option" where
  "CurrentSizeMs io = AudioByteSizeToMs (format_info io) (CurrentSizeInternal io)"

definition FreeSpaceBeforeOverwritingMs :: "audio_io \<Rightarrow> time_data option" where
  "FreeSpaceBeforeOverwritingMs io =
     AudioByteSizeToMs (format_info io) (FreeSpaceBeforeOverwriting io)"

subsection \<open>Reading\<close>

text \<open>
  \<open>must_wait_read\<close> is the loop condition of \<open>WaitingRead\<close>; \<open>leave_wait_read\<close> is what follows the
  loop. A read that does not block skips both.
\<close>

definition must_wait_read :: "audio_io \<Rightarrow> nat \<Rightarrow> bool" where
  "must_wait_read io n \<longleftrightarrow> \<not> cancel_read io \<and> status io = kStreaming \<and> CurrentSizeInternal io < n"

definition leave_wait_read :: "audio_io \<Rightarrow> audio_io" where
  "leave_wait_read io = io\<lparr>waiting_read_size := 0, cancel_read := False\<rparr>"

definition Read :: "audio_io \<Rightarrow> byte list option \<Rightarrow> nat \<Rightarrow>
    (audio_io \<times> byte list option \<times> nat \<times> cv list) option" where
  "Read io data_ptr n =
     map_option (\<lambda>(io1, data, k). (io1, data, k, CheckIfNotifyWrite io1)) (BaseRead io data_ptr n)"

subsection \<open>Writing\<close>

definition must_wait_write :: "audio_io \<Rightarrow> nat \<Rightarrow> bool" where
  "must_wait_write io n \<longleftrightarrow>
     \<not> cancel_write io \<and> status io = kStreaming \<and> FreeSpaceBeforeOverwriting io < n"

definition leave_wait_write :: "audio_io \<Rightarrow> audio_io" where
  "leave_wait_write io = io\<lparr>waiting_write_size := 0, cancel_write := False\<rparr>"

fun write_all :: "byte list list \<Rightarrow> nat \<Rightarrow> nat \<Rightarrow> nat \<Rightarrow> ring_buffer_wrapper list \<Rightarrow>
    (ring_buffer_wrapper list \<times> nat) option" where
  "write_all datas off n write_size [] = Some ([], write_size)"
| "write_all [] off n write_size (w # ws) = None"
| "write_all (d # datas) off n write_size (w # ws) =
     do {
       (w', k) \<leftarrow> BufferWrite w (Some (drop off d)) n;
       (ws', k') \<leftarrow> write_all datas off n k ws;
       Some (w' # ws', k')
     }"

text \<open>
  \<open>WritePlanarInternal\<close> in three parts: the size that is written and the data that is skipped, the
  room that is made after a wait, and the write.
\<close>

definition clip_write :: "audio_io \<Rightarrow> nat \<Rightarrow> nat \<times> nat" where
  "clip_write io n =
     (if \<not> is_auto_expand_capacity io \<and> buffer_useable_capacity io < n
      then (buffer_useable_capacity io, usub n (buffer_useable_capacity io)) else (n, 0))"

definition make_free :: "audio_io \<Rightarrow> nat \<Rightarrow> audio_io option" where
  "make_free io n =
     (if \<not> is_auto_expand_capacity io \<and> FreeSpaceBeforeOverwriting io < n
      then map_option fst
        (BaseDiscardDataSizeInByte io (usub n (FreeSpaceBeforeOverwriting io)))
      else Some io)"

definition write_commit :: "audio_io \<Rightarrow> byte list list \<Rightarrow> nat \<Rightarrow> nat \<Rightarrow>
    (audio_io \<times> nat \<times> cv list) option" where
  "write_commit io datas n skip =
     do {
       io1 \<leftarrow> make_free io n;
       let seek = (if 0 < should_seek_size io1 then min n (size_of_int (should_seek_size io1)) else 0);
           io2 = (if 0 < should_seek_size io1
                  then io1\<lparr>should_seek_size := s32 (should_seek_size io1 - int_of_size seek)\<rparr> else io1)
       in do {
         (ws, k) \<leftarrow> write_all datas (seek + skip) (usub n seek) 0 (circular_buffer_vec io2);
         let io3 = io2\<lparr>circular_buffer_vec := ws\<rparr>
         in Some (io3, umul (uadd k seek) (buffer_count io3), CheckIfNotifyRead io3)
       }
     }"

definition WritePlanar :: "audio_io \<Rightarrow> byte list list \<Rightarrow> nat \<Rightarrow> (audio_io \<times> nat \<times> cv list) option" where
  "WritePlanar io datas n =
     (if length datas \<noteq> buffer_count io then Some (io, 0, [])
      else if status io \<noteq> kStreaming then Some (io, 0, [])
      else (case clip_write io n of (m, skip) \<Rightarrow> write_commit io datas m skip))"

text \<open>\<open>WriteInternal\<close> cuts the caller's block into one part per queue.\<close>

definition split_data :: "audio_io \<Rightarrow> byte list \<Rightarrow> nat \<Rightarrow> byte list list" where
  "split_data io data m = map (\<lambda>i. drop (i * m) data) [0..<buffer_count io]"

definition Write :: "audio_io \<Rightarrow> byte list option \<Rightarrow> nat \<Rightarrow> (audio_io \<times> nat \<times> cv list) option" where
  "Write io data_ptr n =
     (case data_ptr of
        None \<Rightarrow> Some (io, 0, [])
      | Some data \<Rightarrow>
          if n = 0 then Some (io, 0, [])
          else if buffer_count io = 0 then None
          else if n mod buffer_count io \<noteq> 0 then Some (io, 0, [])
          else WritePlanar io (split_data io data (n div buffer_count io)) (n div buffer_count io))"

subsection \<open>Threads that wait\<close>

text \<open>
  One reader thread and one writer thread use the blocking calls; other threads may call the
  rest. A blocked thread is described by its request and whether its condition variable was
  notified since it went to sleep; it may also wake up spuriously. One step is what one thread
  does while it holds the mutex.
\<close>

record io_system =
  io_state :: audio_io
  reader :: "(nat \<times> bool) option"
  writer :: "(byte list list \<times> nat \<times> nat \<times> bool) option"

definition notify :: "cv list \<Rightarrow> io_system \<Rightarrow> io_system" where
  "notify events s =
     s\<lparr>reader := (if ReaderCv \<in> set events then map_option (\<lambda>(n, _). (n, True)) (reader s)
                 else reader s),
       writer := (if WriterCv \<in> set events then map_option (\<lambda>(d, m, k, _). (d, m, k, True)) (writer s)
                 else writer s)\<rparr>"

text \<open>The checks of a blocking write before its wait; an expanding buffer never waits.\<close>

definition write_may_block :: "audio_io \<Rightarrow> byte list list \<Rightarrow> bool" where
  "write_may_block io datas \<longleftrightarrow> length datas = buffer_count io \<and> status io = kStreaming \<and>
     \<not> is_auto_expand_capacity io"

inductive io_step :: "io_system \<Rightarrow> io_system \<Rightarrow> bool" where
  read_wait: "reader s = None \<or> reader s = Some (n, notified) \<Longrightarrow> must_wait_read (io_state s) n \<Longrightarrow>
    io_step s (s\<lparr>io_state := (io_state s)\<lparr>waiting_read_size := n\<rparr>, reader := Some (n, False)\<rparr>)"
| read_go: "reader s = None \<or> reader s = Some (n, notified) \<Longrightarrow> \<not> must_wait_read (io_state s) n \<Longrightarrow>
    Read (leave_wait_read (io_state s)) data n = Some (io', data', k, events) \<Longrightarrow>
    io_step s (notify events (s\<lparr>io_state := io', reader := None\<rparr>))"
| read_now: "Read (io_state s) data n = Some (io', data', k, events) \<Longrightarrow>
    CurrentSizeInternal io' \<le> CurrentSizeInternal (io_state s) \<Longrightarrow>
    io_step s (notify events (s\<lparr>io_state := io'\<rparr>))"
| write_wait: "writer s = None \<and> write_may_block (io_state s) datas \<and>
      clip_write (io_state s) n = (m, skip) \<or> writer s = Some (datas, m, skip, notified) \<Longrightarrow>
    must_wait_write (io_state s) m \<Longrightarrow>
    io_step s (s\<lparr>io_state := (io_state s)\<lparr>waiting_write_size := m\<rparr>,
                 writer := Some (datas, m, skip, False)\<rparr>)"
| write_go: "writer s = None \<and> write_may_block (io_state s) datas \<and>
      clip_write (io_state s) n = (m, skip) \<or> writer s = Some (datas, m, skip, notified) \<Longrightarrow>
    \<not> must_wait_write (io_state s) m \<Longrightarrow>
    write_commit (leave_wait_write (io_state s)) datas m skip = Some (io', k, events) \<Longrightarrow>
    io_step s (notify events (s\<lparr>io_state := io', writer := None\<rparr>))"
| write_now: "WritePlanar (io_state s) datas n = Some (io', k, events) \<Longrightarrow>
    FreeSpaceBeforeOverwriting io' \<le> FreeSpaceBeforeOverwriting (io_state s) \<Longrightarrow>
    io_step s (notify events (s\<lparr>io_state := io'\<rparr>))"
| discard: "DiscardDataSizeInByte (io_state s) n = Some (io', r, events) \<Longrightarrow>
    CurrentSizeInternal io' \<le> CurrentSizeInternal (io_state s) \<Longrightarrow>
    io_step s (notify events (s\<lparr>io_state := io'\<rparr>))"
| cancel_all: "CancelAll (io_state s) = (io', events) \<Longrightarrow>
    io_step s (notify events (s\<lparr>io_state := io'\<rparr>))"
| cancel_reader: "NotifyReader (io_state s) = (io', events) \<Longrightarrow>
    io_step s (notify events (s\<lparr>io_state := io'\<rparr>))"
| cancel_writer: "NotifyWriter (io_state s) = (io', events) \<Longrightarrow>
    io_step s (notify events (s\<lparr>io_state := io'\<rparr>))"
| reset: "Reset (io_state s) = Some (io', r, events) \<Longrightarrow>
    io_step s (notify events (s\<lparr>io_state := io'\<rparr>))"

text \<open>
  No lost wake-up: a thread that sleeps without a pending notification has to sleep. The sizes
  that the sleeping threads published are the ones they wait for.
\<close>

definition reader_ok :: "io_system \<Rightarrow> bool" where
  "reader_ok s \<longleftrightarrow> (case reader s of None \<Rightarrow> True
     | Some (n, notified) \<Rightarrow> 0 < n \<and> waiting_read_size (io_state s) = n \<and>
         (notified \<or> must_wait_read (io_state s) n))"

definition writer_ok :: "io_system \<Rightarrow> bool" where
  "writer_ok s \<longleftrightarrow> (case writer s of None \<Rightarrow> True
     | Some (d, m, k, notified) \<Rightarrow> 0 < m \<and> waiting_write_size (io_state s) = m \<and>
         (notified \<or> must_wait_write (io_state s) m))"

text \<open>What the operations leave alone.\<close>

definition same_frame :: "audio_io \<Rightarrow> audio_io \<Rightarrow> bool" where
  "same_frame io io' \<longleftrightarrow> cancel_read io' = cancel_read io \<and> cancel_write io' = cancel_write io \<and>
     waiting_read_size io' = waiting_read_size io \<and> waiting_write_size io' = waiting_write_size io \<and>
     status io' = status io \<and> is_auto_expand_capacity io' = is_auto_expand_capacity io \<and>
     buffer_useable_capacity io' = buffer_useable_capacity io"

lemma same_frame_trans: "same_frame a b \<Longrightarrow> same_frame b c \<Longrightarrow> same_frame a c"
  by (simp add: same_frame_def)

lemma same_frame_refl [simp]: "same_frame io io"
  by (simp add: same_frame_def)

lemma BaseRead_frame: "BaseRead io d n = Some (io', d', k) \<Longrightarrow> same_frame io io'"
  by (auto simp: BaseRead_def same_frame_def Let_def split: option.splits if_splits prod.splits)

lemma BaseDiscard_frame: "BaseDiscardDataSizeInByte io n = Some (io', r) \<Longrightarrow> same_frame io io'"
  by (auto simp: BaseDiscardDataSizeInByte_def same_frame_def Let_def split: if_splits)

lemma make_free_frame: "make_free io n = Some io' \<Longrightarrow> same_frame io io'"
  by (auto simp: make_free_def dest: BaseDiscard_frame split: if_splits)

lemma write_commit_frame:
  assumes "write_commit io datas n skip = Some (io', k, events)"
  shows "same_frame io io' \<and> events = CheckIfNotifyRead io'"
proof -
  obtain io1 where f: "make_free io n = Some io1" and
    w: "same_frame io1 io' \<and> events = CheckIfNotifyRead io'"
    using assms by (auto simp: write_commit_def Let_def same_frame_def bind_Some_iff split: if_splits)
  from same_frame_trans [OF make_free_frame [OF f]] w show ?thesis by blast
qed

lemma Read_frame: "Read io d n = Some (io', d', k, events) \<Longrightarrow>
    same_frame io io' \<and> events = CheckIfNotifyWrite io'"
  by (auto simp: Read_def dest: BaseRead_frame)

lemma Discard_frame: "DiscardDataSizeInByte io n = Some (io', r, events) \<Longrightarrow>
    same_frame io io' \<and> events = CheckIfNotifyWrite io'"
  by (auto simp: DiscardDataSizeInByte_def dest: BaseDiscard_frame)

lemma WritePlanar_frame:
  assumes "WritePlanar io datas n = Some (io', k, events)"
  shows "same_frame io io' \<and> (events = CheckIfNotifyRead io' \<or> io' = io \<and> events = [])"
  using assms by (auto simp: WritePlanar_def dest: write_commit_frame split: if_splits prod.splits)

text \<open>The effect of an operation on the two predicates, by what it notifies.\<close>

lemma reader_ok_notified:
  assumes "reader_ok s" and "same_frame (io_state s) io'"
    and "ReaderCv \<in> set events \<or> CurrentSizeInternal io' \<le> CurrentSizeInternal (io_state s)
       \<or> set events = set (CheckIfNotifyRead io')"
  shows "reader_ok (notify events (s\<lparr>io_state := io'\<rparr>))"
  using assms
  by (auto simp: reader_ok_def notify_def same_frame_def must_wait_read_def CheckIfNotifyRead_def
      split: option.splits prod.splits if_splits)

lemma writer_ok_notified:
  assumes "writer_ok s" and "same_frame (io_state s) io'"
    and "WriterCv \<in> set events \<or> FreeSpaceBeforeOverwriting io' \<le> FreeSpaceBeforeOverwriting (io_state s)
       \<or> set events = set (CheckIfNotifyWrite io')"
  shows "writer_ok (notify events (s\<lparr>io_state := io'\<rparr>))"
  using assms
  by (auto simp: writer_ok_def notify_def same_frame_def must_wait_write_def CheckIfNotifyWrite_def
      split: option.splits prod.splits if_splits)

lemma cancel_all_notifies:
  assumes "CancelAll io = (io', events)"
  shows "waiting_read_size io' = waiting_read_size io" "waiting_write_size io' = waiting_write_size io"
    "0 < waiting_read_size io \<Longrightarrow> ReaderCv \<in> set events"
    "0 < waiting_write_size io \<Longrightarrow> WriterCv \<in> set events"
  using assms by (auto simp: CancelAll_def NotifyReader_def NotifyWriter_def split: if_splits)

lemma all_notified:
  assumes "reader_ok s" "writer_ok s"
    and "waiting_read_size io' = waiting_read_size (io_state s)"
      "waiting_write_size io' = waiting_write_size (io_state s)"
    and "0 < waiting_read_size (io_state s) \<Longrightarrow> ReaderCv \<in> set events"
      "0 < waiting_write_size (io_state s) \<Longrightarrow> WriterCv \<in> set events"
  shows "reader_ok (notify events (s\<lparr>io_state := io'\<rparr>))"
    "writer_ok (notify events (s\<lparr>io_state := io'\<rparr>))"
  using assms by (auto simp: reader_ok_def writer_ok_def notify_def split: option.splits)

lemma reset_notifies:
  assumes "Reset io = Some (io', r, events)"
  shows "waiting_read_size io' = waiting_read_size io" "waiting_write_size io' = waiting_write_size io"
    "0 < waiting_read_size io \<Longrightarrow> ReaderCv \<in> set events"
    "0 < waiting_write_size io \<Longrightarrow> WriterCv \<in> set events"
proof -
  obtain io1 where c: "CancelAll io = (io1, events)" and b: "BaseReset io1 = Some (io', r)"
    using assms by (auto simp: Reset_def split: prod.splits)
  have "waiting_read_size io' = waiting_read_size io1" "waiting_write_size io' = waiting_write_size io1"
    using b by (auto simp: BaseReset_def bind_Some_iff)
  then show "waiting_read_size io' = waiting_read_size io" "waiting_write_size io' = waiting_write_size io"
    "0 < waiting_read_size io \<Longrightarrow> ReaderCv \<in> set events"
    "0 < waiting_write_size io \<Longrightarrow> WriterCv \<in> set events"
    using cancel_all_notifies [OF c] by simp_all
qed

text \<open>The sizes do not depend on the flags of the waiting threads.\<close>

lemma sizes_of_flags [simp]:
  "FreeSpaceBeforeOverwriting (io\<lparr>waiting_read_size := n\<rparr>) = FreeSpaceBeforeOverwriting io"
  "FreeSpaceBeforeOverwriting (io\<lparr>waiting_write_size := n\<rparr>) = FreeSpaceBeforeOverwriting io"
  "FreeSpaceBeforeOverwriting (io\<lparr>cancel_read := c\<rparr>) = FreeSpaceBeforeOverwriting io"
  "FreeSpaceBeforeOverwriting (io\<lparr>cancel_write := c\<rparr>) = FreeSpaceBeforeOverwriting io"
  "CurrentSizeInternal (io\<lparr>waiting_read_size := n\<rparr>) = CurrentSizeInternal io"
  "CurrentSizeInternal (io\<lparr>waiting_write_size := n\<rparr>) = CurrentSizeInternal io"
  "CurrentSizeInternal (io\<lparr>cancel_read := c\<rparr>) = CurrentSizeInternal io"
  "CurrentSizeInternal (io\<lparr>cancel_write := c\<rparr>) = CurrentSizeInternal io"
  by (simp_all add: FreeSpaceBeforeOverwriting_def CurrentSizeInternal_def
      GetSingleBufferMinSize_def Let_def)

lemma ok_leave:
  shows "writer_ok s \<Longrightarrow> writer_ok (s\<lparr>io_state := leave_wait_read (io_state s), reader := None\<rparr>)"
    and "reader_ok s \<Longrightarrow> reader_ok (s\<lparr>io_state := leave_wait_write (io_state s), writer := None\<rparr>)"
  by (auto simp: writer_ok_def reader_ok_def leave_wait_read_def leave_wait_write_def
      must_wait_write_def must_wait_read_def split: option.splits)

lemma none_ok:
  shows "reader_ok (notify events (s\<lparr>io_state := io', reader := None\<rparr>))"
    and "writer_ok (notify events (s\<lparr>io_state := io', writer := None\<rparr>))"
  by (simp_all add: reader_ok_def writer_ok_def notify_def)

lemma waits_ok:
  shows "must_wait_read (io_state s) n \<Longrightarrow>
      reader_ok (s\<lparr>io_state := (io_state s)\<lparr>waiting_read_size := n\<rparr>, reader := Some (n, False)\<rparr>)"
    and "writer_ok s \<Longrightarrow>
      writer_ok (s\<lparr>io_state := (io_state s)\<lparr>waiting_read_size := n\<rparr>, reader := rd\<rparr>)"
    and "must_wait_write (io_state s) m \<Longrightarrow>
      writer_ok (s\<lparr>io_state := (io_state s)\<lparr>waiting_write_size := m\<rparr>, writer := Some (d, m, k, False)\<rparr>)"
    and "reader_ok s \<Longrightarrow>
      reader_ok (s\<lparr>io_state := (io_state s)\<lparr>waiting_write_size := m\<rparr>, writer := wr\<rparr>)"
  by (auto simp: writer_ok_def reader_ok_def must_wait_write_def must_wait_read_def
      split: option.splits)

lemma io_step_ok:
  assumes "io_step s s'" and r: "reader_ok s" and w: "writer_ok s"
  shows "reader_ok s' \<and> writer_ok s'"
  using assms(1)
proof cases
  case (read_wait n notified)
  then show ?thesis using waits_ok(1,2) w by blast
next
  case (read_go n notified data io' data' k events)
  let ?s = "s\<lparr>io_state := leave_wait_read (io_state s), reader := None\<rparr>"
  have f: "same_frame (io_state ?s) io'" "events = CheckIfNotifyWrite io'"
    using Read_frame [OF read_go(4)] by simp_all
  have "writer_ok (notify events (?s\<lparr>io_state := io'\<rparr>))"
    using f ok_leave(1) [OF w] by (intro writer_ok_notified) simp_all
  moreover have "?s\<lparr>io_state := io'\<rparr> = s\<lparr>io_state := io', reader := None\<rparr>" by simp
  ultimately show ?thesis using none_ok(1) read_go(1) by simp
next
  case (read_now data n io' data' k events)
  have f: "same_frame (io_state s) io'" "events = CheckIfNotifyWrite io'"
    using Read_frame [OF read_now(2)] by simp_all
  then show ?thesis
    using read_now(1,3) reader_ok_notified [OF r f(1)] writer_ok_notified [OF w f(1)] by simp
next
  case (write_wait datas n m skip notified)
  then show ?thesis using waits_ok(3,4) r by blast
next
  case (write_go datas n m skip notified io' k events)
  let ?s = "s\<lparr>io_state := leave_wait_write (io_state s), writer := None\<rparr>"
  have f: "same_frame (io_state ?s) io'" "events = CheckIfNotifyRead io'"
    using write_commit_frame [OF write_go(4)] by simp_all
  have "reader_ok (notify events (?s\<lparr>io_state := io'\<rparr>))"
    using f ok_leave(2) [OF r] by (intro reader_ok_notified) simp_all
  moreover have "?s\<lparr>io_state := io'\<rparr> = s\<lparr>io_state := io', writer := None\<rparr>" by simp
  ultimately show ?thesis using none_ok(2) write_go(1) by simp
next
  case (write_now datas n io' k events)
  have f: "same_frame (io_state s) io'" "events = CheckIfNotifyRead io' \<or> io' = io_state s \<and> events = []"
    using WritePlanar_frame [OF write_now(2)] by simp_all
  then show ?thesis
    using write_now(1,3) reader_ok_notified [OF r f(1)] writer_ok_notified [OF w f(1)] by auto
next
  case (discard n io' r' events)
  have f: "same_frame (io_state s) io'" "events = CheckIfNotifyWrite io'"
    using Discard_frame [OF discard(2)] by simp_all
  then show ?thesis
    using discard(1,3) reader_ok_notified [OF r f(1)] writer_ok_notified [OF w f(1)] by simp
next
  case (cancel_all io' events)
  then show ?thesis using all_notified [OF r w cancel_all_notifies [OF cancel_all(2)]] by blast
next
  case (cancel_reader io' events)
  have "reader_ok (notify events (s\<lparr>io_state := io'\<rparr>))"
    using cancel_reader(2) r by (auto simp: NotifyReader_def reader_ok_def notify_def
        must_wait_read_def split: option.splits if_splits)
  moreover have "writer_ok (notify events (s\<lparr>io_state := io'\<rparr>))"
    using cancel_reader(2) w by (auto simp: NotifyReader_def writer_ok_def notify_def
        must_wait_write_def split: option.splits if_splits)
  ultimately show ?thesis using cancel_reader(1) by simp
next
  case (cancel_writer io' events)
  have "writer_ok (notify events (s\<lparr>io_state := io'\<rparr>))"
    using cancel_writer(2) w by (auto simp: NotifyWriter_def writer_ok_def notify_def
        must_wait_write_def split: option.splits if_splits)
  moreover have "reader_ok (notify events (s\<lparr>io_state := io'\<rparr>))"
    using cancel_writer(2) r by (auto simp: NotifyWriter_def reader_ok_def notify_def
        must_wait_read_def split: option.splits if_splits)
  ultimately show ?thesis using cancel_writer(1) by simp
next
  case (reset io' r' events)
  then show ?thesis using all_notified [OF r w reset_notifies [OF reset(2)]] by blast
qed

text \<open>\<open>WriteCompletion\<close> as a step of the system: it notifies nobody.\<close>

definition completion_step :: "io_system \<Rightarrow> io_system" where
  "completion_step s = s\<lparr>io_state := WriteCompletion (io_state s)\<rparr>"

subsection \<open>One queue of fixed capacity: the abstract view\<close>

text \<open>
  An interleaved, non-expanding buffer refines an abstract one: the stream of readable bytes
  and the debt of bytes that a discard announced before they arrived.
\<close>

datatype io_op = IoWrite "byte list" | IoRead nat | IoDiscard nat

fun spec_step :: "nat \<Rightarrow> byte list \<times> nat \<Rightarrow> io_op \<Rightarrow> (byte list \<times> nat) \<times> byte list" where
  "spec_step capacity (s, d) (IoWrite xs) =
     ((drop (length s + length xs - capacity) s @ drop d xs, d - length xs), [])"
| "spec_step capacity (s, d) (IoRead n) = ((drop n s, d), take n s)"
| "spec_step capacity (s, d) (IoDiscard n) = ((drop n s, d + (n - length s)), [])"

text \<open>The same operations on the model; a read returns the bytes it put into the caller's block.\<close>

fun io_run_op :: "audio_io \<Rightarrow> io_op \<Rightarrow> (audio_io \<times> byte list) option" where
  "io_run_op io (IoWrite xs) = map_option (\<lambda>(io', k, e). (io', [])) (Write io (Some xs) (length xs))"
| "io_run_op io (IoRead n) =
     map_option (\<lambda>(io', data, k, e). (io', take k (the data))) (Read io (Some (replicate n 0)) n)"
| "io_run_op io (IoDiscard n) = map_option (\<lambda>(io', r, e). (io', [])) (DiscardDataSizeInByte io n)"

definition io_abs :: "audio_io \<Rightarrow> byte list \<times> nat" where
  "io_abs io = (stream io, debt io)"

definition io_ok :: "audio_io \<Rightarrow> bool" where
  "io_ok io \<longleftrightarrow> (\<exists>w. single io w \<and> \<not> auto_adjust_capacity w \<and>
     buffer_useable_capacity io = BufferCapacity w) \<and> \<not> is_auto_expand_capacity io"

text \<open>
  An operation in the range of the model: sizes below the \<open>int\<close> bounds, writes no larger than the
  capacity, and no write while zeros are pending (there the ring drops bytes twice).
\<close>

fun op_ok :: "audio_io \<Rightarrow> io_op \<Rightarrow> bool" where
  "op_ok io (IoWrite xs) \<longleftrightarrow> xs \<noteq> [] \<and> length xs \<le> buffer_useable_capacity io \<and>
     length xs < 2 ^ 29 \<and> status io = kStreaming \<and> 0 \<le> should_seek_size io"
| "op_ok io (IoRead n) \<longleftrightarrow> 0 < n \<and> n < 2 ^ 30"
| "op_ok io (IoDiscard n) \<longleftrightarrow> n < 2 ^ 29 \<and> debt io + n < 2 ^ 30"

lemma io_okE:
  assumes "io_ok io"
  obtains w where "single io w" "\<not> auto_adjust_capacity w"
    "buffer_useable_capacity io = BufferCapacity w" "\<not> is_auto_expand_capacity io"
  using assms by (auto simp: io_ok_def)

lemma free_single:
  assumes "single io w" "buffer_useable_capacity io = BufferCapacity w" "status io = kStreaming"
    and "0 \<le> should_seek_size io"
  shows "FreeSpaceBeforeOverwriting io = BufferCapacity w - length (wr_contents w) + debt io"
proof -
  note S = singleD [OF assms(1)] and V = wr_views [OF singleD(2) [OF assms(1)]]
  define F where "F = BufferCapacity w - length (wr_contents w)"
  have f: "umul (usub (BufferCapacity w) (BufferCurrentSize w)) 1 = F" "F < 2 ^ 30"
    using V by (simp_all add: usub_id umul_id F_def)
  then have s: "s64 (int F) = int F" by (simp add: s64_nonneg)
  have d: "umul (size_of_int (should_seek_size io)) 1 = debt io" "debt io < 2 ^ 30"
    using S(4) assms(4) by (simp_all add: size_of_int_id umul_id debt_def)
  then have sd: "s64 (int F + int (debt io)) = int F + int (debt io)"
    using f(2) by (intro s64_nonneg) simp_all
  have "debt io = 0" if "\<not> 0 < should_seek_size io" using that by (simp add: debt_def)
  then show ?thesis
    using assms(2,3) S(1) f d s sd unfolding FreeSpaceBeforeOverwriting_def Let_def F_def [symmetric]
    by (auto simp: nat_add_distrib)
qed

lemma buffer_write_fixed:
  assumes w: "wr_inv w" "\<not> auto_adjust_capacity w" and n: "length xs < 2 ^ 31"
    and fits: "length (wr_contents w) + length xs \<le> BufferCapacity w"
  obtains w' where "BufferWrite w (Some xs) (length xs) = Some (w', length xs)" "wr_inv w'"
    "\<not> auto_adjust_capacity w'" "wr_contents w' = wr_contents w @ xs"
    "BufferCapacity w' = BufferCapacity w"
proof -
  obtain b where h: "buff_handle w = Some b" and b: "byte_ring b" using w(1) by (rule wr_invE)
  from buffer_write_overwrite [OF h b w(2) n] obtain b' where
    "BufferWrite w (Some xs) (length xs) =
       Some (w\<lparr>buff_handle := Some b'\<rparr>, min (element_count b) (length xs))"
    by blast
  then obtain w' k where p: "BufferWrite w (Some xs) (length xs) = Some (w', k)" by blast
  then have "wr_put w xs = (w', k)" by (simp add: wr_put_def)
  moreover have "wr_fixed w" "length xs \<le> 2 ^ 31 - 1" using w n by (simp_all add: wr_fixed_def)
  ultimately have "wr_fixed w' \<and> BufferCapacity w' = BufferCapacity w \<and>
    k = min (BufferCapacity w) (length xs) \<and>
    wr_contents w' = drop (length (wr_contents w) + length xs - BufferCapacity w) (wr_contents w)
      @ take k xs"
    using wr_put_law by blast
  then show ?thesis using p fits by (intro that [of w']) (auto simp: wr_fixed_def min_def)
qed

text \<open>After the room is made, a write drops the debt and appends the rest.\<close>

lemma commit_single:
  assumes s: "single io w" "\<not> auto_adjust_capacity w" "0 \<le> should_seek_size io"
    and free: "make_free io0 (length xs) = Some io" and n: "length xs < 2 ^ 29"
    and fits: "length (wr_contents w) + (length xs - debt io) \<le> BufferCapacity w"
  obtains w' z where
    "write_commit io0 [xs] (length xs) 0 =
       Some (io\<lparr>should_seek_size := z, circular_buffer_vec := [w']\<rparr>, length xs,
             CheckIfNotifyRead (io\<lparr>should_seek_size := z, circular_buffer_vec := [w']\<rparr>))"
    "single (io\<lparr>should_seek_size := z, circular_buffer_vec := [w']\<rparr>) w'"
    "\<not> auto_adjust_capacity w'" "BufferCapacity w' = BufferCapacity w" "0 \<le> z"
    "wr_contents w' = wr_contents w @ drop (debt io) xs" "nat z = debt io - length xs"
proof -
  note S = singleD [OF s(1)]
  define seek where "seek = min (length xs) (debt io)"
  define z where "z = should_seek_size io - int seek"
  have d: "int (debt io) = should_seek_size io" "size_of_int (should_seek_size io) = debt io"
    using s(3) S(4) by (simp_all add: debt_def size_of_int_id)
  have z: "0 \<le> z" "z < 2 ^ 30" "nat z = debt io - length xs"
    using d S(4) by (auto simp: z_def seek_def min_def)
  have seek_eq: "(if 0 < should_seek_size io then min (length xs) (size_of_int (should_seek_size io)) else 0) = seek"
    using d by (auto simp: seek_def)
  have si: "int_of_size seek = int seek" using n by (simp add: seek_def int_of_size_id)
  have io2: "(if 0 < should_seek_size io
      then io\<lparr>should_seek_size := s32 (should_seek_size io - int seek)\<rparr> else io)
     = io\<lparr>should_seek_size := z\<rparr>"
    using z d by (auto simp: z_def s32_nonneg seek_def)
  have us: "usub (length xs) seek = length (drop seek xs)"
    using n by (simp add: usub_id seek_def)
  have dr: "drop seek xs = drop (debt io) xs" by (auto simp: seek_def min_def)
  have "length (drop seek xs) < 2 ^ 31" "length (wr_contents w) + length (drop seek xs) \<le> BufferCapacity w"
    using n fits unfolding dr by simp_all
  from buffer_write_fixed [OF S(2) s(2) this] obtain w' where w':
    "BufferWrite w (Some (drop seek xs)) (length (drop seek xs)) = Some (w', length (drop seek xs))"
    "wr_inv w'" "\<not> auto_adjust_capacity w'" "wr_contents w' = wr_contents w @ drop seek xs"
    "BufferCapacity w' = BufferCapacity w"
    by blast
  let ?io = "io\<lparr>should_seek_size := z, circular_buffer_vec := [w']\<rparr>"
  have ret: "umul (uadd (length (drop seek xs)) seek) 1 = length xs"
    using n by (simp add: uadd_id umul_id seek_def)
  have vec: "circular_buffer_vec (io\<lparr>should_seek_size := z\<rparr>) = [w]" using S(1) by simp
  have all: "write_all [xs] (seek + 0) (length (drop seek xs)) 0 [w] = Some ([w'], length (drop seek xs))"
    using w'(1) by simp
  have "write_commit io0 [xs] (length xs) 0 = Some (?io, length xs, CheckIfNotifyRead ?io)"
    unfolding write_commit_def free bind.bind_lunit Let_def seek_eq si io2 us vec all prod.case ret
    using ret by simp
  moreover have "single ?io w'"
    using w'(2,4) z S(5) d by (auto simp: single_def seek_def z_def)
  ultimately show ?thesis using w' z dr by (intro that [of w' z]) simp_all
qed

lemma make_free_single:
  assumes s: "single io w" "\<not> auto_adjust_capacity w" "0 \<le> should_seek_size io"
    and cap: "buffer_useable_capacity io = BufferCapacity w" and st: "status io = kStreaming"
    and fixed: "\<not> is_auto_expand_capacity io"
    and n: "n \<le> BufferCapacity w" "n < 2 ^ 29"
  obtains w' z where "make_free io n = Some (io\<lparr>should_seek_size := z, circular_buffer_vec := [w']\<rparr>)"
    "single (io\<lparr>should_seek_size := z, circular_buffer_vec := [w']\<rparr>) w'"
    "\<not> auto_adjust_capacity w'" "BufferCapacity w' = BufferCapacity w" "0 \<le> z" "nat z = debt io"
    "wr_contents w' = drop (length (wr_contents w) + n - BufferCapacity w) (wr_contents w)"
proof -
  note S = singleD [OF s(1)] and V = wr_views [OF singleD(2) [OF s(1)]]
  note F = free_single [OF s(1) cap st s(3)]
  have str: "stream io = wr_contents w" using S(7) s(3) by simp
  show ?thesis
  proof (cases "FreeSpaceBeforeOverwriting io < n")
    case False
    have "io\<lparr>should_seek_size := should_seek_size io, circular_buffer_vec := [w]\<rparr> = io"
      using S(1) by simp
    moreover have "length (wr_contents w) + n - BufferCapacity w = 0 \<or> wr_contents w = []"
      using False F S(5) V by (cases "0 < should_seek_size io") (auto simp: debt_def)
    ultimately show ?thesis
      using False s by (intro that [of w "should_seek_size io"]) (auto simp: make_free_def debt_def)
  next
    case True
    have d0: "debt io = 0" using True F S(5) n V by (cases "0 < should_seek_size io") (auto simp: debt_def)
    define k where "k = n - FreeSpaceBeforeOverwriting io"
    have us: "usub n (FreeSpaceBeforeOverwriting io) = k" using True n by (simp add: usub_id k_def)
    have k: "k < 2 ^ 29" "debt io + k < 2 ^ 30" using n d0 by (simp_all add: k_def)
    have k': "k = length (wr_contents w) + n - BufferCapacity w" "k \<le> length (wr_contents w)"
      using True F d0 V n by (simp_all add: k_def)
    from base_discard_single [OF s(1) k] obtain w' z where z:
      "BaseDiscardDataSizeInByte io k = Some (io\<lparr>should_seek_size := z, circular_buffer_vec := [w']\<rparr>, int k)"
      "single (io\<lparr>should_seek_size := z, circular_buffer_vec := [w']\<rparr>) w'"
      "stream (io\<lparr>should_seek_size := z, circular_buffer_vec := [w']\<rparr>) = drop k (stream io)"
      "nat z = debt io + (k - length (stream io))" "0 \<le> should_seek_size io \<Longrightarrow> 0 \<le> z"
      "BufferCapacity w' = BufferCapacity w" "auto_adjust_capacity w' = auto_adjust_capacity w"
      by blast
    have "make_free io n = Some (io\<lparr>should_seek_size := z, circular_buffer_vec := [w']\<rparr>)"
      using True fixed us z(1) by (simp add: make_free_def)
    moreover have "wr_contents w' = drop k (wr_contents w)"
      using z(3) z(5) [OF s(3)] unfolding str by (simp add: stream_def)
    ultimately show ?thesis
      using z s k' str d0 by (intro that [of w' z]) simp_all
  qed
qed

lemma io_write_single:
  assumes ok: "io_ok io" "op_ok io (IoWrite xs)"
  obtains io' where "Write io (Some xs) (length xs) = Some (io', length xs, CheckIfNotifyRead io')"
    "io_ok io'" "fst (spec_step (buffer_useable_capacity io) (io_abs io) (IoWrite xs)) = io_abs io'"
    "buffer_useable_capacity io' = buffer_useable_capacity io"
    "WritePlanar io [xs] (length xs) = Some (io', length xs, CheckIfNotifyRead io')"
    "format_info io' = format_info io"
proof -
  obtain w where s: "single io w" "\<not> auto_adjust_capacity w"
    and cap: "buffer_useable_capacity io = BufferCapacity w" and fx: "\<not> is_auto_expand_capacity io"
    using ok(1) by (rule io_okE)
  have n: "xs \<noteq> []" "length xs \<le> BufferCapacity w" "length xs < 2 ^ 29"
    and st: "status io = kStreaming" and pos: "0 \<le> should_seek_size io"
    using ok(2) cap by simp_all
  note S = singleD [OF s(1)] and V = wr_views [OF singleD(2) [OF s(1)]]
  from make_free_single [OF s pos cap st fx n(2,3)] obtain w1 z1 where
    m: "make_free io (length xs) = Some (io\<lparr>should_seek_size := z1, circular_buffer_vec := [w1]\<rparr>)"
    and s1: "single (io\<lparr>should_seek_size := z1, circular_buffer_vec := [w1]\<rparr>) w1"
    and a1: "\<not> auto_adjust_capacity w1" and c1: "BufferCapacity w1 = BufferCapacity w"
    and z1: "0 \<le> z1" "nat z1 = debt io"
    and r1: "wr_contents w1 = drop (length (wr_contents w) + length xs - BufferCapacity w) (wr_contents w)"
    by blast
  let ?io1 = "io\<lparr>should_seek_size := z1, circular_buffer_vec := [w1]\<rparr>"
  have d1: "debt ?io1 = debt io" using z1 by (simp add: debt_def)
  have "length (wr_contents w1) + (length xs - debt ?io1) \<le> BufferCapacity w1"
    using V n(2) unfolding r1 c1 by simp
  moreover have "0 \<le> should_seek_size ?io1" using z1 by simp
  ultimately obtain w2 z2 where
    k: "write_commit io [xs] (length xs) 0 =
       Some (?io1\<lparr>should_seek_size := z2, circular_buffer_vec := [w2]\<rparr>, length xs,
             CheckIfNotifyRead (?io1\<lparr>should_seek_size := z2, circular_buffer_vec := [w2]\<rparr>))"
    and s2: "single (?io1\<lparr>should_seek_size := z2, circular_buffer_vec := [w2]\<rparr>) w2"
    and a2: "\<not> auto_adjust_capacity w2" "BufferCapacity w2 = BufferCapacity w1" "0 \<le> z2"
    and r2: "wr_contents w2 = wr_contents w1 @ drop (debt ?io1) xs" "nat z2 = debt ?io1 - length xs"
    using commit_single [OF s1 a1 _ m n(3)] by blast
  let ?io = "io\<lparr>should_seek_size := z2, circular_buffer_vec := [w2]\<rparr>"
  have e: "?io1\<lparr>should_seek_size := z2, circular_buffer_vec := [w2]\<rparr> = ?io" by simp
  have "clip_write io (length xs) = (length xs, 0)" using cap n(2) by (simp add: clip_write_def)
  then have wp: "WritePlanar io [xs] (length xs) = Some (?io, length xs, CheckIfNotifyRead ?io)"
    using k S(6) st unfolding e by (simp add: WritePlanar_def)
  moreover have "split_data io xs (length xs) = [xs]" using S(6) by (simp add: split_data_def)
  ultimately have "Write io (Some xs) (length xs) = Some (?io, length xs, CheckIfNotifyRead ?io)"
    using S(6) n(1) by (simp add: Write_def)
  moreover have "io_ok ?io" using s2 a2 c1 cap fx unfolding e by (auto simp: io_ok_def)
  moreover have "stream io = wr_contents w" using S(7) pos by simp
  then have "fst (spec_step (buffer_useable_capacity io) (io_abs io) (IoWrite xs)) = io_abs ?io"
    using a2(3) r1 r2 d1 cap by (simp add: io_abs_def stream_def debt_def)
  ultimately show ?thesis using wp by (intro that [of ?io]) simp_all
qed

text \<open>A read into a block of its size, as a source of audio bytes.\<close>

definition io_read_bytes :: "audio_io \<Rightarrow> nat \<Rightarrow> (audio_io \<times> byte list) option" where
  "io_read_bytes io n =
     map_option (\<lambda>(io', data, k, e). (io', take k (the data))) (Read io (Some (replicate n 0)) n)"

lemma io_read_single:
  assumes ok: "io_ok io" and n: "0 < n" "n < 2 ^ 30"
  obtains io' where "io_read_bytes io n = Some (io', take n (stream io))" "io_ok io'"
    "stream io' = drop n (stream io)" "debt io' = debt io"
    "buffer_useable_capacity io' = buffer_useable_capacity io"
proof -
  obtain w where s: "single io w" "\<not> auto_adjust_capacity w"
    "buffer_useable_capacity io = BufferCapacity w" "\<not> is_auto_expand_capacity io"
    using ok by (rule io_okE)
  let ?d = "replicate n (0 :: byte)"
  have "n \<le> length ?d" by simp
  from base_read_single [OF s(1) n this] obtain w' z where
    r: "BaseRead io (Some ?d) n = Some (io\<lparr>should_seek_size := z, circular_buffer_vec := [w']\<rparr>,
           Some (mem_write ?d 0 (take n (stream io))), min n (length (stream io)))"
    "single (io\<lparr>should_seek_size := z, circular_buffer_vec := [w']\<rparr>) w'"
    "stream (io\<lparr>should_seek_size := z, circular_buffer_vec := [w']\<rparr>) = drop n (stream io)"
    "nat z = debt io" "BufferCapacity w' = BufferCapacity w"
    "auto_adjust_capacity w' = auto_adjust_capacity w"
    by blast
  have "take (min n (length (stream io))) (mem_write ?d 0 (take n (stream io))) = take n (stream io)"
    by (auto simp: mem_write_def min_def)
  then show ?thesis using r s
    by (intro that [of "io\<lparr>should_seek_size := z, circular_buffer_vec := [w']\<rparr>"])
      (auto simp: io_read_bytes_def Read_def io_ok_def debt_def)
qed

interpretation io_source: raw_source io_ok stream io_read_bytes CurrentSizeInternal
proof
  fix io n
  assume "io_ok io" "0 < n" "n < (2 :: nat) ^ 29"
  then show "\<exists>io'. io_read_bytes io n = Some (io', take n (stream io)) \<and> io_ok io' \<and>
      stream io' = drop n (stream io)"
    using io_read_single [of io n] by fastforce
next
  fix io
  assume "io_ok io"
  then show "CurrentSizeInternal io = length (stream io)"
    using single_current_size by (auto simp: io_ok_def)
qed

text \<open>A new buffer for interleaved data is empty.\<close>

lemma new_io_ok:
  assumes "\<not> IsPlanner f" "ValidPcmCheck f" "0 < n" "n < 2 ^ 30"
  obtains io where "AudioRingBufferIo_new f n False = Some io" "io_ok io" "stream io = []"
    "should_seek_size io = 0" "status io = kStreaming" "format_info io = f"
    "buffer_useable_capacity io = n"
proof -
  from byte_ring_create [OF assms(3,4)] obtain b where
    b: "create_byte_ring n = Some b" "byte_ring b" by blast
  define w where "w = RingBufferWrapper_new n False kMaxBufferSize"
  have h: "buff_handle w = Some b" using b(1) by (simp add: w_def RingBufferWrapper_new_def)
  have c: "rb_contents b = []" "element_count b = n"
    using create_buffer_inv [OF b(1)] assms(4) by simp_all
  have w: "wr_inv w" "wr_contents w = []" "BufferCapacity w = n" "\<not> auto_adjust_capacity w"
    using b(2) c wrapper_views(1,2) [OF h b(2)] h
    by (simp_all add: wr_inv_def w_def RingBufferWrapper_new_def kMaxBufferSize_def)
  have v: "ValidSampleRateAndChannelCheck f"
    using assms(2) by (simp add: ValidPcmCheck_def ValidSampleRateAndChannelCheck_def)
  have cnt: "GetBufferCount f = 1" using assms(1) by (simp add: GetBufferCount_def)
  define io :: audio_io where "io = \<lparr>status = kStreaming, should_seek_size = 0,
     circular_buffer_vec = [w], cancel_read = False, cancel_write = False,
     is_auto_expand_capacity = False, format_info = f, waiting_read_size = 0,
     waiting_write_size = 0, buffer_useable_capacity = n\<rparr>"
  have "AudioRingBufferIo_new f n False = Some io"
    using v by (simp add: AudioRingBufferIo_new_def cnt common_reader_new_def io_def w_def)
  moreover have "io_ok io" "stream io = []"
    using w by (simp_all add: io_def io_ok_def single_def stream_def)
  moreover have "should_seek_size io = 0" "status io = kStreaming" "format_info io = f"
    "buffer_useable_capacity io = n"
    by (simp_all add: io_def)
  ultimately show ?thesis by (rule that)
qed

subsection \<open>Properties\<close>

text \<open>
  C5: a non-expanding buffer with one queue refines the abstract stream with a debt: a write
  drops the announced debt, pushes out the oldest bytes that exceed the capacity and appends the
  rest; a read returns and removes the front of the stream (pending zeros first); a discard
  removes from the front and remembers what was missing. No operation fails.
\<close>

theorem io_refines_spec:
  assumes "io_ok io" and "op_ok io op"
  shows "\<exists>io'. io_run_op io op =
           Some (io', snd (spec_step (buffer_useable_capacity io) (io_abs io) op)) \<and> io_ok io' \<and>
         io_abs io' = fst (spec_step (buffer_useable_capacity io) (io_abs io) op) \<and>
         buffer_useable_capacity io' = buffer_useable_capacity io"
proof -
  obtain w where s: "single io w" "\<not> auto_adjust_capacity w"
    "buffer_useable_capacity io = BufferCapacity w" "\<not> is_auto_expand_capacity io"
    using assms(1) by (rule io_okE)
  show ?thesis
  proof (cases op)
    case (IoWrite xs)
    obtain io' where "Write io (Some xs) (length xs) = Some (io', length xs, CheckIfNotifyRead io')"
      "io_ok io'" "fst (spec_step (buffer_useable_capacity io) (io_abs io) (IoWrite xs)) = io_abs io'"
      "buffer_useable_capacity io' = buffer_useable_capacity io"
      using io_write_single [OF assms(1)] assms(2) IoWrite by blast
    then show ?thesis by (simp add: IoWrite io_abs_def)
  next
    case (IoRead n)
    have n: "0 < n" "n < 2 ^ 30" using assms(2) IoRead by simp_all
    obtain io' where "io_read_bytes io n = Some (io', take n (stream io))" "io_ok io'"
      "stream io' = drop n (stream io)" "debt io' = debt io"
      "buffer_useable_capacity io' = buffer_useable_capacity io"
      by (rule io_read_single [OF assms(1) n])
    then show ?thesis
      by (intro exI [of _ io']) (simp add: IoRead io_read_bytes_def io_abs_def)
  next
    case (IoDiscard n)
    have n: "n < 2 ^ 29" "debt io + n < 2 ^ 30" using assms(2) IoDiscard by simp_all
    from base_discard_single [OF s(1) n] obtain w' z where
      "BaseDiscardDataSizeInByte io n = Some (io\<lparr>should_seek_size := z, circular_buffer_vec := [w']\<rparr>, int n)"
      "single (io\<lparr>should_seek_size := z, circular_buffer_vec := [w']\<rparr>) w'"
      "stream (io\<lparr>should_seek_size := z, circular_buffer_vec := [w']\<rparr>) = drop n (stream io)"
      "nat z = debt io + (n - length (stream io))" "BufferCapacity w' = BufferCapacity w"
      "auto_adjust_capacity w' = auto_adjust_capacity w"
      by blast
    then show ?thesis using s
      by (auto simp: IoDiscard DiscardDataSizeInByte_def io_ok_def io_abs_def debt_def)
  qed
qed

text \<open>A mono buffer of four bytes that holds three, for the concrete instances.\<close>

definition sample_io :: audio_io where
  "sample_io = \<lparr>status = kStreaming, should_seek_size = 0,
     circular_buffer_vec = [sample_wrapper ring_diff False], cancel_read = False,
     cancel_write = False, is_auto_expand_capacity = False, format_info = k16kMonoPcm16,
     waiting_read_size = 0, waiting_write_size = 0, buffer_useable_capacity = 4\<rparr>"

lemma sample_io_ok: "io_ok sample_io" "io_abs sample_io = ([40, 10, 20], 0)"
  "buffer_useable_capacity sample_io = 4"
  by (simp_all add: io_ok_def single_def sample_io_def sample_wrappers io_abs_def stream_def
      debt_def sample_wrapper_def [of ring_diff False] ring_samples)
    (simp_all add: sample_wrappers sample_wrapper_def [symmetric])

theorem io_refines_spec_witness:
  "\<exists>io'. io_run_op sample_io (IoWrite [1, 2]) = Some (io', []) \<and> io_abs io' = ([10, 20, 1, 2], 0)"
proof -
  have "op_ok sample_io (IoWrite [1, 2])" by (simp add: sample_io_def)
  from io_refines_spec [OF sample_io_ok(1) this] show ?thesis
    unfolding sample_io_ok by auto
qed



text \<open>
  \<open>WriteCompletion\<close> strands a sleeping reader. It could return at once (its loop condition is
  false), but it is not notified, and afterwards neither a write nor a discard notifies it: it
  sleeps until it is cancelled, reset or woken spuriously.
\<close>

theorem completion_strands_reader:
  assumes "reader s = Some (n, False)" and "status (io_state s) = kStreaming"
    and "s' = completion_step s"
  shows "reader s' = Some (n, False) \<and> \<not> must_wait_read (io_state s') n \<and>
     (\<forall>datas m. WritePlanar (io_state s') datas m = Some (io_state s', 0, [])) \<and>
     (\<forall>m io' r events. DiscardDataSizeInByte (io_state s') m = Some (io', r, events) \<longrightarrow>
        reader (notify events (s'\<lparr>io_state := io'\<rparr>)) = Some (n, False))"
proof -
  have st: "status (io_state s') = kStatic"
    using assms(2,3) by (simp add: completion_step_def WriteCompletion_def)
  have rd: "reader s' = Some (n, False)" using assms(1,3) by (simp add: completion_step_def)
  have "ReaderCv \<notin> set events" if "DiscardDataSizeInByte (io_state s') m = Some (io', r, events)"
    for m io' r events
    using Discard_frame [OF that] by (auto simp: CheckIfNotifyWrite_def)
  then show ?thesis using st rd
    by (auto simp: must_wait_read_def WritePlanar_def notify_def)
qed

theorem completion_strands_reader_witness:
  "\<exists>s' :: io_system. reader s' = Some (8, False) \<and> status (io_state s') = kStatic \<and> \<not> must_wait_read (io_state s') 8"
proof -
  let ?s = "\<lparr>io_state = sample_io, reader = Some (8, False), writer = None\<rparr>"
  have "reader ?s = Some (8, False)" "status (io_state ?s) = kStreaming"
    by (simp_all add: sample_io_def)
  from completion_strands_reader [OF this refl] have
    "reader (completion_step ?s) = Some (8, False)" "\<not> must_wait_read (io_state (completion_step ?s)) 8"
    by blast+
  moreover have "status (io_state (completion_step ?s)) = kStatic"
    by (simp add: completion_step_def WriteCompletion_def sample_io_def)
  ultimately show ?thesis by blast
qed

text \<open>
  on planar data a read reports more than there is. With two queues of \<open>k\<close> bytes each, a
  request for \<open>2 * m\<close> bytes with \<open>k < m \<le> 2 * k\<close> claims to have read all \<open>2 * m\<close>, although
  \<open>CurrentSize\<close> is \<open>2 * k\<close>; the interface promises at most \<open>CurrentSize\<close>.
\<close>

theorem planar_read_overreports:
  assumes "circular_buffer_vec io = [w1, w2]" "wr_inv w1" "wr_inv w2" "should_seek_size io = 0"
    and "length (wr_contents w1) = k" "length (wr_contents w2) = k"
    and "k < m" "m \<le> 2 * k" "m < 2 ^ 30" "2 * m \<le> length data"
  shows "CurrentSizeInternal io = 2 * k \<and> CurrentSizeInternal io < 2 * m \<and>
     (\<exists>io' data' events. Read io (Some data) (2 * m) = Some (io', Some data', 2 * m, events))"
proof -
  have "0 < m" using assms(7) by simp
  from two_queues_read [OF assms(1-6) this assms(8,10,9)] two_queues_size [OF assms(1-6)] assms(7)
  show ?thesis by (auto simp: Read_def)
qed

theorem planar_read_overreports_witness:
  "\<exists>io io' data' events. CurrentSizeInternal io = 6 \<and>
     Read io (Some (replicate 8 0)) 8 = Some (io', Some data', 8, events)"
proof -
  let ?w = "sample_wrapper ring_diff False"
  let ?io = "sample_io\<lparr>circular_buffer_vec := [?w, ?w]\<rparr>"
  have len: "length (wr_contents ?w) = 3" by (simp add: sample_wrappers)
  have "2 * 4 \<le> length (replicate 8 (0 :: byte))" by simp
  then have "CurrentSizeInternal ?io = 6" "\<exists>io' data' events.
      Read ?io (Some (replicate 8 0)) 8 = Some (io', Some data', 8, events)"
    using planar_read_overreports [of ?io ?w ?w 3 4 "replicate 8 0"] len sample_wrappers(1)
    by (simp_all add: sample_io_def)
  then show ?thesis by blast
qed

end
