(* ===== verification/AudioFrame.thy ===== *)
theory AudioFrame
  imports AudioFormat
begin

text \<open>
  \<open>src/src/core/audio/audio_frame.h\<close> and \<open>audio_frame.cc\<close>: views of audio data and the frames that
  own or borrow a block of bytes. A pointer to data is the list of the bytes from there on; \<open>None\<close>
  as a result stands for a division by zero or the use of a null or dangling pointer.
\<close>

subsection \<open>AudioFormatSizeView\<close>

text \<open>The sizes of a number of bytes under a format.\<close>

definition div_size :: "nat \<Rightarrow> nat \<Rightarrow> nat option" where
  "div_size a b = (if b = 0 then None else Some (a div b))"

definition SampleSize :: "nat \<Rightarrow> AudioFormatInfo \<Rightarrow> nat option" where
  "SampleSize byte_size info = div_size byte_size (ByteSizePerSample (audio_sample_format info))"

definition OneDimByteSize :: "nat \<Rightarrow> AudioFormatInfo \<Rightarrow> nat option" where
  "OneDimByteSize byte_size info =
     (if IsPlanner info then div_size byte_size (size_of_int (GetChannelsCount info)) else Some byte_size)"

definition FrameSize :: "nat \<Rightarrow> AudioFormatInfo \<Rightarrow> nat option" where
  "FrameSize byte_size info = div_size byte_size (ByteSizePerFrame info)"

definition SizeInMs :: "nat \<Rightarrow> AudioFormatInfo \<Rightarrow> time_data option" where
  "SizeInMs byte_size info = AudioByteSizeToMs info byte_size"

definition FormatConvertFrameSize :: "nat \<Rightarrow> AudioFormatInfo \<Rightarrow> AudioFormatInfo \<Rightarrow> nat option" where
  "FormatConvertFrameSize byte_size info tar_format =
     Option.bind (AudioConvertByteSize tar_format info byte_size)
       (\<lambda>n. div_size n (ByteSizePerFrame tar_format))"

definition FormatConvertByteSize :: "nat \<Rightarrow> AudioFormatInfo \<Rightarrow> AudioFormatInfo \<Rightarrow> nat option" where
  "FormatConvertByteSize byte_size info tar_format =
     map_option (\<lambda>n. umul n (ByteSizePerFrame tar_format)) (FormatConvertFrameSize byte_size info tar_format)"

definition FormatConvertSampleSize :: "nat \<Rightarrow> AudioFormatInfo \<Rightarrow> AudioFormatInfo \<Rightarrow> nat option" where
  "FormatConvertSampleSize byte_size info tar_format =
     map_option (\<lambda>n. umul n (size_of_int (GetChannelsCount tar_format)))
       (FormatConvertFrameSize byte_size info tar_format)"

subsection \<open>Views\<close>

text \<open>\<open>ToPlanarData\<close>: a pointer to each channel of planar data, one pointer for packed data.\<close>

definition ToPlanarData :: "'a list \<Rightarrow> nat \<Rightarrow> AudioFormatInfo \<Rightarrow> 'a list list option" where
  "ToPlanarData data n info =
     (if IsPlanner info then
        map_option (\<lambda>one_channel_size.
            map (\<lambda>i. drop (i * one_channel_size) data) [0..<nat (GetChannelsCount info)])
          (div_size n (size_of_int (GetChannelsCount info)))
      else Some [data])"

record frame_view =
  view_data :: "byte list"
  view_size :: nat
  view_format :: AudioFormatInfo

definition CopyTo :: "frame_view \<Rightarrow> byte list \<Rightarrow> nat \<Rightarrow> byte list \<times> nat" where
  "CopyTo v data data_capacity =
     (let copy_size = (if data_capacity < view_size v then data_capacity else view_size v)
      in (mem_write data 0 (take copy_size (view_data v)), copy_size))"

definition PlanarData :: "frame_view \<Rightarrow> byte list list option" where
  "PlanarData v = ToPlanarData (view_data v) (view_size v) (view_format v)"

text \<open>\<open>AudioFrameMaybePlanarView\<close>: a pointer for each array, all of the same size.\<close>

record planar_view =
  planes :: "byte list list"
  planar_size :: nat
  planar_format :: AudioFormatInfo

definition AudioFrameMaybePlanarView_new :: "byte list list \<Rightarrow> nat \<Rightarrow> AudioFormatInfo \<Rightarrow> planar_view" where
  "AudioFrameMaybePlanarView_new data one_dim_size info =
     \<lparr>planes = data, planar_size = umul one_dim_size (size_of_int (GetChannelsCount info)), planar_format = info\<rparr>"

subsection \<open>AudioFrameLiteDelegate\<close>

text \<open>
  The frame keeps two pointers to its block, \<open>data_\<close> and \<open>const_data_\<close>, and one to its own format;
  the second data pointer may be null, the same as the first, or dangling, and the format pointer
  may be null. The block itself is \<open>frame_block\<close>.
\<close>

datatype const_ptr = ConstNull | ConstData | ConstFreed

record audio_frame =
  frame_block :: "byte list option"
  capacity_in_byte :: nat
  byte_size :: nat
  const_data :: const_ptr
  format_ptr_set :: bool
  frame_format :: AudioFormatInfo

definition AudioFrameLiteDelegate_new :: "byte list \<Rightarrow> nat \<Rightarrow> nat \<Rightarrow> AudioFormatInfo \<Rightarrow> audio_frame" where
  "AudioFrameLiteDelegate_new data readable_data_size capacity audio_format =
     \<lparr>frame_block = Some data, capacity_in_byte = capacity,
      byte_size = (if capacity < readable_data_size then capacity else readable_data_size),
      const_data = ConstData, format_ptr_set = True, frame_format = audio_format\<rparr>"

definition AudioFrameLiteDelegate_new_ms :: "byte list \<Rightarrow> time_data \<Rightarrow> nat \<Rightarrow> AudioFormatInfo \<Rightarrow> audio_frame" where
  "AudioFrameLiteDelegate_new_ms data readable_data_size capacity audio_format =
     AudioFrameLiteDelegate_new data (AudioMsToByteSize audio_format readable_data_size) capacity audio_format"

definition AudioFrameLiteDelegate_format :: "AudioFormatInfo \<Rightarrow> audio_frame" where
  "AudioFrameLiteDelegate_format audio_format =
     \<lparr>frame_block = None, capacity_in_byte = 0, byte_size = 0, const_data = ConstNull,
      format_ptr_set = True, frame_format = audio_format\<rparr>"

text \<open>The move constructor: the new frame and what is left of the source.\<close>

definition delegate_move :: "audio_frame \<Rightarrow> audio_frame \<times> audio_frame" where
  "delegate_move src =
     (\<lparr>frame_block = frame_block src, capacity_in_byte = capacity_in_byte src, byte_size = 0,
       const_data = ConstNull, format_ptr_set = True, frame_format = frame_format src\<rparr>,
      src\<lparr>frame_block := None, capacity_in_byte := 0\<rparr>)"

definition ResetReadableSizeInByte :: "audio_frame \<Rightarrow> nat \<Rightarrow> audio_frame" where
  "ResetReadableSizeInByte f n = (if capacity_in_byte f < n then f else f\<lparr>byte_size := n\<rparr>)"

definition ResetReadableSize :: "audio_frame \<Rightarrow> time_data \<Rightarrow> audio_frame" where
  "ResetReadableSize f ms = ResetReadableSizeInByte f (AudioMsToByteSize (frame_format f) ms)"

definition FreeSizeInByte :: "audio_frame \<Rightarrow> nat" where
  "FreeSizeInByte f = usub (capacity_in_byte f) (byte_size f)"

definition write_at :: "audio_frame \<Rightarrow> nat \<Rightarrow> byte list \<Rightarrow> audio_frame option" where
  "write_at f off bytes =
     (case frame_block f of
        None \<Rightarrow> if bytes = [] then Some f else None
      | Some d \<Rightarrow> Some (f\<lparr>frame_block := Some (mem_write d off bytes)\<rparr>))"

definition CopyFrom :: "audio_frame \<Rightarrow> byte list \<Rightarrow> nat \<Rightarrow> (audio_frame \<times> nat) option" where
  "CopyFrom f data data_size =
     (let copy_size = (if capacity_in_byte f < data_size then capacity_in_byte f else data_size)
      in map_option (\<lambda>f. (ResetReadableSizeInByte f copy_size, copy_size)) (write_at f 0 (take copy_size data)))"

definition CopyFrom_view :: "audio_frame \<Rightarrow> frame_view \<Rightarrow> (audio_frame \<times> nat) option" where
  "CopyFrom_view f v = CopyFrom (f\<lparr>frame_format := view_format v\<rparr>) (view_data v) (view_size v)"

fun copy_planes :: "audio_frame \<Rightarrow> nat \<Rightarrow> nat \<Rightarrow> byte list list \<Rightarrow> audio_frame option" where
  "copy_planes f off n [] = Some f"
| "copy_planes f off n (p # ps) =
     Option.bind (write_at f off (take n p)) (\<lambda>f. copy_planes f (off + n) n ps)"

definition CopyFrom_planar :: "audio_frame \<Rightarrow> planar_view \<Rightarrow> (audio_frame \<times> nat) option" where
  "CopyFrom_planar f v =
     (let f = f\<lparr>frame_format := planar_format v\<rparr>;
          copy_size = (if capacity_in_byte f < planar_size v then capacity_in_byte f else planar_size v)
      in Option.bind (div_size copy_size (size_of_int (GetChannelsCount (frame_format f)))) (\<lambda>per_channel.
           map_option (\<lambda>f. (ResetReadableSizeInByte f copy_size, copy_size))
             (copy_planes f 0 per_channel (planes v))))"

definition Append :: "audio_frame \<Rightarrow> byte list \<Rightarrow> nat \<Rightarrow> (audio_frame \<times> nat) option" where
  "Append f data data_size =
     (let free_size = FreeSizeInByte f; copy_size = (if free_size < data_size then free_size else data_size)
      in map_option (\<lambda>f. (ResetReadableSizeInByte f (uadd (byte_size f) copy_size), copy_size))
           (write_at f (byte_size f) (take copy_size data)))"

definition MutablePlanarData :: "audio_frame \<Rightarrow> byte list list option" where
  "MutablePlanarData f =
     Option.bind (frame_block f) (\<lambda>d. ToPlanarData d (byte_size f) (frame_format f))"

text \<open>The frame as a view; \<open>Data()\<close> is \<open>const_data_\<close>, and the sizes go through the format pointer.\<close>

definition as_view :: "audio_frame \<Rightarrow> frame_view option" where
  "as_view f =
     (case (const_data f, frame_block f) of
        (ConstData, Some d) \<Rightarrow>
          if format_ptr_set f then Some \<lparr>view_data = d, view_size = byte_size f, view_format = frame_format f\<rparr> else None
      | _ \<Rightarrow> None)"

subsection \<open>AudioFrameLite\<close>

text \<open>New memory is given by its contents, \<open>fresh\<close>.\<close>

definition ExpandCapacityIfNeed :: "audio_frame \<Rightarrow> nat \<Rightarrow> byte list \<Rightarrow> audio_frame" where
  "ExpandCapacityIfNeed f capacity fresh =
     (if capacity_in_byte f < capacity then
        let old = (case frame_block f of None \<Rightarrow> [] | Some d \<Rightarrow> d);
            new_data = (if 0 < byte_size f then mem_write fresh 0 (take (byte_size f) old) else fresh)
        in f\<lparr>frame_block := Some new_data, capacity_in_byte := capacity, const_data := ConstData\<rparr>
      else f)"

definition AudioFrameLite_new :: "AudioFormatInfo \<Rightarrow> nat \<Rightarrow> nat \<Rightarrow> byte list \<Rightarrow> audio_frame" where
  "AudioFrameLite_new info capacity readable_size fresh =
     (ExpandCapacityIfNeed (AudioFrameLiteDelegate_format info) capacity fresh)\<lparr>byte_size := readable_size\<rparr>"

definition AudioFrameLite_new_ms :: "AudioFormatInfo \<Rightarrow> time_data \<Rightarrow> time_data \<Rightarrow> byte list \<Rightarrow> audio_frame" where
  "AudioFrameLite_new_ms info capacity readable_size fresh =
     AudioFrameLite_new info (AudioMsToByteSize info capacity) (AudioMsToByteSize info readable_size) fresh"

text \<open>The move constructor starts from the members' defaults, the assignment from the old frame.\<close>

definition lite_move :: "audio_frame \<Rightarrow> audio_frame \<times> audio_frame" where
  "lite_move src =
     (\<lparr>frame_block = frame_block src, capacity_in_byte = capacity_in_byte src, byte_size = 0,
       const_data = ConstNull, format_ptr_set = False, frame_format = frame_format src\<rparr>,
      src\<lparr>frame_block := None, capacity_in_byte := 0\<rparr>)"

definition lite_move_assign :: "audio_frame \<Rightarrow> audio_frame \<Rightarrow> audio_frame \<times> audio_frame" where
  "lite_move_assign f src =
     (f\<lparr>frame_block := frame_block src, capacity_in_byte := capacity_in_byte src, frame_format := frame_format src,
         const_data := (if const_data f = ConstData then ConstFreed else const_data f)\<rparr>,
      src\<lparr>frame_block := None, capacity_in_byte := 0\<rparr>)"

subsection \<open>A frame is a bounded buffer\<close>

definition frame_ok :: "audio_frame \<Rightarrow> bool" where
  "frame_ok f \<longleftrightarrow> (\<exists>d. frame_block f = Some d \<and> length d = capacity_in_byte f) \<and>
     byte_size f \<le> capacity_in_byte f \<and> capacity_in_byte f < 2 ^ 63 \<and>
     const_data f = ConstData \<and> format_ptr_set f"

definition readable :: "audio_frame \<Rightarrow> byte list" where
  "readable f = take (byte_size f) (the (frame_block f))"

text \<open>
  What the operations promise: the capacity and the readable bytes. Appending and copying clip to
  the capacity, growing keeps the bytes, cutting keeps a first part.
\<close>

datatype frame_op = OpAppend "byte list" | OpCopy "byte list" | OpExpand "byte list" | OpCut nat

fun frame_spec :: "frame_op \<Rightarrow> nat \<times> byte list \<Rightarrow> nat \<times> byte list" where
  "frame_spec (OpAppend xs) (c, r) = (c, take c (r @ xs))"
| "frame_spec (OpCopy xs) (c, r) = (c, take c xs)"
| "frame_spec (OpExpand fresh) (c, r) = (max c (length fresh), r)"
| "frame_spec (OpCut n) (c, r) = (c, take n r)"

fun frame_run_op :: "frame_op \<Rightarrow> audio_frame \<Rightarrow> audio_frame option" where
  "frame_run_op (OpAppend xs) f = map_option fst (Append f xs (length xs))"
| "frame_run_op (OpCopy xs) f = map_option fst (CopyFrom f xs (length xs))"
| "frame_run_op (OpExpand fresh) f = Some (ExpandCapacityIfNeed f (length fresh) fresh)"
| "frame_run_op (OpCut n) f = Some (ResetReadableSizeInByte f (min n (byte_size f)))"

fun frame_op_ok :: "frame_op \<Rightarrow> bool" where
  "frame_op_ok (OpAppend xs) \<longleftrightarrow> length xs < 2 ^ 63"
| "frame_op_ok (OpCopy xs) \<longleftrightarrow> length xs < 2 ^ 63"
| "frame_op_ok (OpExpand fresh) \<longleftrightarrow> length fresh < 2 ^ 63"
| "frame_op_ok (OpCut n) \<longleftrightarrow> True"

definition frame_abs :: "audio_frame \<Rightarrow> nat \<times> byte list" where
  "frame_abs f = (capacity_in_byte f, readable f)"

lemma append_clipped:
  assumes "frame_ok f" and "length xs < 2 ^ 63"
  obtains f' n where "Append f xs (length xs) = Some (f', n)" and "frame_ok f'"
    and "frame_abs f' = frame_spec (OpAppend xs) (frame_abs f)"
    and "n = min (length xs) (capacity_in_byte f - byte_size f)"
proof -
  obtain d where d: "frame_block f = Some d" "length d = capacity_in_byte f"
    and b: "byte_size f \<le> capacity_in_byte f" "capacity_in_byte f < 2 ^ 63" "const_data f = ConstData" "format_ptr_set f"
    using assms(1) by (auto simp: frame_ok_def)
  define n where "n = min (length xs) (capacity_in_byte f - byte_size f)"
  define f' where "f' = f\<lparr>frame_block := Some (mem_write d (byte_size f) (take n xs)), byte_size := byte_size f + n\<rparr>"
  have free: "FreeSizeInByte f = capacity_in_byte f - byte_size f"
    using b by (simp add: FreeSizeInByte_def usub_id)
  have le: "byte_size f + n \<le> capacity_in_byte f" using b by (simp add: n_def)
  then have "uadd (byte_size f) n = byte_size f + n" using b by (simp add: uadd_id)
  moreover have "(if capacity_in_byte f - byte_size f < length xs then capacity_in_byte f - byte_size f else length xs) = n"
    by (auto simp: n_def)
  ultimately have "Append f xs (length xs) = Some (f', n)"
    unfolding Append_def Let_def free using d le by (simp add: write_at_def ResetReadableSizeInByte_def f'_def)
  moreover have "length (mem_write d (byte_size f) (take n xs)) = capacity_in_byte f"
    using le d by (simp add: length_mem_write n_def)
  then have "frame_ok f'" using le b by (simp add: frame_ok_def f'_def)
  moreover have "take (byte_size f + n) (mem_write d (byte_size f) (take n xs)) = take (byte_size f) d @ take n xs"
    using le d b by (simp add: mem_write_def n_def)
  then have "frame_abs f' = frame_spec (OpAppend xs) (frame_abs f)"
    using d b by (auto simp: frame_abs_def f'_def readable_def n_def min_def)
  ultimately show thesis using that n_def by blast
qed

lemma copy_clipped:
  assumes "frame_ok f" and "length xs < 2 ^ 63"
  obtains f' n where "CopyFrom f xs (length xs) = Some (f', n)" and "frame_ok f'"
    and "frame_abs f' = frame_spec (OpCopy xs) (frame_abs f)" and "n = min (length xs) (capacity_in_byte f)"
proof -
  obtain d where d: "frame_block f = Some d" "length d = capacity_in_byte f"
    and b: "capacity_in_byte f < 2 ^ 63" "const_data f = ConstData" "format_ptr_set f"
    using assms(1) by (auto simp: frame_ok_def)
  define n where "n = min (length xs) (capacity_in_byte f)"
  define f' where "f' = f\<lparr>frame_block := Some (mem_write d 0 (take n xs)), byte_size := n\<rparr>"
  have le: "n \<le> capacity_in_byte f" by (simp add: n_def)
  have "CopyFrom f xs (length xs) = Some (f', n)"
    using d le by (simp add: CopyFrom_def write_at_def n_def ResetReadableSizeInByte_def f'_def Let_def min_def)
  moreover have "length (mem_write d 0 (take n xs)) = capacity_in_byte f"
    using le d by (simp add: length_mem_write n_def)
  then have "frame_ok f'" using le b by (simp add: frame_ok_def f'_def)
  moreover have "frame_abs f' = frame_spec (OpCopy xs) (frame_abs f)"
    by (auto simp: frame_abs_def f'_def readable_def mem_write_def n_def min_def)
  ultimately show thesis using that n_def by blast
qed

lemma expand_keeps:
  assumes "frame_ok f" and "length fresh < 2 ^ 63"
  shows "frame_ok (ExpandCapacityIfNeed f (length fresh) fresh) \<and>
     frame_abs (ExpandCapacityIfNeed f (length fresh) fresh) = frame_spec (OpExpand fresh) (frame_abs f)"
  using assms
  by (auto simp: frame_ok_def ExpandCapacityIfNeed_def frame_abs_def readable_def Let_def mem_write_def max_def)

text \<open>
  C31: a frame is a bounded buffer. Over any sequence of appends, copies, growths and cuts no copy
  runs past the block, and the capacity and the readable bytes are those of the specification:
  what does not fit is clipped at the end, and growing loses nothing.
\<close>

theorem frame_refines_buffer:
  assumes "frame_ok f" and "\<forall>op\<in>set ops. frame_op_ok op"
  shows "\<exists>f'. foldl (\<lambda>r op. Option.bind r (frame_run_op op)) (Some f) ops = Some f' \<and> frame_ok f' \<and>
     frame_abs f' = foldl (\<lambda>s op. frame_spec op s) (frame_abs f) ops"
  using assms
proof (induction ops arbitrary: f)
  case Nil
  then show ?case by simp
next
  case (Cons op ops)
  have "\<exists>f'. frame_run_op op f = Some f' \<and> frame_ok f' \<and> frame_abs f' = frame_spec op (frame_abs f)"
  proof (cases op)
    case (OpAppend xs)
    then show ?thesis
      using Cons.prems by (auto intro: append_clipped [of f xs])
  next
    case (OpCopy xs)
    then show ?thesis using Cons.prems by (auto intro: copy_clipped [of f xs])
  next
    case (OpExpand fresh)
    then show ?thesis using Cons.prems expand_keeps [of f fresh] by simp
  next
    case (OpCut n)
    then show ?thesis using Cons.prems
      by (auto simp: frame_ok_def ResetReadableSizeInByte_def frame_abs_def readable_def min_def)
  qed
  then show ?case using Cons.IH Cons.prems(2) by fastforce
qed

theorem frame_refines_buffer_witness:
  "\<exists>f'. foldl (\<lambda>r op. Option.bind r (frame_run_op op))
       (Some (AudioFrameLiteDelegate_new (replicate 4 0) 0 4 k16kMonoPcm16))
       [OpAppend [1, 2, 3], OpAppend [4, 5], OpExpand (replicate 6 0), OpAppend [6]] = Some f' \<and>
     frame_abs f' = (6, [1, 2, 3, 4, 6])"
proof -
  have "frame_ok (AudioFrameLiteDelegate_new (replicate 4 0) 0 4 k16kMonoPcm16)"
    by (simp add: frame_ok_def AudioFrameLiteDelegate_new_def)
  moreover have "frame_abs (AudioFrameLiteDelegate_new (replicate 4 0) 0 4 k16kMonoPcm16) = (4, [])"
    by (simp add: frame_abs_def readable_def AudioFrameLiteDelegate_new_def)
  ultimately show ?thesis
    using frame_refines_buffer [of "AudioFrameLiteDelegate_new (replicate 4 0) 0 4 k16kMonoPcm16"
        "[OpAppend [1, 2, 3], OpAppend [4, 5], OpExpand (replicate 6 0), OpAppend [6]]"]
    by simp blast
qed

subsection \<open>Channels\<close>

lemma concat_slices:
  "concat (map (\<lambda>i. take n (drop (i * n) d)) [0..<k]) = take (k * n) d"
proof (induction k)
  case (Suc k)
  have "take (k * n) d @ take n (drop (k * n) d) = take (k * n + n) d" by (simp add: take_add)
  then show ?case using Suc by (simp add: add.commute)
qed simp

lemma concat_length: "\<forall>p\<in>set ps. length p = n \<Longrightarrow> length (concat ps) = length ps * n"
  by (induction ps) simp_all

lemma channel_counts: "GetChannelsCount f \<in> {0, 1, 2}"
  by (cases "channel_layout f") (simp_all add: GetChannelsCount_def format_lookups format_tables)

lemma copy_planes_value:
  assumes "frame_block f = Some d" and "length d = capacity_in_byte f" and "\<forall>p\<in>set ps. n \<le> length p"
    and "off + length ps * n \<le> length d"
  shows "copy_planes f off n ps = Some (f\<lparr>frame_block := Some (mem_write d off (concat (map (take n) ps)))\<rparr>)"
  using assms
proof (induction ps arbitrary: f d off)
  case (Cons p ps)
  let ?d = "mem_write d off (take n p)"
  have l: "length (take n p) = n" using Cons.prems(3) by simp
  have "length ?d = length d" using Cons.prems l by (simp add: length_mem_write)
  then have "copy_planes (f\<lparr>frame_block := Some ?d\<rparr>) (off + n) n ps =
      Some (f\<lparr>frame_block := Some (mem_write ?d (off + n) (concat (map (take n) ps)))\<rparr>)"
    using Cons.IH [of "f\<lparr>frame_block := Some ?d\<rparr>" ?d "off + n"] Cons.prems by (simp add: add.assoc)
  moreover have "length (concat (map (take n) ps)) = length ps * n"
    using Cons.prems(3) by (induction ps) (simp_all add: min_def)
  ultimately show ?case
    using Cons.prems l by (simp add: write_at_def mem_write_append)
qed (simp add: mem_write_def)

text \<open>
  planar data and its channels. The channels of a readable planar frame are its consecutive
  slices, and a planar view of as many arrays as channels is copied in full, one channel after the
  other, where the frame has the capacity.
\<close>

theorem planar_slices:
  assumes "frame_ok f" and "ValidPcmCheck info"
    and "v = AudioFrameMaybePlanarView_new data one info"
    and "length data = nat (GetChannelsCount info)" and "\<forall>p\<in>set data. length p = one"
    and "length data * one \<le> capacity_in_byte f"
  shows "\<exists>f'. CopyFrom_planar f v = Some (f', length data * one) \<and> frame_ok f' \<and> readable f' = concat data \<and>
     (IsPlanner info \<longrightarrow> (\<exists>ps. MutablePlanarData f' = Some ps \<and> map (take one) ps = data))"
proof -
  let ?c = "nat (GetChannelsCount info)"
  have c: "size_of_int (GetChannelsCount info) = ?c" "?c \<in> {1, 2}"
    using valid_channels [OF assms(2)] channel_counts [of info] by (auto simp: size_of_int_def)
  obtain d where d: "frame_block f = Some d" "length d = capacity_in_byte f" and cap: "capacity_in_byte f < 2 ^ 63"
    and k: "const_data f = ConstData" "format_ptr_set f"
    using assms(1) by (auto simp: frame_ok_def)
  have size: "planar_size v = length data * one"
    using assms(3,4,6) c cap by (simp add: AudioFrameMaybePlanarView_new_def umul_id mult.commute)
  have len: "length (concat data) = length data * one"
    using concat_length [OF assms(5)] .
  have tk: "map (take one) data = data" using assms(5) by (simp add: map_idI)
  define d' where "d' = mem_write d 0 (concat data)"
  have d': "length d' = capacity_in_byte f" using len assms(6) d by (simp add: d'_def length_mem_write)
  define f' where "f' = f\<lparr>frame_format := info, frame_block := Some d', byte_size := length data * one\<rparr>"
  have "copy_planes (f\<lparr>frame_format := info\<rparr>) 0 one data = Some (f\<lparr>frame_format := info, frame_block := Some d'\<rparr>)"
    using copy_planes_value [of "f\<lparr>frame_format := info\<rparr>" d data one 0] d assms(5,6) tk by (simp add: d'_def)
  then have "CopyFrom_planar f v = Some (f', length data * one)"
    using c assms(3,4,6) size
    by (auto simp: CopyFrom_planar_def Let_def AudioFrameMaybePlanarView_new_def div_size_def
        ResetReadableSizeInByte_def f'_def)
  moreover have "frame_ok f'" using d' assms(6) cap k by (simp add: frame_ok_def f'_def)
  moreover have "take (length data * one) d' = concat data"
    using len by (simp add: d'_def mem_write_def)
  then have "readable f' = concat data" by (simp add: readable_def f'_def)
  moreover have "\<exists>ps. MutablePlanarData f' = Some ps \<and> map (take one) ps = data" if "IsPlanner info"
  proof -
    let ?ps = "map (\<lambda>i. drop (i * one) d') [0..<length data]"
    have "take one (drop (i * one) d') = data ! i" if "i < length data" for i
    proof -
      have "d' = concat (take i data) @ data ! i @ concat (drop (Suc i) data) @ drop (length (concat data)) d"
        using id_take_nth_drop [OF that] by (simp add: d'_def mem_write_def) (metis concat.simps(2) concat_append append.assoc)
      moreover have "length (concat (take i data)) = i * one"
        using concat_length [of "take i data" one] assms(5) that by (auto dest: in_set_takeD)
      ultimately show ?thesis using assms(5) that by simp
    qed
    then have "map (take one) ?ps = data" by (intro nth_equalityI) simp_all
    moreover have "MutablePlanarData f' = Some ?ps"
      using that c assms(4) by (auto simp: MutablePlanarData_def f'_def ToPlanarData_def div_size_def)
    ultimately show ?thesis by blast
  qed
  ultimately show ?thesis by blast
qed

definition stereo_planar :: AudioFormatInfo where
  "stereo_planar = \<lparr>sample_rate_hz = kSampleRate48k, channel_layout = kStereo,
     audio_sample_format = kAudioSampleFormatPcmInt16Planar\<rparr>"

theorem planar_slices_witness:
  "\<exists>f'. CopyFrom_planar (AudioFrameLiteDelegate_new (replicate 8 0) 0 8 k16kMonoPcm16)
       (AudioFrameMaybePlanarView_new [[1, 2], [3, 4]] 2 stereo_planar) = Some (f', 4) \<and>
     readable f' = [1, 2, 3, 4]"
proof -
  have "frame_ok (AudioFrameLiteDelegate_new (replicate 8 0) 0 8 k16kMonoPcm16)"
    by (simp add: frame_ok_def AudioFrameLiteDelegate_new_def)
  moreover have "ValidPcmCheck stereo_planar" "GetChannelsCount stereo_planar = 2"
    by (simp_all add: ValidPcmCheck_def stereo_planar_def GetChannelsCount_def format_lookups format_tables)
  ultimately show ?thesis
    using planar_slices [of "AudioFrameLiteDelegate_new (replicate 8 0) 0 8 k16kMonoPcm16" stereo_planar
        "AudioFrameMaybePlanarView_new [[1, 2], [3, 4]] 2 stereo_planar" "[[1, 2], [3, 4]]" 2]
    by (auto simp: AudioFrameLiteDelegate_new_def)
qed

text \<open>
  A packed stereo frame as the comment in \<open>audio_frame.h\<close> describes it and \<open>audio_frame_ffmpeg.cc\<close>
  makes it: one array with the samples of both channels, and the size of one channel. A copy takes
  only the first half of the array, and the readable bytes end with stale ones.
\<close>

lemma packed_view_stale:
  assumes "frame_ok f" and "channel_layout info = kStereo" and "length p = 2 * n" and "2 * n \<le> capacity_in_byte f"
  shows "\<exists>f'. CopyFrom_planar f (AudioFrameMaybePlanarView_new [p] n info) = Some (f', 2 * n) \<and>
     readable f' = take n p @ take n (drop n (the (frame_block f)))"
proof -
  obtain d where d: "frame_block f = Some d" "length d = capacity_in_byte f" and cap: "capacity_in_byte f < 2 ^ 63"
    using assms(1) by (auto simp: frame_ok_def)
  have c: "size_of_int (GetChannelsCount info) = 2"
    using assms(2) by (simp add: GetChannelsCount_def format_lookups format_tables size_of_int_def)
  have u: "umul n 2 = 2 * n" using assms(4) cap by (simp add: umul_id)
  have "take (2 * n) (mem_write d 0 (take n p)) = take n p @ take n (drop n d)"
    using assms(3,4) d by (simp add: mem_write_def)
  then show ?thesis
    using d assms(3,4) c u
    by (simp add: CopyFrom_planar_def AudioFrameMaybePlanarView_new_def div_size_def Let_def write_at_def
        ResetReadableSizeInByte_def readable_def)
qed

text \<open>
  moving a frame loses its contents for readers. A frame that was moved out of another one owns
  the block but reads as empty, and as a view it is unusable: the pointer for readers is null, or
  still points to the block that the assignment has deleted.
\<close>

theorem moved_frame_unreadable:
  assumes "frame_ok f" and "frame_ok g"
  shows "frame_block (fst (delegate_move f)) = frame_block f \<and> readable (fst (delegate_move f)) = [] \<and>
     as_view (fst (delegate_move f)) = None \<and> as_view (fst (lite_move f)) = None \<and>
     frame_block (fst (lite_move_assign g f)) = frame_block f \<and> as_view (fst (lite_move_assign g f)) = None \<and>
     byte_size (fst (lite_move_assign g f)) = byte_size g"
  using assms
  by (simp add: delegate_move_def lite_move_def lite_move_assign_def readable_def as_view_def frame_ok_def
      split: option.split)

theorem moved_frame_unreadable_witness:
  "as_view (fst (delegate_move (AudioFrameLiteDelegate_new [1, 2] 2 2 k16kMonoPcm16))) = None"
  using moved_frame_unreadable [of "AudioFrameLiteDelegate_new [1, 2] 2 2 k16kMonoPcm16"
      "AudioFrameLiteDelegate_new [1, 2] 2 2 k16kMonoPcm16"]
  by (simp add: frame_ok_def AudioFrameLiteDelegate_new_def)

end
