(* ===== verification/AudioRender.thy ===== *)
theory AudioRender
  imports AudioRingBufferIo AudioFrame
begin

text \<open>
  \<open>src/src/player/audio_render_impl.cc\<close>: the renderer between the audio decoder, which sends frames,
  and the audio device, which reads bytes. The device is outside: its delay is an argument, and the
  calls that add and remove the renderer as a source are returned. \<open>None\<close> as in \<open>AudioRingBufferIo\<close>.
\<close>

datatype device_call = AddPlayoutSource | RemovePlayoutSource

record audio_render =
  render_is_init :: bool
  render_is_playing :: bool
  watermark_reached :: bool
  start_watermark :: time_data
  ring_io :: audio_io

definition kPlayerStartWatermark :: time_data where
  "kPlayerStartWatermark = time_literal ms_factor 200"

definition AudioRenderImpl_new :: "AudioFormatInfo \<Rightarrow> audio_render option" where
  "AudioRenderImpl_new possible_audio_format =
     map_option (\<lambda>io. \<lparr>render_is_init = False, render_is_playing = False, watermark_reached = False,
         start_watermark = kPlayerStartWatermark, ring_io = io\<rparr>)
       (AudioRingBufferIo_new possible_audio_format
         (AudioMsToByteSize possible_audio_format (time_literal ms_factor 500) mod 2 ^ 32) False)"

definition render_Read :: "audio_render \<Rightarrow> byte list option \<Rightarrow> nat \<Rightarrow>
    (audio_render \<times> byte list option \<times> nat) option" where
  "render_Read r data_ptr data_size =
     (if render_is_playing r \<and> watermark_reached r
      then map_option (\<lambda>(io, data, n, _). (r\<lparr>ring_io := io\<rparr>, data, n)) (Read (ring_io r) data_ptr data_size)
      else Some (r, data_ptr, 0))"

definition render_DiscardDataSizeInByte :: "audio_render \<Rightarrow> nat \<Rightarrow> (audio_render \<times> int) option" where
  "render_DiscardDataSizeInByte r offset =
     map_option (\<lambda>(io, n, _). (r\<lparr>ring_io := io\<rparr>, n)) (DiscardDataSizeInByte (ring_io r) offset)"

definition render_CurrentSize :: "audio_render \<Rightarrow> nat" where
  "render_CurrentSize r = CurrentSizeInternal (ring_io r)"

definition render_GetSourceStatus :: "audio_render \<Rightarrow> SourceStatus" where
  "render_GetSourceStatus r = status (ring_io r)"

definition render_GetAudioFormatInfo :: "audio_render \<Rightarrow> AudioFormatInfo" where
  "render_GetAudioFormatInfo r = format_info (ring_io r)"

definition render_CurrentSizeMs :: "audio_render \<Rightarrow> time_data option" where
  "render_CurrentSizeMs r = CurrentSizeMs (ring_io r)"

definition render_FillZeroFront :: "audio_render \<Rightarrow> time_data \<Rightarrow> int" where
  "render_FillZeroFront r time_ms = - 1"

definition render_Init :: "audio_render \<Rightarrow> time_data \<Rightarrow> (audio_render \<times> device_call list \<times> int) option" where
  "render_Init r delay =
     (if render_is_init r then Some (r, [], 0)
      else
        do {
          a \<leftarrow> time_plus ms_factor (start_watermark r) delay;
          let b = time_mult ms_factor delay 2;
              buffer_capacity = (if time_less a b then b else a)
          in do {
            io \<leftarrow> ResetUseableCapacity (ring_io r) (AudioMsToByteSize (format_info (ring_io r)) buffer_capacity);
            Some (r\<lparr>ring_io := io, render_is_init := True\<rparr>, [AddPlayoutSource], 0)
          }
        })"

definition render_Play :: "audio_render \<Rightarrow> audio_render \<times> int" where
  "render_Play r = (r\<lparr>render_is_playing := True\<rparr>, 0)"

definition render_Pause :: "audio_render \<Rightarrow> audio_render \<times> int" where
  "render_Pause r = (r\<lparr>render_is_playing := False\<rparr>, 0)"

definition render_Flush :: "audio_render \<Rightarrow> (audio_render \<times> int) option" where
  "render_Flush r =
     map_option (\<lambda>(io, _, _). (r\<lparr>ring_io := io, watermark_reached := False\<rparr>, 0)) (Reset (ring_io r))"

definition render_UnInit :: "audio_render \<Rightarrow> audio_render \<times> device_call list \<times> int" where
  "render_UnInit r =
     (if render_is_init r
      then (r\<lparr>render_is_init := False, render_is_playing := False\<rparr>, [RemovePlayoutSource], 0)
      else (r, [], 0))"

definition render_SendFrame :: "audio_render \<Rightarrow> planar_view \<Rightarrow> (audio_render \<times> int) option" where
  "render_SendFrame r frame =
     do {
       free \<leftarrow> FreeSpaceBeforeOverwritingMs (ring_io r);
       len \<leftarrow> SizeInMs (planar_size frame) (planar_format frame);
       need \<leftarrow> time_plus ms_factor len (time_literal ms_factor 1);
       if time_less_eq need free then do {
         one \<leftarrow> OneDimByteSize (planar_size frame) (planar_format frame);
         (io, _, _) \<leftarrow> WritePlanar (ring_io r) (planes frame) one;
         ms \<leftarrow> CurrentSizeMs io;
         let r = r\<lparr>ring_io := io\<rparr>
         in Some (if time_less_eq (start_watermark r) ms then r\<lparr>watermark_reached := True\<rparr> else r, 0)
       } else Some (r, - 1)
     }"

definition render_GetDelayMs :: "audio_render \<Rightarrow> time_data \<Rightarrow> int option" where
  "render_GetDelayMs r delay =
     do {
       ms \<leftarrow> CurrentSizeMs (ring_io r);
       t \<leftarrow> time_plus ms_factor ms delay;
       v \<leftarrow> Value ms_factor t;
       Some (s32 v)
     }"

subsection \<open>Sending a frame\<close>

text \<open>How many milliseconds a number of bytes of a valid format plays for.\<close>

definition played_ms :: "AudioFormatInfo \<Rightarrow> nat \<Rightarrow> int" where
  "played_ms f n = int (n div ByteSizePerFrame f) * 1000 div GetSampleRateToInt f"

lemma bytes_to_ms:
  assumes "ValidPcmCheck f" and "n < 2 ^ 50"
  shows "AudioByteSizeToMs f n = Some (played_ms f n)" "0 \<le> played_ms f n" "played_ms f n < 2 ^ 60"
proof -
  have pf: "0 < ByteSizePerFrame f" using valid_frame_size(1) [OF assms(1)] by auto
  have r: "0 < GetSampleRateToInt f" using valid_rate [OF assms(1)] by auto
  have d: "n div ByteSizePerFrame f < 2 ^ 50"
    using assms(2) div_le_dividend [of n "ByteSizePerFrame f"] by linarith
  show "AudioByteSizeToMs f n = Some (played_ms f n)"
    using pf frames_to_ms [OF assms(1) d] by (simp add: AudioByteSizeToMs_def played_ms_def)
  show "0 \<le> played_ms f n" using r by (simp add: played_ms_def pos_imp_zdiv_nonneg_iff)
  have "played_ms f n \<le> int (n div ByteSizePerFrame f) * 1000"
    using zdiv_mono2 [of "int (n div ByteSizePerFrame f) * 1000" 1 "GetSampleRateToInt f"] r
    by (simp add: played_ms_def)
  moreover have "int (n div ByteSizePerFrame f) < 2 ^ 50" using d by simp
  ultimately show "played_ms f n < 2 ^ 60" by simp
qed

lemma longer_has_room:
  assumes "ValidPcmCheck f" and "n mod ByteSizePerFrame f = 0" and "played_ms f n < played_ms f m"
  shows "n < m"
proof (rule ccontr)
  assume "\<not> n < m"
  then have "m div ByteSizePerFrame f \<le> n div ByteSizePerFrame f" by (intro div_le_mono) simp
  then have "played_ms f m \<le> played_ms f n"
    using valid_rate [OF assms(1)] unfolding played_ms_def by (intro zdiv_mono1) auto
  then show False using assms(3) by simp
qed

text \<open>
  C16: an interleaved frame is taken as a whole or refused as a whole. It is taken where the free
  room plays for longer than the frame; then no queued byte is pushed out, the frame is appended
  to the queue, and playing may start as soon as the queue holds the watermark. Otherwise the
  renderer does not change and the caller gets -1.
\<close>

theorem send_frame_lossless:
  assumes "io_ok (ring_io r)" "should_seek_size (ring_io r) = 0" "status (ring_io r) = kStreaming"
    and "ValidPcmCheck (format_info (ring_io r))" "\<not> IsPlanner (format_info (ring_io r))"
    and "planar_format frame = format_info (ring_io r)" "planes frame = [p]"
      "planar_size frame = length p" "p \<noteq> []" "length p < 2 ^ 29"
      "length p mod ByteSizePerFrame (format_info (ring_io r)) = 0"
  shows "\<exists>r' code. render_SendFrame r frame = Some (r', code) \<and>
     (if played_ms (format_info (ring_io r)) (length p) <
         played_ms (format_info (ring_io r)) (buffer_useable_capacity (ring_io r) - length (stream (ring_io r)))
      then code = 0 \<and> io_ok (ring_io r') \<and> stream (ring_io r') = stream (ring_io r) @ p \<and>
         length (stream (ring_io r')) \<le> buffer_useable_capacity (ring_io r) \<and>
         watermark_reached r' = (watermark_reached r \<or>
           start_watermark r \<le> played_ms (format_info (ring_io r)) (length (stream (ring_io r'))))
      else code = - 1 \<and> r' = r)"
proof -
  let ?io = "ring_io r"
  let ?f = "format_info ?io"
  obtain w where s: "single ?io w" and cap: "buffer_useable_capacity ?io = BufferCapacity w"
    using assms(1) by (rule io_okE)
  note S = singleD [OF s] and V = wr_views [OF singleD(2) [OF s]]
  have st: "stream ?io = wr_contents w" and d0: "debt ?io = 0"
    using S(7) assms(2) by (simp_all add: debt_def)
  define free where "free = BufferCapacity w - length (stream ?io)"
  have c30: "BufferCapacity w < 2 ^ 31" "length (stream ?io) \<le> BufferCapacity w" using V st by simp_all
  have f1: "FreeSpaceBeforeOverwriting ?io = free"
    using free_single [OF s cap assms(3)] assms(2) d0 st by (simp add: free_def)
  have lt: "free < 2 ^ 50" "length p < 2 ^ 50" using c30 assms(10) by (simp_all add: free_def)
  note ms1 = bytes_to_ms [OF assms(4) lt(1)] and ms2 = bytes_to_ms [OF assms(4) lt(2)]
  have fr: "FreeSpaceBeforeOverwritingMs ?io = Some (played_ms ?f free)"
    using ms1(1) f1 by (simp add: FreeSpaceBeforeOverwritingMs_def)
  have sz: "SizeInMs (planar_size frame) (planar_format frame) = Some (played_ms ?f (length p))"
    using ms2(1) assms(6,8) by (simp add: SizeInMs_def)
  have one: "time_literal ms_factor 1 = 1" by (simp add: time_literal_def ms_new s64_id)
  have need: "time_plus ms_factor (played_ms ?f (length p)) 1 = Some (played_ms ?f (length p) + 1)"
    using ms2(2,3) by (intro ms_operators(1)) simp_all
  show ?thesis
  proof (cases "played_ms ?f (length p) < played_ms ?f free")
    case False
    then show ?thesis
      unfolding render_SendFrame_def fr sz one bind.bind_lunit need
      using cap by (simp add: time_less_eq_def free_def)
  next
    case True
    have room: "length p < free" using longer_has_room [OF assms(4,11) True] .
    have "op_ok ?io (IoWrite p)" using assms(2,3,9,10) room cap by (simp add: free_def)
    from io_write_single [OF assms(1) this] obtain io' where
      w': "io_ok io'" "fst (spec_step (buffer_useable_capacity ?io) (io_abs ?io) (IoWrite p)) = io_abs io'"
        "buffer_useable_capacity io' = buffer_useable_capacity ?io"
        "WritePlanar ?io [p] (length p) = Some (io', length p, CheckIfNotifyRead io')"
        "format_info io' = ?f"
      by blast
    have str: "stream io' = stream ?io @ p" and d': "debt io' = 0"
      using w'(2) d0 room cap by (simp_all add: io_abs_def free_def)
    obtain w1 where s1: "single io' w1" using w'(1) by (rule io_okE)
    have len: "length (stream io') \<le> BufferCapacity w" "length (stream io') < 2 ^ 50"
      using str room c30 by (simp_all add: free_def)
    have ms: "CurrentSizeMs io' = Some (played_ms ?f (length (stream io')))"
      using bytes_to_ms(1) [OF assms(4) len(2)] single_current_size [OF s1] w'(5)
      by (simp add: CurrentSizeMs_def)
    have dim: "OneDimByteSize (planar_size frame) (planar_format frame) = Some (length p)"
      using assms(5,6,8) by (simp add: OneDimByteSize_def)
    show ?thesis
      unfolding render_SendFrame_def fr sz one bind.bind_lunit need dim assms(7) w'(4) prod.case ms Let_def
      using True w'(1) str len(1) cap by (simp add: time_less_eq_def free_def)
  qed
qed

lemma mono_16k:
  "GetSampleRateToInt k16kMonoPcm16 = 16000" "GetChannelsCount k16kMonoPcm16 = 1"
  "ByteSizePerFrame k16kMonoPcm16 = 2"
  by (simp_all add: GetSampleRateToInt_def GetChannelsCount_def ByteSizePerFrame_def k16kMonoPcm16_def
      format_lookups format_tables size_of_int_def umul_def)

text \<open>A new renderer for mono samples at 16 kHz has room for 16000 bytes.\<close>

lemma new_render:
  obtains r where "AudioRenderImpl_new k16kMonoPcm16 = Some r" "io_ok (ring_io r)"
    "stream (ring_io r) = []" "should_seek_size (ring_io r) = 0" "status (ring_io r) = kStreaming"
    "format_info (ring_io r) = k16kMonoPcm16" "buffer_useable_capacity (ring_io r) = 16000"
    "\<not> watermark_reached r" "start_watermark r = 200"
proof -
  have f: "\<not> IsPlanner k16kMonoPcm16" "ValidPcmCheck k16kMonoPcm16" "0 < (16000 :: nat)"
    "16000 < (2 :: nat) ^ 30"
    by (simp_all add: IsPlanner_def k16kMonoPcm16_def ValidPcmCheck_def format_lookups format_tables)
  from new_io_ok [OF this] obtain io where io: "AudioRingBufferIo_new k16kMonoPcm16 16000 False = Some io"
    "io_ok io" "stream io = []" "should_seek_size io = 0" "status io = kStreaming"
    "format_info io = k16kMonoPcm16" "buffer_useable_capacity io = 16000"
    by blast
  have lit: "time_literal ms_factor 500 = 500" "kPlayerStartWatermark = 200"
    by (simp_all add: kPlayerStartWatermark_def time_literal_def ms_new s64_id)
  have "AudioMsToFrameSize k16kMonoPcm16 500 = 8000"
    by (subst ms_to_frames(1) [OF f(2)]) (simp_all add: mono_16k)
  then have c: "AudioMsToByteSize k16kMonoPcm16 (time_literal ms_factor 500) mod 2 ^ 32 = 16000"
    using ms_to_frames(3) [OF f(2), of 500] by (simp add: lit mono_16k)
  define r where "r = \<lparr>render_is_init = False, render_is_playing = False, watermark_reached = False,
    start_watermark = 200, ring_io = io\<rparr>"
  have "AudioRenderImpl_new k16kMonoPcm16 = Some r"
    unfolding AudioRenderImpl_new_def c io(1) lit(2) r_def by simp
  moreover have "ring_io r = io" "\<not> watermark_reached r" "start_watermark r = 200"
    by (simp_all add: r_def)
  ultimately show ?thesis using io(2-) by (intro that [of r]) simp_all
qed

theorem send_frame_lossless_witness:
  "\<exists>r r'. AudioRenderImpl_new k16kMonoPcm16 = Some r \<and>
     render_SendFrame r (AudioFrameMaybePlanarView_new [replicate 320 7] 320 k16kMonoPcm16) = Some (r', 0) \<and>
     stream (ring_io r') = replicate 320 7 \<and> \<not> watermark_reached r'"
proof -
  let ?v = "AudioFrameMaybePlanarView_new [replicate 320 (7 :: byte)] 320 k16kMonoPcm16"
  from new_render obtain r where r: "AudioRenderImpl_new k16kMonoPcm16 = Some r" "io_ok (ring_io r)"
    "stream (ring_io r) = []" "should_seek_size (ring_io r) = 0" "status (ring_io r) = kStreaming"
    "format_info (ring_io r) = k16kMonoPcm16" "buffer_useable_capacity (ring_io r) = 16000"
    "\<not> watermark_reached r" "start_watermark r = 200"
    by blast
  have v: "planar_format ?v = k16kMonoPcm16" "planes ?v = [replicate 320 7]" "planar_size ?v = 320"
    by (simp_all add: AudioFrameMaybePlanarView_new_def mono_16k size_of_int_def umul_def)
  have f: "\<not> IsPlanner k16kMonoPcm16" "ValidPcmCheck k16kMonoPcm16"
    by (simp_all add: IsPlanner_def k16kMonoPcm16_def ValidPcmCheck_def format_lookups format_tables)
  have ms: "played_ms k16kMonoPcm16 320 = 10" "played_ms k16kMonoPcm16 16000 = 500"
    by (simp_all add: played_ms_def mono_16k)
  have "\<exists>r' code. render_SendFrame r ?v = Some (r', code) \<and> code = 0 \<and>
    stream (ring_io r') = replicate 320 7 \<and> \<not> watermark_reached r'"
    using send_frame_lossless [of r ?v "replicate 320 7"] r f v ms mono_16k(3) by auto
  then show ?thesis using r(1) by blast
qed

end
