(* ===== verification/AudioFrameUtil.thy ===== *)
theory AudioFrameUtil
  imports AudioFrame
begin

text \<open>
  \<open>src/src/core/audio/audio_frame_util.cc\<close>: the level of a frame, gain ramps, and the conversion
  between packed and planar samples. The functions work on samples; a frame's block is given as the
  list of its samples. What they compute with \<open>float\<close> is left open: the type of the floating point
  numbers is a type variable, and the operations on it that the code uses are arguments.
\<close>

subsection \<open>Updating the elements of a list in some order\<close>

text \<open>
  A loop nest that writes \<open>dest[g p]\<close> for each of its iterations \<open>p\<close>, each place once.
\<close>

definition update_each :: "('p \<Rightarrow> nat) \<Rightarrow> ('p \<Rightarrow> 'd \<Rightarrow> 'd) \<Rightarrow> 'd list \<Rightarrow> 'p list \<Rightarrow> 'd list" where
  "update_each g h dest ps = foldl (\<lambda>d p. d[g p := h p (d ! g p)]) dest ps"

lemma update_each_length [simp]: "length (update_each g h dest ps) = length dest"
  unfolding update_each_def by (induction ps rule: rev_induct) simp_all

lemma update_each_other: "\<forall>p\<in>set ps. g p \<noteq> j \<Longrightarrow> update_each g h dest ps ! j = dest ! j"
  unfolding update_each_def by (induction ps rule: rev_induct) simp_all

lemma update_each_at:
  assumes "distinct ps" and "inj_on g (set ps)" and "p \<in> set ps" and "g p < length dest"
  shows "update_each g h dest ps ! g p = h p (dest ! g p)"
  using assms
proof (induction ps rule: rev_induct)
  case (snoc q ps)
  have e: "update_each g h dest (ps @ [q]) =
      (update_each g h dest ps)[g q := h q (update_each g h dest ps ! g q)]"
    by (simp add: update_each_def)
  have i: "inj_on g (set ps)" using snoc.prems(2) by (simp add: inj_on_Un)
  show ?case
  proof (cases "p = q")
    case True
    have "\<forall>r\<in>set ps. g r \<noteq> g q" using snoc.prems(1,2) by (auto simp: inj_on_def)
    then have "update_each g h dest ps ! g q = dest ! g q" by (rule update_each_other)
    then show ?thesis using snoc.prems(4) True by (simp add: e)
  next
    case False
    then have "p \<in> set ps" using snoc.prems(3) by simp
    moreover have "g q \<noteq> g p" using snoc.prems(2,3) False by (auto simp: inj_on_def)
    ultimately show ?thesis using snoc i by (simp add: e)
  qed
qed simp

subsection \<open>Level\<close>

text \<open>
  \<open>FindMaxAbsVal\<close> on 16-bit samples: \<open>std::abs\<close> is computed as an \<open>int\<close> and converted back to 16
  bits; the level is the result divided by 32768. \<open>None\<close> where there is no sample.
\<close>

fun max_element_abs :: "int \<Rightarrow> int list \<Rightarrow> int" where
  "max_element_abs m [] = m"
| "max_element_abs m (x # xs) = max_element_abs (if \<bar>m\<bar> < \<bar>x\<bar> then x else m) xs"

definition FindMaxAbsVal :: "int list \<Rightarrow> int option" where
  "FindMaxAbsVal xs = (case xs of [] \<Rightarrow> None | x # xs \<Rightarrow> Some (s16 \<bar>max_element_abs x xs\<bar>))"

lemma max_element_abs_Max: "\<bar>max_element_abs m xs\<bar> = Max (abs ` set (m # xs))"
proof (induction xs arbitrary: m)
  case (Cons x xs)
  have "\<bar>max_element_abs m (x # xs)\<bar> = Max (abs ` set ((if \<bar>m\<bar> < \<bar>x\<bar> then x else m) # xs))"
    using Cons.IH by simp
  also have "\<dots> = Max (abs ` set (m # x # xs))"
    by (cases "xs = []") (auto simp: max_def)
  finally show ?case .
qed simp

text \<open>
  the level of a frame of 16-bit samples is the largest absolute value, unless a sample is
  -32768: then it is -32768, a level of -1.
\<close>

theorem level_of_frame:
  assumes "xs \<noteq> []" and "\<forall>x\<in>set xs. - 32768 \<le> x \<and> x \<le> 32767"
  shows "FindMaxAbsVal xs = Some (if - 32768 \<in> set xs then - 32768 else Max (abs ` set xs)) \<and>
     (- 32768 \<notin> set xs \<longrightarrow> 0 \<le> Max (abs ` set xs) \<and> Max (abs ` set xs) \<le> 32767)"
proof -
  obtain y ys where xs: "xs = y # ys" using assms(1) by (cases xs) auto
  have fin: "finite (abs ` set xs)" "abs ` set xs \<noteq> {}" using assms(1) by simp_all
  have m: "FindMaxAbsVal xs = Some (s16 (Max (abs ` set xs)))"
    by (simp add: FindMaxAbsVal_def xs max_element_abs_Max)
  show ?thesis
  proof (cases "- 32768 \<in> set xs")
    case True
    have "Max (abs ` set xs) = 32768"
    proof (rule Max_eqI)
      show "(32768 :: int) \<in> abs ` set xs" using True by force
    qed (use assms(2) in \<open>auto simp: abs_le_iff\<close>)
    then show ?thesis using m True by (simp add: s16_def)
  next
    case False
    have ab: "0 \<le> \<bar>x\<bar> \<and> \<bar>x\<bar> \<le> 32767" if "x \<in> set xs" for x
    proof -
      have "x \<noteq> - 32768" using that False by auto
      moreover have "- 32768 \<le> x" "x \<le> 32767" using assms(2) that by auto
      ultimately show ?thesis by linarith
    qed
    have "Max (abs ` set xs) \<in> abs ` set xs" using fin by (rule Max_in)
    then have "Max (abs ` set xs) \<le> 32767" "0 \<le> Max (abs ` set xs)" using ab by auto
    moreover from this have "s16 (Max (abs ` set xs)) = Max (abs ` set xs)" by (intro s16_id) simp_all
    ultimately show ?thesis using m False by simp
  qed
qed

theorem level_of_frame_witness:
  "FindMaxAbsVal [100, - 300, 7] = Some 300 \<and> FindMaxAbsVal [100, - 32768] = Some (- 32768)"
  using level_of_frame [of "[100, - 300, 7]"] level_of_frame [of "[100, - 32768]"] by simp

subsection \<open>Gain ramps\<close>

text \<open>
  The gains that the loop reaches: \<open>start_gain\<close> and then \<open>increment\<close> added again and again.
\<close>

fun gain :: "('g \<Rightarrow> 'g \<Rightarrow> 'g) \<Rightarrow> 'g \<Rightarrow> 'g \<Rightarrow> nat \<Rightarrow> 'g" where
  "gain add start_gain increment 0 = start_gain"
| "gain add start_gain increment (Suc n) = add (gain add start_gain increment n) increment"

text \<open>
  The template \<open>Ramp\<close>. \<open>scale\<close> is \<open>ptr[j] *= gain\<close>, \<open>increment\<close> is
  \<open>(end_gain - start_gain) / samples_per_channel\<close>.
\<close>

definition Ramp ::
    "('g \<Rightarrow> 'g \<Rightarrow> 'g) \<Rightarrow> ('g \<Rightarrow> 's \<Rightarrow> 's) \<Rightarrow> 'g \<Rightarrow> 'g \<Rightarrow> 'g \<Rightarrow> 's list \<Rightarrow> nat \<Rightarrow> nat \<Rightarrow> bool \<Rightarrow> 's list" where
  "Ramp add scale start_gain end_gain increment ptr samples_per_channel num_channels is_planar =
     (if start_gain = end_gain then ptr
      else if is_planar then
        update_each (\<lambda>(ch, i). samples_per_channel * ch + i)
          (\<lambda>(ch, i). scale (gain add start_gain increment ch)) ptr
          (List.product [0..<num_channels] [0..<samples_per_channel])
      else
        update_each (\<lambda>(i, ch). num_channels * i + ch)
          (\<lambda>(i, ch). scale (gain add start_gain increment i)) ptr
          (List.product [0..<samples_per_channel] [0..<num_channels]))"

lemma grid_inj: "inj_on (\<lambda>(a, b). n * a + b) ({..<m} \<times> {..<n :: nat})"
proof (rule inj_onI, clarsimp)
  have q: "y < n \<Longrightarrow> (n * x + y) div n = x \<and> (n * x + y) mod n = y" for x y by simp
  fix a b c d assume "n * a + b = n * c + d" and "b < n" "d < n"
  then show "a = c \<and> b = d" using q [of b a] q [of d c] by (metis (no_types))
qed

lemma grid_bound:
  assumes "a < m" and "b < (n :: nat)"
  shows "n * a + b < m * n"
proof -
  have "n * a + b < n * Suc a" using assms(2) by simp
  also have "\<dots> \<le> n * m" using assms(1) by (intro mult_le_mono2) simp
  finally show ?thesis by (simp add: mult.commute)
qed

text \<open>A nest of two loops that writes \<open>dest[n * a + b]\<close>.\<close>

lemma grid_update:
  assumes "a < m" and "b < n" and "m * n \<le> length dest"
  shows "update_each (\<lambda>(a, b). n * a + b) h dest (List.product [0..<m] [0..<n]) ! (n * a + b) =
     h (a, b) (dest ! (n * a + b))"
proof -
  have "n * a + b < length dest" using grid_bound [OF assms(1,2)] assms(3) by linarith
  moreover have "inj_on (\<lambda>(a, b). n * a + b) (set (List.product [0..<m] [0..<n]))"
    by (rule inj_on_subset [OF grid_inj [of n m]]) auto
  ultimately show ?thesis
    using update_each_at [of "List.product [0..<m] [0..<n]" "\<lambda>(a, b). n * a + b" "(a, b)" dest h] assms
    by (simp add: distinct_product)
qed

text \<open>
  a ramp on packed samples scales the samples of a frame by the gain of that frame, which grows
  frame by frame. On planar samples the gain grows only from one channel to the next: all samples of
  a channel are scaled by the same gain, the first channel by \<open>start_gain\<close>.
\<close>

theorem ramp_gains:
  assumes "start_gain \<noteq> end_gain" and "i < frames" and "ch < channels" and "length ptr = frames * channels"
  shows "Ramp add scale start_gain end_gain increment ptr frames channels False ! (channels * i + ch) =
       scale (gain add start_gain increment i) (ptr ! (channels * i + ch)) \<and>
     Ramp add scale start_gain end_gain increment ptr frames channels True ! (frames * ch + i) =
       scale (gain add start_gain increment ch) (ptr ! (frames * ch + i))"
  using grid_update [OF assms(2,3), of ptr "\<lambda>(i, ch). scale (gain add start_gain increment i)"]
    grid_update [OF assms(3,2), of ptr "\<lambda>(ch, i). scale (gain add start_gain increment ch)"] assms(1,4)
  by (simp add: Ramp_def mult.commute)

theorem ramp_gains_witness:
  "Ramp (+) (*) 0 4 (1 :: int) [5, 6, 7, 8, 5, 6, 7, 8] 4 2 True ! (4 * 0 + 3) = 0 * 8"
  using ramp_gains [of "0 :: int" 4 3 4 0 2 "[5, 6, 7, 8, 5, 6, 7, 8]" "(+)" "(*)" 1] by simp

subsection \<open>Packed and planar\<close>

text \<open>
  The templates \<open>PlanarToInterleaved\<close> and \<open>InterleavedToPlanar\<close>. \<open>convert\<close> includes the
  conversion to the type of the destination that an assignment makes.
\<close>

definition store :: "('d \<Rightarrow> 'd \<Rightarrow> 'd) \<Rightarrow> bool \<Rightarrow> 'd \<Rightarrow> 'd \<Rightarrow> 'd" where
  "store add is_add_to v old = (if is_add_to then add old v else v)"

definition planar_to_interleaved ::
    "('d \<Rightarrow> 'd \<Rightarrow> 'd) \<Rightarrow> ('s \<Rightarrow> 'd) \<Rightarrow> 's list \<Rightarrow> 'd list \<Rightarrow> nat \<Rightarrow> nat \<Rightarrow> bool \<Rightarrow> 'd list" where
  "planar_to_interleaved add convert src dest samples_per_channel channels is_add_to =
     update_each (\<lambda>(ch, i). channels * i + ch)
       (\<lambda>(ch, i). store add is_add_to (convert (src ! (ch * samples_per_channel + i)))) dest
       (List.product [0..<channels] [0..<samples_per_channel])"

definition interleaved_to_planar ::
    "('d \<Rightarrow> 'd \<Rightarrow> 'd) \<Rightarrow> ('s \<Rightarrow> 'd) \<Rightarrow> 's list \<Rightarrow> 'd list \<Rightarrow> nat \<Rightarrow> nat \<Rightarrow> bool \<Rightarrow> 'd list" where
  "interleaved_to_planar add convert src dest samples_per_channel channels is_add_to =
     update_each (\<lambda>(ch, i). ch * samples_per_channel + i)
       (\<lambda>(ch, i). store add is_add_to (convert (src ! (channels * i + ch)))) dest
       (List.product [0..<channels] [0..<samples_per_channel])"

lemma planar_to_interleaved_nth:
  assumes "ch < channels" and "i < frames" and "length dest = frames * channels"
  shows "planar_to_interleaved add convert src dest frames channels is_add_to ! (channels * i + ch) =
     store add is_add_to (convert (src ! (ch * frames + i))) (dest ! (channels * i + ch))"
proof -
  let ?ps = "List.product [0..<channels] [0..<frames]" and ?g = "\<lambda>(ch, i). channels * i + ch"
  have inj: "inj_on ?g (set ?ps)"
  proof (rule inj_onI, clarify)
    fix a b c d assume "(a, b) \<in> set ?ps" "(c, d) \<in> set ?ps" "channels * b + a = channels * d + c"
    then show "a = c \<and> b = d"
      using inj_onD [OF grid_inj [of channels frames], of "(b, a)" "(d, c)"] by auto
  qed
  have "channels * i + ch < length dest" using grid_bound [OF assms(2,1)] assms(3) by simp
  then show ?thesis
    using update_each_at [OF _ inj, of "(ch, i)" dest] assms
    by (simp add: planar_to_interleaved_def distinct_product)
qed

lemma interleaved_to_planar_nth:
  assumes "ch < channels" and "i < frames" and "length dest = frames * channels"
  shows "interleaved_to_planar add convert src dest frames channels is_add_to ! (frames * ch + i) =
     store add is_add_to (convert (src ! (channels * i + ch))) (dest ! (frames * ch + i))"
  using grid_update [OF assms(1,2), of dest "\<lambda>(ch, i). store add is_add_to (convert (src ! (channels * i + ch)))"] assms(3)
  by (simp add: interleaved_to_planar_def mult.commute)

lemma grid_index:
  assumes "j < m * (n :: nat)"
  obtains a b where "j = n * a + b" and "a < m" and "b < n"
proof (rule that [of "j div n" "j mod n"])
  show "j div n < m" using assms by (simp add: less_mult_imp_div_less)
  have "0 < n" using assms by (cases n) simp_all
  then show "j mod n < n" by simp
qed simp

lemma unpack_packed:
  assumes "length src = frames * channels" and "length tmp = frames * channels" and "length dest = frames * channels"
  shows "interleaved_to_planar add2 g (planar_to_interleaved add1 h src tmp frames channels False)
       dest frames channels False = map (g \<circ> h) src \<and>
     planar_to_interleaved add2 g (interleaved_to_planar add1 h src tmp frames channels False)
       dest frames channels False = map (g \<circ> h) src"
proof (rule conjI; rule nth_equalityI)
  fix j assume "j < length (interleaved_to_planar add2 g (planar_to_interleaved add1 h src tmp frames channels False)
       dest frames channels False)"
  then have "j < channels * frames" using assms by (simp add: interleaved_to_planar_def mult.commute)
  then obtain ch i where j: "j = frames * ch + i" "ch < channels" "i < frames" by (rule grid_index)
  moreover have "j < length src" using \<open>j < channels * frames\<close> assms(1) by (simp add: mult.commute)
  ultimately show "interleaved_to_planar add2 g (planar_to_interleaved add1 h src tmp frames channels False)
       dest frames channels False ! j = map (g \<circ> h) src ! j"
    using interleaved_to_planar_nth [OF j(2,3) assms(3), of add2 g _ False]
      planar_to_interleaved_nth [OF j(2,3) assms(2), of add1 h src False]
    by (simp add: store_def mult.commute)
next
  fix j assume "j < length (planar_to_interleaved add2 g (interleaved_to_planar add1 h src tmp frames channels False)
       dest frames channels False)"
  then have "j < frames * channels" using assms by (simp add: planar_to_interleaved_def)
  then obtain i ch where j: "j = channels * i + ch" "i < frames" "ch < channels" by (rule grid_index)
  moreover have "j < length src" using \<open>j < frames * channels\<close> assms(1) by simp
  ultimately show "planar_to_interleaved add2 g (interleaved_to_planar add1 h src tmp frames channels False)
       dest frames channels False ! j = map (g \<circ> h) src ! j"
    using planar_to_interleaved_nth [OF j(3,2) assms(3), of add2 g _ False]
      interleaved_to_planar_nth [OF j(3,2) assms(2), of add1 h src False]
    by (simp add: store_def mult.commute)
qed (use assms in \<open>simp_all add: planar_to_interleaved_def interleaved_to_planar_def\<close>)

text \<open>
  C32: packing and unpacking are inverse: planar samples that are packed and unpacked again, and
  packed samples that are unpacked and packed again, come back, each converted twice.
\<close>

theorem pack_unpack_roundtrip:
  assumes "length src = frames * channels" and "length tmp = frames * channels" and "length dest = frames * channels"
  shows "interleaved_to_planar add2 g (planar_to_interleaved add1 h src tmp frames channels False)
       dest frames channels False = map (g \<circ> h) src \<and>
     planar_to_interleaved add2 g (interleaved_to_planar add1 h src tmp frames channels False)
       dest frames channels False = map (g \<circ> h) src"
  by (rule unpack_packed [OF assms])

theorem pack_unpack_roundtrip_witness:
  "interleaved_to_planar (+) (\<lambda>x. x) (planar_to_interleaved (+) (\<lambda>x. x) [1, 2, 3, 4, 5, 6] (replicate 6 0) 3 2 False)
     (replicate 6 (0 :: int)) 3 2 False = [1, 2, 3, 4, 5, 6]"
  using pack_unpack_roundtrip [of "[1, 2, 3, 4, 5, 6]" 3 2 "replicate 6 (0 :: int)" "replicate 6 (0 :: int)"
      "(+)" "\<lambda>x. x" "(+)" "\<lambda>x. x"]
  by simp

subsection \<open>Frames and float samples in the range of 16 bits\<close>

text \<open>
  The block of a frame as samples of its format, and the conversions of \<open>common_audio/audio_util.h\<close>
  between 16-bit integers, floats in their range (\<open>FloatS16\<close>) and floats between -1 and 1.
\<close>

datatype 'f samples = S16 "int list" | Flt "'f list"

record 'f float_ops =
  f_add :: "'f \<Rightarrow> 'f \<Rightarrow> 'f"
  FloatS16ToS16 :: "'f \<Rightarrow> int"
  S16ToFloatS16 :: "int \<Rightarrow> 'f"
  FloatS16ToFloat :: "'f \<Rightarrow> 'f"
  FloatToFloatS16 :: "'f \<Rightarrow> 'f"

definition s16_add :: "int \<Rightarrow> int \<Rightarrow> int" where
  "s16_add a b = s16 (a + b)"

definition copy_each :: "('d \<Rightarrow> 'd \<Rightarrow> 'd) \<Rightarrow> ('s \<Rightarrow> 'd) \<Rightarrow> 's list \<Rightarrow> 'd list \<Rightarrow> nat \<Rightarrow> bool \<Rightarrow> 'd list" where
  "copy_each add convert src dest n is_add_to =
     update_each (\<lambda>i. i) (\<lambda>i. store add is_add_to (convert (src ! i))) dest [0..<n]"

text \<open>
  The float data is packed or planar, and so is the frame. Where the two differ and the frame holds
  floats, the samples are copied without any conversion.
\<close>

definition FloatS16ToAudioFrame ::
    "'f float_ops \<Rightarrow> 'f list \<Rightarrow> nat \<Rightarrow> bool \<Rightarrow> AudioFormatInfo \<Rightarrow> nat \<Rightarrow> 'f samples \<Rightarrow> 'f samples" where
  "FloatS16ToAudioFrame ops data data_size float_data_is_planar info frames out =
     (let channels = nat (GetChannelsCount info)
      in case out of
        S16 dest \<Rightarrow> S16
          (if float_data_is_planar = IsPlanner info then copy_each s16_add (FloatS16ToS16 ops) data dest data_size False
           else if float_data_is_planar
           then planar_to_interleaved s16_add (FloatS16ToS16 ops) data dest frames channels False
           else interleaved_to_planar s16_add (FloatS16ToS16 ops) data dest frames channels False)
      | Flt dest \<Rightarrow> Flt
          (if float_data_is_planar = IsPlanner info then copy_each (f_add ops) (FloatS16ToFloat ops) data dest data_size False
           else if float_data_is_planar
           then planar_to_interleaved (f_add ops) (\<lambda>x. x) data dest frames channels False
           else interleaved_to_planar (f_add ops) (\<lambda>x. x) data dest frames channels False))"

definition AudioFrameToFloatS16 ::
    "'f float_ops \<Rightarrow> 'f samples \<Rightarrow> AudioFormatInfo \<Rightarrow> nat \<Rightarrow> nat \<Rightarrow> 'f list \<Rightarrow> bool \<Rightarrow> bool \<Rightarrow> 'f list" where
  "AudioFrameToFloatS16 ops src info frames sample_size data float_data_is_planar is_add_to =
     (let channels = nat (GetChannelsCount info)
      in case src of
        S16 xs \<Rightarrow>
          if float_data_is_planar = IsPlanner info then copy_each (f_add ops) (S16ToFloatS16 ops) xs data sample_size is_add_to
          else if float_data_is_planar
          then interleaved_to_planar (f_add ops) (S16ToFloatS16 ops) xs data frames channels is_add_to
          else planar_to_interleaved (f_add ops) (S16ToFloatS16 ops) xs data frames channels is_add_to
      | Flt xs \<Rightarrow>
          if float_data_is_planar = IsPlanner info then copy_each (f_add ops) (FloatToFloatS16 ops) xs data sample_size is_add_to
          else if float_data_is_planar
          then interleaved_to_planar (f_add ops) (\<lambda>x. x) xs data frames channels is_add_to
          else planar_to_interleaved (f_add ops) (\<lambda>x. x) xs data frames channels is_add_to)"

lemma copy_each_value:
  assumes "length src = n" and "length dest = n"
  shows "copy_each add h src dest n False = map h src"
proof (rule nth_equalityI)
  fix i assume "i < length (copy_each add h src dest n False)"
  then have "i < n" using assms by (simp add: copy_each_def)
  then show "copy_each add h src dest n False ! i = map h src ! i"
    using update_each_at [of "[0..<n]" "\<lambda>i. i" i dest] assms by (simp add: copy_each_def store_def)
qed (use assms in \<open>simp add: copy_each_def\<close>)

text \<open>
  a frame of 16-bit samples that is converted to floats and back is the same, whether the floats
  are packed or planar and whatever the layout of the frame, provided the two conversions of a
  sample are inverse.
\<close>

theorem float_frame_roundtrip:
  assumes "ValidPcmCheck info" and "length xs = frames * nat (GetChannelsCount info)"
    and "length buf = length xs" and "length out = length xs"
    and "\<And>x. x \<in> set xs \<Longrightarrow> FloatS16ToS16 ops (S16ToFloatS16 ops x) = x"
  shows "FloatS16ToAudioFrame ops (AudioFrameToFloatS16 ops (S16 xs) info frames (length xs) buf planar False)
       (length xs) planar info frames (S16 out) = S16 xs"
proof -
  let ?c = "nat (GetChannelsCount info)"
  have id: "map (FloatS16ToS16 ops \<circ> S16ToFloatS16 ops) xs = xs" using assms(5) by (simp add: map_idI)
  note r = unpack_packed [of xs frames ?c buf out s16_add "FloatS16ToS16 ops" "f_add ops" "S16ToFloatS16 ops"]
  note c = copy_each_value [of "map (S16ToFloatS16 ops) xs" "length xs" out s16_add "FloatS16ToS16 ops"]
    copy_each_value [of xs "length xs" buf "f_add ops" "S16ToFloatS16 ops"]
  show ?thesis
    using r c id assms(2-4)
    by (simp add: FloatS16ToAudioFrame_def AudioFrameToFloatS16_def Let_def)
qed

definition int_ops :: "int float_ops" where
  "int_ops = \<lparr>f_add = (+), FloatS16ToS16 = (\<lambda>x. x), S16ToFloatS16 = (\<lambda>x. x),
     FloatS16ToFloat = (\<lambda>x. x div 32768), FloatToFloatS16 = (\<lambda>x. x * 32768)\<rparr>"

theorem float_frame_roundtrip_witness:
  "FloatS16ToAudioFrame int_ops
     (AudioFrameToFloatS16 int_ops (S16 [1, 2, 3, 4]) k48kStereoPcm16 2 4 [0, 0, 0, 0] True False)
     4 True k48kStereoPcm16 2 (S16 [0, 0, 0, 0]) = S16 [1, 2, 3, 4]"
  using float_frame_roundtrip [of k48kStereoPcm16 "[1, 2, 3, 4]" 2 "[0, 0, 0, 0]" "[0, 0, 0, 0]" int_ops True]
  by (simp add: int_ops_def ValidPcmCheck_def k48kStereoPcm16_def GetChannelsCount_def format_lookups format_tables
      eval_nat_numeral)

text \<open>
  Floats between -1 and 1 that are taken over into planar floats in the range of 16 bits: they are
  scaled where the frame is planar too, and only moved where it is packed.
\<close>

lemma packed_floats_unscaled:
  assumes "length xs = frames * nat (GetChannelsCount info)" and "length buf = length xs"
    and "ch < nat (GetChannelsCount info)" and "i < frames"
  shows "IsPlanner info \<Longrightarrow> AudioFrameToFloatS16 ops (Flt xs) info frames (length xs) buf True False =
       map (FloatToFloatS16 ops) xs"
    and "\<not> IsPlanner info \<Longrightarrow> AudioFrameToFloatS16 ops (Flt xs) info frames (length xs) buf True False ! (frames * ch + i) =
       xs ! (nat (GetChannelsCount info) * i + ch)"
  using assms copy_each_value [of xs "length xs" buf "f_add ops" "FloatToFloatS16 ops"]
    interleaved_to_planar_nth [OF assms(3,4), of buf "f_add ops" "\<lambda>x. x" xs False]
  by (simp_all add: AudioFrameToFloatS16_def Let_def store_def)

end
