(* ===== verification/WavHeader.thy ===== *)
theory WavHeader
  imports Prelude
begin

text \<open>
  \<open>src/src/webrtc/common_audio/wav_header.cc\<close>: writing and reading the header of a WAV file. The
  packed structs are the lists of their bytes, little endian, as the file requires of its platform.
  A reader is a record of the three methods of \<open>WavHeaderReader\<close>. \<open>None\<close> is a failed \<open>RTC_CHECK\<close>, or a
  call that does not return; a \<open>false\<close> of the code is \<open>None\<close> as the second component.
\<close>

unbundle bit_operations_syntax

subsection \<open>Fields and chunks\<close>

definition le_bytes :: "nat \<Rightarrow> nat \<Rightarrow> byte list" where
  "le_bytes k v = map (\<lambda>i. of_nat (v div 256 ^ i)) [0..<k]"

definition le_value :: "byte list \<Rightarrow> nat" where
  "le_value bs = foldr (\<lambda>b acc. unat b + 256 * acc) bs 0"

record chunk_header =
  chunk_id :: nat
  chunk_size :: nat

definition chunk_bytes :: "chunk_header \<Rightarrow> byte list" where
  "chunk_bytes h = le_bytes 4 (chunk_id h) @ le_bytes 4 (chunk_size h)"

definition chunk_of_bytes :: "byte list \<Rightarrow> chunk_header" where
  "chunk_of_bytes bs = \<lparr>chunk_id = le_value (mem_read bs 0 4), chunk_size = le_value (mem_read bs 4 4)\<rparr>"

record fmt_subchunk =
  fmt_AudioFormat :: nat
  fmt_NumChannels :: nat
  fmt_SampleRate :: nat
  fmt_ByteRate :: nat
  fmt_BlockAlign :: nat
  fmt_BitsPerSample :: nat

definition fmt_bytes :: "fmt_subchunk \<Rightarrow> byte list" where
  "fmt_bytes f = le_bytes 2 (fmt_AudioFormat f) @ le_bytes 2 (fmt_NumChannels f) @
     le_bytes 4 (fmt_SampleRate f) @ le_bytes 4 (fmt_ByteRate f) @
     le_bytes 2 (fmt_BlockAlign f) @ le_bytes 2 (fmt_BitsPerSample f)"

definition fmt_of_bytes :: "byte list \<Rightarrow> fmt_subchunk" where
  "fmt_of_bytes bs =
     \<lparr>fmt_AudioFormat = le_value (mem_read bs 0 2), fmt_NumChannels = le_value (mem_read bs 2 2),
      fmt_SampleRate = le_value (mem_read bs 4 4), fmt_ByteRate = le_value (mem_read bs 8 4),
      fmt_BlockAlign = le_value (mem_read bs 12 2), fmt_BitsPerSample = le_value (mem_read bs 14 2)\<rparr>"

definition kFmtPcmSubchunkSize :: nat where "kFmtPcmSubchunkSize = 16"
definition kFmtIeeeFloatSubchunkSize :: nat where "kFmtIeeeFloatSubchunkSize = 18"
definition kPcmWavHeaderSize :: nat where "kPcmWavHeaderSize = 44"
definition kIeeeFloatWavHeaderSize :: nat where "kIeeeFloatWavHeaderSize = 58"
definition sizeof_ChunkHeader :: nat where "sizeof_ChunkHeader = 8"

lemmas wav_sizes = kFmtPcmSubchunkSize_def kFmtIeeeFloatSubchunkSize_def kPcmWavHeaderSize_def
  kIeeeFloatWavHeaderSize_def sizeof_ChunkHeader_def

definition PackFourCC :: "char \<Rightarrow> char \<Rightarrow> char \<Rightarrow> char \<Rightarrow> nat" where
  "PackFourCC a b c d =
     of_char a OR push_bit 8 (of_char b) OR push_bit 16 (of_char c) OR push_bit 24 (of_char d)"

definition ReadFourCC :: "nat \<Rightarrow> string" where
  "ReadFourCC x = map (\<lambda>b. char_of (unat b)) (le_bytes 4 x)"

datatype WavFormat = kWavFormatPcm | kWavFormatIeeeFloat | kWavFormatALaw | kWavFormatMuLaw

fun MapWavFormatToHeaderField :: "WavFormat \<Rightarrow> nat" where
  "MapWavFormatToHeaderField kWavFormatPcm = 1"
| "MapWavFormatToHeaderField kWavFormatIeeeFloat = 3"
| "MapWavFormatToHeaderField kWavFormatALaw = 6"
| "MapWavFormatToHeaderField kWavFormatMuLaw = 7"

definition MapHeaderFieldToWavFormat :: "nat \<Rightarrow> WavFormat option" where
  "MapHeaderFieldToWavFormat v =
     (if v = 1 then Some kWavFormatPcm else if v = 3 then Some kWavFormatIeeeFloat else None)"

definition RiffChunkSize :: "nat \<Rightarrow> nat \<Rightarrow> nat" where
  "RiffChunkSize bytes_in_payload header_size =
     usub (uadd bytes_in_payload header_size) sizeof_ChunkHeader mod 2 ^ 32"

definition ByteRate :: "nat \<Rightarrow> int \<Rightarrow> nat \<Rightarrow> nat" where
  "ByteRate num_channels sample_rate bytes_per_sample =
     umul (umul num_channels (size_of_int sample_rate)) bytes_per_sample mod 2 ^ 32"

definition BlockAlign :: "nat \<Rightarrow> nat \<Rightarrow> nat" where
  "BlockAlign num_channels bytes_per_sample = umul num_channels bytes_per_sample mod 2 ^ 16"

fun GetFormatBytesPerSample :: "WavFormat \<Rightarrow> nat" where
  "GetFormatBytesPerSample kWavFormatPcm = 2"
| "GetFormatBytesPerSample kWavFormatALaw = 1"
| "GetFormatBytesPerSample kWavFormatMuLaw = 1"
| "GetFormatBytesPerSample kWavFormatIeeeFloat = 4"

definition CheckWavParameters :: "nat \<Rightarrow> int \<Rightarrow> WavFormat \<Rightarrow> nat \<Rightarrow> nat \<Rightarrow> bool" where
  "CheckWavParameters num_channels sample_rate format bytes_per_sample num_samples =
     (if num_channels = 0 \<or> sample_rate \<le> 0 \<or> bytes_per_sample = 0 then False
      else if 2 ^ 32 - 1 < size_of_int sample_rate then False
      else if 2 ^ 16 - 1 < num_channels then False
      else if 2 ^ 16 - 1 < umul bytes_per_sample 8 then False
      else if 2 ^ 32 - 1 < umul (umul (size_of_int sample_rate) num_channels) bytes_per_sample then False
      else if \<not> (case format of
           kWavFormatPcm \<Rightarrow> bytes_per_sample = 1 \<or> bytes_per_sample = 2
         | kWavFormatALaw \<Rightarrow> bytes_per_sample = 1
         | kWavFormatMuLaw \<Rightarrow> bytes_per_sample = 1
         | kWavFormatIeeeFloat \<Rightarrow> bytes_per_sample = 4) then False
      else if (2 ^ 32 - 1 - (kPcmWavHeaderSize - sizeof_ChunkHeader)) div bytes_per_sample < num_samples then False
      else num_samples mod num_channels = 0)"

subsection \<open>Writing\<close>

definition riff_bytes :: "nat \<Rightarrow> byte list" where
  "riff_bytes riff_size =
     chunk_bytes \<lparr>chunk_id = PackFourCC CHR ''R'' CHR ''I'' CHR ''F'' CHR ''F'', chunk_size = riff_size\<rparr> @
     le_bytes 4 (PackFourCC CHR ''W'' CHR ''A'' CHR ''V'' CHR ''E'')"

definition wav_fmt :: "nat \<Rightarrow> int \<Rightarrow> WavFormat \<Rightarrow> nat \<Rightarrow> fmt_subchunk" where
  "wav_fmt num_channels sample_rate format bytes_per_sample =
     \<lparr>fmt_AudioFormat = MapWavFormatToHeaderField format, fmt_NumChannels = num_channels mod 2 ^ 16,
      fmt_SampleRate = nat (u32 sample_rate),
      fmt_ByteRate = ByteRate num_channels sample_rate bytes_per_sample,
      fmt_BlockAlign = BlockAlign num_channels bytes_per_sample,
      fmt_BitsPerSample = umul 8 bytes_per_sample mod 2 ^ 16\<rparr>"

definition data_chunk :: "nat \<Rightarrow> byte list" where
  "data_chunk bytes_in_payload =
     chunk_bytes \<lparr>chunk_id = PackFourCC CHR ''d'' CHR ''a'' CHR ''t'' CHR ''a'',
                  chunk_size = bytes_in_payload mod 2 ^ 32\<rparr>"

definition fmt_chunk_id :: nat where
  "fmt_chunk_id = PackFourCC CHR ''f'' CHR ''m'' CHR ''t'' CHR '' ''"

definition WritePcmWavHeader :: "nat \<Rightarrow> int \<Rightarrow> nat \<Rightarrow> nat \<Rightarrow> byte list" where
  "WritePcmWavHeader num_channels sample_rate bytes_per_sample num_samples =
     (let bytes_in_payload = umul bytes_per_sample num_samples
      in riff_bytes (RiffChunkSize bytes_in_payload kPcmWavHeaderSize) @
         chunk_bytes \<lparr>chunk_id = fmt_chunk_id, chunk_size = kFmtPcmSubchunkSize\<rparr> @
         fmt_bytes (wav_fmt num_channels sample_rate kWavFormatPcm bytes_per_sample) @
         data_chunk bytes_in_payload)"

definition WriteIeeeFloatWavHeader :: "nat \<Rightarrow> int \<Rightarrow> nat \<Rightarrow> nat \<Rightarrow> byte list" where
  "WriteIeeeFloatWavHeader num_channels sample_rate bytes_per_sample num_samples =
     (let bytes_in_payload = umul bytes_per_sample num_samples
      in riff_bytes (RiffChunkSize bytes_in_payload kIeeeFloatWavHeaderSize) @
         chunk_bytes \<lparr>chunk_id = fmt_chunk_id, chunk_size = kFmtIeeeFloatSubchunkSize\<rparr> @
         fmt_bytes (wav_fmt num_channels sample_rate kWavFormatIeeeFloat bytes_per_sample) @
         le_bytes 2 0 @
         chunk_bytes \<lparr>chunk_id = PackFourCC CHR ''f'' CHR ''a'' CHR ''c'' CHR ''t'', chunk_size = 4\<rparr> @
         le_bytes 4 (umul num_channels num_samples mod 2 ^ 32) @
         data_chunk bytes_in_payload)"

definition WriteWavHeader :: "nat \<Rightarrow> int \<Rightarrow> WavFormat \<Rightarrow> nat \<Rightarrow> byte list option" where
  "WriteWavHeader num_channels sample_rate format num_samples =
     (let bytes_per_sample = GetFormatBytesPerSample format
      in if \<not> CheckWavParameters num_channels sample_rate format bytes_per_sample num_samples then None
         else if format = kWavFormatPcm
         then Some (WritePcmWavHeader num_channels sample_rate bytes_per_sample num_samples)
         else if format \<noteq> kWavFormatIeeeFloat then None
         else Some (WriteIeeeFloatWavHeader num_channels sample_rate bytes_per_sample num_samples))"

subsection \<open>Reading\<close>

record 'r wav_reader =
  rd_Read :: "'r \<Rightarrow> nat \<Rightarrow> ('r \<times> byte list) option"
  rd_SeekForward :: "'r \<Rightarrow> nat \<Rightarrow> 'r \<times> bool"
  rd_GetPosition :: "'r \<Rightarrow> int"

text \<open>The loop that skips the chunks in front of the one that is sought.\<close>

partial_function (option) FindWaveChunk ::
    "'r wav_reader \<Rightarrow> 'r \<Rightarrow> string \<Rightarrow> ('r \<times> chunk_header option) option" where
  "FindWaveChunk rd r sought_chunk_id =
     Option.bind (rd_Read rd r sizeof_ChunkHeader) (\<lambda>(r, bs).
       if length bs \<noteq> sizeof_ChunkHeader then Some (r, None)
       else if ReadFourCC (chunk_id (chunk_of_bytes bs)) = sought_chunk_id
       then Some (r, Some (chunk_of_bytes bs))
       else (case rd_SeekForward rd r (chunk_size (chunk_of_bytes bs)) of
           (r, ok) \<Rightarrow> if ok then FindWaveChunk rd r sought_chunk_id else Some (r, None)))"

definition ReadFmtChunkData ::
    "'r wav_reader \<Rightarrow> 'r \<Rightarrow> nat \<Rightarrow> ('r \<times> fmt_subchunk option) option" where
  "ReadFmtChunkData rd r fmt_size =
     do {
       (r, bs) \<leftarrow> rd_Read rd r kFmtPcmSubchunkSize;
       if length bs \<noteq> kFmtPcmSubchunkSize then Some (r, None)
       else if fmt_size = kFmtPcmSubchunkSize then Some (r, Some (fmt_of_bytes bs))
       else if kFmtPcmSubchunkSize + 2 \<noteq> fmt_size then Some (r, None)
       else do {
         (r, ext) \<leftarrow> rd_Read rd r 2;
         Some (r, if length ext \<noteq> 2 \<or> le_value ext \<noteq> 0 then None else Some (fmt_of_bytes bs))
       }
     }"

record wav_info =
  wav_channels :: nat
  wav_rate :: int
  wav_format :: WavFormat
  wav_sample_size :: nat
  wav_samples :: nat
  wav_data_start :: int

text \<open>The fields of the two chunks, after they were found.\<close>

definition parse_wav_fields :: "nat \<Rightarrow> fmt_subchunk \<Rightarrow> nat \<Rightarrow> int \<Rightarrow> wav_info option option" where
  "parse_wav_fields riff_size fmt bytes_in_payload data_start =
     do {
       format \<leftarrow> MapHeaderFieldToWavFormat (fmt_AudioFormat fmt);
       let num_channels = fmt_NumChannels fmt; sample_rate = s32 (int (fmt_SampleRate fmt));
           bytes_per_sample = fmt_BitsPerSample fmt div 8
       in if bytes_per_sample = 0 then Some None
          else
            let num_samples = bytes_in_payload div bytes_per_sample;
                header_size = (if format = kWavFormatPcm then kPcmWavHeaderSize else kIeeeFloatWavHeaderSize)
            in if riff_size < RiffChunkSize bytes_in_payload header_size then Some None
               else if fmt_ByteRate fmt \<noteq> ByteRate num_channels sample_rate bytes_per_sample then Some None
               else if fmt_BlockAlign fmt \<noteq> BlockAlign num_channels bytes_per_sample then Some None
               else if \<not> CheckWavParameters num_channels sample_rate format bytes_per_sample num_samples
               then Some None
               else Some (Some \<lparr>wav_channels = num_channels, wav_rate = sample_rate, wav_format = format,
                      wav_sample_size = bytes_per_sample, wav_samples = num_samples,
                      wav_data_start = data_start\<rparr>)
     }"

definition ReadWavHeader :: "'r wav_reader \<Rightarrow> 'r \<Rightarrow> ('r \<times> wav_info option) option" where
  "ReadWavHeader rd r =
     do {
       (r, riff) \<leftarrow> rd_Read rd r 12;
       if length riff \<noteq> 12 then Some (r, None)
       else if ReadFourCC (chunk_id (chunk_of_bytes riff)) \<noteq> ''RIFF'' then Some (r, None)
       else if ReadFourCC (le_value (mem_read riff 8 4)) \<noteq> ''WAVE'' then Some (r, None)
       else do {
         (r, fmt_header) \<leftarrow> FindWaveChunk rd r ''fmt '';
         case fmt_header of None \<Rightarrow> Some (r, None) | Some h \<Rightarrow>
           do {
             (r, fmt) \<leftarrow> ReadFmtChunkData rd r (chunk_size h);
             case fmt of None \<Rightarrow> Some (r, None) | Some f \<Rightarrow>
               do {
                 (r, data_header) \<leftarrow> FindWaveChunk rd r ''data'';
                 case data_header of None \<Rightarrow> Some (r, None) | Some d \<Rightarrow>
                   map_option (Pair r)
                     (parse_wav_fields (chunk_size (chunk_of_bytes riff)) f (chunk_size d) (rd_GetPosition rd r))
               }
           }
       }
     }"

subsection \<open>Fields\<close>

lemma length_le_bytes [simp]: "length (le_bytes k v) = k"
  by (simp add: le_bytes_def)

lemma le_bytes_Suc: "le_bytes (Suc k) v = of_nat v # le_bytes k (v div 256)"
proof -
  have "[0..<Suc k] = 0 # map Suc [0..<k]" by (simp add: map_Suc_upt upt_conv_Cons del: upt_Suc)
  then show ?thesis by (simp add: le_bytes_def div_mult2_eq del: upt_Suc)
qed

lemma le_value_bytes: "v < 256 ^ k \<Longrightarrow> le_value (le_bytes k v) = v"
proof (induction k arbitrary: v)
  case 0
  then show ?case by (simp add: le_value_def le_bytes_def)
next
  case (Suc k)
  have "v div 256 < 256 ^ k" using Suc.prems by (simp add: less_mult_imp_div_less mult.commute)
  then have "le_value (le_bytes k (v div 256)) = v div 256" by (rule Suc.IH)
  moreover have "unat (of_nat v :: byte) = v mod 256" by (simp add: unat_of_nat)
  ultimately show ?case unfolding le_bytes_Suc by (simp add: le_value_def)
qed

lemma le_value_4 [simp]: "v < 2 ^ 32 \<Longrightarrow> le_value (le_bytes 4 v) = v"
  and le_value_2 [simp]: "v < 2 ^ 16 \<Longrightarrow> le_value (le_bytes 2 v) = v"
  by (simp_all add: le_value_bytes)

lemma mem_read_after: "length xs = k \<Longrightarrow> mem_read (xs @ ys) k n = take n ys"
  by (simp add: mem_read_def)

lemma chunk_roundtrip:
  assumes "chunk_id h < 2 ^ 32" and "chunk_size h < 2 ^ 32"
  shows "chunk_of_bytes (chunk_bytes h @ xs) = h" "chunk_of_bytes (chunk_bytes h) = h"
    "length (chunk_bytes h) = 8"
  using assms by (simp_all add: chunk_of_bytes_def chunk_bytes_def mem_read_def)

lemma fmt_roundtrip:
  assumes "fmt_AudioFormat f < 2 ^ 16" "fmt_NumChannels f < 2 ^ 16" "fmt_SampleRate f < 2 ^ 32"
    "fmt_ByteRate f < 2 ^ 32" "fmt_BlockAlign f < 2 ^ 16" "fmt_BitsPerSample f < 2 ^ 16"
  shows "fmt_of_bytes (fmt_bytes f) = f" "length (fmt_bytes f) = 16"
  using assms by (simp_all add: fmt_of_bytes_def fmt_bytes_def mem_read_def)

text \<open>The identifiers of the chunks, as numbers and read back.\<close>

lemma four_ccs [simp]:
  "PackFourCC CHR ''R'' CHR ''I'' CHR ''F'' CHR ''F'' = 1179011410"
  "PackFourCC CHR ''W'' CHR ''A'' CHR ''V'' CHR ''E'' = 1163280727"
  "PackFourCC CHR ''f'' CHR ''m'' CHR ''t'' CHR '' '' = 544501094"
  "PackFourCC CHR ''f'' CHR ''a'' CHR ''c'' CHR ''t'' = 1952670054"
  "PackFourCC CHR ''d'' CHR ''a'' CHR ''t'' CHR ''a'' = 1635017060"
  by (simp_all add: PackFourCC_def push_bit_eq_mult)

lemma ReadFourCC_digits:
  "ReadFourCC x = [char_of (x mod 256), char_of (x div 256 mod 256), char_of (x div 65536 mod 256),
     char_of (x div 16777216 mod 256)]"
proof -
  have "[0..<4] = [0, 1, 2, 3 :: nat]" by (simp add: upt_rec)
  then have "le_bytes 4 x = [of_nat x, of_nat (x div 256), of_nat (x div 65536), of_nat (x div 16777216)]"
    by (simp add: le_bytes_def)
  then show ?thesis by (simp add: ReadFourCC_def unat_of_nat)
qed

lemma read_four_ccs [simp]:
  "ReadFourCC 1179011410 = ''RIFF''" "ReadFourCC 1163280727 = ''WAVE''"
  "ReadFourCC 544501094 = ''fmt ''" "ReadFourCC 1952670054 = ''fact''"
  "ReadFourCC 1635017060 = ''data''"
  by (simp_all add: ReadFourCC_digits char_of_def bit_0)

subsection \<open>What was written is parsed\<close>

lemma wav_parametersD:
  assumes "CheckWavParameters num_channels sample_rate format bytes_per_sample num_samples"
  shows "0 < num_channels" "num_channels < 2 ^ 16" "0 < sample_rate" "0 < bytes_per_sample"
    "bytes_per_sample \<le> 4" "bytes_per_sample * num_samples \<le> 2 ^ 32 - 37"
    "num_samples mod num_channels = 0"
proof -
  show "0 < num_channels" "num_channels < 2 ^ 16" "0 < sample_rate" "0 < bytes_per_sample"
    "bytes_per_sample \<le> 4" "num_samples mod num_channels = 0"
    using assms by (auto simp: CheckWavParameters_def split: if_splits WavFormat.splits)
  have "num_samples \<le> 4294967259 div bytes_per_sample"
    using assms by (auto simp: CheckWavParameters_def wav_sizes split: if_splits WavFormat.splits)
  then have "bytes_per_sample * num_samples \<le> bytes_per_sample * (4294967259 div bytes_per_sample)" by simp
  also have "\<dots> \<le> 4294967259" by (rule times_div_less_eq_dividend)
  finally show "bytes_per_sample * num_samples \<le> 2 ^ 32 - 37" by simp
qed

definition written_info :: "nat \<Rightarrow> int \<Rightarrow> WavFormat \<Rightarrow> nat \<Rightarrow> int \<Rightarrow> wav_info" where
  "written_info num_channels sample_rate format num_samples start =
     \<lparr>wav_channels = num_channels, wav_rate = sample_rate, wav_format = format,
      wav_sample_size = GetFormatBytesPerSample format, wav_samples = num_samples,
      wav_data_start = start\<rparr>"

definition header_size_of :: "WavFormat \<Rightarrow> nat" where
  "header_size_of format = (if format = kWavFormatPcm then kPcmWavHeaderSize else kIeeeFloatWavHeaderSize)"

lemma parse_written:
  assumes ok: "CheckWavParameters ch rate format (GetFormatBytesPerSample format) n"
    and f: "format = kWavFormatPcm \<or> format = kWavFormatIeeeFloat" and rate: "rate < 2 ^ 31"
  shows "parse_wav_fields (RiffChunkSize (umul (GetFormatBytesPerSample format) n) (header_size_of format))
      (wav_fmt ch rate format (GetFormatBytesPerSample format))
      (umul (GetFormatBytesPerSample format) n mod 2 ^ 32) start
    = Some (Some (written_info ch rate format n start))"
proof -
  note W = wav_parametersD [OF ok]
  let ?bps = "GetFormatBytesPerSample format"
  have pay: "umul ?bps n = ?bps * n" "umul ?bps n mod 2 ^ 32 = ?bps * n" using W(6) by (simp_all add: umul_id)
  have div: "?bps * n div ?bps = n" using W(4) by simp
  have fld: "MapHeaderFieldToWavFormat (MapWavFormatToHeaderField format) = Some format"
    "umul 8 ?bps mod 2 ^ 16 div 8 = ?bps"
    using f by (auto simp: MapHeaderFieldToWavFormat_def umul_def)
  have rt: "s32 (int (nat (u32 rate))) = rate" using W(3) rate by (simp add: u32_id s32_nonneg)
  show ?thesis
    unfolding parse_wav_fields_def wav_fmt_def fmt_subchunk.simps fld bind.bind_lunit Let_def rt
      pay(2) pay(1) div header_size_of_def [symmetric]
    using W ok by (simp add: written_info_def)
qed

lemma written_fields:
  assumes "CheckWavParameters ch rate format (GetFormatBytesPerSample format) n" and "rate < 2 ^ 31"
  shows "fmt_of_bytes (fmt_bytes (wav_fmt ch rate format (GetFormatBytesPerSample format))) =
      wav_fmt ch rate format (GetFormatBytesPerSample format)"
    "length (fmt_bytes (wav_fmt ch rate format (GetFormatBytesPerSample format))) = 16"
proof -
  have "MapWavFormatToHeaderField format < 65536" by (cases format) simp_all
  then show "fmt_of_bytes (fmt_bytes (wav_fmt ch rate format (GetFormatBytesPerSample format))) =
      wav_fmt ch rate format (GetFormatBytesPerSample format)"
    "length (fmt_bytes (wav_fmt ch rate format (GetFormatBytesPerSample format))) = 16"
    using wav_parametersD [OF assms(1)] assms(2)
    by (auto intro!: fmt_roundtrip simp: wav_fmt_def ByteRate_def BlockAlign_def u32_id)
qed

lemma written_length:
  assumes w: "WriteWavHeader ch rate format n = Some hdr" and "rate < 2 ^ 31"
  shows "length hdr = header_size_of format"
proof -
  let ?bps = "GetFormatBytesPerSample format"
  have ok: "CheckWavParameters ch rate format ?bps n"
    and fmt: "format = kWavFormatPcm \<or> format = kWavFormatIeeeFloat"
    using w by (auto simp: WriteWavHeader_def Let_def split: if_splits)
  have len: "length (fmt_bytes (wav_fmt ch rate format ?bps)) = 16" by (rule written_fields [OF ok assms(2)])
  show ?thesis
    using fmt w ok len by (auto simp: WriteWavHeader_def Let_def WritePcmWavHeader_def WriteIeeeFloatWavHeader_def
        riff_bytes_def data_chunk_def chunk_bytes_def header_size_of_def wav_sizes)
qed

text \<open>The chunk that only the header of float files has.\<close>

definition fact_part :: "nat \<Rightarrow> byte list" where
  "fact_part samples = chunk_bytes \<lparr>chunk_id = 1952670054, chunk_size = 4\<rparr> @ le_bytes 4 samples"

subsection \<open>The interface of a reader\<close>

text \<open>
  What \<open>ReadWavHeader\<close> relies on: inside the file a read returns the next bytes and a seek skips
  them, and the position counts both.
\<close>

locale wav_source =
  fixes rd :: "'r wav_reader"
    and rok :: "'r \<Rightarrow> bool"
    and rest :: "'r \<Rightarrow> byte list"
    and offset_of :: "'r \<Rightarrow> nat"
  assumes read_law: "rok r \<Longrightarrow> 0 < n \<Longrightarrow> n \<le> length (rest r) \<Longrightarrow> n < 2 ^ 29 \<Longrightarrow>
      \<exists>r'. rd_Read rd r n = Some (r', take n (rest r)) \<and> rok r' \<and> rest r' = drop n (rest r) \<and>
        offset_of r' = offset_of r + n"
    and seek_law: "rok r \<Longrightarrow> n \<le> length (rest r) \<Longrightarrow> n < 2 ^ 31 \<Longrightarrow>
      \<exists>r'. rd_SeekForward rd r n = (r', True) \<and> rok r' \<and> rest r' = drop n (rest r) \<and>
        offset_of r' = offset_of r + n"
    and position_law: "rok r \<Longrightarrow> rd_GetPosition rd r = int (offset_of r)"
begin

lemma read_prefix:
  assumes "rok r" "rest r = bs @ xs" "length bs = n" "0 < n" "n < 2 ^ 29"
  obtains r' where "rd_Read rd r n = Some (r', bs)" "rok r'" "rest r' = xs"
    "offset_of r' = offset_of r + n"
  using read_law [OF assms(1,4) _ assms(5)] assms(2,3) by auto

lemma find_here:
  assumes "rok r" "rest r = chunk_bytes h @ xs" "chunk_id h < 2 ^ 32" "chunk_size h < 2 ^ 32"
    and "ReadFourCC (chunk_id h) = sought"
  obtains r' where "FindWaveChunk rd r sought = Some (r', Some h)" "rok r'" "rest r' = xs"
    "offset_of r' = offset_of r + 8"
proof -
  note C = chunk_roundtrip [OF assms(3,4)]
  from read_prefix [OF assms(1,2) C(3)] obtain r' where
    "rd_Read rd r 8 = Some (r', chunk_bytes h)" "rok r'" "rest r' = xs" "offset_of r' = offset_of r + 8"
    by auto
  then show ?thesis using C assms(5)
    by (intro that [of r']) (simp_all add: FindWaveChunk.simps [of rd r] wav_sizes)
qed

lemma find_skip:
  assumes "rok r" "rest r = chunk_bytes h @ skipped @ xs" "chunk_id h < 2 ^ 32"
    and "chunk_size h = length skipped" "length skipped < 2 ^ 31" "ReadFourCC (chunk_id h) \<noteq> sought"
  obtains r' where "FindWaveChunk rd r sought = FindWaveChunk rd r' sought" "rok r'" "rest r' = xs"
    "offset_of r' = offset_of r + 8 + length skipped"
proof -
  have "chunk_size h < 2 ^ 32" using assms(4,5) by simp
  note C = chunk_roundtrip [OF assms(3) this]
  from read_prefix [OF assms(1,2) C(3)] obtain r1 where
    r1: "rd_Read rd r 8 = Some (r1, chunk_bytes h)" "rok r1" "rest r1 = skipped @ xs"
      "offset_of r1 = offset_of r + 8"
    by auto
  from seek_law [OF r1(2), of "length skipped"] obtain r2 where
    "rd_SeekForward rd r1 (length skipped) = (r2, True)" "rok r2" "rest r2 = xs"
      "offset_of r2 = offset_of r1 + length skipped"
    using r1(3) assms(5) by auto
  then show ?thesis using C r1 assms(4,6)
    by (intro that [of r2]) (simp_all add: FindWaveChunk.simps [of rd r] wav_sizes)
qed

lemma read_riff:
  assumes "rok r" "rest r = riff_bytes s @ xs" "s < 2 ^ 32"
  obtains r' where "rd_Read rd r 12 = Some (r', riff_bytes s)" "rok r'" "rest r' = xs"
    "offset_of r' = offset_of r + 12" "length (riff_bytes s) = 12"
    "chunk_of_bytes (riff_bytes s) = \<lparr>chunk_id = 1179011410, chunk_size = s\<rparr>"
    "le_value (mem_read (riff_bytes s) 8 4) = 1163280727"
proof -
  have len: "length (riff_bytes s) = 12" using assms(3) by (simp add: riff_bytes_def chunk_roundtrip)
  have "chunk_of_bytes (riff_bytes s) = \<lparr>chunk_id = 1179011410, chunk_size = s\<rparr>"
    using assms(3) by (simp add: riff_bytes_def chunk_roundtrip)
  moreover have "mem_read (riff_bytes s) 8 4 = le_bytes 4 1163280727"
    using assms(3) unfolding riff_bytes_def by (subst mem_read_after) (simp_all add: chunk_roundtrip)
  then have "le_value (mem_read (riff_bytes s) 8 4) = 1163280727" by simp
  moreover from read_prefix [OF assms(1,2) len] obtain r' where
    "rd_Read rd r 12 = Some (r', riff_bytes s)" "rok r'" "rest r' = xs" "offset_of r' = offset_of r + 12"
    by auto
  ultimately show ?thesis using len by (intro that [of r'])
qed

lemma read_fmt:
  assumes "rok r" "rest r = fmt_bytes f @ ext @ xs" "length (fmt_bytes f) = 16" "fmt_of_bytes (fmt_bytes f) = f"
    and "ext = [] \<and> fsize = 16 \<or> ext = le_bytes 2 0 \<and> fsize = 18"
  obtains r' where "ReadFmtChunkData rd r fsize = Some (r', Some f)" "rok r'" "rest r' = xs"
    "offset_of r' = offset_of r + fsize"
proof -
  from read_prefix [OF assms(1,2,3)] obtain r1 where
    r1: "rd_Read rd r 16 = Some (r1, fmt_bytes f)" "rok r1" "rest r1 = ext @ xs"
      "offset_of r1 = offset_of r + 16"
    by auto
  show ?thesis
  proof (cases "ext = []")
    case True
    have "le_bytes 2 0 \<noteq> []" by (metis length_le_bytes list.size(3) zero_neq_numeral)
    then have "fsize = 16" using True assms(5) by auto
    then show ?thesis using r1 True assms(3,4)
      by (intro that [of r1]) (simp_all add: ReadFmtChunkData_def wav_sizes)
  next
    case False
    then have e: "ext = le_bytes 2 0" "fsize = 18" using assms(5) by simp_all
    have "length ext = 2" using e by simp
    from read_prefix [OF r1(2,3) this] obtain r2 where
      "rd_Read rd r1 2 = Some (r2, ext)" "rok r2" "rest r2 = xs" "offset_of r2 = offset_of r1 + 2"
      by auto
    then show ?thesis using r1 e assms(3,4)
      by (intro that [of r2]) (simp_all add: ReadFmtChunkData_def wav_sizes)
  qed
qed

lemma skip_fact:
  assumes "rok r" "rest r = fct @ data_chunk pay @ xs" "fct = [] \<or> fct = fact_part samples"
  obtains r' where "FindWaveChunk rd r ''data'' = FindWaveChunk rd r' ''data''" "rok r'"
    "rest r' = data_chunk pay @ xs" "offset_of r' = offset_of r + length fct"
proof (cases "fct = []")
  case True
  then show ?thesis using assms by (intro that [of r]) simp_all
next
  case False
  let ?h = "\<lparr>chunk_id = 1952670054, chunk_size = 4\<rparr>"
  have f: "fct = fact_part samples" using assms(3) False by simp
  have rest: "rest r = chunk_bytes ?h @ le_bytes 4 samples @ data_chunk pay @ xs"
    using assms(2) f by (simp add: fact_part_def)
  have len: "length fct = 12" unfolding f by (simp add: fact_part_def chunk_roundtrip)
  have h: "chunk_id ?h < 2 ^ 32" "chunk_size ?h = length (le_bytes 4 samples)"
    "length (le_bytes 4 samples) < 2 ^ 31" "ReadFourCC (chunk_id ?h) \<noteq> ''data''"
    by simp_all
  obtain r2 where "FindWaveChunk rd r ''data'' = FindWaveChunk rd r2 ''data''" "rok r2"
    "rest r2 = data_chunk pay @ xs" "offset_of r2 = offset_of r + 8 + length (le_bytes 4 samples)"
    by (rule find_skip [OF assms(1) rest h])
  then show ?thesis using len by (intro that [of r2]) simp_all
qed

lemma read_header_parts:
  assumes r: "rok r" "rest r = riff_bytes s @ chunk_bytes \<lparr>chunk_id = fmt_chunk_id, chunk_size = fsize\<rparr> @
      fmt_bytes f @ ext @ fct @ data_chunk pay @ xs"
    and f: "length (fmt_bytes f) = 16" "fmt_of_bytes (fmt_bytes f) = f"
    and e: "ext = [] \<and> fsize = 16 \<or> ext = le_bytes 2 0 \<and> fsize = 18" and "s < 2 ^ 32"
    and fct: "fct = [] \<or> fct = fact_part samples"
    and parse: "parse_wav_fields s f (pay mod 2 ^ 32)
      (int (offset_of r + 28 + fsize + length fct)) = Some (Some info)"
  obtains r' where "ReadWavHeader rd r = Some (r', Some info)" "rok r'" "rest r' = xs"
    "offset_of r' = offset_of r + 28 + fsize + length fct"
proof -
  obtain r1 where r1: "rd_Read rd r 12 = Some (r1, riff_bytes s)" "rok r1"
    "rest r1 = chunk_bytes \<lparr>chunk_id = fmt_chunk_id, chunk_size = fsize\<rparr> @
      fmt_bytes f @ ext @ fct @ data_chunk pay @ xs"
    "offset_of r1 = offset_of r + 12" "length (riff_bytes s) = 12"
    "chunk_of_bytes (riff_bytes s) = \<lparr>chunk_id = 1179011410, chunk_size = s\<rparr>"
    "le_value (mem_read (riff_bytes s) 8 4) = 1163280727"
    by (rule read_riff [OF r \<open>s < 2 ^ 32\<close>])
  have h: "chunk_id \<lparr>chunk_id = fmt_chunk_id, chunk_size = fsize\<rparr> < 2 ^ 32"
    "chunk_size \<lparr>chunk_id = fmt_chunk_id, chunk_size = fsize\<rparr> < 2 ^ 32"
    "ReadFourCC (chunk_id \<lparr>chunk_id = fmt_chunk_id, chunk_size = fsize\<rparr>) = ''fmt ''"
    using e by (auto simp: fmt_chunk_id_def)
  obtain r2 where r2: "FindWaveChunk rd r1 ''fmt '' = Some (r2, Some \<lparr>chunk_id = fmt_chunk_id, chunk_size = fsize\<rparr>)"
    "rok r2" "rest r2 = fmt_bytes f @ ext @ fct @ data_chunk pay @ xs" "offset_of r2 = offset_of r1 + 8"
    by (rule find_here [OF r1(2,3) h])
  obtain r3 where r3: "ReadFmtChunkData rd r2 fsize = Some (r3, Some f)" "rok r3"
    "rest r3 = fct @ data_chunk pay @ xs" "offset_of r3 = offset_of r2 + fsize"
    by (rule read_fmt [OF r2(2,3) f e])
  obtain r4 where r4: "FindWaveChunk rd r3 ''data'' = FindWaveChunk rd r4 ''data''" "rok r4"
    "rest r4 = data_chunk pay @ xs" "offset_of r4 = offset_of r3 + length fct"
    by (rule skip_fact [OF r3(2,3) fct])
  have r4': "rest r4 = chunk_bytes \<lparr>chunk_id = 1635017060, chunk_size = pay mod 2 ^ 32\<rparr> @ xs"
    unfolding r4(3) data_chunk_def four_ccs ..
  have d: "chunk_id \<lparr>chunk_id = 1635017060, chunk_size = pay mod 2 ^ 32\<rparr> < 2 ^ 32"
    "chunk_size \<lparr>chunk_id = 1635017060, chunk_size = pay mod 2 ^ 32\<rparr> < 2 ^ 32"
    "ReadFourCC (chunk_id \<lparr>chunk_id = 1635017060, chunk_size = pay mod 2 ^ 32\<rparr>) = ''data''"
    by simp_all
  obtain r5 where r5: "FindWaveChunk rd r4 ''data'' = Some (r5, Some \<lparr>chunk_id = 1635017060, chunk_size = pay mod 2 ^ 32\<rparr>)"
    "rok r5" "rest r5 = xs" "offset_of r5 = offset_of r4 + 8"
    by (rule find_here [OF r4(2) r4' d])
  have off: "offset_of r5 = offset_of r + 28 + fsize + length fct"
    using r1(4) r2(4) r3(4) r4(4) r5(4) by linarith
  have pos: "rd_GetPosition rd r5 = int (offset_of r + 28 + fsize + length fct)"
    using position_law [OF r5(2)] off by (simp only:)
  have "ReadWavHeader rd r = Some (r5, Some info)"
    unfolding ReadWavHeader_def r1(1) bind.bind_lunit prod.case r1(5-7) chunk_header.simps read_four_ccs
      r2(1) option.case r3(1) r4(1) r5(1) pos parse
    by simp
  then show ?thesis using r5(2,3) off by (rule that)
qed

lemma read_written_header:
  assumes r: "rok r" "rest r = hdr @ xs" and w: "WriteWavHeader ch rate format n = Some hdr" and "rate < 2 ^ 31"
  obtains r' where "ReadWavHeader rd r =
      Some (r', Some (written_info ch rate format n (int (offset_of r + length hdr))))"
    "rok r'" "rest r' = xs" "offset_of r' = offset_of r + length hdr" "length hdr = header_size_of format"
proof -
  let ?bps = "GetFormatBytesPerSample format"
  have ok: "CheckWavParameters ch rate format ?bps n"
    and fmt: "format = kWavFormatPcm \<or> format = kWavFormatIeeeFloat"
    using w by (auto simp: WriteWavHeader_def Let_def split: if_splits)
  note F = written_fields [OF ok \<open>rate < 2 ^ 31\<close>] and P = parse_written [OF ok fmt \<open>rate < 2 ^ 31\<close>]
  have s: "RiffChunkSize (umul ?bps n) (header_size_of format) < 2 ^ 32" by (simp add: RiffChunkSize_def)
  define pcm where "pcm \<longleftrightarrow> format = kWavFormatPcm"
  define fsize where "fsize = (if pcm then 16 else 18 :: nat)"
  define ext where "ext = (if pcm then [] else le_bytes 2 0)"
  define fct where "fct = (if pcm then [] else fact_part (umul ch n mod 2 ^ 32))"
  note defs = pcm_def fsize_def ext_def fct_def
  have hdr: "hdr = riff_bytes (RiffChunkSize (umul ?bps n) (header_size_of format)) @
      chunk_bytes \<lparr>chunk_id = fmt_chunk_id, chunk_size = fsize\<rparr> @ fmt_bytes (wav_fmt ch rate format ?bps) @
      ext @ fct @ data_chunk (umul ?bps n)"
    using fmt
  proof
    assume p: "format = kWavFormatPcm"
    then have "hdr = WritePcmWavHeader ch rate ?bps n" using w ok by (simp add: WriteWavHeader_def)
    then show ?thesis
      using p by (simp add: WritePcmWavHeader_def defs header_size_of_def kFmtPcmSubchunkSize_def Let_def)
  next
    assume p: "format = kWavFormatIeeeFloat"
    then have "hdr = WriteIeeeFloatWavHeader ch rate ?bps n" using w ok by (simp add: WriteWavHeader_def)
    then show ?thesis
      using p by (simp add: WriteIeeeFloatWavHeader_def defs header_size_of_def kFmtIeeeFloatSubchunkSize_def
          fact_part_def Let_def)
  qed
  have lf: "length fct = (if pcm then 0 else 12)" by (simp add: fct_def fact_part_def chunk_bytes_def)
  have le: "length ext = (if pcm then 0 else 2)" by (simp add: ext_def)
  have len1: "28 + fsize + length fct = header_size_of format"
    unfolding lf using fmt by (auto simp: pcm_def fsize_def header_size_of_def wav_sizes)
  have "length hdr = 12 + 8 + 16 + length ext + length fct + 8"
    unfolding hdr length_append F(2) riff_bytes_def data_chunk_def chunk_bytes_def by simp
  then have len2: "length hdr = header_size_of format"
    unfolding lf le using fmt by (auto simp: pcm_def header_size_of_def wav_sizes)
  have rest: "rest r = riff_bytes (RiffChunkSize (umul ?bps n) (header_size_of format)) @
      chunk_bytes \<lparr>chunk_id = fmt_chunk_id, chunk_size = fsize\<rparr> @ fmt_bytes (wav_fmt ch rate format ?bps) @
      ext @ fct @ data_chunk (umul ?bps n) @ xs"
    unfolding r(2) hdr append_assoc ..
  have ef: "ext = [] \<and> fsize = 16 \<or> ext = le_bytes 2 0 \<and> fsize = 18"
    "fct = [] \<or> fct = fact_part (umul ch n mod 2 ^ 32)"
    by (simp_all add: ext_def fsize_def fct_def)
  obtain r' where r': "ReadWavHeader rd r = Some (r', Some (written_info ch rate format n
      (int (offset_of r + 28 + fsize + length fct))))" "rok r'" "rest r' = xs"
    "offset_of r' = offset_of r + 28 + fsize + length fct"
    by (rule read_header_parts [OF r(1) rest F(2,1) ef(1) s ef(2) P])
  have "offset_of r + 28 + fsize + length fct = offset_of r + length hdr" using len1 len2 by linarith
  then show ?thesis using r' len2 by (intro that [of r']) (simp_all only:)
qed

end

end
