(* ===== verification/AudioFile.thy ===== *)
theory AudioFile
  imports WavHeader AudioFormat AudioSource
begin

text \<open>
  \<open>src/src/core/audio/file/file_io.cc\<close> and \<open>wav_file_header.cc\<close>: files of audio samples as sources and
  sinks. A \<open>FILE*\<close> is the bytes of the file and a position, which a seek may move behind the end. A
  caller's block is a list of bytes with an offset; \<open>None\<close> is a write outside of it, a \<open>fclose\<close> of a
  null pointer, a failed check, or a call that never returns. \<open>fwrite\<close> does not fail.
\<close>

subsection \<open>Files\<close>

record FILE =
  file_bytes :: "byte list"
  file_pos :: nat

definition fread :: "FILE \<Rightarrow> nat \<Rightarrow> byte list \<times> FILE" where
  "fread f n = (let bs = mem_read (file_bytes f) (file_pos f) n in (bs, f\<lparr>file_pos := file_pos f + length bs\<rparr>))"

definition fseek_set :: "FILE \<Rightarrow> nat \<Rightarrow> FILE" where
  "fseek_set f n = f\<lparr>file_pos := n\<rparr>"

definition fseek_cur :: "FILE \<Rightarrow> int \<Rightarrow> FILE \<times> int" where
  "fseek_cur f offset =
     (if int (file_pos f) + offset < 0 then (f, - 1)
      else (f\<lparr>file_pos := nat (int (file_pos f) + offset)\<rparr>, 0))"

definition fwrite :: "FILE \<Rightarrow> byte list \<Rightarrow> FILE \<times> nat" where
  "fwrite f xs =
     (f\<lparr>file_bytes := mem_write (file_bytes f @ replicate (file_pos f - length (file_bytes f)) 0) (file_pos f) xs,
        file_pos := file_pos f + length xs\<rparr>, length xs)"

subsection \<open>AudioPcmFileSource\<close>

record pcm_source =
  pcm_format :: AudioFormatInfo
  pcm_status :: SourceStatus
  pcm_seek :: int
  pcm_fp :: "FILE option"
  samples_in_bytes :: nat
  fix_offset :: nat
  cyclic_mode :: bool

definition AudioPcmFileSource_new :: "FILE option \<Rightarrow> AudioFormatInfo \<Rightarrow> pcm_source" where
  "AudioPcmFileSource_new fp info =
     (case fp of
        None \<Rightarrow> \<lparr>pcm_format = info, pcm_status = SourceError, pcm_seek = 0, pcm_fp = None,
                  samples_in_bytes = 0, fix_offset = 0, cyclic_mode = False\<rparr>
      | Some f \<Rightarrow> \<lparr>pcm_format = info, pcm_status = kStatic, pcm_seek = 0,
                    pcm_fp = Some (fseek_set f 0), samples_in_bytes = length (file_bytes f),
                    fix_offset = 0, cyclic_mode = False\<rparr>)"

definition pcm_CurrentSizeInternal :: "pcm_source \<Rightarrow> nat" where
  "pcm_CurrentSizeInternal s =
     (case pcm_fp s of None \<Rightarrow> 0
      | Some f \<Rightarrow> size_of_int (int (samples_in_bytes s) - int (file_pos f) - pcm_seek s + int (fix_offset s)))"

definition pcm_CurrentSize :: "pcm_source \<Rightarrow> nat" where
  "pcm_CurrentSize s = (if cyclic_mode s then samples_in_bytes s else pcm_CurrentSizeInternal s)"

definition pcm_CurrentSizeMs :: "pcm_source \<Rightarrow> time_data option" where
  "pcm_CurrentSizeMs s = AudioByteSizeToMs (pcm_format s) (pcm_CurrentSize s)"

definition pcm_SetCyclicMode :: "pcm_source \<Rightarrow> bool \<Rightarrow> pcm_source" where
  "pcm_SetCyclicMode s enable = s\<lparr>cyclic_mode := enable\<rparr>"

definition pcm_FillZeroFront :: "pcm_source \<Rightarrow> time_data \<Rightarrow> (pcm_source \<times> int) option" where
  "pcm_FillZeroFront s time_ms =
     (case pcm_fp s of None \<Rightarrow> Some (s, 0)
      | Some f \<Rightarrow>
          if file_pos f = fix_offset s
          then map_option (\<lambda>v. (s\<lparr>pcm_seek := s32 (pcm_seek s +
                 (0 - int_of_size (AudioMsToByteSize (pcm_format s) time_ms)))\<rparr>, s32 v)) (Value ms_factor time_ms)
          else Some (s, 0))"

text \<open>The pending zeros are stored, over the whole request, before the file is read.\<close>

definition ReadWithSeek :: "pcm_source \<Rightarrow> byte list \<Rightarrow> nat \<Rightarrow> nat \<Rightarrow>
    (pcm_source \<times> byte list \<times> nat \<times> int) option" where
  "ReadWithSeek s data off n =
     (if pcm_seek s < 0 then
        do {
          data \<leftarrow> poke data off (replicate n 0);
          let k = s32 (int_of_size n + pcm_seek s)
          in Some (if 0 < k then (s\<lparr>pcm_seek := 0\<rparr>, data, off + nat (- pcm_seek s), k)
                   else (s\<lparr>pcm_seek := s32 (pcm_seek s + int_of_size n)\<rparr>, data, off, 0))
        }
      else Some (s, data, off, int_of_size n))"

partial_function (option) pcm_read_at ::
    "pcm_source \<Rightarrow> byte list \<Rightarrow> nat \<Rightarrow> nat \<Rightarrow> (pcm_source \<times> byte list \<times> nat) option" where
  "pcm_read_at s data off n =
     (case pcm_fp s of None \<Rightarrow> Some (s, data, 0)
      | Some f \<Rightarrow>
        (let rewound = cyclic_mode s \<and> pcm_CurrentSizeInternal s = 0;
             s = (if rewound then s\<lparr>pcm_fp := Some (fseek_set f (fix_offset s))\<rparr> else s);
             f = (if rewound then fseek_set f (fix_offset s) else f)
         in if pcm_CurrentSizeInternal s = 0 then Some (s, data, 0)
            else Option.bind (ReadWithSeek s data off n) (\<lambda>(s, data, off, k).
              let should_read = size_of_int k; cur_size = pcm_CurrentSizeInternal s;
                  (bs, f) = fread f (if should_read < cur_size then should_read else cur_size);
                  s = s\<lparr>pcm_fp := Some f\<rparr>; size_tmp = uadd (usub n should_read) (length bs)
              in Option.bind (poke data off bs) (\<lambda>data.
                if size_tmp < n
                then Option.bind (pcm_read_at s data (off + size_tmp) (usub n size_tmp))
                       (\<lambda>(s, data, m). Some (s, data, uadd size_tmp m))
                else Some (s, data, size_tmp)))))"

definition pcm_Read :: "pcm_source \<Rightarrow> byte list option \<Rightarrow> nat \<Rightarrow>
    (pcm_source \<times> byte list option \<times> nat) option" where
  "pcm_Read s data_ptr n =
     (case data_ptr of None \<Rightarrow> Some (s, None, 0)
      | Some data \<Rightarrow> map_option (\<lambda>(s, data, k). (s, Some data, k)) (pcm_read_at s data 0 n))"

definition pcm_DiscardDataSizeInByte :: "pcm_source \<Rightarrow> nat \<Rightarrow> pcm_source \<times> int" where
  "pcm_DiscardDataSizeInByte s offset =
     (case pcm_fp s of None \<Rightarrow> (s, - 1)
      | Some f \<Rightarrow>
        (let seek = s32 (pcm_seek s + int_of_size offset)
         in if 0 < seek
            then (s\<lparr>pcm_seek := 0,
                    pcm_fp := Some (fst (fseek_cur f
                      (min (s32 (int (samples_in_bytes s) - int (file_pos f))) seek)))\<rparr>, 0)
            else (s\<lparr>pcm_seek := seek\<rparr>, 0)))"

definition pcm_Seek :: "pcm_source \<Rightarrow> int \<Rightarrow> pcm_source \<times> int" where
  "pcm_Seek s offset =
     (case pcm_fp s of None \<Rightarrow> (s, - 1)
      | Some f \<Rightarrow>
        (case fseek_cur f (if offset < 0 then max offset (- s32 (int (file_pos f))) else offset) of
           (f, r) \<Rightarrow> (s\<lparr>pcm_fp := Some f\<rparr>, r)))"

subsection \<open>WAV files\<close>

definition kCodecToWavFormat :: "(AudioSampleFormat \<times> WavFormat) list" where
  "kCodecToWavFormat = [(kAudioSampleFormatPcmInt16, kWavFormatPcm),
     (kAudioSampleFormatPcmFloat, kWavFormatIeeeFloat)]"

text \<open>
  \<open>ReadableWavImpl\<close>: the source that is read, with the size it had when the reader was made. A read
  goes into a field of the header, a block of the requested size.
\<close>

type_synonym readable_wav = "pcm_source \<times> nat"

definition ReadableWavImpl_new :: "pcm_source \<Rightarrow> readable_wav" where
  "ReadableWavImpl_new s = (s, pcm_CurrentSize s)"

definition wav_Read :: "readable_wav \<Rightarrow> nat \<Rightarrow> (readable_wav \<times> byte list) option" where
  "wav_Read r n =
     map_option (\<lambda>(s, data, k). ((s, snd r), take k data)) (pcm_read_at (fst r) (replicate n 0) 0 n)"

definition wav_SeekForward :: "readable_wav \<Rightarrow> nat \<Rightarrow> readable_wav \<times> bool" where
  "wav_SeekForward r n = (case pcm_Seek (fst r) (s32 (int n)) of (s, ret) \<Rightarrow> ((s, snd r), ret = 0))"

definition wav_GetPosition :: "readable_wav \<Rightarrow> int" where
  "wav_GetPosition r = s64 (int (usub (snd r) (pcm_CurrentSize (fst r))))"

definition ReadableWavImpl :: "readable_wav wav_reader" where
  "ReadableWavImpl = \<lparr>rd_Read = wav_Read, rd_SeekForward = wav_SeekForward, rd_GetPosition = wav_GetPosition\<rparr>"

record AudioFileHeaderInfo =
  header_format :: AudioFormatInfo
  audio_frame_size :: nat

definition ReadHeader :: "pcm_source \<Rightarrow> AudioFileHeaderInfo \<Rightarrow> (pcm_source \<times> AudioFileHeaderInfo) option" where
  "ReadHeader s info =
     map_option (\<lambda>(r, res). (fst r,
       case res of None \<Rightarrow> info
       | Some w \<Rightarrow> info\<lparr>header_format := AudioFormatInfo_new (wav_rate w) (int_of_size (wav_channels w))
               (ArrayFindKey kCodecToWavFormat (wav_format w) kAudioSampleFormatNone),
             audio_frame_size := wav_samples w div wav_channels w\<rparr>))
       (ReadWavHeader ReadableWavImpl (ReadableWavImpl_new s))"

definition AudioPcmFileSource_wav :: "FILE option \<Rightarrow> pcm_source option" where
  "AudioPcmFileSource_wav fp =
     (case fp of None \<Rightarrow> None
      | Some f \<Rightarrow>
        do {
          (s, info) \<leftarrow> ReadHeader
            \<lparr>pcm_format = kNullAudioFormatInfo, pcm_status = SourceError, pcm_seek = 0,
             pcm_fp = Some (fseek_set f 0), samples_in_bytes = length (file_bytes f), fix_offset = 0,
             cyclic_mode = False\<rparr> \<lparr>header_format = kNullAudioFormatInfo, audio_frame_size = 0\<rparr>;
          f \<leftarrow> pcm_fp s;
          Some (s\<lparr>fix_offset := file_pos f, pcm_format := header_format info,
            samples_in_bytes := (if audio_frame_size info = 0 then usub (samples_in_bytes s) (file_pos f)
              else umul (audio_frame_size info) (ByteSizePerFrame (header_format info))),
            pcm_status := kStatic\<rparr>)
        })"

definition WriteHeader :: "AudioFormatInfo \<Rightarrow> nat \<Rightarrow> byte list option" where
  "WriteHeader format_info frames =
     WriteWavHeader (size_of_int (GetChannelsCount format_info)) (GetSampleRateToInt format_info)
       (ArrayFind kCodecToWavFormat (audio_sample_format format_info) kWavFormatPcm) frames"

subsection \<open>FileWriter\<close>

type_synonym file_writer = "FILE option"

definition FileWriter_Write :: "file_writer \<Rightarrow> byte list option \<Rightarrow> file_writer \<times> nat" where
  "FileWriter_Write w data_ptr =
     (case (w, data_ptr) of
        (Some f, Some xs) \<Rightarrow> (case fwrite f xs of (f, k) \<Rightarrow> (Some f, k))
      | _ \<Rightarrow> (w, 0))"

definition MoveFilePtr :: "file_writer \<Rightarrow> int \<Rightarrow> file_writer \<times> int" where
  "MoveFilePtr w offset =
     (case w of None \<Rightarrow> (w, 0)
      | Some f \<Rightarrow>
        if offset = 0 then (w, 0)
        else (case fseek_cur f (if offset < 0 then max offset (- s32 (int (file_pos f))) else offset) of
                (f, r) \<Rightarrow> (Some f, r)))"

definition CurrentPtrOffsetFromStartPos :: "file_writer \<Rightarrow> nat" where
  "CurrentPtrOffsetFromStartPos w = (case w of None \<Rightarrow> 0 | Some f \<Rightarrow> file_pos f)"

text \<open>The second result is the file that was closed.\<close>

definition FileWriter_WriteCompletion :: "file_writer \<Rightarrow> file_writer \<times> FILE option" where
  "FileWriter_WriteCompletion w = (None, w)"

text \<open>
  \<open>FileWriterWithHeader\<close>: \<open>header_writer\<close> is \<open>None\<close> after the completion, where the code destroys the
  \<open>FileWriter\<close>; the file that was closed is the second result of \<open>header_WriteCompletion\<close>.
\<close>

record header_writer =
  file_writer_ptr :: "file_writer option"
  writer_format :: AudioFormatInfo
  fix_header_size :: nat

definition WriteWavHeaderOf :: "file_writer \<Rightarrow> AudioFormatInfo \<Rightarrow> nat \<Rightarrow> file_writer option" where
  "WriteWavHeaderOf w format_info audio_len_bytes =
     (if ByteSizePerSample (audio_sample_format format_info) = 0 then None
      else map_option (\<lambda>hdr. fst (FileWriter_Write w (Some hdr)))
        (WriteHeader format_info (audio_len_bytes div ByteSizePerSample (audio_sample_format format_info))))"

definition FileWriterWithHeader_new :: "file_writer \<Rightarrow> AudioFormatInfo \<Rightarrow> header_writer option" where
  "FileWriterWithHeader_new w format_info =
     map_option (\<lambda>w. \<lparr>file_writer_ptr = Some w, writer_format = format_info,
         fix_header_size = CurrentPtrOffsetFromStartPos w\<rparr>) (WriteWavHeaderOf w format_info 0)"

definition header_Write :: "header_writer \<Rightarrow> byte list option \<Rightarrow> header_writer \<times> nat" where
  "header_Write h data_ptr =
     (case file_writer_ptr h of None \<Rightarrow> (h, 0)
      | Some w \<Rightarrow> (case FileWriter_Write w data_ptr of (w, k) \<Rightarrow> (h\<lparr>file_writer_ptr := Some w\<rparr>, k)))"

definition header_WriteCompletion :: "header_writer \<Rightarrow> (header_writer \<times> FILE option) option" where
  "header_WriteCompletion h =
     (case file_writer_ptr h of None \<Rightarrow> Some (h, None)
      | Some w \<Rightarrow>
        (let cur_size = CurrentPtrOffsetFromStartPos w
         in if cur_size < fix_header_size h then Some (h, None)
            else map_option (\<lambda>w. (h\<lparr>file_writer_ptr := None\<rparr>, snd (FileWriter_WriteCompletion w)))
              (WriteWavHeaderOf (fst (MoveFilePtr w (0 - int_of_size cur_size))) (writer_format h)
                (cur_size - fix_header_size h))))"

subsection \<open>A file as a source\<close>

text \<open>
  A source that does not wrap around, whose samples lie inside the file. What is still to be read
  are the pending zeros and the rest of the samples.
\<close>

definition pcm_ok :: "pcm_source \<Rightarrow> bool" where
  "pcm_ok s \<longleftrightarrow> (case pcm_fp s of None \<Rightarrow> False
     | Some f \<Rightarrow> file_pos f \<le> fix_offset s + samples_in_bytes s \<and>
         fix_offset s + samples_in_bytes s \<le> length (file_bytes f) \<and> length (file_bytes f) < 2 ^ 62) \<and>
     \<not> cyclic_mode s \<and> - (2 ^ 30) < pcm_seek s \<and> pcm_seek s \<le> 0"

definition pcm_left :: "pcm_source \<Rightarrow> byte list" where
  "pcm_left s = (case pcm_fp s of None \<Rightarrow> []
     | Some f \<Rightarrow> mem_read (file_bytes f) (file_pos f) (fix_offset s + samples_in_bytes s - file_pos f))"

definition pcm_stream :: "pcm_source \<Rightarrow> byte list" where
  "pcm_stream s = replicate (nat (- pcm_seek s)) 0 @ pcm_left s"

lemma pcm_okE:
  assumes "pcm_ok s"
  obtains f where "pcm_fp s = Some f" "file_pos f \<le> fix_offset s + samples_in_bytes s"
    "fix_offset s + samples_in_bytes s \<le> length (file_bytes f)" "length (file_bytes f) < 2 ^ 62"
    "\<not> cyclic_mode s" "- (2 ^ 30) < pcm_seek s" "pcm_seek s \<le> 0"
    "pcm_left s = mem_read (file_bytes f) (file_pos f) (fix_offset s + samples_in_bytes s - file_pos f)"
    "length (pcm_left s) = fix_offset s + samples_in_bytes s - file_pos f"
  using assms by (auto simp: pcm_ok_def pcm_left_def mem_read_def split: option.splits)

lemma pcm_size:
  assumes "pcm_ok s"
  shows "pcm_CurrentSizeInternal s = length (pcm_stream s)" "length (pcm_stream s) < 2 ^ 63"
proof -
  obtain f where f: "pcm_fp s = Some f" "file_pos f \<le> fix_offset s + samples_in_bytes s"
    "fix_offset s + samples_in_bytes s \<le> length (file_bytes f)" "length (file_bytes f) < 2 ^ 62"
    "- (2 ^ 30) < pcm_seek s" "pcm_seek s \<le> 0"
    "length (pcm_left s) = fix_offset s + samples_in_bytes s - file_pos f"
    using pcm_okE [OF assms] by metis
  have "int (length (pcm_stream s)) = int (samples_in_bytes s) - int (file_pos f) - pcm_seek s + int (fix_offset s)"
    using f by (simp add: pcm_stream_def of_nat_diff)
  moreover have lt: "int (length (pcm_stream s)) < 2 ^ 63"
    using f by (simp add: pcm_stream_def)
  ultimately show "pcm_CurrentSizeInternal s = length (pcm_stream s)"
    using f(1) by (simp add: pcm_CurrentSizeInternal_def size_of_int_id)
  show "length (pcm_stream s) < 2 ^ 63" using lt by simp
qed

lemma pcm_read_at_step:
  assumes "pcm_fp s = Some f" "pcm_CurrentSizeInternal s \<noteq> 0"
    and "ReadWithSeek s data off n = Some (s1, data1, off1, k)"
    and "fread f (if size_of_int k < pcm_CurrentSizeInternal s1 then size_of_int k else pcm_CurrentSizeInternal s1)
      = (bs, f2)"
    and "off1 + length bs \<le> length data1" and "m = uadd (usub n (size_of_int k)) (length bs)"
  shows "pcm_read_at s data off n =
    (if m < n
     then Option.bind (pcm_read_at (s1\<lparr>pcm_fp := Some f2\<rparr>) (mem_write data1 off1 bs) (off1 + m) (usub n m))
            (\<lambda>(s, data, j). Some (s, data, uadd m j))
     else Some (s1\<lparr>pcm_fp := Some f2\<rparr>, mem_write data1 off1 bs, m))"
  using assms by (subst pcm_read_at.simps) (simp add: Let_def poke_def)

lemma pcm_read_at_empty:
  assumes "pcm_fp s = Some f" "\<not> cyclic_mode s" "pcm_CurrentSizeInternal s = 0"
  shows "pcm_read_at s data off n = Some (s, data, 0)"
  using assms by (subst pcm_read_at.simps) simp

text \<open>Moving the position and taking off pending zeros keeps a source well formed.\<close>

lemma pcm_advance:
  assumes "pcm_ok s" "pcm_fp s = Some f" "pcm_seek s \<le> z" "z \<le> 0" "r \<le> length (pcm_left s)"
  shows "pcm_ok (s\<lparr>pcm_seek := z, pcm_fp := Some (f\<lparr>file_pos := file_pos f + r\<rparr>)\<rparr>)"
    "pcm_left (s\<lparr>pcm_seek := z, pcm_fp := Some (f\<lparr>file_pos := file_pos f + r\<rparr>)\<rparr>) = drop r (pcm_left s)"
  using assms by (auto simp: pcm_ok_def pcm_left_def mem_read_def drop_take add.commute)

text \<open>
  A read of the front of the stream: pending zeros only, and the last of them together with samples.
\<close>

definition pcm_zeros :: "pcm_source \<Rightarrow> nat" where
  "pcm_zeros s = nat (- pcm_seek s)"

lemma ReadWithSeek_front:
  assumes ok: "pcm_ok s" and n: "0 < n" "n < 2 ^ 29" and room: "off + n \<le> length data"
  obtains data1 where "length data1 = length data"
    "mem_read data1 off (min n (pcm_zeros s)) = replicate (min n (pcm_zeros s)) 0"
    "ReadWithSeek s data off n =
       Some (s\<lparr>pcm_seek := min 0 (pcm_seek s + int n)\<rparr>, data1, off + (if pcm_zeros s < n then pcm_zeros s else 0),
         int (n - pcm_zeros s))"
proof -
  define data1 where "data1 = (if 0 < pcm_zeros s then mem_write data off (replicate n 0) else data)"
  have q: "pcm_seek s = - int (pcm_zeros s)" "pcm_zeros s < 2 ^ 30"
    using ok by (auto simp: pcm_zeros_def pcm_ok_def)
  have "length data1 = length data" using room by (simp add: data1_def length_mem_write)
  moreover have "mem_read data1 off (min n (pcm_zeros s)) = replicate (min n (pcm_zeros s)) 0"
    using room by (auto simp: data1_def mem_read_def mem_write_def min_def)
  moreover have "poke data off (replicate n 0) = Some (mem_write data off (replicate n 0))"
    using room by (simp add: poke_def)
  then have "ReadWithSeek s data off n =
       Some (s\<lparr>pcm_seek := min 0 (pcm_seek s + int n)\<rparr>, data1, off + (if pcm_zeros s < n then pcm_zeros s else 0),
         int (n - pcm_zeros s))"
    using q n by (cases "pcm_zeros s = 0")
      (auto simp: ReadWithSeek_def int_of_size_id s32_id data1_def of_nat_diff Let_def)
  ultimately show ?thesis by (rule that)
qed

lemma pcm_read_front:
  assumes ok: "pcm_ok s" and fp: "pcm_fp s = Some f" and n: "0 < n" "n < 2 ^ 29"
    and room: "off + n \<le> length data"
    and z: "z = min 0 (pcm_seek s + int n)" and r: "r = min (n - pcm_zeros s) (length (pcm_left s))"
  obtains data' where
    "pcm_read_at s data off n = Some (s\<lparr>pcm_seek := z, pcm_fp := Some (f\<lparr>file_pos := file_pos f + r\<rparr>)\<rparr>,
       data', min n (length (pcm_stream s)))"
    "length data' = length data"
    "mem_read data' off (min n (length (pcm_stream s))) = take n (pcm_stream s)"
proof -
  obtain g where F: "pcm_fp s = Some g" "\<not> cyclic_mode s" "pcm_seek s \<le> 0"
    "pcm_left s = mem_read (file_bytes g) (file_pos g) (fix_offset s + samples_in_bytes s - file_pos g)"
    "length (pcm_left s) = fix_offset s + samples_in_bytes s - file_pos g"
    by (rule pcm_okE [OF ok])
  note F = F [unfolded option.inject [THEN iffD1, OF trans [OF fp [symmetric] F(1)], symmetric]]
  define q where "q = pcm_zeros s"
  have q: "pcm_seek s = - int q" "pcm_stream s = replicate q 0 @ pcm_left s"
    using F(3) by (simp_all add: q_def pcm_zeros_def pcm_stream_def)
  have zq: "pcm_seek s \<le> z" "z \<le> 0" "n \<le> q \<or> z = 0" using z q by auto
  have le: "r \<le> length (pcm_left s)" using r by simp
  let ?s1 = "s\<lparr>pcm_seek := z\<rparr>" and ?s2 = "s\<lparr>pcm_seek := z, pcm_fp := Some (f\<lparr>file_pos := file_pos f + r\<rparr>)\<rparr>"
  note adv = pcm_advance [OF ok fp zq(1,2) le]
  have same: "s\<lparr>pcm_seek := z, pcm_fp := Some f\<rparr> = ?s1" using fp by simp
  have ok1: "pcm_ok ?s1" and left1: "pcm_left ?s1 = pcm_left s"
    using pcm_advance [OF ok fp zq(1,2), of 0] same by simp_all
  show ?thesis
  proof (cases "pcm_stream s = []")
    case True
    then have "pcm_CurrentSizeInternal s = 0" using pcm_size(1) [OF ok] by simp
    from pcm_read_at_empty [OF fp F(2) this] show ?thesis
      using True q z r fp by (intro that [of data]) simp_all
  next
    case False
    then have c: "pcm_CurrentSizeInternal s \<noteq> 0" using pcm_size(1) [OF ok] by simp
    obtain data1 where d1: "length data1 = length data"
      "mem_read data1 off (min n q) = replicate (min n q) 0"
      and rw: "ReadWithSeek s data off n = Some (?s1, data1, off + (if q < n then q else 0), int (n - q))"
      using ReadWithSeek_front [OF ok n room, folded q_def z] .
    define bs where "bs = take r (pcm_left s)"
    have bs: "length bs = r" using le by (simp add: bs_def)
    have k: "size_of_int (int (n - q)) = n - q" using n by (simp add: size_of_int_id)
    have "pcm_CurrentSizeInternal ?s1 = nat (- z) + length (pcm_left s)"
      using pcm_size(1) [OF ok1] by (simp add: pcm_stream_def left1)
    then have "(if n - q < pcm_CurrentSizeInternal ?s1 then n - q else pcm_CurrentSizeInternal ?s1) = r"
      using zq(3) r by (auto simp: q_def)
    moreover have "mem_read (file_bytes f) (file_pos f) r = bs"
      using F(4) F(5) le by (simp add: bs_def mem_read_def min_def)
    ultimately have fr: "fread f (if size_of_int (int (n - q)) < pcm_CurrentSizeInternal ?s1
        then size_of_int (int (n - q)) else pcm_CurrentSizeInternal ?s1) = (bs, f\<lparr>file_pos := file_pos f + r\<rparr>)"
      unfolding k by (simp add: fread_def bs)
    define m where "m = min n (length (pcm_stream s))"
    have mr: "m = min n q + r"
      using r unfolding m_def q(2) length_append length_replicate q_def [symmetric] by linarith
    have m: "m = uadd (usub n (size_of_int (int (n - q)))) (length bs)"
      unfolding k bs mr using n r by (simp add: usub_id uadd_id q_def [symmetric] min_def)
    have rm: "off + (if q < n then q else 0) + length bs \<le> length data1"
      using room d1 r by (auto simp: bs q_def)
    define data2 where "data2 = mem_write data1 (off + (if q < n then q else 0)) bs"
    have step: "pcm_read_at s data off n = (if m < n
       then Option.bind (pcm_read_at ?s2 data2 (off + (if q < n then q else 0) + m) (usub n m))
          (\<lambda>(s, data, j). Some (s, data, uadd m j))
       else Some (?s2, data2, m))"
      unfolding data2_def using pcm_read_at_step [OF fp c rw fr rm m] by simp
    have "pcm_read_at s data off n = Some (?s2, data2, m)"
    proof (cases "m < n")
      case True
      then have "pcm_stream ?s2 = []" unfolding pcm_stream_def adv(2)
        using zq r by (auto simp: m_def q q_def [symmetric])
      then have "pcm_CurrentSizeInternal ?s2 = 0" using pcm_size(1) [OF adv(1)] by simp
      moreover have "pcm_fp ?s2 = Some (f\<lparr>file_pos := file_pos f + r\<rparr>)" "\<not> cyclic_mode ?s2"
        using F(2) by simp_all
      ultimately have "pcm_read_at ?s2 data2 (off + (if q < n then q else 0) + m) (usub n m) = Some (?s2, data2, 0)"
        by (intro pcm_read_at_empty)
      then show ?thesis using step True n by (simp add: uadd_id)
    qed (simp add: step)
    moreover have "length data2 = length data" using rm d1 by (simp add: data2_def length_mem_write)
    moreover have "mem_read data2 off m = take n (pcm_stream s)"
    proof -
      have "mem_read data2 off (min n q + r) = mem_read data1 off (min n q) @ bs"
      proof (cases "q < n")
        case True
        then show ?thesis
          using rm bs by (simp add: data2_def mem_read_def mem_write_def drop_take)
      next
        case False
        then have "r = 0" using r by (simp add: q_def)
        then show ?thesis by (simp add: data2_def bs_def)
      qed
      then show ?thesis unfolding mr d1(2) using r by (simp add: q bs_def q_def [symmetric] min_def)
    qed
    ultimately show ?thesis using that unfolding m_def by blast
  qed
qed

text \<open>A read into a block of the size of the request.\<close>

definition pcm_read_bytes :: "pcm_source \<Rightarrow> nat \<Rightarrow> (pcm_source \<times> byte list) option" where
  "pcm_read_bytes s n =
     map_option (\<lambda>(s, data, k). (s, take k (the data))) (pcm_Read s (Some (replicate n 0)) n)"

lemma pcm_read_into_block:
  assumes ok: "pcm_ok s" and fp: "pcm_fp s = Some f" and n: "0 < n" "n < 2 ^ 29"
    and "z = min 0 (pcm_seek s + int n)" and "r = min (n - pcm_zeros s) (length (pcm_left s))"
  obtains data' where "pcm_read_at s (replicate n 0) 0 n =
      Some (s\<lparr>pcm_seek := z, pcm_fp := Some (f\<lparr>file_pos := file_pos f + r\<rparr>)\<rparr>, data', min n (length (pcm_stream s)))"
    "take (min n (length (pcm_stream s))) data' = take n (pcm_stream s)"
proof -
  have "0 + n \<le> length (replicate n (0 :: byte))" by simp
  from pcm_read_front [OF ok fp n this assms(5,6)] obtain data' where
    "pcm_read_at s (replicate n 0) 0 n =
      Some (s\<lparr>pcm_seek := z, pcm_fp := Some (f\<lparr>file_pos := file_pos f + r\<rparr>)\<rparr>, data', min n (length (pcm_stream s)))"
    "mem_read data' 0 (min n (length (pcm_stream s))) = take n (pcm_stream s)"
    by metis
  then show ?thesis by (intro that [of data']) (simp_all add: mem_read_def)
qed

interpretation pcm_source: raw_source pcm_ok pcm_stream pcm_read_bytes pcm_CurrentSizeInternal
proof
  fix s :: pcm_source and n :: nat
  assume ok: "pcm_ok s" and n: "0 < n" "n < 2 ^ 29"
  obtain f where fp: "pcm_fp s = Some f" and neg: "pcm_seek s \<le> 0" using pcm_okE [OF ok] by metis
  define z r where "z = min 0 (pcm_seek s + int n)" and "r = min (n - pcm_zeros s) (length (pcm_left s))"
  from pcm_read_into_block [OF ok fp n this] obtain data' where rd: "pcm_read_at s (replicate n 0) 0 n =
      Some (s\<lparr>pcm_seek := z, pcm_fp := Some (f\<lparr>file_pos := file_pos f + r\<rparr>)\<rparr>, data', min n (length (pcm_stream s)))"
    "take (min n (length (pcm_stream s))) data' = take n (pcm_stream s)"
    by metis
  have "pcm_seek s \<le> z" "z \<le> 0" "r \<le> length (pcm_left s)" using neg by (auto simp: z_def r_def)
  note adv = pcm_advance [OF ok fp this]
  have nz: "nat (- z) = nat (- pcm_seek s) - n" using neg by (auto simp: z_def)
  have "pcm_stream (s\<lparr>pcm_seek := z, pcm_fp := Some (f\<lparr>file_pos := file_pos f + r\<rparr>)\<rparr>) = drop n (pcm_stream s)"
    unfolding pcm_stream_def adv(2) by (simp add: nz r_def pcm_zeros_def min_def)
  then show "\<exists>s'. pcm_read_bytes s n = Some (s', take n (pcm_stream s)) \<and> pcm_ok s' \<and>
      pcm_stream s' = drop n (pcm_stream s)"
    using rd adv(1) by (auto simp: pcm_read_bytes_def pcm_Read_def)
next
  fix s assume "pcm_ok s"
  then show "pcm_CurrentSizeInternal s = length (pcm_stream s)" by (rule pcm_size)
qed

lemma new_source_ok:
  assumes "length (file_bytes f) < 2 ^ 62"
  shows "pcm_ok (AudioPcmFileSource_new (Some f) info)"
    "pcm_stream (AudioPcmFileSource_new (Some f) info) = file_bytes f"
  using assms by (simp_all add: AudioPcmFileSource_new_def pcm_ok_def pcm_stream_def pcm_left_def
      fseek_set_def mem_read_def)

lemma fill_front_ok:
  assumes len: "length (file_bytes f) < 2 ^ 62" and ms: "AudioMsToByteSize info ms < 2 ^ 30"
    and fill: "pcm_FillZeroFront (AudioPcmFileSource_new (Some f) info) ms = Some (s, v)"
  shows "pcm_ok s" "pcm_stream s = replicate (AudioMsToByteSize info ms) 0 @ file_bytes f"
proof -
  have "s = AudioPcmFileSource_new (Some f) info\<lparr>pcm_seek := - int (AudioMsToByteSize info ms)\<rparr>"
    using fill ms by (auto simp: pcm_FillZeroFront_def AudioPcmFileSource_new_def fseek_set_def
        int_of_size_id s32_id)
  then show "pcm_ok s" "pcm_stream s = replicate (AudioMsToByteSize info ms) 0 @ file_bytes f"
    using new_source_ok [OF len, of info] ms
    by (simp_all add: AudioPcmFileSource_new_def pcm_ok_def pcm_stream_def pcm_left_def fseek_set_def)
qed

text \<open>
  C29: A source opened on a file of samples, with a silence put in front of it, hands out the zeros of
  the silence and then the bytes of the file, whatever the sizes of the reads: every read returns,
  none skips or repeats a byte, and the size that is left is what was not read yet.
\<close>

theorem file_source_refines_stream:
  assumes "length (file_bytes f) < 2 ^ 62" and "AudioMsToByteSize info ms < 2 ^ 30"
    and "pcm_FillZeroFront (AudioPcmFileSource_new (Some f) info) ms = Some (s, v)"
    and "\<forall>n\<in>set ns. 0 < n \<and> n < 2 ^ 29"
  shows "\<exists>s'. read_all pcm_read_bytes s ns =
      Some (s', take (sum_list ns) (replicate (AudioMsToByteSize info ms) 0 @ file_bytes f)) \<and>
    pcm_CurrentSizeInternal s' = AudioMsToByteSize info ms + length (file_bytes f) - sum_list ns"
proof -
  note S = fill_front_ok [OF assms(1-3)]
  from pcm_source.reads_stream [OF S(1) assms(4)] obtain s' where
    r: "read_all pcm_read_bytes s ns = Some (s', take (sum_list ns) (pcm_stream s))" "pcm_ok s'"
      "pcm_stream s' = drop (sum_list ns) (pcm_stream s)"
    by blast
  then show ?thesis using pcm_size(1) [OF r(2)] S(2) by simp
qed

lemma file_source_refines_stream_witness:
  "\<exists>s v. pcm_FillZeroFront (AudioPcmFileSource_new (Some \<lparr>file_bytes = [1, 2, 3], file_pos = 0\<rparr>) k16kMonoPcm16) 1
      = Some (s, v) \<and>
    (\<exists>s'. read_all pcm_read_bytes s [10, 24] =
      Some (s', take 34 (replicate (AudioMsToByteSize k16kMonoPcm16 1) 0 @ [1, 2, 3])) \<and>
    pcm_CurrentSizeInternal s' = AudioMsToByteSize k16kMonoPcm16 1 + 3 - 34)"
proof -
  let ?f = "\<lparr>file_bytes = [1, 2, 3 :: byte], file_pos = 0\<rparr>"
  have ms: "AudioMsToByteSize k16kMonoPcm16 1 = 32"
    by (simp add: AudioMsToByteSize_def AudioMsToSampleSize_def AudioMsToFrameSize_def GetSampleRateToInt_def
        GetChannelsCount_def format_lookups format_tables k16kMonoPcm16_def size_of_int_def umul_def)
  have "Value ms_factor 1 = Some 1" by (simp add: ms_Value)
  then obtain s v where fill: "pcm_FillZeroFront (AudioPcmFileSource_new (Some ?f) k16kMonoPcm16) 1 = Some (s, v)"
    by (simp add: pcm_FillZeroFront_def AudioPcmFileSource_new_def fseek_set_def)
  have "length (file_bytes ?f) < 2 ^ 62" "AudioMsToByteSize k16kMonoPcm16 1 < 2 ^ 30"
    "\<forall>n\<in>set [10, 24]. 0 < n \<and> n < (2 :: nat) ^ 29"
    using ms by simp_all
  from file_source_refines_stream [OF this(1,2) fill this(3)] fill show ?thesis by auto
qed

subsection \<open>Files that are read in a circle\<close>

definition pcm_circle :: "pcm_source \<Rightarrow> FILE \<Rightarrow> bool" where
  "pcm_circle s f \<longleftrightarrow> pcm_fp s = Some f \<and> cyclic_mode s \<and> pcm_seek s = 0 \<and> 0 < samples_in_bytes s \<and>
     fix_offset s \<le> file_pos f \<and> file_pos f \<le> fix_offset s + samples_in_bytes s \<and>
     fix_offset s + samples_in_bytes s \<le> length (file_bytes f) \<and> length (file_bytes f) < 2 ^ 62"

definition circle_byte :: "pcm_source \<Rightarrow> FILE \<Rightarrow> nat \<Rightarrow> byte" where
  "circle_byte s f k =
     file_bytes f ! (fix_offset s + (file_pos f - fix_offset s + k) mod samples_in_bytes s)"

lemma circle_size:
  assumes "pcm_fp s = Some f" "pcm_seek s = 0" "file_pos f \<le> fix_offset s + samples_in_bytes s"
    "fix_offset s + samples_in_bytes s < 2 ^ 62"
  shows "pcm_CurrentSizeInternal s = fix_offset s + samples_in_bytes s - file_pos f"
  using assms by (simp add: pcm_CurrentSizeInternal_def size_of_int_id of_nat_diff)

lemma circle_step:
  assumes c: "pcm_circle s f" and n: "0 < n" "n < 2 ^ 31" and room: "off + n \<le> length data"
    and p: "p = (if file_pos f = fix_offset s + samples_in_bytes s then fix_offset s else file_pos f)"
    and r: "r = min n (fix_offset s + samples_in_bytes s - p)"
  shows "pcm_read_at s data off n =
    (if r < n
     then Option.bind (pcm_read_at (s\<lparr>pcm_fp := Some (f\<lparr>file_pos := p + r\<rparr>)\<rparr>)
         (mem_write data off (mem_read (file_bytes f) p r)) (off + r) (n - r)) (\<lambda>(s, data, j). Some (s, data, uadd r j))
     else Some (s\<lparr>pcm_fp := Some (f\<lparr>file_pos := p + r\<rparr>)\<rparr>, mem_write data off (mem_read (file_bytes f) p r), r))"
    and "pcm_circle (s\<lparr>pcm_fp := Some (f\<lparr>file_pos := p + r\<rparr>)\<rparr>) (f\<lparr>file_pos := p + r\<rparr>)"
    and "0 < r" and "length (mem_read (file_bytes f) p r) = r"
proof -
  let ?e = "fix_offset s + samples_in_bytes s"
  let ?s = "s\<lparr>pcm_fp := Some (f\<lparr>file_pos := p\<rparr>)\<rparr>"
  have C: "pcm_fp s = Some f" "cyclic_mode s" "pcm_seek s = 0" "0 < samples_in_bytes s"
    "fix_offset s \<le> file_pos f" "file_pos f \<le> ?e" "?e \<le> length (file_bytes f)" "length (file_bytes f) < 2 ^ 62"
    using c by (simp_all add: pcm_circle_def)
  have pb: "fix_offset s \<le> p" "p < ?e" using C p by auto
  have e: "?e < 2 ^ 62" using C by linarith
  have rb: "0 < r" "r \<le> n" "p + r \<le> ?e" using r n pb by auto
  show "0 < r" by (rule rb)
  show bs: "length (mem_read (file_bytes f) p r) = r"
    using rb(3) C(7) by (simp add: mem_read_def)
  show "pcm_circle (s\<lparr>pcm_fp := Some (f\<lparr>file_pos := p + r\<rparr>)\<rparr>) (f\<lparr>file_pos := p + r\<rparr>)"
    using C pb rb by (simp add: pcm_circle_def)
  have size: "pcm_CurrentSizeInternal s = ?e - file_pos f" by (rule circle_size [OF C(1,3,6) e])
  have sp: "pcm_CurrentSizeInternal ?s = ?e - p"
    using circle_size [of ?s "f\<lparr>file_pos := p\<rparr>"] C pb e by simp
  have "(if pcm_CurrentSizeInternal s = 0 then s\<lparr>pcm_fp := Some (fseek_set f (fix_offset s))\<rparr> else s) = ?s"
    "(if pcm_CurrentSizeInternal s = 0 then fseek_set f (fix_offset ?s) else f) = f\<lparr>file_pos := p\<rparr>"
    using size C(1,6) p by (auto simp: fseek_set_def)
  note start = this
  have rw: "ReadWithSeek ?s data off n = Some (?s, data, off, int n)"
    using C(3) n(2) by (simp add: ReadWithSeek_def int_of_size_id)
  have k: "size_of_int (int n) = n" using n(2) by (simp add: size_of_int_id)
  have rk: "(if n < ?e - p then n else ?e - p) = r" using r by simp
  have fr: "fread (f\<lparr>file_pos := p\<rparr>) r = (mem_read (file_bytes f) p r, f\<lparr>file_pos := p + r\<rparr>)"
    using bs by (simp add: fread_def)
  have pk: "poke data off (mem_read (file_bytes f) p r) = Some (mem_write data off (mem_read (file_bytes f) p r))"
    using bs rb(2) room by (simp add: poke_def)
  have m: "uadd (usub n n) (length (mem_read (file_bytes f) p r)) = r"
    using rb(2) n(2) by (simp add: bs uadd_id)
  have u: "r < n \<Longrightarrow> usub n r = n - r" using n(2) by (simp add: usub_id)
  have ne: "(?e - p = 0) = False" and cyc: "\<And>b. (cyclic_mode s \<and> b) = b" using pb C(2) by simp_all
  show "pcm_read_at s data off n =
    (if r < n
     then Option.bind (pcm_read_at (s\<lparr>pcm_fp := Some (f\<lparr>file_pos := p + r\<rparr>)\<rparr>)
         (mem_write data off (mem_read (file_bytes f) p r)) (off + r) (n - r)) (\<lambda>(s, data, j). Some (s, data, uadd r j))
     else Some (s\<lparr>pcm_fp := Some (f\<lparr>file_pos := p + r\<rparr>)\<rparr>, mem_write data off (mem_read (file_bytes f) p r), r))"
    unfolding pcm_read_at.simps [of s data off n] C(1) option.case cyc Let_def start sp ne if_False rw
      bind.bind_lunit prod.case k rk fr pk m
    using u by simp
qed

lemma circle_front:
  assumes c: "pcm_circle s f"
    and p: "p = (if file_pos f = fix_offset s + samples_in_bytes s then fix_offset s else file_pos f)"
    and r: "r \<le> fix_offset s + samples_in_bytes s - p"
  shows "mem_read (file_bytes f) p r = map (circle_byte s f) [0..<r]"
    and "circle_byte (s\<lparr>pcm_fp := Some (f\<lparr>file_pos := p + r\<rparr>)\<rparr>) (f\<lparr>file_pos := p + r\<rparr>) k = circle_byte s f (r + k)"
proof -
  have C: "0 < samples_in_bytes s" "fix_offset s \<le> file_pos f" "file_pos f \<le> fix_offset s + samples_in_bytes s"
    "fix_offset s + samples_in_bytes s \<le> length (file_bytes f)"
    using c by (simp_all add: pcm_circle_def)
  have pb: "fix_offset s \<le> p" "p < fix_offset s + samples_in_bytes s" using C p by auto
  have m: "(file_pos f - fix_offset s + j) mod samples_in_bytes s = (p - fix_offset s + j) mod samples_in_bytes s" for j
    using p by auto
  show "circle_byte (s\<lparr>pcm_fp := Some (f\<lparr>file_pos := p + r\<rparr>)\<rparr>) (f\<lparr>file_pos := p + r\<rparr>) k = circle_byte s f (r + k)"
    using pb unfolding circle_byte_def m by (simp add: add.assoc)
  show "mem_read (file_bytes f) p r = map (circle_byte s f) [0..<r]"
  proof (rule nth_equalityI)
    show "length (mem_read (file_bytes f) p r) = length (map (circle_byte s f) [0..<r])"
      using r pb C by (simp add: mem_read_def)
  next
    fix j assume "j < length (mem_read (file_bytes f) p r)"
    then have j: "j < r" by (simp add: mem_read_def)
    then have "(p - fix_offset s + j) mod samples_in_bytes s = p - fix_offset s + j" using r pb by simp
    then have "circle_byte s f j = file_bytes f ! (p + j)" unfolding circle_byte_def m using pb by simp
    then show "mem_read (file_bytes f) p r ! j = map (circle_byte s f) [0..<r] ! j"
      using j r pb C by (simp add: mem_read_def)
  qed
qed

lemma circle_read:
  assumes "pcm_circle s f" "n < 2 ^ 31" "0 < n" "off + n \<le> length data"
  shows "\<exists>s' f' data'. pcm_read_at s data off n = Some (s', data', n) \<and> pcm_circle s' f' \<and>
    circle_byte s' f' = (\<lambda>k. circle_byte s f (n + k)) \<and> length data' = length data \<and>
    take (off + n) data' = take off data @ map (circle_byte s f) [0..<n]"
  using assms
proof (induction n arbitrary: s f data off rule: less_induct)
  case (less n)
  define p where "p = (if file_pos f = fix_offset s + samples_in_bytes s then fix_offset s else file_pos f)"
  define r where "r = min n (fix_offset s + samples_in_bytes s - p)"
  define bs where "bs = mem_read (file_bytes f) p r"
  let ?f = "f\<lparr>file_pos := p + r\<rparr>" and ?s = "s\<lparr>pcm_fp := Some (f\<lparr>file_pos := p + r\<rparr>)\<rparr>"
  let ?data = "mem_write data off bs"
  note step = circle_step [OF less.prems(1,3,2,4) p_def r_def, folded bs_def]
  have "r \<le> fix_offset s + samples_in_bytes s - p" by (simp add: r_def)
  note front = circle_front [OF less.prems(1) p_def this, folded bs_def]
  have len: "length ?data = length data" and off: "off \<le> length data"
    using less.prems(4) step(4) by (simp_all add: r_def length_mem_write)
  have t: "take (off + r) ?data = take off data @ map (circle_byte s f) [0..<r]"
    using off step(4) front(1) by (simp add: take_mem_write_through)
  show ?case
  proof (cases "r < n")
    case False
    then have "r = n" by (simp add: r_def)
    then show ?thesis using step(1,2) front(2) len t by (intro exI [of _ ?s] exI [of _ ?f] exI [of _ ?data]) auto
  next
    case True
    have "n - r < n" "n - r < 2 ^ 31" "0 < n - r" "off + r + (n - r) \<le> length ?data"
      using True step(3) less.prems(2,4) len by simp_all
    from less.IH [OF this(1) step(2) this(2-4)] obtain s' f' data' where
      R: "pcm_read_at ?s ?data (off + r) (n - r) = Some (s', data', n - r)" "pcm_circle s' f'"
        "circle_byte s' f' = (\<lambda>k. circle_byte ?s ?f (n - r + k))" "length data' = length ?data"
        "take (off + r + (n - r)) data' = take (off + r) ?data @ map (circle_byte ?s ?f) [0..<n - r]"
      by blast
    have "map (circle_byte s f) [0..<r] @ map (circle_byte ?s ?f) [0..<n - r] = map (circle_byte s f) [0..<n]"
    proof -
      have "map (circle_byte ?s ?f) [0..<n - r] = map (circle_byte s f) (map (\<lambda>k. r + k) [0..<n - r])"
        by (simp add: front(2))
      also have "map (\<lambda>k. r + k) [0..<n - r] = [r..<n]"
        using True by (simp add: map_add_upt add.commute)
      finally show ?thesis using True upt_add_eq_append [of 0 r "n - r"] by (simp flip: map_append)
    qed
    then have "take (off + n) data' = take off data @ map (circle_byte s f) [0..<n]"
      using R(5) True t by simp
    moreover have "circle_byte s' f' = (\<lambda>k. circle_byte s f (n + k))" using R(3) front(2) True by simp
    moreover have "pcm_read_at s data off n = Some (s', data', n)"
      using step(1) R(1) True less.prems(2) by (simp add: uadd_id)
    ultimately show ?thesis using R(2,4) len by auto
  qed
qed

lemma circle_reads:
  assumes "pcm_circle s f" and "\<forall>n\<in>set ns. 0 < n \<and> n < 2 ^ 31"
  shows "\<exists>s'. read_all pcm_read_bytes s ns = Some (s', map (circle_byte s f) [0..<sum_list ns])"
  using assms
proof (induction ns arbitrary: s f)
  case Nil
  then show ?case by simp
next
  case (Cons n ns)
  have n: "n < 2 ^ 31" "0 < n" "0 + n \<le> length (replicate n (0 :: byte))" using Cons.prems(2) by simp_all
  from circle_read [OF Cons.prems(1) n] obtain s1 f1 data where
    R: "pcm_read_at s (replicate n 0) 0 n = Some (s1, data, n)" "pcm_circle s1 f1"
      "circle_byte s1 f1 = (\<lambda>k. circle_byte s f (n + k))" "take n data = map (circle_byte s f) [0..<n]"
    by auto
  from Cons.IH [OF R(2)] Cons.prems(2) obtain s2 where
    IH: "read_all pcm_read_bytes s1 ns = Some (s2, map (\<lambda>k. circle_byte s f (n + k)) [0..<sum_list ns])"
    unfolding R(3) by auto
  have "map (\<lambda>k. circle_byte s f (n + k)) [0..<sum_list ns] = map (circle_byte s f) (map (\<lambda>k. k + n) [0..<sum_list ns])"
    by (simp add: add.commute)
  also have "\<dots> = map (circle_byte s f) [n..<n + sum_list ns]" by (simp add: map_add_upt add.commute)
  finally have "map (circle_byte s f) [0..<n] @ map (\<lambda>k. circle_byte s f (n + k)) [0..<sum_list ns] =
      map (circle_byte s f) [0..<n + sum_list ns]"
    using upt_add_eq_append [of 0 n "sum_list ns"] by (simp flip: map_append)
  moreover have "pcm_read_bytes s n = Some (s1, map (circle_byte s f) [0..<n])"
    using R(1,4) by (simp add: pcm_read_bytes_def pcm_Read_def)
  ultimately show ?case using IH by simp
qed



text \<open>
  Silence in front of a file in cyclic mode overruns the caller's block. When a read takes the last
  \<open>q\<close> zeros and all the samples and still misses bytes, the rest is asked for at \<open>q\<close> bytes behind the
  place where it belongs, since the pointer had been advanced over the zeros already; the last byte
  then lies outside a block of exactly the requested size.
\<close>

theorem cyclic_silence_overruns:
  assumes "file_bytes f = [x]" and "file_pos f = 0"
    and "s = \<lparr>pcm_format = info, pcm_status = kStatic, pcm_seek = - int q, pcm_fp = Some f,
              samples_in_bytes = 1, fix_offset = 0, cyclic_mode = True\<rparr>"
    and "0 < q" and "q < 2 ^ 30"
  shows "pcm_Read s (Some (replicate (q + 2) 0)) (q + 2) = None"
proof -
  let ?n = "q + 2" and ?s1 = "s\<lparr>pcm_seek := 0\<rparr>" and ?f1 = "f\<lparr>file_pos := 1\<rparr>"
  let ?s2 = "s\<lparr>pcm_seek := 0, pcm_fp := Some (f\<lparr>file_pos := 1\<rparr>)\<rparr>"
  have size: "pcm_CurrentSizeInternal s = q + 1" "pcm_CurrentSizeInternal ?s1 = 1"
    "pcm_CurrentSizeInternal ?s2 = 0" "pcm_CurrentSizeInternal (?s2\<lparr>pcm_fp := Some (f\<lparr>file_pos := 0\<rparr>)\<rparr>) = 1"
    using assms by (simp_all add: pcm_CurrentSizeInternal_def size_of_int_id nat_add_distrib)
  have rw: "ReadWithSeek s (replicate ?n 0) 0 ?n = Some (?s1, replicate ?n 0, q, 2)"
    using assms by (simp add: ReadWithSeek_def poke_def mem_write_def int_of_size_id s32_id)
  have fr: "fread f (if size_of_int 2 < pcm_CurrentSizeInternal ?s1 then size_of_int 2
      else pcm_CurrentSizeInternal ?s1) = ([x], ?f1)"
    using assms size by (simp add: size_of_int_def fread_def mem_read_def)
  have m: "q + 1 = uadd (usub ?n (size_of_int 2)) (length [x])"
    using assms by (simp add: size_of_int_def uadd_id usub_id)
  have fp: "pcm_fp s = Some f" and c: "pcm_CurrentSizeInternal s \<noteq> 0" using assms size by simp_all
  have "q + length [x] \<le> length (replicate ?n (0 :: byte))" by simp
  from pcm_read_at_step [OF fp c rw fr this m] have
    step: "pcm_read_at s (replicate ?n 0) 0 ?n = Option.bind (pcm_read_at ?s2 (mem_write (replicate ?n 0) q [x])
      (q + (q + 1)) 1) (\<lambda>(s, data, j). Some (s, data, uadd (q + 1) j))"
    using assms by (simp add: usub_id)
  have "pcm_read_at ?s2 (mem_write (replicate ?n 0) q [x]) (q + (q + 1)) 1 = None"
    using assms size by (subst pcm_read_at.simps)
      (simp add: fseek_set_def ReadWithSeek_def int_of_size_id size_of_int_def fread_def mem_read_def
        poke_def length_mem_write)
  then show ?thesis by (simp only: pcm_Read_def option.case step bind.bind_lzero option.map)
qed

lemma cyclic_silence_overruns_witness:
  "pcm_Read \<lparr>pcm_format = k16kMonoPcm16, pcm_status = kStatic, pcm_seek = - 32,
      pcm_fp = Some \<lparr>file_bytes = [7], file_pos = 0\<rparr>, samples_in_bytes = 1, fix_offset = 0, cyclic_mode = True\<rparr>
    (Some (replicate 34 0)) 34 = None"
  using cyclic_silence_overruns [of "\<lparr>file_bytes = [7], file_pos = 0\<rparr>" 7 _ k16kMonoPcm16 32, OF _ _ refl]
  by simp

subsection \<open>Sizes that do not fit the file\<close>

lemma read_at_end_diverges:
  assumes "pcm_read_at s data off n = Some res"
  shows "\<not> (pcm_fp s = Some f \<and> length (file_bytes f) \<le> file_pos f \<and> \<not> cyclic_mode s \<and> pcm_seek s = 0 \<and>
    pcm_CurrentSizeInternal s \<noteq> 0 \<and> 0 < n \<and> n < 2 ^ 31)"
  using assms
proof (induction rule: pcm_read_at.raw_induct [rotated, consumes 1])
  case (1 read s data off n res)
  show ?case
  proof
    assume s: "pcm_fp s = Some f \<and> length (file_bytes f) \<le> file_pos f \<and> \<not> cyclic_mode s \<and> pcm_seek s = 0 \<and>
      pcm_CurrentSizeInternal s \<noteq> 0 \<and> 0 < n \<and> n < 2 ^ 31"
    have f: "fread f k = ([], f)" for k using s by (simp add: fread_def mem_read_def)
    have same: "s\<lparr>pcm_fp := Some f\<rparr> = s" using s by simp
    have u: "usub n 0 = n" using s by (simp add: usub_id)
    have rw: "ReadWithSeek s data off n = Some (s, data, off, int n)"
      using s by (simp add: ReadWithSeek_def int_of_size_id)
    obtain r' where "read s data off n = Some r'"
    proof (cases "off \<le> length data")
      case True
      then show ?thesis using 1(2) s that
        by (auto simp: rw f same u Let_def poke_def size_of_int_id uadd_id bind_Some_iff split: if_splits)
    next
      case False
      then show ?thesis using 1(2) s by (simp add: rw f Let_def poke_def)
    qed
    from 1(1) [OF this] s show False by simp
  qed
qed

text \<open>
  A source whose sample size goes beyond the end of the file, which a WAV header may claim, never
  returns from a read once the file is used up: \<open>fread\<close> gives no bytes, and \<open>Read\<close> calls itself with
  the same request.
\<close>

theorem truncated_file_read_never_returns:
  assumes "pcm_fp s = Some f" and "length (file_bytes f) \<le> file_pos f" and "\<not> cyclic_mode s"
    and "pcm_seek s = 0" and "file_pos f < fix_offset s + samples_in_bytes s"
    and "fix_offset s + samples_in_bytes s < 2 ^ 62" and "0 < n" and "n < 2 ^ 31"
  shows "pcm_Read s (Some data) n = None"
proof (rule ccontr)
  assume "pcm_Read s (Some data) n \<noteq> None"
  then obtain res where "pcm_read_at s data 0 n = Some res" by (auto simp: pcm_Read_def)
  moreover have "pcm_CurrentSizeInternal s \<noteq> 0" using circle_size [OF assms(1,4) _ assms(6)] assms(5) by simp
  ultimately show False using read_at_end_diverges assms by blast
qed

lemma truncated_file_read_never_returns_witness:
  "pcm_Read \<lparr>pcm_format = k16kMonoPcm16, pcm_status = kStatic, pcm_seek = 0,
      pcm_fp = Some \<lparr>file_bytes = replicate 44 0, file_pos = 44\<rparr>, samples_in_bytes = 2, fix_offset = 44,
      cyclic_mode = False\<rparr> (Some [0, 0]) 2 = None"
  by (rule truncated_file_read_never_returns [where f = "\<lparr>file_bytes = replicate 44 0, file_pos = 44\<rparr>"]) simp_all

text \<open>
  Discarding bytes moves the position forward by the request, or up to the size of the samples:
  the bound leaves out the offset of the samples in the file. In a file with a header, a source
  that has read to within a header's length of its end is moved backwards and plays that part again.
\<close>

theorem discard_ignores_header:
  assumes "pcm_fp s = Some f" and "pcm_seek s = 0" and "0 < k" and "k < 2 ^ 30"
    and "file_pos f < 2 ^ 30" and "samples_in_bytes s < 2 ^ 30"
  shows "pcm_DiscardDataSizeInByte s k =
    (s\<lparr>pcm_fp := Some (f\<lparr>file_pos := min (samples_in_bytes s) (file_pos f + k)\<rparr>)\<rparr>, 0)"
proof -
  have "s32 (pcm_seek s + int_of_size k) = int k" using assms by (simp add: int_of_size_id s32_nonneg)
  moreover have "s32 (int (samples_in_bytes s) - int (file_pos f)) = int (samples_in_bytes s) - int (file_pos f)"
    using assms by (simp add: s32_id)
  moreover have "nat (int (file_pos f) + min (int (samples_in_bytes s) - int (file_pos f)) (int k)) =
      min (samples_in_bytes s) (file_pos f + k)"
    "\<not> int (file_pos f) + min (int (samples_in_bytes s) - int (file_pos f)) (int k) < 0"
    by linarith+
  ultimately show ?thesis using assms by (simp add: pcm_DiscardDataSizeInByte_def fseek_cur_def)
qed

lemma discard_ignores_header_witness:
  "pcm_DiscardDataSizeInByte \<lparr>pcm_format = k16kMonoPcm16, pcm_status = kStatic, pcm_seek = 0,
      pcm_fp = Some \<lparr>file_bytes = replicate 50 0, file_pos = 48\<rparr>, samples_in_bytes = 6, fix_offset = 44,
      cyclic_mode = False\<rparr> 2 =
    (\<lparr>pcm_format = k16kMonoPcm16, pcm_status = kStatic, pcm_seek = 0,
      pcm_fp = Some \<lparr>file_bytes = replicate 50 0, file_pos = 6\<rparr>, samples_in_bytes = 6, fix_offset = 44,
      cyclic_mode = False\<rparr>, 0)"
  by (subst discard_ignores_header [where f = "\<lparr>file_bytes = replicate 50 0, file_pos = 48\<rparr>"]) simp_all

end
