(* ===== verification/WavFile.thy ===== *)
theory WavFile
  imports AudioFile
begin

text \<open>
  \<open>src/src/core/audio/file/wav_file_header.cc\<close> and the constructor of \<open>file_io.cc\<close> that reads it:
  a WAV file written by \<open>FileWriterWithHeader\<close> and opened by \<open>AudioPcmFileSource\<close>.
\<close>

subsection \<open>A WAV file as the source of its header\<close>

definition wav_src :: "byte list \<Rightarrow> nat \<Rightarrow> pcm_source" where
  "wav_src bytes pos =
     \<lparr>pcm_format = kNullAudioFormatInfo, pcm_status = SourceError, pcm_seek = 0,
      pcm_fp = Some \<lparr>file_bytes = bytes, file_pos = pos\<rparr>, samples_in_bytes = length bytes, fix_offset = 0,
      cyclic_mode = False\<rparr>"

definition wav_ok :: "byte list \<Rightarrow> readable_wav \<Rightarrow> bool" where
  "wav_ok bytes r \<longleftrightarrow> length bytes < 2 ^ 31 \<and> (\<exists>pos\<le>length bytes. r = (wav_src bytes pos, length bytes))"

definition wav_offset :: "readable_wav \<Rightarrow> nat" where
  "wav_offset r = (case pcm_fp (fst r) of None \<Rightarrow> 0 | Some f \<Rightarrow> file_pos f)"

lemma wav_src_facts:
  assumes "pos \<le> length bytes" "length bytes < 2 ^ 31"
  shows "pcm_ok (wav_src bytes pos)" "pcm_left (wav_src bytes pos) = drop pos bytes"
    "pcm_stream (wav_src bytes pos) = drop pos bytes"
    "pcm_fp (wav_src bytes pos) = Some \<lparr>file_bytes = bytes, file_pos = pos\<rparr>"
  using assms by (simp_all add: wav_src_def pcm_ok_def pcm_left_def pcm_stream_def mem_read_def)

lemma wav_read:
  assumes p: "pos \<le> length bytes" "length bytes < 2 ^ 31" and n: "0 < n" "n < 2 ^ 29"
  shows "wav_Read (wav_src bytes pos, k) n =
    Some ((wav_src bytes (pos + min n (length bytes - pos)), k), take n (drop pos bytes))"
proof -
  note W = wav_src_facts [OF p]
  have z: "0 = min 0 (pcm_seek (wav_src bytes pos) + int n)" by (simp add: wav_src_def)
  have r: "min n (length bytes - pos) = min (n - pcm_zeros (wav_src bytes pos)) (length (pcm_left (wav_src bytes pos)))"
    by (simp add: pcm_zeros_def W(2)) (simp add: wav_src_def)
  from pcm_read_into_block [OF W(1,4) n z r] obtain data' where
    "pcm_read_at (wav_src bytes pos) (replicate n 0) 0 n =
      Some (wav_src bytes (pos + min n (length bytes - pos)), data', min n (length bytes - pos))"
    "take (min n (length bytes - pos)) data' = take n (drop pos bytes)"
    unfolding W(3) by (auto simp: wav_src_def)
  then show ?thesis by (simp add: wav_Read_def)
qed

interpretation wav_file: wav_source ReadableWavImpl "wav_ok bytes" "\<lambda>r. pcm_left (fst r)" wav_offset
  for bytes
proof
  fix r :: readable_wav and n :: nat
  assume r: "wav_ok bytes r" and n: "0 < n" "n \<le> length (pcm_left (fst r))" "n < 2 ^ 29"
  then obtain pos where p: "pos \<le> length bytes" "length bytes < 2 ^ 31" "r = (wav_src bytes pos, length bytes)"
    unfolding wav_ok_def by blast
  note W = wav_src_facts [OF p(1,2)]
  have le: "pos + n \<le> length bytes" using n(2) p(1) by (simp add: p(3) W)
  then have "min n (length bytes - pos) = n" by simp
  with wav_read [OF p(1,2) n(1,3), of "length bytes"] wav_src_facts [OF le p(2)] le p
  show "\<exists>r'. rd_Read ReadableWavImpl r n = Some (r', take n (pcm_left (fst r))) \<and> wav_ok bytes r' \<and>
      pcm_left (fst r') = drop n (pcm_left (fst r)) \<and> wav_offset r' = wav_offset r + n"
    by (auto simp: ReadableWavImpl_def wav_ok_def wav_offset_def W add.commute)
next
  fix r :: readable_wav and n :: nat
  assume r: "wav_ok bytes r" and n: "n \<le> length (pcm_left (fst r))" "n < 2 ^ 31"
  then obtain pos where p: "pos \<le> length bytes" "length bytes < 2 ^ 31" "r = (wav_src bytes pos, length bytes)"
    unfolding wav_ok_def by blast
  note W = wav_src_facts [OF p(1,2)]
  have le: "pos + n \<le> length bytes" using n(1) p(1) by (simp add: p(3) W)
  have "wav_SeekForward r n = ((wav_src bytes (pos + n), length bytes), True)"
    using n(2) by (simp add: wav_SeekForward_def pcm_Seek_def W(4) p(3) s32_nonneg fseek_cur_def nat_add_distrib)
      (simp add: wav_src_def)
  with wav_src_facts [OF le p(2)] le p
  show "\<exists>r'. rd_SeekForward ReadableWavImpl r n = (r', True) \<and> wav_ok bytes r' \<and>
      pcm_left (fst r') = drop n (pcm_left (fst r)) \<and> wav_offset r' = wav_offset r + n"
    by (auto simp: ReadableWavImpl_def wav_ok_def wav_offset_def W add.commute)
next
  fix r :: readable_wav
  assume "wav_ok bytes r"
  then obtain pos where p: "pos \<le> length bytes" "length bytes < 2 ^ 31" "r = (wav_src bytes pos, length bytes)"
    unfolding wav_ok_def by blast
  note W = wav_src_facts [OF p(1,2)]
  have "pcm_CurrentSize (wav_src bytes pos) = length bytes - pos"
    using pcm_size(1) [OF W(1)] by (simp add: pcm_CurrentSize_def W(3)) (simp add: wav_src_def)
  then show "rd_GetPosition ReadableWavImpl r = int (wav_offset r)"
    using p by (simp add: ReadableWavImpl_def wav_GetPosition_def wav_offset_def W(4) usub_id s64_nonneg)
qed

subsection \<open>Writing and reading back\<close>

definition wav_writable :: "AudioFormatInfo \<Rightarrow> bool" where
  "wav_writable info \<longleftrightarrow> sample_rate_hz info \<noteq> RateNull \<and> channel_layout info \<noteq> LayoutNull \<and>
     audio_sample_format info \<in> {kAudioSampleFormatPcmInt16, kAudioSampleFormatPcmFloat}"

lemma wav_writable_fields:
  assumes "wav_writable info"
  shows "size_of_int (GetChannelsCount info) \<in> {1, 2}" "GetSampleRateToInt info \<in> {8000, 16000, 32000, 44100, 48000}"
    "ArrayFind kCodecToWavFormat (audio_sample_format info) kWavFormatPcm \<in> {kWavFormatPcm, kWavFormatIeeeFloat}"
    "ByteSizePerSample (audio_sample_format info) =
      GetFormatBytesPerSample (ArrayFind kCodecToWavFormat (audio_sample_format info) kWavFormatPcm)"
    "ByteSizePerFrame info = size_of_int (GetChannelsCount info) * ByteSizePerSample (audio_sample_format info)"
    "AudioFormatInfo_new (GetSampleRateToInt info) (int_of_size (size_of_int (GetChannelsCount info)))
      (ArrayFindKey kCodecToWavFormat (ArrayFind kCodecToWavFormat (audio_sample_format info) kWavFormatPcm)
        kAudioSampleFormatNone) = info"
  using assms
  by (cases "sample_rate_hz info"; cases "channel_layout info"; cases "audio_sample_format info";
      simp add: wav_writable_def GetChannelsCount_def GetSampleRateToInt_def format_lookups format_tables
        kCodecToWavFormat_def ByteSizePerFrame_def umul_def size_of_int_def int_of_size_def s32_def
        AudioFormatInfo_new_def)+

lemma CheckWavParameters_ok:
  assumes "0 < ch" "ch \<le> 2" "0 < rate" "rate \<le> 48000" "n mod ch = 0"
    and "format = kWavFormatPcm \<or> format = kWavFormatIeeeFloat"
    and "GetFormatBytesPerSample format * n < 2 ^ 31"
  shows "CheckWavParameters ch rate format (GetFormatBytesPerSample format) n"
proof -
  let ?bps = "GetFormatBytesPerSample format"
  have b: "?bps \<in> {2, 4}" using assms(6) by auto
  have "size_of_int rate * ch * ?bps \<le> 48000 * 2 * 4"
    using assms b by (intro mult_le_mono) (auto simp: size_of_int_id)
  then have r: "umul (umul (size_of_int rate) ch) ?bps \<le> 384000"
    by (simp add: umul_def mod_mult_left_eq)
  have n: "n \<le> (2 ^ 32 - 1 - (kPcmWavHeaderSize - sizeof_ChunkHeader)) div ?bps"
    using b assms(7) by (auto simp: less_eq_div_iff_mult_less_eq wav_sizes)
  have s: "size_of_int rate \<le> 48000" "umul ?bps 8 \<le> 32" using assms b by (auto simp: size_of_int_id umul_def)
  have e: "(ch = 0 \<or> rate \<le> 0 \<or> ?bps = 0) = False" "(2 ^ 32 - 1 < size_of_int rate) = False"
    "(2 ^ 16 - 1 < ch) = False" "(2 ^ 16 - 1 < umul ?bps 8) = False"
    "(2 ^ 32 - 1 < umul (umul (size_of_int rate) ch) ?bps) = False"
    "((2 ^ 32 - 1 - (kPcmWavHeaderSize - sizeof_ChunkHeader)) div ?bps < n) = False"
    using assms r n s b by auto
  show ?thesis unfolding CheckWavParameters_def e if_False using assms(5,6) by auto
qed

lemma wav_header_written:
  assumes w: "wav_writable info" and n: "ByteSizePerFrame info dvd n" "n < 2 ^ 31"
  obtains hdr where "WriteHeader info (n div ByteSizePerSample (audio_sample_format info)) = Some hdr"
proof -
  note F = wav_writable_fields [OF w]
  let ?ch = "size_of_int (GetChannelsCount info)" and ?fmt = "ArrayFind kCodecToWavFormat (audio_sample_format info) kWavFormatPcm"
  let ?bps = "GetFormatBytesPerSample ?fmt"
  have b: "?bps \<in> {2, 4}" and fmt: "?fmt = kWavFormatPcm \<or> ?fmt = kWavFormatIeeeFloat" using F(3) by auto
  obtain k where k: "n = ?ch * ?bps * k" using n(1) unfolding F(5) F(4) by (rule dvdE)
  have s: "n div ?bps = ?ch * k" using b unfolding k by auto
  have "0 < ?ch" "?ch \<le> 2" "0 < GetSampleRateToInt info" "GetSampleRateToInt info \<le> 48000" "?ch * k mod ?ch = 0"
    using F(1,2) by auto
  moreover have "?bps * (?ch * k) < 2 ^ 31" using n(2) k by (simp only: ac_simps)
  ultimately have "CheckWavParameters ?ch (GetSampleRateToInt info) ?fmt ?bps (?ch * k)"
    using fmt by (intro CheckWavParameters_ok)
  then have "\<exists>hdr. WriteHeader info (n div ByteSizePerSample (audio_sample_format info)) = Some hdr"
    using F(3) unfolding WriteHeader_def F(4) s by (auto simp: WriteWavHeader_def Let_def)
  then show ?thesis using that by blast
qed

lemma wav_opened:
  assumes w: "wav_writable info" and n: "ByteSizePerFrame info dvd length xs"
    and hdr: "WriteHeader info (length xs div ByteSizePerSample (audio_sample_format info)) = Some hdr"
    and small: "length (hdr @ xs) < 2 ^ 31"
  obtains s where "AudioPcmFileSource_wav (Some \<lparr>file_bytes = hdr @ xs, file_pos = p\<rparr>) = Some s"
    "pcm_ok s" "pcm_stream s = xs" "pcm_format s = info" "pcm_status s = kStatic"
proof -
  note F = wav_writable_fields [OF w]
  let ?ch = "size_of_int (GetChannelsCount info)" and ?bps = "ByteSizePerSample (audio_sample_format info)"
  let ?fmt = "ArrayFind kCodecToWavFormat (audio_sample_format info) kWavFormatPcm" and ?bytes = "hdr @ xs"
  note W0 = wav_src_facts [OF le0 small]
  have new: "ReadableWavImpl_new (wav_src ?bytes 0) = (wav_src ?bytes 0, length ?bytes)"
    using pcm_size(1) [OF W0(1)] W0(3)
    by (simp add: ReadableWavImpl_new_def pcm_CurrentSize_def) (simp add: wav_src_def)
  have ok: "wav_ok ?bytes (wav_src ?bytes 0, length ?bytes)" using small by (auto simp: wav_ok_def)
  have left: "pcm_left (fst (wav_src ?bytes 0, length ?bytes)) = hdr @ xs" using W0(2) by simp
  have rate: "GetSampleRateToInt info < 2 ^ 31" using F(2) by auto
  obtain r' d where r: "ReadWavHeader ReadableWavImpl (wav_src ?bytes 0, length ?bytes) =
      Some (r', Some (written_info ?ch (GetSampleRateToInt info) ?fmt (length xs div ?bps) d))"
    "wav_ok ?bytes r'" "wav_offset r' = wav_offset (wav_src ?bytes 0, length ?bytes) + length hdr"
    by (rule wav_file.read_written_header [OF ok left hdr [unfolded WriteHeader_def] rate]) blast
  then have r': "r' = (wav_src ?bytes (length hdr), length ?bytes)"
    by (auto simp: wav_ok_def wav_offset_def wav_src_def)
  define fs where "fs = length xs div ?bps div ?ch"
  have read: "ReadHeader (wav_src ?bytes 0) \<lparr>header_format = kNullAudioFormatInfo, audio_frame_size = 0\<rparr> =
      Some (wav_src ?bytes (length hdr), \<lparr>header_format = info, audio_frame_size = fs\<rparr>)"
    unfolding ReadHeader_def new r(1) r' option.map prod.case option.case written_info_def wav_info.simps
      F(6) fs_def [symmetric]
    by simp
  have fs: "umul fs (ByteSizePerFrame info) = length xs" "fs = 0 \<Longrightarrow> xs = []"
    using n F(1,4) F(3) small by (auto simp: fs_def F(5) umul_id elim!: dvdE)
  define s where "s = wav_src ?bytes (length hdr)\<lparr>fix_offset := length hdr, pcm_format := info,
    samples_in_bytes := length xs, pcm_status := kStatic\<rparr>"
  have "AudioPcmFileSource_wav (Some \<lparr>file_bytes = hdr @ xs, file_pos = p\<rparr>) = Some s"
    using read fs small
    by (auto simp: AudioPcmFileSource_wav_def wav_src_def fseek_set_def s_def usub_id)
  moreover have "pcm_ok s" "pcm_stream s = xs" "pcm_format s = info" "pcm_status s = kStatic"
    using small by (simp_all add: s_def wav_src_def pcm_ok_def pcm_stream_def pcm_left_def mem_read_def)
  ultimately show ?thesis by (rule that)
qed

text \<open>The state of a writer after its header and some blocks of samples.\<close>

definition header_at :: "AudioFormatInfo \<Rightarrow> byte list \<Rightarrow> byte list \<Rightarrow> header_writer" where
  "header_at info hdr xs =
     \<lparr>file_writer_ptr = Some (Some \<lparr>file_bytes = hdr @ xs, file_pos = length hdr + length xs\<rparr>),
      writer_format = info, fix_header_size = length hdr\<rparr>"

definition header_writes :: "byte list list \<Rightarrow> header_writer \<Rightarrow> header_writer" where
  "header_writes blocks h = fold (\<lambda>xs h. fst (header_Write h (Some xs))) blocks h"

lemma header_writes_at: "header_writes blocks (header_at info hdr xs) = header_at info hdr (xs @ concat blocks)"
proof (induction blocks arbitrary: xs)
  case Nil
  then show ?case by (simp add: header_writes_def)
next
  case (Cons ys blocks)
  have "fst (header_Write (header_at info hdr xs) (Some ys)) = header_at info hdr (xs @ ys)"
    by (simp add: header_Write_def header_at_def FileWriter_Write_def fwrite_def mem_write_def)
  then show ?case using Cons.IH by (simp add: header_writes_def)
qed

lemma header_started:
  assumes "ByteSizePerSample (audio_sample_format info) \<noteq> 0" "WriteHeader info 0 = Some hdr"
  shows "FileWriterWithHeader_new (Some \<lparr>file_bytes = [], file_pos = 0\<rparr>) info = Some (header_at info hdr [])"
  using assms by (simp add: FileWriterWithHeader_new_def WriteWavHeaderOf_def FileWriter_Write_def fwrite_def
      mem_write_def header_at_def CurrentPtrOffsetFromStartPos_def)

lemma header_completed:
  assumes b: "ByteSizePerSample (audio_sample_format info) \<noteq> 0"
    and hdr: "WriteHeader info (length xs div ByteSizePerSample (audio_sample_format info)) = Some hdr"
    and len: "length hdr = length hdr0" and small: "length (hdr0 @ xs) < 2 ^ 31"
  obtains h p where "header_WriteCompletion (header_at info hdr0 xs) =
    Some (h, Some \<lparr>file_bytes = hdr @ xs, file_pos = p\<rparr>)"
proof -
  let ?n = "length hdr0 + length xs"
  have n: "?n < 2 ^ 31" using small by simp
  have mv: "fst (MoveFilePtr (Some \<lparr>file_bytes = hdr0 @ xs, file_pos = ?n\<rparr>) (0 - int_of_size ?n)) =
      Some \<lparr>file_bytes = hdr0 @ xs, file_pos = 0\<rparr>"
    using n by (simp add: MoveFilePtr_def int_of_size_id s32_nonneg fseek_cur_def)
  have w: "fst (FileWriter_Write (Some \<lparr>file_bytes = hdr0 @ xs, file_pos = 0\<rparr>) (Some hdr)) =
      Some \<lparr>file_bytes = hdr @ xs, file_pos = length hdr\<rparr>"
    using len by (simp add: FileWriter_Write_def fwrite_def mem_write_def)
  have "header_WriteCompletion (header_at info hdr0 xs) =
      Some (header_at info hdr0 xs\<lparr>file_writer_ptr := None\<rparr>, Some \<lparr>file_bytes = hdr @ xs, file_pos = length hdr\<rparr>)"
    using b hdr mv w
    by (simp add: header_WriteCompletion_def FileWriter_WriteCompletion_def header_at_def CurrentPtrOffsetFromStartPos_def WriteWavHeaderOf_def Let_def)
  then show ?thesis by (rule that)
qed

text \<open>
  C28: A WAV file that is written is read back. Whatever the blocks in which whole frames of samples
  were written, the completed file opens as a source of the same sample rate, channels and sample
  format, and the reads of that source hand out the samples, and nothing of the header.
\<close>

theorem wav_file_roundtrip:
  assumes w: "wav_writable info" and d: "ByteSizePerFrame info dvd length (concat blocks)"
    and small: "length (concat blocks) < 2 ^ 31 - 58"
  shows "\<exists>h0 h f s. FileWriterWithHeader_new (Some \<lparr>file_bytes = [], file_pos = 0\<rparr>) info = Some h0 \<and>
    header_WriteCompletion (header_writes blocks h0) = Some (h, Some f) \<and>
    AudioPcmFileSource_wav (Some f) = Some s \<and> pcm_format s = info \<and> pcm_status s = kStatic \<and>
    (\<forall>ns. (\<forall>n\<in>set ns. 0 < n \<and> n < 2 ^ 29) \<longrightarrow>
      map_option snd (read_all pcm_read_bytes s ns) = Some (take (sum_list ns) (concat blocks)))"
proof -
  note F = wav_writable_fields [OF w]
  let ?xs = "concat blocks" and ?fmt = "ArrayFind kCodecToWavFormat (audio_sample_format info) kWavFormatPcm"
  have b: "ByteSizePerSample (audio_sample_format info) \<noteq> 0" using F(3,4) by auto
  have rate: "GetSampleRateToInt info < 2 ^ 31" using F(2) by auto
  have "length ?xs < 2 ^ 31" using small by simp
  then obtain hdr where hdr: "WriteHeader info (length ?xs div ByteSizePerSample (audio_sample_format info)) = Some hdr"
    using wav_header_written [OF w d] by blast
  obtain hdr0 where hdr0: "WriteHeader info 0 = Some hdr0" using wav_header_written [OF w, of 0] by auto
  have len: "length hdr = header_size_of ?fmt" "length hdr0 = header_size_of ?fmt" "header_size_of ?fmt \<le> 58"
    using written_length [OF hdr [unfolded WriteHeader_def] rate]
      written_length [OF hdr0 [unfolded WriteHeader_def] rate] F(3)
    by (auto simp: header_size_of_def wav_sizes)
  have fits: "length (hdr0 @ ?xs) < 2 ^ 31" "length (hdr @ ?xs) < 2 ^ 31" using len small by simp_all
  have "length hdr = length hdr0" using len by simp
  from header_completed [OF b hdr this fits(1)] obtain h p where
    compl: "header_WriteCompletion (header_at info hdr0 ?xs) = Some (h, Some \<lparr>file_bytes = hdr @ ?xs, file_pos = p\<rparr>)"
    by blast
  obtain s where s: "AudioPcmFileSource_wav (Some \<lparr>file_bytes = hdr @ ?xs, file_pos = p\<rparr>) = Some s"
    "pcm_ok s" "pcm_stream s = ?xs" "pcm_format s = info" "pcm_status s = kStatic"
    by (rule wav_opened [OF w d hdr fits(2)])
  have "map_option snd (read_all pcm_read_bytes s ns) = Some (take (sum_list ns) ?xs)"
    if "\<forall>n\<in>set ns. 0 < n \<and> n < 2 ^ 29" for ns
    using pcm_source.reads_stream [OF s(2) that] s(3) by auto
  then show ?thesis
    using header_started [OF b hdr0] header_writes_at [of blocks info hdr0 "[]"] compl s by auto
qed

lemma wav_file_roundtrip_witness:
  "\<exists>h0 h f s. FileWriterWithHeader_new (Some \<lparr>file_bytes = [], file_pos = 0\<rparr>) k16kStereoPcm16 = Some h0 \<and>
    header_WriteCompletion (header_writes [[1, 2, 3, 4], [5, 6, 7, 8]] h0) = Some (h, Some f) \<and>
    AudioPcmFileSource_wav (Some f) = Some s \<and> pcm_format s = k16kStereoPcm16 \<and> pcm_status s = kStatic \<and>
    (\<forall>ns. (\<forall>n\<in>set ns. 0 < n \<and> n < 2 ^ 29) \<longrightarrow>
      map_option snd (read_all pcm_read_bytes s ns) = Some (take (sum_list ns) (concat [[1, 2, 3, 4], [5, 6, 7, 8]])))"
  by (rule wav_file_roundtrip)
    (simp_all add: wav_writable_def k16kStereoPcm16_def ByteSizePerFrame_def GetChannelsCount_def format_lookups
      format_tables size_of_int_def umul_def dvd_eq_mod_eq_0)

subsection \<open>Chunks that are skipped backwards\<close>

lemma chunk_loop:
  assumes "FindWaveChunk rd r sought = Some res"
  shows "\<not> (rd = ReadableWavImpl \<and> r = (wav_src bytes pos, k) \<and> pos + 8 \<le> length bytes \<and> length bytes < 2 ^ 31 \<and>
    chunk_size (chunk_of_bytes (take 8 (drop pos bytes))) = 2 ^ 32 - 8 \<and>
    ReadFourCC (chunk_id (chunk_of_bytes (take 8 (drop pos bytes)))) \<noteq> sought)"
  using assms
proof (induction rule: FindWaveChunk.raw_induct [rotated, consumes 1])
  case (1 find rd r sought res)
  show ?case
  proof
    assume a: "rd = ReadableWavImpl \<and> r = (wav_src bytes pos, k) \<and> pos + 8 \<le> length bytes \<and> length bytes < 2 ^ 31 \<and>
      chunk_size (chunk_of_bytes (take 8 (drop pos bytes))) = 2 ^ 32 - 8 \<and>
      ReadFourCC (chunk_id (chunk_of_bytes (take 8 (drop pos bytes)))) \<noteq> sought"
    then have p: "pos \<le> length bytes" "length bytes < 2 ^ 31" "pos + 8 \<le> length bytes" by simp_all
    have rd: "rd_Read rd r sizeof_ChunkHeader = Some ((wav_src bytes (pos + 8), k), take 8 (drop pos bytes))"
      using wav_read [OF p(1,2), of 8 k] p(3) a by (simp add: ReadableWavImpl_def wav_sizes)
    have "s32 (2 ^ 32 - 8) = - 8" by (simp add: s32_def)
    then have sk: "rd_SeekForward rd (wav_src bytes (pos + 8), k) (2 ^ 32 - 8) = (r, True)"
      using wav_src_facts(4) [OF p(3,2)] p a
      by (simp add: ReadableWavImpl_def wav_SeekForward_def pcm_Seek_def fseek_cur_def s32_nonneg)
        (simp add: wav_src_def)
    have e: "(length (take 8 (drop pos bytes)) \<noteq> sizeof_ChunkHeader) = False"
      "(ReadFourCC (chunk_id (chunk_of_bytes (take 8 (drop pos bytes)))) = sought) = False"
      "chunk_size (chunk_of_bytes (take 8 (drop pos bytes))) = 2 ^ 32 - 8"
      using a p(3) by (simp_all add: wav_sizes)
    have "find rd r sought = Some res"
      using 1(2) unfolding rd bind.bind_lunit prod.case e if_False sk by simp
    from 1(1) [OF this] a show False by blast
  qed
qed

text \<open>
  Opening a WAV file never returns when the file has, where a chunk is looked for, a chunk of another
  kind whose size field is \<open>2 ^ 32 - 8\<close>: the size becomes the \<open>int\<close> -8, the skip goes back over the
  header of the chunk, and the same header is read again.
\<close>

theorem backward_chunk_never_returns:
  assumes "pos + 8 \<le> length bytes" and "length bytes < 2 ^ 31"
    and "chunk_of_bytes (take 8 (drop pos bytes)) = \<lparr>chunk_id = cc, chunk_size = 2 ^ 32 - 8\<rparr>"
    and "ReadFourCC cc \<noteq> sought"
  shows "FindWaveChunk ReadableWavImpl (wav_src bytes pos, k) sought = None"
proof (rule ccontr)
  assume "FindWaveChunk ReadableWavImpl (wav_src bytes pos, k) sought \<noteq> None"
  then obtain res where "FindWaveChunk ReadableWavImpl (wav_src bytes pos, k) sought = Some res" by blast
  from chunk_loop [OF this, of bytes pos k] assms show False by simp
qed

lemma backward_chunk_never_returns_witness:
  "FindWaveChunk ReadableWavImpl (wav_src (chunk_bytes \<lparr>chunk_id = 1179011410, chunk_size = 2 ^ 32 - 8\<rparr>) 0, 8) ''data''
    = None"
proof -
  let ?h = "\<lparr>chunk_id = 1179011410, chunk_size = 2 ^ 32 - 8\<rparr> :: chunk_header"
  have h: "chunk_id ?h < 2 ^ 32" "chunk_size ?h < 2 ^ 32" by simp_all
  note C = chunk_roundtrip [OF h]
  show ?thesis
    by (rule backward_chunk_never_returns [where cc = 1179011410]) (use C in \<open>simp_all\<close>)
qed

end
