(* ===== verification/AudioConverter.thy ===== *)
theory AudioConverter
  imports AudioFrame
begin

text \<open>
  \<open>src/src/core/audio/audio_converter.cc\<close> and \<open>audio_convert_wrapper.cc\<close>: the converter between two
  audio formats. The functions of libswresample are the parameter \<open>swr_api\<close>; \<open>swr_convert\<close> gives the
  bytes that it stores through each of the output pointers, and its result. \<open>None\<close> is a store or a
  move outside of the block, a division by zero, or the use of a null pointer.
\<close>

subsection \<open>The tables\<close>

datatype av_channel_layout = AV_CH_LAYOUT_MONO | AV_CH_LAYOUT_STEREO | AV_CH_LAYOUT_2POINT1
  | AV_CH_LAYOUT_4POINT0 | AV_CH_LAYOUT_5POINT0 | AV_CH_LAYOUT_6POINT0 | AV_CH_LAYOUT_7POINT0
  | AV_CH_LAYOUT_7POINT1

datatype av_sample_format = AV_SAMPLE_FMT_NONE | AV_SAMPLE_FMT_S16 | AV_SAMPLE_FMT_FLT
  | AV_SAMPLE_FMT_S16P | AV_SAMPLE_FMT_FLTP | AV_SAMPLE_FMT_other nat

definition kAudioInputChannelMaxNums :: int where "kAudioInputChannelMaxNums = 8"
definition kAudioOutputChannelMaxNums :: int where "kAudioOutputChannelMaxNums = 2"

definition ffmpeg_channel_layout_map :: "int \<rightharpoonup> av_channel_layout" where
  "ffmpeg_channel_layout_map = map_of
     [(1, AV_CH_LAYOUT_MONO), (2, AV_CH_LAYOUT_STEREO), (3, AV_CH_LAYOUT_2POINT1), (4, AV_CH_LAYOUT_4POINT0),
      (5, AV_CH_LAYOUT_5POINT0), (6, AV_CH_LAYOUT_6POINT0), (7, AV_CH_LAYOUT_7POINT0), (8, AV_CH_LAYOUT_7POINT1)]"

text \<open>The layout -1 of the code is \<open>None\<close>.\<close>

definition GetFFmpegChannelLayout :: "int \<Rightarrow> av_channel_layout option" where
  "GetFFmpegChannelLayout number_of_channels = ffmpeg_channel_layout_map number_of_channels"

definition ffmpeg_sample_fmt_map :: "AudioSampleFormat \<rightharpoonup> av_sample_format" where
  "ffmpeg_sample_fmt_map = map_of
     [(kAudioSampleFormatPcmInt16, AV_SAMPLE_FMT_S16), (kAudioSampleFormatPcmFloat, AV_SAMPLE_FMT_FLT),
      (kAudioSampleFormatPcmFloatPlanar, AV_SAMPLE_FMT_FLTP), (kAudioSampleFormatPcmInt16Planar, AV_SAMPLE_FMT_S16P)]"

definition GetFFmpegSampleFormat :: "AudioSampleFormat \<Rightarrow> av_sample_format" where
  "GetFFmpegSampleFormat sample_format =
     (case ffmpeg_sample_fmt_map sample_format of None \<Rightarrow> AV_SAMPLE_FMT_NONE | Some f \<Rightarrow> f)"

subsection \<open>AudioConverterFFmpeg\<close>

type_synonym swr_opts = "av_channel_layout option \<times> av_sample_format \<times> int"

record 'c swr_api =
  swr_alloc_set_opts :: "swr_opts \<Rightarrow> swr_opts \<Rightarrow> 'c option"
  swr_init :: "'c \<Rightarrow> 'c \<times> int"
  swr_convert :: "'c \<Rightarrow> nat \<Rightarrow> int \<Rightarrow> byte list list \<Rightarrow> int \<Rightarrow> 'c \<times> byte list list \<times> int"

record 'c converter =
  format_in :: AudioFormatInfo
  format_out :: AudioFormatInfo
  swr_ctx :: "'c option"
  swr_inited :: bool
  first_frame_fill_zero :: bool
  first_frame :: bool

definition AudioConverterFFmpeg_new :: "bool \<Rightarrow> 'c converter" where
  "AudioConverterFFmpeg_new fill_zero =
     \<lparr>format_in = kNullAudioFormatInfo, format_out = kNullAudioFormatInfo, swr_ctx = None, swr_inited = False,
      first_frame_fill_zero = fill_zero, first_frame = True\<rparr>"

definition converter_UnInit :: "'c converter \<Rightarrow> 'c converter" where
  "converter_UnInit cv = cv\<lparr>swr_ctx := None, swr_inited := False\<rparr>"

definition swr_opts_of :: "AudioFormatInfo \<Rightarrow> swr_opts" where
  "swr_opts_of info = (GetFFmpegChannelLayout (GetChannelsCount info),
     GetFFmpegSampleFormat (audio_sample_format info), GetSampleRateToInt info)"

definition converter_Init ::
    "'c swr_api \<Rightarrow> 'c converter \<Rightarrow> AudioFormatInfo \<Rightarrow> AudioFormatInfo \<Rightarrow> 'c converter \<times> bool" where
  "converter_Init api cv fmt_in fmt_out =
     (if swr_inited cv then (cv, False)
      else if kAudioInputChannelMaxNums < GetChannelsCount fmt_in then (cv, False)
      else if kAudioOutputChannelMaxNums < GetChannelsCount fmt_out then (cv, False)
      else (case swr_alloc_set_opts api (swr_opts_of fmt_out) (swr_opts_of fmt_in) of
          None \<Rightarrow> (cv\<lparr>swr_ctx := None\<rparr>, False)
        | Some ctx \<Rightarrow>
            (case swr_init api ctx of (ctx, res) \<Rightarrow>
              if res < 0 then (cv\<lparr>swr_ctx := Some ctx\<rparr>, False)
              else (cv\<lparr>swr_ctx := Some ctx, swr_inited := True, first_frame := True\<rparr>, True))))"

definition ReinitIfNeeded ::
    "'c swr_api \<Rightarrow> 'c converter \<Rightarrow> AudioFormatInfo \<Rightarrow> AudioFormatInfo \<Rightarrow> 'c converter \<times> bool" where
  "ReinitIfNeeded api cv fmt_in fmt_out =
     (if format_eq fmt_in (format_in cv) \<and> format_eq fmt_out (format_out cv) \<and> swr_inited cv then (cv, True)
      else (case converter_Init api (converter_UnInit cv) fmt_in fmt_out of
          (cv, ok) \<Rightarrow> if ok then (cv\<lparr>format_in := fmt_in, format_out := fmt_out\<rparr>, True) else (cv, False)))"

text \<open>The pointers of \<open>MutablePlanarData\<close>, as offsets into the block, and what is stored through them.\<close>

definition plane_offsets :: "audio_frame \<Rightarrow> nat list option" where
  "plane_offsets f =
     (if IsPlanner (frame_format f) then
        map_option (\<lambda>one. map (\<lambda>i. i * one) [0..<nat (GetChannelsCount (frame_format f))])
          (div_size (byte_size f) (size_of_int (GetChannelsCount (frame_format f))))
      else Some [0])"

lemma plane_offsets_pointers:
  assumes "frame_block f = Some d"
  shows "MutablePlanarData f = map_option (map (\<lambda>off. drop off d)) (plane_offsets f)"
  using assms by (simp add: MutablePlanarData_def ToPlanarData_def plane_offsets_def option.map_comp comp_def)

fun store_planes :: "byte list \<Rightarrow> nat list \<Rightarrow> byte list list \<Rightarrow> byte list option" where
  "store_planes d (off # offs) (x # xs) = Option.bind (poke d off x) (\<lambda>d. store_planes d offs xs)"
| "store_planes d offs xs = Some d"

definition store_outputs :: "audio_frame \<Rightarrow> nat list \<Rightarrow> byte list list \<Rightarrow> audio_frame option" where
  "store_outputs f offs outs =
     (case frame_block f of None \<Rightarrow> if concat outs = [] then Some f else None
      | Some d \<Rightarrow> map_option (\<lambda>d. f\<lparr>frame_block := Some d\<rparr>) (store_planes d offs outs))"

definition CapacityInFrames :: "audio_frame \<Rightarrow> nat option" where
  "CapacityInFrames f = div_size (capacity_in_byte f) (ByteSizePerFrame (frame_format f))"

text \<open>\<open>memmove\<close> inside a block.\<close>

definition move_bytes :: "byte list \<Rightarrow> nat \<Rightarrow> nat \<Rightarrow> nat \<Rightarrow> byte list option" where
  "move_bytes d to_off from_off n =
     (if from_off + n \<le> length d then poke d to_off (mem_read d from_off n) else None)"

fun shift_planes :: "byte list \<Rightarrow> nat \<Rightarrow> nat \<Rightarrow> nat \<Rightarrow> nat \<Rightarrow> byte list option" where
  "shift_planes d ptr data_len offset 0 = Some d"
| "shift_planes d ptr data_len offset (Suc k) =
     do {
       d \<leftarrow> move_bytes d (ptr + offset) ptr data_len;
       d \<leftarrow> poke d ptr (replicate offset 0);
       shift_planes d (ptr + (data_len + offset)) data_len offset k
     }"

fun pack_planes :: "byte list \<Rightarrow> nat \<Rightarrow> nat \<Rightarrow> nat \<Rightarrow> nat \<Rightarrow> nat \<Rightarrow> byte list option" where
  "pack_planes d ptr src one len 0 = Some d"
| "pack_planes d ptr src one len (Suc k) =
     do {
       d \<leftarrow> move_bytes d (ptr + len) (src + one) len;
       pack_planes d (ptr + len) (src + one) one len k
     }"

definition AdapterFfmpegOutputSamples :: "'c converter \<Rightarrow> nat \<Rightarrow> audio_frame \<Rightarrow> ('c converter \<times> audio_frame) option" where
  "AdapterFfmpegOutputSamples cv out_len f =
     do {
       frames \<leftarrow> FrameSize (byte_size f) (frame_format f);
       f \<leftarrow> (if out_len < frames then
           let len = umul out_len (ByteSizePerFrame (frame_format f));
               ch_count = (if IsPlanner (frame_format f) then size_of_int (GetChannelsCount (frame_format f)) else 1)
           in do {
             d \<leftarrow> frame_block f;
             if first_frame cv \<and> first_frame_fill_zero cv then
               map_option (\<lambda>d. f\<lparr>frame_block := Some d\<rparr>)
                 (shift_planes d 0 (len div ch_count) (usub (byte_size f) len div ch_count) ch_count)
             else
               map_option (\<lambda>d. ResetReadableSizeInByte (f\<lparr>frame_block := Some d\<rparr>) len)
                 (pack_planes d 0 0 (byte_size f div ch_count) (len div ch_count) (ch_count - 1))
           }
         else Some f);
       Some (cv\<lparr>first_frame := False\<rparr>, f)
     }"

definition Convert ::
    "'c swr_api \<Rightarrow> 'c converter \<Rightarrow> frame_view \<Rightarrow> audio_frame \<Rightarrow> ('c converter \<times> audio_frame \<times> int) option" where
  "Convert api cv src dst =
     do {
       frames \<leftarrow> FrameSize (view_size src) (view_format src);
       if frames = 0 then Some (cv, dst, 0)
       else if format_eq (view_format src) (frame_format dst) then
         map_option (\<lambda>(dst, k). (cv, dst, 0)) (CopyFrom dst (view_data src) (view_size src))
       else
         let cv = fst (ReinitIfNeeded api cv (view_format src) (frame_format dst)) in do {
           wanted \<leftarrow> FormatConvertByteSize (view_size src) (view_format src) (frame_format dst);
           let dst = ResetReadableSizeInByte dst wanted in do {
             offs \<leftarrow> plane_offsets dst;
             capacity \<leftarrow> CapacityInFrames dst;
             ins \<leftarrow> PlanarData src;
             ctx \<leftarrow> swr_ctx cv;
             case swr_convert api ctx (length offs) (int_of_size capacity) ins (int_of_size frames) of
               (ctx, outs, res) \<Rightarrow> do {
                 dst \<leftarrow> store_outputs dst offs outs;
                 let cv = cv\<lparr>swr_ctx := Some ctx\<rparr> in
                 if res < 0 then Some (cv, ResetReadableSizeInByte dst 0, - 1)
                 else map_option (\<lambda>(cv, dst). (cv, dst, 0)) (AdapterFfmpegOutputSamples cv (nat res) dst)
               }
           }
         }
     }"

text \<open>The view that is returned is the source itself, or the destination.\<close>

definition ConvertNoCopy :: "'c swr_api \<Rightarrow> 'c converter \<Rightarrow> frame_view \<Rightarrow> audio_frame \<Rightarrow>
    ('c converter \<times> audio_frame \<times> frame_view) option" where
  "ConvertNoCopy api cv src dst =
     do {
       frames \<leftarrow> FrameSize (view_size src) (view_format src);
       if frames = 0 then map_option (\<lambda>v. (cv, dst, v)) (as_view dst)
       else if format_eq (view_format src) (frame_format dst) then Some (cv, dst, src)
       else do {
         (cv, dst, res) \<leftarrow> Convert api cv src dst;
         map_option (\<lambda>v. (cv, dst, v)) (as_view dst)
       }
     }"

subsection \<open>AudioConvertWrapper\<close>

record 'c convert_wrapper =
  wrapper_frame :: audio_frame
  wrapper_converter :: "'c converter"

definition AudioConvertWrapper_new :: "AudioFormatInfo \<Rightarrow> 'c convert_wrapper" where
  "AudioConvertWrapper_new dst =
     \<lparr>wrapper_frame = AudioFrameLiteDelegate_format dst, wrapper_converter = AudioConverterFFmpeg_new False\<rparr>"

text \<open>\<open>fresh n\<close> are the contents of a new block of \<open>n\<close> bytes.\<close>

definition wrapper_need :: "AudioFormatInfo \<Rightarrow> nat \<Rightarrow> AudioFormatInfo \<Rightarrow> nat option" where
  "wrapper_need dst n src =
     div_size (umul (usub (uadd n (ByteSizePerFrame src)) 1) (ByteSizePerFrame dst)) (ByteSizePerFrame src)"

definition wrapper_Convert_view :: "'c swr_api \<Rightarrow> (nat \<Rightarrow> byte list) \<Rightarrow> 'c convert_wrapper \<Rightarrow> frame_view \<Rightarrow>
    ('c convert_wrapper \<times> int) option" where
  "wrapper_Convert_view api fresh w src =
     do {
       need_capacity \<leftarrow> wrapper_need (frame_format (wrapper_frame w)) (view_size src) (view_format src);
       (cv, f, res) \<leftarrow> Convert api (wrapper_converter w) src
         (ExpandCapacityIfNeed (wrapper_frame w) need_capacity (fresh need_capacity));
       Some (w\<lparr>wrapper_frame := f, wrapper_converter := cv\<rparr>, res)
     }"

definition wrapper_Convert :: "'c swr_api \<Rightarrow> (nat \<Rightarrow> byte list) \<Rightarrow> 'c convert_wrapper \<Rightarrow> AudioFormatInfo \<Rightarrow>
    byte list \<Rightarrow> nat \<Rightarrow> ('c convert_wrapper \<times> int) option" where
  "wrapper_Convert api fresh w src data n =
     wrapper_Convert_view api fresh w \<lparr>view_data = data, view_size = n, view_format = src\<rparr>"

subsection \<open>The planes of a converted frame\<close>

definition plane_count :: "AudioFormatInfo \<Rightarrow> nat" where
  "plane_count info = (if IsPlanner info then size_of_int (GetChannelsCount info) else 1)"

lemma plane_counts:
  assumes "ValidPcmCheck info"
  shows "plane_count info = 1 \<or> plane_count info = 2" "\<exists>w>0. ByteSizePerFrame info = plane_count info * w"
proof -
  have c: "size_of_int (GetChannelsCount info) \<in> {1, 2}" and s: "0 < ByteSizePerSample (audio_sample_format info)"
    using valid_channels [OF assms] valid_sample_size [OF assms] by auto
  show "plane_count info = 1 \<or> plane_count info = 2" using c by (simp add: plane_count_def)
  show "\<exists>w>0. ByteSizePerFrame info = plane_count info * w"
  proof (cases "IsPlanner info")
    case True
    then have "ByteSizePerFrame info = plane_count info * ByteSizePerSample (audio_sample_format info)"
      using valid_frame_size(2) [OF assms] by (simp add: plane_count_def)
    then show ?thesis using s by blast
  next
    case False
    moreover have "0 < ByteSizePerFrame info" using valid_frame_size(1) [OF assms] by auto
    ultimately show ?thesis by (auto simp: plane_count_def)
  qed
qed

definition lead_zeros :: "'c converter \<Rightarrow> nat \<Rightarrow> byte list" where
  "lead_zeros cv n = (if first_frame cv \<and> first_frame_fill_zero cv then replicate n 0 else [])"

lemma mem_write_here: "length p = off \<Longrightarrow> length a = length b \<Longrightarrow> mem_write (p @ b @ q) off a = p @ a @ q"
  by (simp add: mem_write_def)

lemma poke_here: "length p = off \<Longrightarrow> length a = length b \<Longrightarrow> poke (p @ b @ q) off a = Some (p @ a @ q)"
  by (simp add: poke_def mem_write_here)

text \<open>Moving the front of a region to its end.\<close>

lemma shift_step:
  assumes "length p = ptr" "length a = m" "length r = z"
  shows "Option.bind (move_bytes (p @ a @ r @ q) (ptr + z) ptr m) (\<lambda>d. poke d ptr (replicate z 0)) =
    Some (p @ replicate z 0 @ a @ q)"
proof -
  define u v where "u = take z (a @ r)" and "v = drop z (a @ r)"
  have uv: "a @ r = u @ v" "length u = z" "length v = m" using assms by (simp_all only: u_def v_def append_take_drop_id) simp_all
  have rd: "mem_read (p @ a @ r @ q) ptr m = a" using assms by (simp add: mem_read_def)
  have e: "p @ a @ r @ q = (p @ u) @ v @ q" using uv(1) by (metis append.assoc)
  have "move_bytes (p @ a @ r @ q) (ptr + z) ptr m = poke (p @ a @ r @ q) (ptr + z) a"
    using assms by (simp add: move_bytes_def rd)
  also have "\<dots> = Some ((p @ u) @ a @ q)"
    unfolding e using assms uv by (intro poke_here) simp_all
  finally have mv: "move_bytes (p @ a @ r @ q) (ptr + z) ptr m = Some ((p @ u) @ a @ q)" .
  have "poke ((p @ u) @ a @ q) ptr (replicate z 0) = Some (p @ replicate z 0 @ a @ q)"
    unfolding append.assoc using assms(1) uv(2) by (intro poke_here) simp_all
  then show ?thesis unfolding mv by simp
qed

lemma shift_planes_Suc:
  "shift_planes d ptr m z (Suc k) =
     Option.bind (Option.bind (move_bytes d (ptr + z) ptr m) (\<lambda>d. poke d ptr (replicate z 0)))
       (\<lambda>d. shift_planes d (ptr + (m + z)) m z k)"
  by (cases "move_bytes d (ptr + z) ptr m") simp_all

lemma shift_planes_value:
  assumes "length p = ptr" "\<forall>(a, r)\<in>set ps. length a = m \<and> length r = z"
  shows "shift_planes (p @ concat (map (\<lambda>(a, r). a @ r) ps) @ q) ptr m z (length ps) =
    Some (p @ concat (map (\<lambda>(a, r). replicate z 0 @ a) ps) @ q)"
  using assms
proof (induction ps arbitrary: p ptr)
  case Nil
  then show ?case by simp
next
  case (Cons ar ps)
  obtain a r where ar: "ar = (a, r)" by (cases ar)
  have l: "length a = m" "length r = z" using Cons.prems(2) ar by simp_all
  let ?rest = "concat (map (\<lambda>(a, r). a @ r) ps) @ q"
  have s: "Option.bind (move_bytes (p @ a @ r @ ?rest) (ptr + z) ptr m) (\<lambda>d. poke d ptr (replicate z 0)) =
      Some (p @ replicate z 0 @ a @ ?rest)"
    by (rule shift_step [OF Cons.prems(1) l])
  have "length (p @ replicate z 0 @ a) = ptr + (m + z)" using Cons.prems(1) l by simp
  from Cons.IH [OF this] Cons.prems(2) have
    "shift_planes ((p @ replicate z 0 @ a) @ ?rest) (ptr + (m + z)) m z (length ps) =
      Some ((p @ replicate z 0 @ a) @ concat (map (\<lambda>(a, r). replicate z 0 @ a) ps) @ q)"
    by simp
  moreover have "p @ concat (map (\<lambda>(a, r). a @ r) (ar # ps)) @ q = p @ a @ r @ ?rest" by (simp add: ar)
  moreover have "p @ concat (map (\<lambda>(a, r). replicate z 0 @ a) (ar # ps)) @ q =
      (p @ replicate z 0 @ a) @ concat (map (\<lambda>(a, r). replicate z 0 @ a) ps) @ q"
    by (simp add: ar)
  ultimately show ?case unfolding list.size(4) add_Suc_right add_0_right shift_planes_Suc
    by (simp only: s bind.bind_lunit append.assoc)
qed

text \<open>Closing the gap between two planes.\<close>

lemma pack_one:
  assumes "length a = m" "length r = z" "length b = m"
  shows "\<exists>q'. pack_planes (a @ r @ b @ q) 0 0 (m + z) m 1 = Some (a @ b @ q') \<and> length q' = length (r @ q)"
proof -
  define u v where "u = take m (r @ b @ q)" and "v = drop m (r @ b @ q)"
  have uv: "r @ b @ q = u @ v" "length u = m" using assms by (simp_all only: u_def v_def append_take_drop_id) simp_all
  have rd: "mem_read (a @ r @ b @ q) (m + z) m = b" using assms by (simp add: mem_read_def)
  have "m + z + m \<le> length (a @ r @ b @ q)" using assms by simp
  then have "pack_planes (a @ r @ b @ q) 0 0 (m + z) m 1 = poke (a @ r @ b @ q) m b"
    using rd by (simp add: move_bytes_def)
  also have "\<dots> = poke (a @ u @ v) m b" by (simp only: uv(1))
  also have "\<dots> = Some (a @ b @ v)" using assms uv by (intro poke_here) simp_all
  finally show ?thesis using assms by (intro exI [of _ v]) (simp add: v_def)
qed

text \<open>
  The block of a frame after \<open>swr_convert\<close>: in front of each plane its samples, and what was there
  before behind them.
\<close>

definition planes_block :: "(byte list \<times> byte list) list \<Rightarrow> byte list" where
  "planes_block ps = concat (map (\<lambda>(a, r). a @ r) ps)"

lemma planes_block_length:
  assumes "\<forall>(a, r)\<in>set ps. length a = m \<and> length r = z"
  shows "length (planes_block ps) = length ps * (m + z)"
  using assms by (induction ps) (auto simp: planes_block_def)

lemma adapter_planes:
  assumes fmt: "ValidPcmCheck (frame_format f)" and n: "plane_count (frame_format f) = length ps"
    and sizes: "\<forall>(a, r)\<in>set ps. length a = m \<and> length r = z"
    and m: "length ps * m = k * ByteSizePerFrame (frame_format f)"
    and b: "byte_size f = t * ByteSizePerFrame (frame_format f)" "byte_size f = length ps * (m + z)"
    and blk: "frame_block f = Some (planes_block ps @ q)" and cap: "capacity_in_byte f = length (planes_block ps @ q)"
      "capacity_in_byte f < 2 ^ 63"
  obtains f' where "AdapterFfmpegOutputSamples cv k f = Some (cv\<lparr>first_frame := False\<rparr>, f')"
    "readable f' = concat (map (\<lambda>(a, r). lead_zeros cv z @ a) ps)"
    "\<exists>d b. f' = f\<lparr>frame_block := Some d, byte_size := b\<rparr> \<and> length d = capacity_in_byte f \<and> b \<le> capacity_in_byte f"
proof -
  let ?bpf = "ByteSizePerFrame (frame_format f)"
  have bpf: "0 < ?bpf" using valid_frame_size(1) [OF fmt] by auto
  have c: "length ps = 1 \<or> length ps = 2" using plane_counts(1) [OF fmt] n by simp
  have pl: "length (planes_block ps) = byte_size f" using planes_block_length [OF sizes] b(2) by simp
  have kt: "k * ?bpf \<le> t * ?bpf" unfolding m [symmetric] b(1) [symmetric] b(2) by simp
  then have k: "k \<le> t" using bpf by simp
  have fs: "FrameSize (byte_size f) (frame_format f) = Some t" using bpf b(1) by (simp add: FrameSize_def div_size_def)
  have small: "byte_size f < 2 ^ 63" using pl cap by simp
  have len: "umul k ?bpf = length ps * m" "length ps * m div length ps = m" "byte_size f div length ps = m + z"
    "usub (byte_size f) (length ps * m) div length ps = z"
    using c b(2) small by (auto simp: umul_id usub_id simp flip: m)
  have ch: "(if IsPlanner (frame_format f) then size_of_int (GetChannelsCount (frame_format f)) else 1) = length ps"
    using n by (simp add: plane_count_def)
  show ?thesis
  proof (cases "k < t")
    case False
    then have z: "z = 0" using k m b c by auto
    have "planes_block ps = concat (map (\<lambda>(a, r). lead_zeros cv z @ a) ps)"
      using sizes by (auto simp: planes_block_def z lead_zeros_def intro!: arg_cong [where f = concat])
    then show ?thesis
      using False fs pl cap blk
      by (intro that [of f] exI [of _ "planes_block ps @ q"] exI [of _ "byte_size f"])
        (simp_all add: AdapterFfmpegOutputSamples_def readable_def)
  next
    case True
    note A = AdapterFfmpegOutputSamples_def [of cv k f, unfolded Let_def fs bind.bind_lunit ch len blk]
    show ?thesis
    proof (cases "first_frame cv \<and> first_frame_fill_zero cv")
      case True
      define d where "d = concat (map (\<lambda>(a, r). replicate z 0 @ a) ps) @ q"
      have "shift_planes (planes_block ps @ q) 0 m z (length ps) = Some d"
        using shift_planes_value [of "[]" 0 ps m z q] sizes by (simp add: planes_block_def d_def)
      then have "AdapterFfmpegOutputSamples cv k f = Some (cv\<lparr>first_frame := False\<rparr>, f\<lparr>frame_block := Some d\<rparr>)"
        unfolding A using \<open>k < t\<close> True by simp
      moreover have l: "length (concat (map (\<lambda>(a, r). replicate z 0 @ a) ps)) = byte_size f"
        using sizes unfolding b(2) by (induction ps) auto
      moreover have "lead_zeros cv z = replicate z 0" using True by (simp add: lead_zeros_def)
      ultimately show ?thesis
        using pl cap by (intro that [of "f\<lparr>frame_block := Some d\<rparr>"] exI [of _ d] exI [of _ "byte_size f"])
          (simp_all add: readable_def d_def)
    next
      case False
      then have zs: "lead_zeros cv z = []" unfolding lead_zeros_def by (rule if_not_P)
      have "\<exists>q'. pack_planes (planes_block ps @ q) 0 0 (m + z) m (length ps - 1) = Some (concat (map fst ps) @ q') \<and>
          length (concat (map fst ps) @ q') = length (planes_block ps @ q)"
      proof (cases "length ps = 1")
        case True
        then obtain a r where "ps = [(a, r)]" by (cases ps) auto
        then show ?thesis by (simp add: planes_block_def)
      next
        case False
        then have "length ps = 2" using c by simp
        then obtain a r b s where ps: "ps = [(a, r), (b, s)]"
          by (cases ps; cases "tl ps") auto
        show ?thesis using pack_one [of a m r z b "s @ q"] sizes by (auto simp: ps planes_block_def)
      qed
      then obtain q' where q': "pack_planes (planes_block ps @ q) 0 0 (m + z) m (length ps - 1) =
          Some (concat (map fst ps) @ q')" "length (concat (map fst ps) @ q') = capacity_in_byte f"
        unfolding cap by blast
      have l: "length (concat (map fst ps)) = length ps * m" using sizes by (induction ps) auto
      have le: "length ps * m \<le> capacity_in_byte f" using q'(2) l by simp
      let ?f = "f\<lparr>frame_block := Some (concat (map fst ps) @ q'), byte_size := length ps * m\<rparr>"
      have "AdapterFfmpegOutputSamples cv k f = Some (cv\<lparr>first_frame := False\<rparr>, ?f)"
        unfolding A using \<open>k < t\<close> False q' le by (auto simp: ResetReadableSizeInByte_def)
      moreover have "concat (map (\<lambda>(a, r). lead_zeros cv z @ a) ps) = concat (map fst ps)"
        unfolding zs by (induction ps) auto
      ultimately show ?thesis
        using q' l le by (intro that [of ?f] exI [of _ "concat (map fst ps) @ q'"] exI [of _ "length ps * m"])
          (simp_all add: readable_def)
    qed
  qed
qed

lemma poke_front:
  assumes "length p = off" "length a \<le> length r"
  shows "poke (p @ r @ q) off a = Some (p @ a @ drop (length a) r @ q)"
  using poke_here [OF assms(1), of a "take (length a) r" "drop (length a) r @ q"] assms(2)
  by (metis append.assoc append_take_drop_id length_take min.absorb2)

lemma stored_planes:
  assumes fmt: "ValidPcmCheck (frame_format f)" and b: "byte_size f = plane_count (frame_format f) * one"
    and blk: "frame_block f = Some d" "byte_size f \<le> length d"
    and outs: "length outs = plane_count (frame_format f)" "\<forall>a\<in>set outs. length a = m" "m \<le> one"
  obtains offs ps q where "plane_offsets f = Some offs" "length offs = length outs"
    "store_outputs f offs outs = Some (f\<lparr>frame_block := Some (planes_block ps @ q)\<rparr>)"
    "map fst ps = outs" "\<forall>(a, r)\<in>set ps. length a = m \<and> length r = one - m"
    "length (planes_block ps @ q) = length d"
proof -
  have c: "plane_count (frame_format f) = 1 \<or> plane_count (frame_format f) = 2"
    by (rule plane_counts [OF fmt])
  define q where "q = drop (byte_size f) d"
  show ?thesis
  proof (cases "plane_count (frame_format f) = 1")
    case True
    then obtain a where a: "outs = [a]" using outs(1) by (cases outs) auto
    have la: "length a = m" using outs(2) a by simp
    define r where "r = take one d"
    have d: "d = r @ q" "length r = one" using b True blk(2) by (simp_all add: r_def q_def)
    have offs: "plane_offsets f = Some [0]"
      using True channel_counts [of "frame_format f"] b
      by (auto simp: plane_offsets_def plane_count_def div_size_def size_of_int_def split: if_splits)
    have "poke d 0 a = Some (a @ drop m r @ q)"
      using poke_front [of "[]" 0 a r q] d la outs(3) by simp
    then show ?thesis using offs blk d la outs(3)
      by (intro that [of "[0]" "[(a, drop m r)]" q]) (simp_all add: a store_outputs_def planes_block_def)
  next
    case False
    then have two: "plane_count (frame_format f) = 2" using c by simp
    then obtain a b' where a: "outs = [a, b']" using outs(1) by (cases outs; cases "tl outs") auto
    have la: "length a = m" "length b' = m" using outs(2) a by simp_all
    define r s where "r = take one d" and "s = take one (drop one d)"
    have d: "d = r @ s @ q" "length r = one" "length s = one"
      using b two blk(2) by (simp_all add: r_def s_def q_def mult_2 flip: drop_drop)
    have pl: "IsPlanner (frame_format f)" "size_of_int (GetChannelsCount (frame_format f)) = 2"
      using two by (auto simp: plane_count_def split: if_splits)
    then have "nat (GetChannelsCount (frame_format f)) = 2"
      using channel_counts [of "frame_format f"] by (auto simp: size_of_int_def)
    then have offs: "plane_offsets f = Some [0, one]"
      using pl b two by (simp add: plane_offsets_def div_size_def upt_rec)
    have "poke d 0 a = Some (a @ drop m r @ s @ q)"
      using poke_front [of "[]" 0 a r "s @ q"] d la outs(3) by simp
    moreover have "poke (a @ drop m r @ s @ q) one b' = Some (a @ drop m r @ b' @ drop m s @ q)"
      using poke_front [of "a @ drop m r" one b' s q] d la outs(3) by simp
    ultimately show ?thesis using offs blk d la outs(3)
      by (intro that [of "[0, one]" "[(a, drop m r), (b', drop m s)]" q])
        (simp_all add: a store_outputs_def planes_block_def)
  qed
qed

lemma converted_size:
  assumes "ValidPcmCheck dst" and "FormatConvertByteSize n src dst = Some sz"
  obtains t where "sz = t * ByteSizePerFrame dst"
proof -
  have "ByteSizePerFrame dst dvd 2 ^ 64" using valid_frame_size(1) [OF assms(1)] by auto
  then have "ByteSizePerFrame dst dvd sz"
    using assms(2) by (auto simp: FormatConvertByteSize_def umul_def dvd_mod)
  then show ?thesis using that by (metis dvdE mult.commute)
qed

text \<open>
  C19: The converted frame holds exactly what \<open>swr_convert\<close> stored, plane by plane, in every layout and
  for every number of output frames up to the expected one. Where fewer frames came out, the planes
  are closed up, or on the first frame, if the converter was made so, each plane is filled up with
  zeros in front; no store and no move leaves the block.
\<close>

theorem convert_output:
  assumes fmt: "ValidPcmCheck (view_format src)" "ValidPcmCheck (frame_format dst)"
      "view_format src \<noteq> frame_format dst"
    and dst: "frame_ok dst" and src: "ByteSizePerFrame (view_format src) \<le> view_size src"
    and size: "FormatConvertByteSize (view_size src) (view_format src) (frame_format dst) = Some n"
      "n \<le> capacity_in_byte dst"
    and ctx: "ReinitIfNeeded api cv (view_format src) (frame_format dst) = (cv1, True)" "swr_ctx cv1 = Some c"
    and ins: "PlanarData src = Some ins"
    and swr: "swr_convert api c (plane_count (frame_format dst))
        (int_of_size (capacity_in_byte dst div ByteSizePerFrame (frame_format dst))) ins
        (int_of_size (view_size src div ByteSizePerFrame (view_format src))) = (c', outs, int k)"
    and outs: "length outs = plane_count (frame_format dst)" "\<forall>a\<in>set outs. length a = m"
      "plane_count (frame_format dst) * m = k * ByteSizePerFrame (frame_format dst)"
      "k * ByteSizePerFrame (frame_format dst) \<le> n"
  shows "\<exists>cv' dst'. Convert api cv src dst = Some (cv', dst', 0) \<and> frame_ok dst' \<and> \<not> first_frame cv' \<and>
    readable dst' = concat (map (\<lambda>a. lead_zeros cv1 (n div plane_count (frame_format dst) - m) @ a) outs)"
proof -
  let ?P = "plane_count (frame_format dst)"
  have c: "?P = 1 \<or> ?P = 2" by (rule plane_counts [OF fmt(2)])
  have bpf: "0 < ByteSizePerFrame (view_format src)" "0 < ByteSizePerFrame (frame_format dst)"
    using valid_frame_size(1) [OF fmt(1)] valid_frame_size(1) [OF fmt(2)] by auto
  obtain t where t: "n = t * ByteSizePerFrame (frame_format dst)" by (rule converted_size [OF fmt(2) size(1)])
  obtain w where w: "ByteSizePerFrame (frame_format dst) = ?P * w" using plane_counts(2) [OF fmt(2)] by blast
  define one where "one = t * w"
  have n: "n = ?P * one" by (simp add: t w one_def)
  then have one: "n div ?P = one" using c by auto
  have "?P * m \<le> ?P * one" using outs(3,4) n by simp
  then have m: "m \<le> one" using c by auto
  obtain d where d: "frame_block dst = Some d" "length d = capacity_in_byte dst"
    and cap: "capacity_in_byte dst < 2 ^ 63" and ok: "const_data dst = ConstData" "format_ptr_set dst"
    using dst by (auto simp: frame_ok_def)
  let ?f = "dst\<lparr>byte_size := n\<rparr>"
  have F: "ValidPcmCheck (frame_format ?f)" "byte_size ?f = plane_count (frame_format ?f) * one"
    "frame_block ?f = Some d" "byte_size ?f \<le> length d" "length outs = plane_count (frame_format ?f)"
    using fmt(2) n d size(2) outs(1) by simp_all
  obtain offs ps q where S: "plane_offsets ?f = Some offs" "length offs = length outs"
    "store_outputs ?f offs outs = Some (?f\<lparr>frame_block := Some (planes_block ps @ q)\<rparr>)"
    "map fst ps = outs" "\<forall>(a, r)\<in>set ps. length a = m \<and> length r = one - m"
    "length (planes_block ps @ q) = length d"
    by (rule stored_planes [OF F outs(2) m])
  let ?g = "?f\<lparr>frame_block := Some (planes_block ps @ q)\<rparr>" and ?cv = "cv1\<lparr>swr_ctx := Some c'\<rparr>"
  have lp: "length ps = ?P" using S(4) outs(1) by (metis length_map)
  have G: "ValidPcmCheck (frame_format ?g)" "plane_count (frame_format ?g) = length ps"
    "length ps * m = k * ByteSizePerFrame (frame_format ?g)" "byte_size ?g = t * ByteSizePerFrame (frame_format ?g)"
    "byte_size ?g = length ps * (m + (one - m))" "frame_block ?g = Some (planes_block ps @ q)"
    "capacity_in_byte ?g = length (planes_block ps @ q)" "capacity_in_byte ?g < 2 ^ 63"
    using fmt(2) lp outs(3) t n m S(6) d cap by simp_all
  obtain f' where A: "AdapterFfmpegOutputSamples ?cv k ?g = Some (?cv\<lparr>first_frame := False\<rparr>, f')"
    "readable f' = concat (map (\<lambda>(a, r). lead_zeros ?cv (one - m) @ a) ps)"
    "\<exists>d b. f' = ?g\<lparr>frame_block := Some d, byte_size := b\<rparr> \<and> length d = capacity_in_byte ?g \<and> b \<le> capacity_in_byte ?g"
    by (rule adapter_planes [OF G(1,2) S(5) G(3-8)])
  have fs: "FrameSize (view_size src) (view_format src) = Some (view_size src div ByteSizePerFrame (view_format src))"
    "(view_size src div ByteSizePerFrame (view_format src) = 0) = False"
    using bpf src by (simp_all add: FrameSize_def div_size_def div_eq_0_iff not_less)
  have cf: "CapacityInFrames ?f = Some (capacity_in_byte dst div ByteSizePerFrame (frame_format dst))"
    using bpf by (simp add: CapacityInFrames_def div_size_def)
  have rs: "ResetReadableSizeInByte dst n = ?f" using size(2) by (simp add: ResetReadableSizeInByte_def)
  have fe: "format_eq (view_format src) (frame_format dst) = False" using fmt(3) by simp
  have "Convert api cv src dst = Some (?cv\<lparr>first_frame := False\<rparr>, f', 0)"
    unfolding Convert_def fs(1) bind.bind_lunit fs(2) if_False fe Let_def size(1) rs S(1) cf ins ctx(1) fst_conv ctx(2)
      S(2) outs(1) swr prod.case S(3)
    using A(1) by simp
  moreover have "frame_ok f'" using A(3) cap ok by (auto simp: frame_ok_def)
  moreover have "readable f' = concat (map (\<lambda>a. lead_zeros cv1 (one - m) @ a) outs)"
    unfolding A(2) S(4) [symmetric] by (simp add: lead_zeros_def case_prod_unfold comp_def)
  ultimately show ?thesis unfolding one by auto
qed

definition two_for_one :: "unit swr_api" where
  "two_for_one =
     \<lparr>swr_alloc_set_opts = (\<lambda>a b. Some ()), swr_init = (\<lambda>c. (c, 0)),
      swr_convert = (\<lambda>c planes cap ins n. (c, replicate planes (take 2 (hd ins)), 1))\<rparr>"

lemma convert_output_witness:
  "\<exists>cv' dst'. Convert two_for_one (AudioConverterFFmpeg_new True)
      \<lparr>view_data = [1, 2, 3, 4], view_size = 4, view_format = k16kMonoPcm16\<rparr>
      (AudioFrameLiteDelegate_new (replicate 24 9) 0 24 stereo_planar) = Some (cv', dst', 0) \<and>
    readable dst' = replicate 10 0 @ [1, 2] @ replicate 10 0 @ [1, 2]"
proof -
  let ?src = "\<lparr>view_data = [1, 2, 3, 4], view_size = 4, view_format = k16kMonoPcm16\<rparr> :: frame_view"
  let ?dst = "AudioFrameLiteDelegate_new (replicate 24 9) 0 24 stereo_planar"
  note tables = format_lookups format_tables GetChannelsCount_def GetSampleRateToInt_def
  have fmt: "ValidPcmCheck (view_format ?src)" "ValidPcmCheck (frame_format ?dst)"
    "view_format ?src \<noteq> frame_format ?dst"
    by (simp_all add: ValidPcmCheck_def k16kMonoPcm16_def stereo_planar_def AudioFrameLiteDelegate_new_def)
  have ok: "frame_ok ?dst" by (simp add: frame_ok_def AudioFrameLiteDelegate_new_def)
  have b: "ByteSizePerFrame (view_format ?src) = 2" "ByteSizePerFrame (frame_format ?dst) = 4"
    "plane_count (frame_format ?dst) = 2" "\<not> IsPlanner (view_format ?src)"
    by (simp_all add: ByteSizePerFrame_def tables k16kMonoPcm16_def stereo_planar_def AudioFrameLiteDelegate_new_def
        umul_def size_of_int_def plane_count_def IsPlanner_def)
  have "AudioMsToByteSize (view_format ?src) (time_literal ms_factor 100) = 3200"
    "AudioMsToByteSize (frame_format ?dst) (time_literal ms_factor 100) = 19200"
    by (simp_all add: AudioMsToByteSize_def AudioMsToSampleSize_def AudioMsToFrameSize_def tables k16kMonoPcm16_def
        stereo_planar_def AudioFrameLiteDelegate_new_def umul_def size_of_int_def time_literal_def ms_new s64_id)
  then have sz: "FormatConvertByteSize (view_size ?src) (view_format ?src) (frame_format ?dst) = Some 24"
    using b by (simp add: FormatConvertByteSize_def FormatConvertFrameSize_def AudioConvertByteSize_def div_size_def umul_def)
  define cv1 where "cv1 = \<lparr>format_in = view_format ?src, format_out = frame_format ?dst, swr_ctx = Some (),
      swr_inited = True, first_frame_fill_zero = True, first_frame = True\<rparr>"
  have "GetChannelsCount (view_format ?src) = 1" "GetChannelsCount (frame_format ?dst) = 2"
    by (simp_all add: tables k16kMonoPcm16_def stereo_planar_def AudioFrameLiteDelegate_new_def)
  then have re: "ReinitIfNeeded two_for_one (AudioConverterFFmpeg_new True) (view_format ?src) (frame_format ?dst) =
      (cv1, True)"
    by (simp add: ReinitIfNeeded_def AudioConverterFFmpeg_new_def converter_UnInit_def converter_Init_def
        kAudioInputChannelMaxNums_def kAudioOutputChannelMaxNums_def two_for_one_def cv1_def)
  have ins: "PlanarData ?src = Some [[1, 2, 3, 4]]" using b by (simp add: PlanarData_def ToPlanarData_def)
  have cap: "24 \<le> capacity_in_byte ?dst" "swr_ctx cv1 = Some ()" "lead_zeros cv1 10 = replicate 10 0"
    by (simp_all add: AudioFrameLiteDelegate_new_def cv1_def lead_zeros_def)
  have swr: "swr_convert two_for_one () (plane_count (frame_format ?dst)) x [[1, 2, 3, 4]] y =
      ((), replicate (plane_count (frame_format ?dst)) [1, 2], int 1)" for x y
    by (simp add: two_for_one_def)
  have "\<exists>cv' dst'. Convert two_for_one (AudioConverterFFmpeg_new True) ?src ?dst = Some (cv', dst', 0) \<and>
      frame_ok dst' \<and> \<not> first_frame cv' \<and> readable dst' = concat (map (\<lambda>a. lead_zeros cv1
        (24 div plane_count (frame_format ?dst) - 2) @ a) (replicate (plane_count (frame_format ?dst)) [1, 2]))"
    by (rule convert_output [OF fmt ok _ sz cap(1) re cap(2) ins swr]) (use b in simp_all)
  moreover have "concat (map (\<lambda>a. lead_zeros cv1 (24 div 2 - 2) @ a) (replicate 2 [1, 2])) =
      replicate 10 0 @ [1, 2] @ replicate 10 0 @ [1, 2]"
  proof -
    have r: "replicate 2 x = [x, x]" for x :: "byte list" by (simp add: numeral_2_eq_2)
    have "24 div 2 - 2 = (10 :: nat)" by simp
    then show ?thesis by (simp only: r cap(3)) simp
  qed
  ultimately show ?thesis unfolding b(3) by metis
qed

subsection \<open>The capacity of the wrapper\<close>

lemma hundred_ms:
  assumes "ValidPcmCheck f"
  shows "AudioMsToByteSize f (time_literal ms_factor 100) = nat (GetSampleRateToInt f) div 10 * ByteSizePerFrame f"
proof -
  have l: "time_literal ms_factor 100 = 100" by (simp add: time_literal_def ms_new s64_id)
  have "nat (GetSampleRateToInt f * 100) div 1000 = nat (GetSampleRateToInt f) div 10"
    using valid_rate [OF assms] by auto
  then show ?thesis unfolding l using ms_to_frames(1,3) [OF assms, of 100] by simp
qed

lemma wrapper_need_value:
  assumes "ValidPcmCheck src" "ValidPcmCheck dst" "n < 2 ^ 50"
  shows "wrapper_need dst n src = Some ((n + ByteSizePerFrame src - 1) * ByteSizePerFrame dst div ByteSizePerFrame src)"
proof -
  have b: "ByteSizePerFrame src \<in> {2, 4, 8}" "ByteSizePerFrame dst \<in> {2, 4, 8}"
    using valid_frame_size(1) assms by blast+
  have "(n + ByteSizePerFrame src - 1) * ByteSizePerFrame dst \<le> (2 ^ 50 + 8) * 8"
    using b assms(3) by (intro mult_le_mono) auto
  moreover have "usub (uadd n (ByteSizePerFrame src)) 1 = n + ByteSizePerFrame src - 1"
    using b assms(3) by (auto simp: uadd_id usub_id)
  ultimately show ?thesis using b by (auto simp: wrapper_need_def div_size_def umul_id)
qed

text \<open>The capacity that the wrapper asks for leaves out the ratio of the sample rates.\<close>

lemma upsampling_needs_more:
  assumes fmt: "ValidPcmCheck src" "ValidPcmCheck dst" and k: "k < 2 ^ 20"
    and up: "int k * (GetSampleRateToInt dst - GetSampleRateToInt src) \<ge> GetSampleRateToInt src"
  obtains need wanted where "wrapper_need dst (k * ByteSizePerFrame src) src = Some need"
    "FormatConvertByteSize (k * ByteSizePerFrame src) src dst = Some wanted" "need < wanted"
proof -
  let ?s = "ByteSizePerFrame src" and ?d = "ByteSizePerFrame dst"
  define R S where "R = nat (GetSampleRateToInt src) div 10" and "S = nat (GetSampleRateToInt dst) div 10"
  have b: "?s \<in> {2, 4, 8}" "?d \<in> {2, 4, 8}" using valid_frame_size(1) fmt by blast+
  have r: "GetSampleRateToInt src = int (R * 10)" "0 < R" "GetSampleRateToInt dst = int (S * 10)" "S \<le> 4800"
    using valid_rate [OF fmt(1)] valid_rate [OF fmt(2)] by (auto simp: R_def S_def)
  have "int ((k + 1) * R) \<le> int (k * S)" using up unfolding r(1,3) by (simp add: algebra_simps)
  then have "(k + 1) * R \<le> k * S" by linarith
  then have q: "k + 1 \<le> k * S div R" using r(2) by (simp add: less_eq_div_iff_mult_less_eq)
  have kb: "k * ?s \<le> 2 ^ 20 * 8" using k b by (intro mult_le_mono) auto
  have big: "k * ?s * (S * ?d) \<le> (2 ^ 20 * 8) * (4800 * 8)" by (rule mult_le_mono [OF kb mult_le_mono [OF r(4)]]) (use b in auto)
  have "k * ?s * (S * ?d) = (k * S * ?d) * ?s" by (simp only: ac_simps)
  moreover have s: "?s \<noteq> 0" using b by auto
  ultimately have "k * ?s * (S * ?d) div (R * ?s) = k * S * ?d div R" by (simp only: div_mult_mult2 [OF s])
  then have ac: "AudioConvertByteSize dst src (k * ?s) = Some (k * S * ?d div R)"
    using big r(2) b by (auto simp: AudioConvertByteSize_def hundred_ms [OF fmt(1)] hundred_ms [OF fmt(2)]
        R_def [symmetric] S_def [symmetric] umul_id)
  have dd: "k * S * ?d div R div ?d = k * S div R"
    using b by (auto simp flip: div_mult2_eq simp: mult.commute [of R])
  have "k * S div R \<le> k * S" by simp
  also have "\<dots> \<le> 2 ^ 20 * 4800" using k r(4) by (intro mult_le_mono) auto
  finally have "umul (k * S div R) ?d = k * S div R * ?d" using b by (auto simp: umul_id)
  then have w: "FormatConvertByteSize (k * ?s) src dst = Some (k * S div R * ?d)"
    using b by (auto simp: FormatConvertByteSize_def FormatConvertFrameSize_def ac div_size_def dd)
  have "k * ?s < 2 ^ 50" using kb by simp
  note need = wrapper_need_value [OF fmt this]
  have "(k * ?s + ?s - 1) * ?d div ?s < (k + 1) * ?d"
    using b by (auto simp: less_mult_imp_div_less algebra_simps)
  also have "\<dots> \<le> k * S div R * ?d" using q by (rule mult_le_mono1)
  finally show ?thesis using that [OF need w] by simp
qed

lemma convert_keeps_empty:
  assumes "byte_size dst = 0" "FormatConvertByteSize (view_size src) (view_format src) (frame_format dst) = Some wanted"
    and "capacity_in_byte dst < wanted" "view_format src \<noteq> frame_format dst"
    and "Convert api cv src dst = Some (cv', dst', res)"
  shows "byte_size dst' = 0 \<and> capacity_in_byte dst' = capacity_in_byte dst \<and> frame_format dst' = frame_format dst"
proof (cases "FrameSize (view_size src) (view_format src) = Some 0")
  case True
  then show ?thesis using assms(1,5) by (simp add: Convert_def)
next
  case False
  have keep: "byte_size g = 0 \<and> capacity_in_byte g = capacity_in_byte dst \<and> frame_format g = frame_format dst"
    if "store_outputs dst offs outs = Some g" for g offs outs
    using that assms(1) by (auto simp: store_outputs_def split: option.splits if_splits)
  have adapt: "h = g" if "AdapterFfmpegOutputSamples c k g = Some (c', h)" "byte_size g = 0" for c k g c' h
    using that by (auto simp: AdapterFfmpegOutputSamples_def FrameSize_def div_size_def bind_Some_iff split: if_splits)
  have rs: "ResetReadableSizeInByte dst wanted = dst" using assms(3) by (simp add: ResetReadableSizeInByte_def)
  have fe: "format_eq (view_format src) (frame_format dst) = False" using assms(4) by simp
  obtain n where n: "FrameSize (view_size src) (view_format src) = Some n" "(n = 0) = False"
    using False assms(5) by (cases "FrameSize (view_size src) (view_format src)") (simp_all add: Convert_def)
  note C = assms(5) [unfolded Convert_def n(1) bind.bind_lunit n(2) if_False fe Let_def assms(2) rs]
  obtain offs where offs: "plane_offsets dst = Some offs" using C by (cases "plane_offsets dst") simp_all
  obtain cap where cap: "CapacityInFrames dst = Some cap" using C offs by (cases "CapacityInFrames dst") simp_all
  obtain ins where ins: "PlanarData src = Some ins" using C offs cap by (cases "PlanarData src") simp_all
  obtain ctx where ctx: "swr_ctx (fst (ReinitIfNeeded api cv (view_format src) (frame_format dst))) = Some ctx"
    using C offs cap ins by (cases "swr_ctx (fst (ReinitIfNeeded api cv (view_format src) (frame_format dst)))") simp_all
  obtain ctx' outs k where swr: "swr_convert api ctx (length offs) (int_of_size cap) ins (int_of_size n) = (ctx', outs, k)"
    by (cases "swr_convert api ctx (length offs) (int_of_size cap) ins (int_of_size n)") auto
  note C = C [unfolded offs cap ins ctx bind.bind_lunit swr prod.case]
  obtain g where g: "store_outputs dst offs outs = Some g" using C by (cases "store_outputs dst offs outs") simp_all
  note C = C [unfolded g bind.bind_lunit]
  show ?thesis
  proof (cases "k < 0")
    case True
    then show ?thesis using C keep [OF g] by (auto simp: ResetReadableSizeInByte_def)
  next
    case False
    then obtain c' where "AdapterFfmpegOutputSamples
        (fst (ReinitIfNeeded api cv (view_format src) (frame_format dst))\<lparr>swr_ctx := Some ctx'\<rparr>) (nat k) g = Some (c', dst')"
      using C by auto
    from adapt [OF this] keep [OF g] show ?thesis by simp
  qed
qed

end
