(* ===== verification/ResampleIo.thy ===== *)
theory ResampleIo
  imports AudioConverter AudioSource
begin

text \<open>
  \<open>src/src/core/audio/resample_io.cc\<close>: sinks and sources that convert between the caller's format and
  the one of the sink or source behind them. These are records of the methods of \<open>AudioRawSink\<close> and
  \<open>AudioRawSource\<close>; a null pointer is \<open>None\<close>.
\<close>

record 'k raw_sink_ops =
  sink_Write :: "'k \<Rightarrow> byte list option \<Rightarrow> nat \<Rightarrow> 'k \<times> nat"
  sink_WriteCompletion :: "'k \<Rightarrow> 'k"
  sink_format :: "'k \<Rightarrow> AudioFormatInfo"

record 's raw_source_ops =
  source_Read :: "'s \<Rightarrow> byte list \<Rightarrow> nat \<Rightarrow> ('s \<times> byte list \<times> nat) option"
  source_Discard :: "'s \<Rightarrow> nat \<Rightarrow> 's \<times> int"
  source_CurrentSize :: "'s \<Rightarrow> nat"
  source_Status :: "'s \<Rightarrow> SourceStatus"
  source_FillZeroFront :: "'s \<Rightarrow> time_data \<Rightarrow> ('s \<times> int) option"
  source_Format :: "'s \<Rightarrow> AudioFormatInfo"

definition frame_Data :: "audio_frame \<Rightarrow> byte list option" where
  "frame_Data f = (if const_data f = ConstData then frame_block f else None)"

subsection \<open>AudioResampleAudioSink\<close>

record ('k, 'c) resample_sink =
  sink_state :: 'k
  sink_converter :: "'c convert_wrapper option"

definition AudioResampleAudioSink_new :: "'k \<Rightarrow> ('k, 'c) resample_sink" where
  "AudioResampleAudioSink_new k = \<lparr>sink_state = k, sink_converter = None\<rparr>"

definition sink_wrapper :: "'k raw_sink_ops \<Rightarrow> ('k, 'c) resample_sink \<Rightarrow> 'c convert_wrapper" where
  "sink_wrapper ops s = (case sink_converter s of
     None \<Rightarrow> AudioConvertWrapper_new (sink_format ops (sink_state s)) | Some w \<Rightarrow> w)"

definition write_converted :: "'k raw_sink_ops \<Rightarrow> ('k, 'c) resample_sink \<Rightarrow> 'c convert_wrapper \<Rightarrow>
    ('k, 'c) resample_sink \<times> int" where
  "write_converted ops s w =
     (case sink_Write ops (sink_state s) (frame_Data (wrapper_frame w)) (byte_size (wrapper_frame w)) of
        (k, n) \<Rightarrow> (s\<lparr>sink_state := k, sink_converter := Some w\<rparr>, int_of_size n))"

definition resample_Write :: "'c swr_api \<Rightarrow> (nat \<Rightarrow> byte list) \<Rightarrow> 'k raw_sink_ops \<Rightarrow> ('k, 'c) resample_sink \<Rightarrow>
    byte list \<Rightarrow> nat \<Rightarrow> AudioFormatInfo \<Rightarrow> (('k, 'c) resample_sink \<times> int) option" where
  "resample_Write api fresh ops s data data_size info =
     (if \<not> format_eq info (sink_format ops (sink_state s)) then
        map_option (\<lambda>(w, res). write_converted ops s w)
          (wrapper_Convert api fresh (sink_wrapper ops s) info data data_size)
      else (case sink_Write ops (sink_state s) (Some data) data_size of
          (k, n) \<Rightarrow> Some (s\<lparr>sink_state := k\<rparr>, int_of_size n)))"

definition resample_Write_frame :: "'c swr_api \<Rightarrow> (nat \<Rightarrow> byte list) \<Rightarrow> 'k raw_sink_ops \<Rightarrow>
    ('k, 'c) resample_sink \<Rightarrow> frame_view \<Rightarrow> (('k, 'c) resample_sink \<times> int) option" where
  "resample_Write_frame api fresh ops s v =
     map_option (\<lambda>(w, res). write_converted ops s w) (wrapper_Convert_view api fresh (sink_wrapper ops s) v)"

definition resample_WriteCompletion :: "'k raw_sink_ops \<Rightarrow> ('k, 'c) resample_sink \<Rightarrow> ('k, 'c) resample_sink" where
  "resample_WriteCompletion ops s = s\<lparr>sink_state := sink_WriteCompletion ops (sink_state s)\<rparr>"

text \<open>\<open>AudioResampleRawSink\<close>: the same with a fixed source format; its result is a \<open>size_t\<close>.\<close>

type_synonym ('k, 'c) resample_raw_sink = "('k, 'c) resample_sink \<times> AudioFormatInfo"

definition resample_raw_Write :: "'c swr_api \<Rightarrow> (nat \<Rightarrow> byte list) \<Rightarrow> 'k raw_sink_ops \<Rightarrow>
    ('k, 'c) resample_raw_sink \<Rightarrow> byte list \<Rightarrow> nat \<Rightarrow> (('k, 'c) resample_raw_sink \<times> nat) option" where
  "resample_raw_Write api fresh ops s data data_size =
     map_option (\<lambda>(r, n). ((r, snd s), size_of_int n)) (resample_Write api fresh ops (fst s) data data_size (snd s))"

subsection \<open>AudioResampleAudioSource\<close>

record ('s, 'c) resample_source =
  inner_source :: "'s option"
  source_converter :: "'c converter"
  frame_buffer :: audio_frame

definition AudioResampleAudioSource_new :: "(nat \<Rightarrow> byte list) \<Rightarrow> 's raw_source_ops \<Rightarrow> 's option \<Rightarrow>
    ('s, 'c) resample_source" where
  "AudioResampleAudioSource_new fresh ops source =
     (let info = (case source of None \<Rightarrow> kNullAudioFormatInfo | Some s \<Rightarrow> source_Format ops s)
      in \<lparr>inner_source = source, source_converter = AudioConverterFFmpeg_new True,
          frame_buffer = AudioFrameLite_new_ms info (time_literal ms_factor 10) (time_literal ms_factor 0)
            (fresh (AudioMsToByteSize info (time_literal ms_factor 10)))\<rparr>)"

definition resample_Read :: "'c swr_api \<Rightarrow> (nat \<Rightarrow> byte list) \<Rightarrow> 's raw_source_ops \<Rightarrow> ('s, 'c) resample_source \<Rightarrow>
    byte list \<Rightarrow> nat \<Rightarrow> AudioFormatInfo \<Rightarrow> (('s, 'c) resample_source \<times> byte list \<times> nat) option" where
  "resample_Read api fresh ops r data read_size info =
     (case inner_source r of None \<Rightarrow> Some (r, data, 0)
      | Some s \<Rightarrow>
        if \<not> format_eq (frame_format (frame_buffer r)) info then
          do {
            need_size \<leftarrow> AudioConvertByteSize (frame_format (frame_buffer r)) info read_size;
            let buf = ExpandCapacityIfNeed (frame_buffer r) need_size (fresh need_size) in
            do {
              block \<leftarrow> frame_block buf;
              (s, block, k) \<leftarrow> source_Read ops s block need_size;
              let buf = ResetReadableSizeInByte (buf\<lparr>frame_block := Some block\<rparr>) k in
              do {
                v \<leftarrow> as_view buf;
                (cv, dst, res) \<leftarrow> Convert api (source_converter r) v (AudioFrameLiteDelegate_new data 0 read_size info);
                data \<leftarrow> frame_block dst;
                Some (r\<lparr>inner_source := Some s, source_converter := cv, frame_buffer := buf\<rparr>, data, byte_size dst)
              }
            }
          }
        else map_option (\<lambda>(s, data, k). (r\<lparr>inner_source := Some s\<rparr>, data, k)) (source_Read ops s data read_size))"

definition resample_CurrentSize :: "'s raw_source_ops \<Rightarrow> ('s, 'c) resample_source \<Rightarrow> AudioFormatInfo \<Rightarrow> nat option" where
  "resample_CurrentSize ops r tar_info =
     (case inner_source r of None \<Rightarrow> Some 0
      | Some s \<Rightarrow> div_size (umul (source_CurrentSize ops s) (ByteSizePerFrame tar_info))
          (ByteSizePerFrame (source_Format ops s)))"

definition resample_GetSourceStatus :: "'s raw_source_ops \<Rightarrow> ('s, 'c) resample_source \<Rightarrow> SourceStatus" where
  "resample_GetSourceStatus ops r = (case inner_source r of None \<Rightarrow> SourceError | Some s \<Rightarrow> source_Status ops s)"

definition resample_Discard :: "'s raw_source_ops \<Rightarrow> ('s, 'c) resample_source \<Rightarrow> nat \<Rightarrow>
    ('s, 'c) resample_source \<times> int" where
  "resample_Discard ops r offset =
     (case inner_source r of None \<Rightarrow> (r, - 1)
      | Some s \<Rightarrow> (case source_Discard ops s offset of (s, v) \<Rightarrow> (r\<lparr>inner_source := Some s\<rparr>, v)))"

definition resample_FillZeroFront :: "'s raw_source_ops \<Rightarrow> ('s, 'c) resample_source \<Rightarrow> time_data \<Rightarrow>
    (('s, 'c) resample_source \<times> int) option" where
  "resample_FillZeroFront ops r ms =
     (case inner_source r of None \<Rightarrow> Some (r, - 1)
      | Some s \<Rightarrow> map_option (\<lambda>(s, v). (r\<lparr>inner_source := Some s\<rparr>, v)) (source_FillZeroFront ops s ms))"

text \<open>\<open>AudioResampleAudioRawSource\<close>: the same with a fixed target format.\<close>

type_synonym ('s, 'c) resample_raw_source = "('s, 'c) resample_source \<times> AudioFormatInfo"

definition resample_raw_Read :: "'c swr_api \<Rightarrow> (nat \<Rightarrow> byte list) \<Rightarrow> 's raw_source_ops \<Rightarrow>
    ('s, 'c) resample_raw_source \<Rightarrow> byte list \<Rightarrow> nat \<Rightarrow> (('s, 'c) resample_raw_source \<times> byte list \<times> nat) option" where
  "resample_raw_Read api fresh ops r data n =
     map_option (\<lambda>(q, data, k). ((q, snd r), data, k)) (resample_Read api fresh ops (fst r) data n (snd r))"

definition resample_raw_CurrentSize :: "'s raw_source_ops \<Rightarrow> ('s, 'c) resample_raw_source \<Rightarrow> nat option" where
  "resample_raw_CurrentSize ops r = resample_CurrentSize ops (fst r) (snd r)"

definition resample_raw_CurrentSizeMs :: "'s raw_source_ops \<Rightarrow> ('s, 'c) resample_raw_source \<Rightarrow> time_data option" where
  "resample_raw_CurrentSizeMs ops r =
     Option.bind (resample_CurrentSize ops (fst r) (snd r)) (AudioByteSizeToMs (snd r))"

definition resample_raw_GetSourceStatus :: "'s raw_source_ops \<Rightarrow> ('s, 'c) resample_raw_source \<Rightarrow> SourceStatus" where
  "resample_raw_GetSourceStatus ops r = resample_GetSourceStatus ops (fst r)"

definition resample_raw_Discard :: "'s raw_source_ops \<Rightarrow> ('s, 'c) resample_raw_source \<Rightarrow> nat \<Rightarrow>
    ('s, 'c) resample_raw_source \<times> int" where
  "resample_raw_Discard ops r offset = (case resample_Discard ops (fst r) offset of (q, v) \<Rightarrow> ((q, snd r), v))"

definition resample_raw_FillZeroFront :: "'s raw_source_ops \<Rightarrow> ('s, 'c) resample_raw_source \<Rightarrow> time_data \<Rightarrow>
    (('s, 'c) resample_raw_source \<times> int) option" where
  "resample_raw_FillZeroFront ops r ms =
     map_option (\<lambda>(q, v). ((q, snd r), v)) (resample_FillZeroFront ops (fst r) ms)"

subsection \<open>A sink behind a converter\<close>

text \<open>A sink that keeps what it is given.\<close>

definition log_sink :: "AudioFormatInfo \<Rightarrow> byte list list raw_sink_ops" where
  "log_sink info =
     \<lparr>sink_Write = (\<lambda>k data n. (k @ [take n (case data of None \<Rightarrow> [] | Some d \<Rightarrow> d)], n)),
      sink_WriteCompletion = (\<lambda>k. k), sink_format = (\<lambda>k. info)\<rparr>"

fun resample_writes :: "'c swr_api \<Rightarrow> (nat \<Rightarrow> byte list) \<Rightarrow> 'k raw_sink_ops \<Rightarrow> ('k, 'c) resample_sink \<Rightarrow>
    AudioFormatInfo \<Rightarrow> byte list list \<Rightarrow> ('k, 'c) resample_sink option" where
  "resample_writes api fresh ops s info [] = Some s"
| "resample_writes api fresh ops s info (b # bs) =
     Option.bind (resample_Write api fresh ops s b (length b) info)
       (\<lambda>(s, n). resample_writes api fresh ops s info bs)"

lemma starved_step:
  assumes fmt: "ValidPcmCheck info" "ValidPcmCheck wanted_info" and k: "k < 2 ^ 20"
    and up: "int k * (GetSampleRateToInt wanted_info - GetSampleRateToInt info) \<ge> GetSampleRateToInt info"
    and need: "wrapper_need wanted_info (k * ByteSizePerFrame info) info = Some need"
    and w: "byte_size (wrapper_frame w) = 0" "capacity_in_byte (wrapper_frame w) \<le> need"
      "frame_format (wrapper_frame w) = wanted_info"
    and n: "length b = k * ByteSizePerFrame info"
    and c: "wrapper_Convert api fresh w info b (length b) = Some (w', res)"
  shows "byte_size (wrapper_frame w') = 0 \<and> capacity_in_byte (wrapper_frame w') \<le> need \<and>
    frame_format (wrapper_frame w') = wanted_info"
proof -
  obtain wanted where W: "FormatConvertByteSize (k * ByteSizePerFrame info) info wanted_info = Some wanted" "need < wanted"
    using upsampling_needs_more [OF fmt k up] need by auto
  have "0 < GetSampleRateToInt info" using valid_rate [OF fmt(1)] by auto
  then have ne: "info \<noteq> wanted_info" using up by auto
  let ?src = "\<lparr>view_data = b, view_size = length b, view_format = info\<rparr>"
  let ?dst = "ExpandCapacityIfNeed (wrapper_frame w) need (fresh need)"
  obtain cv f where C: "Convert api (wrapper_converter w) ?src ?dst = Some (cv, f, res)"
    "w' = w\<lparr>wrapper_frame := f, wrapper_converter := cv\<rparr>"
    using c need by (auto simp: wrapper_Convert_def wrapper_Convert_view_def w(3) n bind_Some_iff)
  have d: "byte_size ?dst = 0" "capacity_in_byte ?dst \<le> need" "frame_format ?dst = wanted_info"
    using w by (simp_all add: ExpandCapacityIfNeed_def Let_def)
  have "byte_size f = 0 \<and> capacity_in_byte f = capacity_in_byte ?dst \<and> frame_format f = frame_format ?dst"
  proof (rule convert_keeps_empty [OF d(1) _ _ _ C(1)])
    show "capacity_in_byte ?dst < wanted" using d(2) W(2) by linarith
  qed (use d W ne n in simp_all)
  then show ?thesis using C(2) d by simp
qed

text \<open>
  C20: A sink whose sample rate is higher than that of the caller gets nothing. However many blocks of
  the same number of frames are written through \<open>AudioResampleAudioSink\<close>, every block that reaches
  the sink is empty, whatever libswresample does: the capacity that the wrapper asks for does not
  count the ratio of the sample rates, and a size beyond the capacity is ignored.
\<close>

theorem upsampling_sink_starves:
  assumes fmt: "ValidPcmCheck info" "ValidPcmCheck wanted_info" and k: "k < 2 ^ 20"
    and up: "int k * (GetSampleRateToInt wanted_info - GetSampleRateToInt info) \<ge> GetSampleRateToInt info"
    and blocks: "\<forall>b\<in>set blocks. length b = k * ByteSizePerFrame info"
    and run: "resample_writes api fresh (log_sink wanted_info) (AudioResampleAudioSink_new []) info blocks = Some s"
  shows "sink_state s = replicate (length blocks) []"
proof -
  obtain need where need: "wrapper_need wanted_info (k * ByteSizePerFrame info) info = Some need"
    using upsampling_needs_more [OF fmt k up] by blast
  have "0 < GetSampleRateToInt info" using valid_rate [OF fmt(1)] by auto
  then have ne: "info \<noteq> wanted_info" using up by auto
  have fmt_log: "sink_format (log_sink wanted_info) x = wanted_info" for x by (simp add: log_sink_def)
  have "sink_state s = sink_state s0 @ replicate (length blocks) []"
    if "byte_size (wrapper_frame (sink_wrapper (log_sink wanted_info) s0)) = 0"
      "capacity_in_byte (wrapper_frame (sink_wrapper (log_sink wanted_info) s0)) \<le> need"
      "frame_format (wrapper_frame (sink_wrapper (log_sink wanted_info) s0)) = wanted_info"
      "resample_writes api fresh (log_sink wanted_info) s0 info blocks = Some s" for s0
    using that blocks
  proof (induction blocks arbitrary: s0)
    case Nil
    then show ?case by simp
  next
    case (Cons b bs)
    let ?w = "sink_wrapper (log_sink wanted_info) s0"
    from Cons.prems(4) obtain w' res where
      c: "wrapper_Convert api fresh ?w info b (length b) = Some (w', res)"
      "resample_writes api fresh (log_sink wanted_info) (fst (write_converted (log_sink wanted_info) s0 w')) info bs = Some s"
      using ne by (auto simp: resample_Write_def fmt_log bind_Some_iff split: prod.splits)
    have "length b = k * ByteSizePerFrame info" using Cons.prems(5) by simp
    note S = starved_step [OF fmt k up need Cons.prems(1-3) this c(1)]
    let ?s1 = "fst (write_converted (log_sink wanted_info) s0 w')"
    have s1: "sink_state ?s1 = sink_state s0 @ [[]]" "sink_wrapper (log_sink wanted_info) ?s1 = w'"
      using S by (simp_all add: write_converted_def log_sink_def sink_wrapper_def)
    have "sink_state s = sink_state ?s1 @ replicate (length bs) []"
      using Cons.IH [of ?s1] S c(2) s1(2) Cons.prems(5) by simp
    then show ?case using s1(1) by simp
  qed
  from this [OF _ _ _ run] show ?thesis
    by (simp add: sink_wrapper_def AudioResampleAudioSink_new_def AudioConvertWrapper_new_def
        AudioFrameLiteDelegate_format_def fmt_log)
qed

definition silent_swr :: "unit swr_api" where
  "silent_swr = \<lparr>swr_alloc_set_opts = (\<lambda>a b. Some ()), swr_init = (\<lambda>c. (c, 0)),
     swr_convert = (\<lambda>c planes cap ins n. (c, replicate planes [], 0))\<rparr>"

lemma format_facts:
  "ValidPcmCheck k16kMonoPcm16" "ValidPcmCheck k48kMonoPcm16" "k16kMonoPcm16 \<noteq> k48kMonoPcm16"
  "ByteSizePerFrame k16kMonoPcm16 = 2" "ByteSizePerFrame k48kMonoPcm16 = 2"
  "GetSampleRateToInt k16kMonoPcm16 = 16000" "GetSampleRateToInt k48kMonoPcm16 = 48000"
  "\<not> IsPlanner k16kMonoPcm16" "\<not> IsPlanner k48kMonoPcm16"
  "GetChannelsCount k16kMonoPcm16 = 1" "GetChannelsCount k48kMonoPcm16 = 1"
  by (simp_all add: ValidPcmCheck_def k16kMonoPcm16_def k48kMonoPcm16_def ByteSizePerFrame_def GetSampleRateToInt_def
      GetChannelsCount_def format_lookups format_tables IsPlanner_def umul_def size_of_int_def)

lemma upsampling_sink_starves_witness:
  "\<exists>s. resample_writes silent_swr (\<lambda>n. replicate n 0) (log_sink k48kMonoPcm16) (AudioResampleAudioSink_new [])
      k16kMonoPcm16 [[1, 2]] = Some s \<and> sink_state s = [[]]"
proof -
  have need: "wrapper_need k48kMonoPcm16 2 k16kMonoPcm16 = Some 3"
    by (subst wrapper_need_value) (simp_all add: format_facts)
  have "AudioMsToByteSize k16kMonoPcm16 (time_literal ms_factor 100) = 3200"
    "AudioMsToByteSize k48kMonoPcm16 (time_literal ms_factor 100) = 9600"
    by (simp_all add: hundred_ms format_facts)
  then have fc: "FormatConvertByteSize 2 k16kMonoPcm16 k48kMonoPcm16 = Some 6"
    by (simp add: FormatConvertByteSize_def FormatConvertFrameSize_def AudioConvertByteSize_def div_size_def
        umul_def format_facts)
  have re: "ReinitIfNeeded silent_swr (AudioConverterFFmpeg_new False) k16kMonoPcm16 k48kMonoPcm16 =
      (\<lparr>format_in = k16kMonoPcm16, format_out = k48kMonoPcm16, swr_ctx = Some (), swr_inited = True,
        first_frame_fill_zero = False, first_frame = True\<rparr>, True)"
    by (simp add: ReinitIfNeeded_def AudioConverterFFmpeg_new_def converter_UnInit_def converter_Init_def
        kAudioInputChannelMaxNums_def kAudioOutputChannelMaxNums_def silent_swr_def format_facts)
  define cv :: "unit converter" where "cv = \<lparr>format_in = k16kMonoPcm16, format_out = k48kMonoPcm16, swr_ctx = Some (),
    swr_inited = True, first_frame_fill_zero = False, first_frame = True\<rparr>"
  define f where "f = \<lparr>frame_block = Some (replicate 3 (0 :: byte)), capacity_in_byte = 3, byte_size = 0,
    const_data = ConstData, format_ptr_set = True, frame_format = k48kMonoPcm16\<rparr>"
  let ?src = "\<lparr>view_data = [1, 2], view_size = 2, view_format = k16kMonoPcm16\<rparr> :: frame_view"
  have ex: "ExpandCapacityIfNeed (AudioFrameLiteDelegate_format k48kMonoPcm16) 3 (replicate 3 0) = f"
    by (simp add: ExpandCapacityIfNeed_def AudioFrameLiteDelegate_format_def f_def)
  have e: "FrameSize (view_size ?src) (view_format ?src) = Some 1" "(1 = (0 :: nat)) = False"
    "format_eq (view_format ?src) (frame_format f) = False"
    "FormatConvertByteSize (view_size ?src) (view_format ?src) (frame_format f) = Some 6"
    "ResetReadableSizeInByte f 6 = f" "plane_offsets f = Some [0]" "CapacityInFrames f = Some 1"
    "PlanarData ?src = Some [[1, 2]]" "swr_ctx cv = Some ()"
    using fc by (simp_all add: FrameSize_def div_size_def format_facts f_def ResetReadableSizeInByte_def
        plane_offsets_def CapacityInFrames_def PlanarData_def ToPlanarData_def cv_def)
  have re': "fst (ReinitIfNeeded silent_swr (AudioConverterFFmpeg_new False) (view_format ?src) (frame_format f)) = cv"
    using re by (simp add: f_def cv_def)
  have so: "store_outputs f [0] [[]] = Some f" by (simp add: store_outputs_def f_def poke_def)
  have swr: "swr_convert silent_swr () (length [0 :: nat]) x y z = ((), [[]], 0)" for x y z
    by (simp add: silent_swr_def)
  have ad: "AdapterFfmpegOutputSamples (cv\<lparr>swr_ctx := Some ()\<rparr>) (nat 0) f = Some (cv\<lparr>first_frame := False\<rparr>, f)"
    by (simp add: AdapterFfmpegOutputSamples_def FrameSize_def div_size_def f_def format_facts cv_def)
  have co: "Convert silent_swr (AudioConverterFFmpeg_new False) ?src f = Some (cv\<lparr>first_frame := False\<rparr>, f, 0)"
    unfolding Convert_def e(1) bind.bind_lunit e(2) if_False e(3) Let_def re' e(4-9) swr prod.case so ad by simp
  have wc: "wrapper_Convert silent_swr (\<lambda>n. replicate n 0) (AudioConvertWrapper_new k48kMonoPcm16) k16kMonoPcm16 [1, 2] 2 =
      Some (\<lparr>wrapper_frame = f, wrapper_converter = cv\<lparr>first_frame := False\<rparr>\<rparr>, 0)"
    using need co ex by (simp add: wrapper_Convert_def wrapper_Convert_view_def AudioConvertWrapper_new_def)
      (simp add: AudioFrameLiteDelegate_format_def)
  have "\<exists>s. resample_writes silent_swr (\<lambda>n. replicate n 0) (log_sink k48kMonoPcm16) (AudioResampleAudioSink_new [])
      k16kMonoPcm16 [[1, 2]] = Some s"
    using wc by (simp add: resample_Write_def sink_wrapper_def log_sink_def AudioResampleAudioSink_new_def format_facts
        numeral_2_eq_2 split: prod.split)
  then obtain s where s: "resample_writes silent_swr (\<lambda>n. replicate n 0) (log_sink k48kMonoPcm16)
      (AudioResampleAudioSink_new []) k16kMonoPcm16 [[1, 2]] = Some s"
    by blast
  have "sink_state s = replicate (length [[1, 2 :: byte]]) []"
    by (rule upsampling_sink_starves [OF format_facts(1,2) _ _ _ s, of 1]) (simp_all add: format_facts)
  then show ?thesis using s by simp
qed

text \<open>
  A write of less than a frame, an empty one for example, hands the block of the previous write to
  the sink once more: the converter leaves its frame as it is and reports success.
\<close>

theorem stale_block_repeated:
  assumes fmt: "ValidPcmCheck info" "ValidPcmCheck wanted_info" "info \<noteq> wanted_info"
    and s: "sink_converter s = Some w" "frame_ok (wrapper_frame w)" "frame_format (wrapper_frame w) = wanted_info"
    and fresh: "\<forall>m. length (fresh m) = m" and n: "n < ByteSizePerFrame info"
  shows "\<exists>s' r. resample_Write api fresh (log_sink wanted_info) s data n info = Some (s', r) \<and>
    sink_state s' = sink_state s @ [readable (wrapper_frame w)]"
proof -
  have b: "ByteSizePerFrame info \<in> {2, 4, 8}" using valid_frame_size(1) [OF fmt(1)] .
  then have "n < 2 ^ 50" using n by auto
  from wrapper_need_value [OF fmt(1,2) this] obtain need where need: "wrapper_need wanted_info n info = Some need"
    and nv: "need = (n + ByteSizePerFrame info - 1) * ByteSizePerFrame wanted_info div ByteSizePerFrame info"
    by blast
  have "need \<le> (n + ByteSizePerFrame info - 1) * ByteSizePerFrame wanted_info" unfolding nv by (rule div_le_dividend)
  also have "\<dots> \<le> 16 * 8" using b n valid_frame_size(1) [OF fmt(2)] by (intro mult_le_mono) auto
  finally have small: "length (fresh need) < 2 ^ 63" using fresh by simp
  let ?f = "ExpandCapacityIfNeed (wrapper_frame w) need (fresh need)"
  have E: "frame_ok ?f" "readable ?f = readable (wrapper_frame w)"
    using expand_keeps [OF s(2) small] fresh by (simp_all add: frame_abs_def)
  let ?v = "\<lparr>view_data = data, view_size = n, view_format = info\<rparr>"
  have "FrameSize (view_size ?v) (view_format ?v) = Some 0"
    using n by (simp add: FrameSize_def div_size_def)
  then have "Convert api (wrapper_converter w) ?v ?f = Some (wrapper_converter w, ?f, 0)"
    by (simp add: Convert_def)
  then have "wrapper_Convert api fresh w info data n =
      Some (w\<lparr>wrapper_frame := ?f, wrapper_converter := wrapper_converter w\<rparr>, 0)"
    using need s(3) by (simp add: wrapper_Convert_def wrapper_Convert_view_def)
  moreover have "take (byte_size ?f) (case frame_Data ?f of None \<Rightarrow> [] | Some d \<Rightarrow> d) = readable ?f"
    using E(1) by (auto simp: frame_ok_def frame_Data_def readable_def)
  ultimately show ?thesis
    using fmt(3) s(1) E(2) by (simp add: resample_Write_def log_sink_def sink_wrapper_def write_converted_def)
qed

lemma stale_block_repeated_witness:
  "\<exists>s' r. resample_Write silent_swr (\<lambda>m. replicate m 0) (log_sink k48kMonoPcm16)
      \<lparr>sink_state = [], sink_converter = Some \<lparr>wrapper_frame = AudioFrameLiteDelegate_new [1, 2, 3, 4] 4 4 k48kMonoPcm16,
         wrapper_converter = AudioConverterFFmpeg_new False\<rparr>\<rparr> [] 0 k16kMonoPcm16 = Some (s', r) \<and>
    sink_state s' = [[1, 2, 3, 4]]"
proof -
  let ?f = "AudioFrameLiteDelegate_new [1, 2, 3, 4] 4 4 k48kMonoPcm16"
  let ?w = "\<lparr>wrapper_frame = ?f, wrapper_converter = AudioConverterFFmpeg_new False\<rparr> :: unit convert_wrapper"
  let ?s = "\<lparr>sink_state = [], sink_converter = Some ?w\<rparr> :: (byte list list, unit) resample_sink"
  have f: "frame_ok ?f" "frame_format ?f = k48kMonoPcm16" "readable ?f = [1, 2, 3, 4]"
    by (simp_all add: frame_ok_def AudioFrameLiteDelegate_new_def readable_def)
  have "\<exists>s' r. resample_Write silent_swr (\<lambda>m. replicate m 0) (log_sink k48kMonoPcm16) ?s [] 0 k16kMonoPcm16 = Some (s', r) \<and>
      sink_state s' = sink_state ?s @ [readable (wrapper_frame ?w)]"
    by (rule stale_block_repeated) (simp_all add: format_facts f)
  then show ?thesis using f(3) by simp
qed

subsection \<open>A source behind a converter\<close>

text \<open>
  The duration that \<open>AudioResampleAudioRawSource\<close> reports for what is left is that of the frames of
  the source at the sample rate of the target: it is off by the ratio of the two rates.
\<close>

theorem resampled_duration:
  assumes fmt: "ValidPcmCheck src" "ValidPcmCheck tar" and s: "inner_source r = Some s" "source_Format ops s = src"
    and n: "source_CurrentSize ops s = k * ByteSizePerFrame src" "k < 2 ^ 50"
  shows "resample_raw_CurrentSizeMs ops (r, tar) = Some (int k * 1000 div GetSampleRateToInt tar)"
proof -
  have b: "ByteSizePerFrame src \<in> {2, 4, 8}" "ByteSizePerFrame tar \<in> {2, 4, 8}"
    using valid_frame_size(1) fmt by blast+
  have "k * ByteSizePerFrame src * ByteSizePerFrame tar \<le> 2 ^ 50 * 8 * 8"
    using b n(2) by (intro mult_le_mono) auto
  then have u: "umul (k * ByteSizePerFrame src) (ByteSizePerFrame tar) = k * ByteSizePerFrame tar * ByteSizePerFrame src"
    by (simp add: umul_id ac_simps)
  have "resample_CurrentSize ops r tar = Some (k * ByteSizePerFrame tar)"
    using b by (auto simp: resample_CurrentSize_def s n(1) u div_size_def)
  moreover have "AudioByteSizeToMs tar (k * ByteSizePerFrame tar) = AudioFrameSizeToMs tar k"
    using b by (auto simp: AudioByteSizeToMs_def)
  ultimately show ?thesis using frames_to_ms [OF fmt(2) n(2)] by (simp add: resample_raw_CurrentSizeMs_def)
qed

definition still_source :: "nat raw_source_ops" where
  "still_source = \<lparr>source_Read = (\<lambda>s d n. Some (s, d, 0)), source_Discard = (\<lambda>s n. (s, 0)),
     source_CurrentSize = (\<lambda>s. s), source_Status = (\<lambda>s. kStatic), source_FillZeroFront = (\<lambda>s t. Some (s, 0)),
     source_Format = (\<lambda>s. k48kMonoPcm16)\<rparr>"

lemma resampled_duration_witness:
  "resample_raw_CurrentSizeMs still_source
     (\<lparr>inner_source = Some 96000, source_converter = AudioConverterFFmpeg_new True,
       frame_buffer = AudioFrameLiteDelegate_format k48kMonoPcm16\<rparr> :: (nat, unit) resample_source, k16kMonoPcm16) =
     Some 3000"
  by (subst resampled_duration [OF format_facts(2,1) _ _ _, of _ 96000 _ 48000])
    (simp_all add: still_source_def format_facts)

end
