(* ===== verification/AudioMixer.thy ===== *)
theory AudioMixer
  imports ResampleIo AudioFrameUtil
begin

text \<open>
  \<open>src/src/core/audio/audio_mixer_impl.cc\<close>: the mixer between the sources of the program and the audio
  device. The frames of the mixer hold packed 16-bit samples, which \<open>Read\<close> checks. The operations on
  floats and the limiter are arguments. The sources are kept in an unordered map; it is the list of
  its entries in the order in which the map is walked, and \<open>AddSource\<close> is given the place where the
  map puts the new entry. \<open>None\<close> is the use of an iterator at the end of the map, or a call of a
  source or of the converter that does not return.
\<close>

subsection \<open>Bytes and 16-bit samples\<close>

fun s16_of_bytes :: "byte list \<Rightarrow> int list" where
  "s16_of_bytes (lo # hi # bs) = s16 (int (unat lo) + 256 * int (unat hi)) # s16_of_bytes bs"
| "s16_of_bytes [b] = []"
| "s16_of_bytes [] = []"

definition bytes_of_s16 :: "int list \<Rightarrow> byte list" where
  "bytes_of_s16 xs = concat (map (\<lambda>x. [word_of_int x, word_of_int (x div 256)]) xs)"

lemma s16_bytes_roundtrip:
  assumes "\<forall>x\<in>set xs. - (2 ^ 15) \<le> x \<and> x < 2 ^ 15"
  shows "s16_of_bytes (bytes_of_s16 xs) = xs"
  using assms
proof (induction xs)
  case Nil
  then show ?case by (simp add: bytes_of_s16_def)
next
  case (Cons x xs)
  have "int (unat (word_of_int x :: byte)) = x mod 256" "int (unat (word_of_int (x div 256) :: byte)) = x div 256 mod 256"
    by (simp_all add: unsigned_of_int take_bit_eq_mod)
  moreover have "x mod 256 + 256 * (x div 256 mod 256) = x mod 65536"
    using mod_mult2_eq' [of x 256 256] by simp
  moreover have "s16 (x mod 65536) = s16 x" by (simp add: s16_def mod_add_left_eq)
  moreover have "s16 x = x" using Cons.prems by (intro s16_id) simp_all
  ultimately show ?case using Cons by (simp add: bytes_of_s16_def)
qed

lemma length_s16_of_bytes: "length (s16_of_bytes bs) = length bs div 2"
  by (induction bs rule: s16_of_bytes.induct) simp_all

lemma length_bytes_of_s16: "length (bytes_of_s16 xs) = 2 * length xs"
  by (induction xs) (simp_all add: bytes_of_s16_def)

subsection \<open>The mixer\<close>

record ('s, 'c, 'f) source_wrapper =
  audio_resample_audio_source :: "('s, 'c) resample_source"
  start_gain :: 'f
  end_gain :: 'f

text \<open>
  What the mixer uses: libswresample and new memory for the converters, the sources, the operations
  on floats, and the limiter, a function of the number of samples per channel, the channels and the
  planar samples.
\<close>

record ('s, 'c, 'f, 'l) mixer_env =
  env_swr :: "'c swr_api"
  env_fresh :: "nat \<Rightarrow> byte list"
  env_source :: "'s raw_source_ops"
  env_float :: "'f float_ops"
  f_zero :: 'f
  f_one :: 'f
  gain_scale :: "'f \<Rightarrow> int \<Rightarrow> int"
  gain_increment :: "'f \<Rightarrow> 'f \<Rightarrow> nat \<Rightarrow> 'f"
  limiter_Process :: "'l \<Rightarrow> nat \<Rightarrow> nat \<Rightarrow> 'f list \<Rightarrow> 'l \<times> 'f list"

record ('s, 'c, 'f, 'l) mixer =
  source_map :: "(nat \<times> ('s, 'c, 'f) source_wrapper) list"
  last_audio_format_info :: AudioFormatInfo
  limiter :: 'l
  mix_buffer :: "'f list"
  read_buffer :: "byte list"

definition AudioMixerImpl_new :: "'l \<Rightarrow> ('s, 'c, 'f, 'l) mixer" where
  "AudioMixerImpl_new l =
     \<lparr>source_map = [], last_audio_format_info = kNullAudioFormatInfo, limiter = l, mix_buffer = [], read_buffer = []\<rparr>"

definition SourceWrapper_new :: "('s, 'c, 'f, 'l) mixer_env \<Rightarrow> 's \<Rightarrow> ('s, 'c, 'f) source_wrapper" where
  "SourceWrapper_new E s =
     \<lparr>audio_resample_audio_source = AudioResampleAudioSource_new (env_fresh E) (env_source E) (Some s),
      start_gain = f_zero E, end_gain = f_one E\<rparr>"

definition mixer_AddSource :: "('s, 'c, 'f, 'l) mixer_env \<Rightarrow> nat \<Rightarrow> ('s, 'c, 'f, 'l) mixer \<Rightarrow> nat \<Rightarrow> 's \<Rightarrow>
    ('s, 'c, 'f, 'l) mixer \<times> int" where
  "mixer_AddSource E place m source s =
     (if source \<in> fst ` set (source_map m) then (m, - 1)
      else (m\<lparr>source_map := take place (source_map m) @ (source, SourceWrapper_new E s) # drop place (source_map m)\<rparr>, 0))"

definition mixer_RemoveSource :: "('s, 'c, 'f, 'l) mixer \<Rightarrow> nat \<Rightarrow> ('s, 'c, 'f, 'l) mixer \<times> int" where
  "mixer_RemoveSource m source =
     (if source \<notin> fst ` set (source_map m) then (m, - 1)
      else (m\<lparr>source_map := filter (\<lambda>e. fst e \<noteq> source) (source_map m)\<rparr>, 0))"

definition mixer_SourceCount :: "('s, 'c, 'f, 'l) mixer \<Rightarrow> nat" where
  "mixer_SourceCount m = length (source_map m)"

text \<open>\<open>audio_util::Ramp\<close> on the bytes of a frame of packed 16-bit samples.\<close>

definition ramp_frame :: "('s, 'c, 'f, 'l) mixer_env \<Rightarrow> 'f \<Rightarrow> 'f \<Rightarrow> audio_frame \<Rightarrow> audio_frame option" where
  "ramp_frame E g0 g1 f =
     do {
       d \<leftarrow> frame_block f;
       frames \<leftarrow> FrameSize (byte_size f) (frame_format f);
       let channels = nat (GetChannelsCount (frame_format f)); n = 2 * (frames * channels) in
       Some (f\<lparr>frame_block := Some (mem_write d 0 (bytes_of_s16
         (Ramp (f_add (env_float E)) (gain_scale E) g0 g1 (gain_increment E g0 g1 frames)
           (s16_of_bytes (take n d)) frames channels False)))\<rparr>)
     }"

definition set_wrapper :: "('s, 'c, 'f, 'l) mixer \<Rightarrow> nat \<Rightarrow> ('s, 'c, 'f) source_wrapper \<Rightarrow> ('s, 'c, 'f, 'l) mixer" where
  "set_wrapper m source w =
     m\<lparr>source_map := map (\<lambda>e. if fst e = source then (source, w) else e) (source_map m)\<rparr>"

definition ReadFrame :: "('s, 'c, 'f, 'l) mixer_env \<Rightarrow> ('s, 'c, 'f, 'l) mixer \<Rightarrow> nat \<Rightarrow> audio_frame \<Rightarrow> nat list \<Rightarrow>
    (('s, 'c, 'f, 'l) mixer \<times> audio_frame \<times> nat list \<times> nat) option" where
  "ReadFrame E m source f remove_list =
     do {
       w \<leftarrow> map_of (source_map m) source;
       d \<leftarrow> frame_block f;
       (r, d, k) \<leftarrow> resample_Read (env_swr E) (env_fresh E) (env_source E) (audio_resample_audio_source w) d
         (capacity_in_byte f) (frame_format f);
       let f = f\<lparr>frame_block := Some d\<rparr>; w = w\<lparr>audio_resample_audio_source := r\<rparr>;
           finished = k < capacity_in_byte f \<and> resample_GetSourceStatus (env_source E) r = kStatic;
           w = (if finished then w\<lparr>start_gain := f_one E, end_gain := f_zero E\<rparr> else w);
           remove_list = (if finished then remove_list @ [fst (hd (source_map m))] else remove_list) in
       do {
         f \<leftarrow> (if start_gain w \<noteq> end_gain w then ramp_frame E (start_gain w) (end_gain w) f else Some f);
         Some (set_wrapper m source (w\<lparr>start_gain := end_gain w\<rparr>), f, remove_list, k)
       }
     }"

text \<open>The loop over the sources: each one is read into the same buffer and added to the mix.\<close>

fun mix_sources :: "('s, 'c, 'f, 'l) mixer_env \<Rightarrow> nat list \<Rightarrow> ('s, 'c, 'f, 'l) mixer \<Rightarrow> audio_frame \<Rightarrow> nat \<Rightarrow> nat \<Rightarrow>
    nat list \<Rightarrow> (('s, 'c, 'f, 'l) mixer \<times> audio_frame \<times> nat list) option" where
  "mix_sources E [] m f frames samples remove_list = Some (m, f, remove_list)"
| "mix_sources E (source # sources) m f frames samples remove_list =
     do {
       (m, f, remove_list, k) \<leftarrow> ReadFrame E m source f remove_list;
       d \<leftarrow> frame_block f;
       let m = m\<lparr>mix_buffer := AudioFrameToFloatS16 (env_float E) (S16 (s16_of_bytes (take (byte_size f) d)))
             (frame_format f) frames samples (mix_buffer m) True True\<rparr> in
       mix_sources E sources m f frames samples remove_list
     }"

text \<open>
  \<open>resize\<close> when the capacity is too small; the capacity of a vector is taken to be its size, as it is after
  the first \<open>resize\<close>.
\<close>

definition grow :: "'a \<Rightarrow> 'a list \<Rightarrow> nat \<Rightarrow> 'a list" where
  "grow zero xs n = (if length xs < n then xs @ replicate (n - length xs) zero else xs)"

text \<open>The buffers before the loop.\<close>

definition mix_prepare :: "('s, 'c, 'f, 'l) mixer_env \<Rightarrow> ('s, 'c, 'f, 'l) mixer \<Rightarrow> AudioFormatInfo \<Rightarrow> nat \<Rightarrow> nat \<Rightarrow>
    ('s, 'c, 'f, 'l) mixer" where
  "mix_prepare E m info samples bytes =
     (let m = (if info \<noteq> last_audio_format_info m then m\<lparr>last_audio_format_info := info\<rparr> else m)
      in m\<lparr>mix_buffer := map (\<lambda>x. f_zero E) (grow (f_zero E) (mix_buffer m) samples),
           read_buffer := grow 0 (read_buffer m) bytes\<rparr>)"

definition mix_all :: "('s, 'c, 'f, 'l) mixer_env \<Rightarrow> ('s, 'c, 'f, 'l) mixer \<Rightarrow> audio_frame \<Rightarrow>
    (('s, 'c, 'f, 'l) mixer \<times> audio_frame \<times> nat list) option" where
  "mix_all E m f =
     do {
       samples \<leftarrow> SampleSize (byte_size f) (frame_format f);
       frames \<leftarrow> FrameSize (byte_size f) (frame_format f);
       let info = frame_format f; m = mix_prepare E m info samples (byte_size f);
           delegate = AudioFrameLiteDelegate_new (read_buffer m) (byte_size f) (length (read_buffer m)) info;
           channels = nat (GetChannelsCount info) in
       do {
         (m, delegate, remove_list) \<leftarrow> mix_sources E (map fst (source_map m)) m delegate frames samples [];
         rb \<leftarrow> frame_block delegate;
         d \<leftarrow> frame_block f;
         let (l, out) = limiter_Process E (limiter m) frames channels (take (frames * channels) (mix_buffer m));
             m = m\<lparr>read_buffer := rb, limiter := l, mix_buffer := mem_write (mix_buffer m) 0 out\<rparr> in
         case FloatS16ToAudioFrame (env_float E) (mix_buffer m) samples True info frames
             (S16 (s16_of_bytes (take (byte_size f) d))) of
           S16 xs \<Rightarrow> Some (m, f\<lparr>frame_block := Some (mem_write d 0 (bytes_of_s16 xs))\<rparr>, remove_list)
         | Flt xs \<Rightarrow> None
       }
     }"

text \<open>The end of the list of entries is dereferenced when a source is to be removed twice.\<close>

fun remove_sources :: "(nat \<times> 'w) list \<Rightarrow> nat list \<Rightarrow> (nat \<times> 'w) list option" where
  "remove_sources entries [] = Some entries"
| "remove_sources entries (source # sources) =
     (if source \<in> fst ` set entries then remove_sources (filter (\<lambda>e. fst e \<noteq> source) entries) sources else None)"

text \<open>
  The result of a read: the mixer, the block, the size, the sources whose removal is reported, and
  whether it is reported that none is left.
\<close>

definition MixFrame :: "('s, 'c, 'f, 'l) mixer_env \<Rightarrow> ('s, 'c, 'f, 'l) mixer \<Rightarrow> byte list \<Rightarrow> nat \<Rightarrow> AudioFormatInfo \<Rightarrow>
    (('s, 'c, 'f, 'l) mixer \<times> byte list \<times> nat \<times> nat list \<times> bool) option" where
  "MixFrame E m data should_read_size info =
     (let f = AudioFrameLiteDelegate_new data should_read_size should_read_size info
      in do {
        (m, f, remove_list, read_size) \<leftarrow>
          (if mixer_SourceCount m = 0 then Some (m, f, [], 0)
           else if mixer_SourceCount m = 1 then
             map_option (\<lambda>(m, f, rl, k). (m, f, rl, int_of_size k)) (ReadFrame E m (fst (hd (source_map m))) f [])
           else map_option (\<lambda>(m, f, rl). (m, f, rl, int_of_size (byte_size f))) (mix_all E m f));
        entries \<leftarrow> remove_sources (source_map m) remove_list;
        d \<leftarrow> frame_block f;
        Some (m\<lparr>source_map := entries\<rparr>, d, size_of_int read_size, remove_list, entries = [])
      })"

definition mixer_Read :: "('s, 'c, 'f, 'l) mixer_env \<Rightarrow> ('s, 'c, 'f, 'l) mixer \<Rightarrow> byte list \<Rightarrow> nat \<Rightarrow> AudioFormatInfo \<Rightarrow>
    (('s, 'c, 'f, 'l) mixer \<times> byte list \<times> nat \<times> nat list \<times> bool) option" where
  "mixer_Read E m data read_size info =
     (if \<not> ValidPcmInt16Check info \<or> read_size = 0 then Some (m, data, 0, [], False)
      else MixFrame E m data read_size info)"

subsection \<open>Reading the sources\<close>

abbreviation read_wrapper where
  "read_wrapper E w d n info \<equiv> resample_Read (env_swr E) (env_fresh E) (env_source E) (audio_resample_audio_source w) d n info"

lemma ReadFrame_plain:
  assumes "map_of (source_map m) p = Some w" "frame_block f = Some d" "start_gain w = end_gain w"
    and "read_wrapper E w d (capacity_in_byte f) (frame_format f) = Some (r, d', k)"
    and "\<not> (k < capacity_in_byte f \<and> resample_GetSourceStatus (env_source E) r = kStatic)"
  shows "ReadFrame E m p f rl =
    Some (set_wrapper m p (w\<lparr>audio_resample_audio_source := r\<rparr>), f\<lparr>frame_block := Some d'\<rparr>, rl, k)"
proof -
  have fin: "(k < capacity_in_byte f \<and> resample_GetSourceStatus (env_source E) r = kStatic) = False"
    using assms(5) by blast
  have cap: "capacity_in_byte (f\<lparr>frame_block := Some d'\<rparr>) = capacity_in_byte f" by simp
  let ?w = "w\<lparr>audio_resample_audio_source := r\<rparr>"
  have g: "(start_gain ?w \<noteq> end_gain ?w) = False" "?w\<lparr>start_gain := end_gain ?w\<rparr> = ?w"
    using assms(3) by (cases w, simp)+
  show ?thesis unfolding ReadFrame_def assms(1,2) bind.bind_lunit assms(4) prod.case Let_def cap fin if_False g ..
qed

lemma ReadFrame_finished:
  assumes "map_of (source_map m) p = Some w" "frame_block f = Some d"
    and "read_wrapper E w d (capacity_in_byte f) (frame_format f) = Some (r, d', k)"
    and "k < capacity_in_byte f" "resample_GetSourceStatus (env_source E) r = kStatic"
    and "FrameSize (byte_size f) (frame_format f) = Some n"
  obtains d'' w' where "ReadFrame E m p f rl =
    Some (set_wrapper m p w', f\<lparr>frame_block := Some d''\<rparr>, rl @ [fst (hd (source_map m))], k)"
proof -
  let ?f = "f\<lparr>frame_block := Some d'\<rparr>" and ?w = "w\<lparr>audio_resample_audio_source := r\<rparr>\<lparr>start_gain := f_one E, end_gain := f_zero E\<rparr>"
  have fin: "(k < capacity_in_byte f \<and> resample_GetSourceStatus (env_source E) r = kStatic) = True"
    using assms(4,5) by blast
  have "\<exists>d''. ramp_frame E (start_gain ?w) (end_gain ?w) ?f = Some (f\<lparr>frame_block := Some d''\<rparr>)"
    using assms(6) by (auto simp: ramp_frame_def Let_def)
  then obtain d'' where d: "(if start_gain ?w \<noteq> end_gain ?w then ramp_frame E (start_gain ?w) (end_gain ?w) ?f else Some ?f) =
      Some (f\<lparr>frame_block := Some d''\<rparr>)"
    by (cases "start_gain ?w = end_gain ?w") auto
  have cap: "capacity_in_byte ?f = capacity_in_byte f" by simp
  have "ReadFrame E m p f rl =
      Some (set_wrapper m p (?w\<lparr>start_gain := end_gain ?w\<rparr>), f\<lparr>frame_block := Some d''\<rparr>, rl @ [fst (hd (source_map m))], k)"
    unfolding ReadFrame_def assms(1,2) bind.bind_lunit assms(3) prod.case Let_def cap fin if_True d bind.bind_lunit ..
  then show ?thesis by (rule that)
qed

lemma set_wrapper_keys [simp]: "map fst (source_map (set_wrapper m p w)) = map fst (source_map m)"
  by (simp add: set_wrapper_def comp_def if_distrib cong: if_cong)

lemma set_wrapper_other:
  assumes "q \<noteq> p"
  shows "map_of (source_map (set_wrapper m p w)) q = map_of (source_map m) q"
proof -
  have "map_of (map (\<lambda>e. if fst e = p then (p, w) else e) es) q = map_of es q" for es
    using assms by (induction es) auto
  then show ?thesis by (simp add: set_wrapper_def)
qed

lemma set_wrapper_first: "fst (hd (source_map (set_wrapper m p w))) = fst (hd (source_map m))"
  if "source_map m \<noteq> []"
  using that by (cases "source_map m") (simp_all add: set_wrapper_def)

text \<open>
  The blocks that the buffer holds after each of the sources, where none of them is finished and no
  gain changes.
\<close>

fun steady_reads :: "('s, 'c, 'f, 'l) mixer_env \<Rightarrow> (nat \<rightharpoonup> ('s, 'c, 'f) source_wrapper) \<Rightarrow> nat \<Rightarrow> AudioFormatInfo \<Rightarrow>
    byte list \<Rightarrow> (nat \<times> byte list) list \<Rightarrow> bool" where
  "steady_reads E ws cap info d [] \<longleftrightarrow> True"
| "steady_reads E ws cap info d ((p, d') # steps) \<longleftrightarrow>
     (\<exists>w r k. ws p = Some w \<and> start_gain w = end_gain w \<and> read_wrapper E w d cap info = Some (r, d', k) \<and>
        \<not> (k < cap \<and> resample_GetSourceStatus (env_source E) r = kStatic)) \<and>
     steady_reads E ws cap info d' steps"

lemma steady_reads_cong:
  "\<forall>p\<in>fst ` set steps. ws p = ws' p \<Longrightarrow> steady_reads E ws cap info d steps = steady_reads E ws' cap info d steps"
  by (induction steps arbitrary: d) auto

definition added :: "('s, 'c, 'f, 'l) mixer_env \<Rightarrow> AudioFormatInfo \<Rightarrow> nat \<Rightarrow> nat \<Rightarrow> nat \<Rightarrow> 'f list \<Rightarrow> byte list \<Rightarrow> 'f list" where
  "added E info frames samples n acc d =
     AudioFrameToFloatS16 (env_float E) (S16 (s16_of_bytes (take n d))) info frames samples acc True True"

lemma mix_sources_steady:
  assumes "steady_reads E (map_of (source_map m)) (capacity_in_byte f) (frame_format f) d steps"
    and "distinct (map fst steps)" and "frame_block f = Some d"
  obtains m' where "mix_sources E (map fst steps) m f frames samples rl =
      Some (m', f\<lparr>frame_block := Some (last (d # map snd steps))\<rparr>, rl)"
    "mix_buffer m' = foldl (added E (frame_format f) frames samples (byte_size f)) (mix_buffer m) (map snd steps)"
    "map fst (source_map m') = map fst (source_map m)" "limiter m' = limiter m"
  using assms
proof (induction steps arbitrary: m f d thesis)
  case Nil
  then show ?case by (intro Nil.prems(1) [of m]) simp_all
next
  case (Cons step steps)
  obtain p d' where step: "step = (p, d')" by (cases step)
  obtain w r k where R: "map_of (source_map m) p = Some w" "start_gain w = end_gain w"
    "read_wrapper E w d (capacity_in_byte f) (frame_format f) = Some (r, d', k)"
    "\<not> (k < capacity_in_byte f \<and> resample_GetSourceStatus (env_source E) r = kStatic)"
    and rest: "steady_reads E (map_of (source_map m)) (capacity_in_byte f) (frame_format f) d' steps"
    using Cons.prems(2) by (auto simp: step)
  let ?m1 = "set_wrapper m p (w\<lparr>audio_resample_audio_source := r\<rparr>)" and ?f1 = "f\<lparr>frame_block := Some d'\<rparr>"
  let ?m2 = "?m1\<lparr>mix_buffer := added E (frame_format f) frames samples (byte_size f) (mix_buffer m) d'\<rparr>"
  have rd: "ReadFrame E m p f rl = Some (?m1, ?f1, rl, k)"
    by (rule ReadFrame_plain [OF R(1) Cons.prems(4) R(2-4)])
  have p: "p \<notin> fst ` set steps" using Cons.prems(3) by (simp add: step)
  have "steady_reads E (map_of (source_map ?m2)) (capacity_in_byte ?f1) (frame_format ?f1) d' steps"
  proof (subst steady_reads_cong [where ws' = "map_of (source_map m)"])
    show "\<forall>q\<in>fst ` set steps. map_of (source_map ?m2) q = map_of (source_map m) q"
      using p by (auto intro!: set_wrapper_other)
  qed (use rest in simp)
  then obtain m' where M: "mix_sources E (map fst steps) ?m2 ?f1 frames samples rl =
      Some (m', ?f1\<lparr>frame_block := Some (last (d' # map snd steps))\<rparr>, rl)"
    "mix_buffer m' = foldl (added E (frame_format f) frames samples (byte_size f)) (mix_buffer ?m2) (map snd steps)"
    "map fst (source_map m') = map fst (source_map ?m2)" "limiter m' = limiter ?m2"
    using Cons.IH [of ?m2 ?f1 d'] Cons.prems(3) by (auto simp: step)
  have mb: "mix_buffer ?m1 = mix_buffer m" "limiter ?m1 = limiter m" by (simp_all add: set_wrapper_def)
  have "mix_sources E (map fst (step # steps)) m f frames samples rl =
      Some (m', f\<lparr>frame_block := Some (last (d # map snd (step # steps)))\<rparr>, rl)"
    using M(1) rd mb by (simp add: step added_def)
  then show ?case using M(2-4) mb by (intro Cons.prems(1) [of m']) (simp_all add: step)
qed

subsection \<open>The mix\<close>

lemma int16_format:
  assumes "ValidPcmInt16Check info"
  shows "\<not> IsPlanner info" "nat (GetChannelsCount info) \<in> {1, 2}" "ByteSizePerSample (audio_sample_format info) = 2"
    "ByteSizePerFrame info = nat (GetChannelsCount info) * 2"
proof -
  have f: "audio_sample_format info = kAudioSampleFormatPcmInt16" "channel_layout info = kMono \<or> channel_layout info = kStereo"
    using assms by (cases "channel_layout info"; simp add: ValidPcmInt16Check_def)+
  then show "\<not> IsPlanner info" and s: "ByteSizePerSample (audio_sample_format info) = 2"
    by (simp_all add: IsPlanner_def format_lookups format_tables)
  have c: "GetChannelsCount info = 1 \<or> GetChannelsCount info = 2"
    using f(2) by (auto simp: GetChannelsCount_def format_lookups format_tables)
  then show "nat (GetChannelsCount info) \<in> {1, 2}" by auto
  show "ByteSizePerFrame info = nat (GetChannelsCount info) * 2"
    using c s by (auto simp: ByteSizePerFrame_def size_of_int_def umul_def)
qed

lemma take_s16: "s16_of_bytes (take (2 * n) d) = take n (s16_of_bytes d)"
proof (induction d arbitrary: n rule: s16_of_bytes.induct)
  case (1 lo hi bs)
  then show ?case by (cases n) simp_all
next
  case (2 b)
  then show ?case by (cases n) simp_all
qed simp

lemma added_nth:
  assumes info: "ValidPcmInt16Check info" and c: "c = nat (GetChannelsCount info)" and b: "ch < c" "i < frames"
    and len: "frames * c \<le> length acc"
  shows "added E info frames samples (frames * c * 2) acc d ! (frames * ch + i) =
      f_add (env_float E) (acc ! (frames * ch + i)) (S16ToFloatS16 (env_float E) (s16_of_bytes d ! (c * i + ch)))"
    "length (added E info frames samples (frames * c * 2) acc d) = length acc"
proof -
  note I = int16_format [OF info]
  have "c * i + ch < frames * c" using grid_bound [OF b(2) b(1)] by (simp add: mult.commute)
  then have "s16_of_bytes (take (frames * c * 2) d) ! (c * i + ch) = s16_of_bytes d ! (c * i + ch)"
    using take_s16 [of "frames * c" d] by (simp add: mult.commute)
  then show "added E info frames samples (frames * c * 2) acc d ! (frames * ch + i) =
      f_add (env_float E) (acc ! (frames * ch + i)) (S16ToFloatS16 (env_float E) (s16_of_bytes d ! (c * i + ch)))"
    using grid_update [OF b, of acc] len I(1)
    by (simp add: added_def AudioFrameToFloatS16_def Let_def interleaved_to_planar_def mult.commute [of _ frames] store_def
        flip: c)
  show "length (added E info frames samples (frames * c * 2) acc d) = length acc"
    using I(1) by (simp add: added_def AudioFrameToFloatS16_def Let_def interleaved_to_planar_def)
qed

lemma sum_nth:
  assumes "ValidPcmInt16Check info" and "c = nat (GetChannelsCount info)" and "ch < c" "i < frames"
    and "frames * c \<le> length acc"
  shows "foldl (added E info frames samples (frames * c * 2)) acc ds ! (frames * ch + i) =
      foldl (\<lambda>a d. f_add (env_float E) a (S16ToFloatS16 (env_float E) (s16_of_bytes d ! (c * i + ch))))
        (acc ! (frames * ch + i)) ds \<and>
    length (foldl (added E info frames samples (frames * c * 2)) acc ds) = length acc"
  using assms(5)
proof (induction ds arbitrary: acc)
  case (Cons d ds)
  note A = added_nth [OF assms(1-4) Cons.prems, of E samples d]
  then show ?case using Cons.IH [of "added E info frames samples (frames * c * 2) acc d"] Cons.prems by simp
qed simp

lemma sum_length:
  assumes "ValidPcmInt16Check info"
  shows "length (foldl (added E info frames samples n) acc ds) = length acc"
  using int16_format(1) [OF assms]
  by (induction ds arbitrary: acc) (simp_all add: added_def AudioFrameToFloatS16_def Let_def interleaved_to_planar_def)

text \<open>The samples of the frame that the mix is stored to.\<close>

lemma stored_mix:
  assumes info: "ValidPcmInt16Check info" and c: "c = nat (GetChannelsCount info)"
    and range: "\<forall>x. - (2 ^ 15) \<le> FloatS16ToS16 ops x \<and> FloatS16ToS16 ops x < 2 ^ 15"
    and d: "length d = frames * c * 2"
  obtains xs where "FloatS16ToAudioFrame ops mix n True info frames (S16 (s16_of_bytes d)) = S16 xs"
    "length xs = frames * c" "s16_of_bytes (bytes_of_s16 xs) = xs"
    "\<And>ch i. ch < c \<Longrightarrow> i < frames \<Longrightarrow> xs ! (c * i + ch) = FloatS16ToS16 ops (mix ! (frames * ch + i))"
proof -
  define xs where "xs = planar_to_interleaved s16_add (FloatS16ToS16 ops) mix (s16_of_bytes d) frames c False"
  have len: "length (s16_of_bytes d) = frames * c" using d by (simp add: length_s16_of_bytes)
  have "length xs = frames * c" using len by (simp add: xs_def planar_to_interleaved_def)
  moreover have v: "xs ! (c * i + ch) = FloatS16ToS16 ops (mix ! (frames * ch + i))" if "ch < c" "i < frames" for ch i
    using planar_to_interleaved_nth [OF that len, of s16_add "FloatS16ToS16 ops" mix False]
    by (simp add: xs_def store_def mult.commute)
  moreover have "FloatS16ToAudioFrame ops mix n True info frames (S16 (s16_of_bytes d)) = S16 xs"
    using int16_format(1) [OF info] by (simp add: FloatS16ToAudioFrame_def xs_def c Let_def)
  moreover have "s16_of_bytes (bytes_of_s16 xs) = xs"
  proof (rule s16_bytes_roundtrip, rule ballI)
    fix x assume "x \<in> set xs"
    then obtain j where j: "j < frames * c" "x = xs ! j" using \<open>length xs = frames * c\<close> by (auto simp: in_set_conv_nth)
    obtain i ch where "j = c * i + ch" "i < frames" "ch < c" by (rule grid_index [OF j(1)])
    then show "- (2 ^ 15) \<le> x \<and> x < 2 ^ 15" using v [of ch i] range j(2) by simp
  qed
  ultimately show ?thesis using that by blast
qed

lemma mix_prepare_fields:
  "source_map (mix_prepare E m info k n) = source_map m" "limiter (mix_prepare E m info k n) = limiter m"
  "read_buffer (mix_prepare E m info k n) = grow 0 (read_buffer m) n"
  "k \<le> length (mix_buffer (mix_prepare E m info k n))"
  "j < k \<Longrightarrow> mix_buffer (mix_prepare E m info k n) ! j = f_zero E"
  by (simp_all add: mix_prepare_def Let_def grow_def)

definition mix_delegate :: "byte list \<Rightarrow> nat \<Rightarrow> AudioFormatInfo \<Rightarrow> audio_frame" where
  "mix_delegate rb n info = AudioFrameLiteDelegate_new rb n (length rb) info"

text \<open>What follows the loop over the sources.\<close>

lemma mix_all_after:
  assumes info: "ValidPcmInt16Check info" and c: "c = nat (GetChannelsCount info)" and n: "n = frames * c * 2"
    and f: "f = AudioFrameLiteDelegate_new data n n info" "length data = n"
    and m0: "m0 = mix_prepare E m info (frames * c) n"
    and loop: "mix_sources E (map fst (source_map m)) m0 (mix_delegate (read_buffer m0) n info) frames (frames * c) [] =
      Some (m1, g, rl)" "frame_block g = Some rb"
    and lim: "limiter_Process E (limiter m1) frames c (take (frames * c) (mix_buffer m1)) = (l, out)"
    and xs: "FloatS16ToAudioFrame (env_float E) (mem_write (mix_buffer m1) 0 out) (frames * c) True info frames
      (S16 (s16_of_bytes data)) = S16 xs"
  shows "mix_all E m f = Some (m1\<lparr>read_buffer := rb, limiter := l, mix_buffer := mem_write (mix_buffer m1) 0 out\<rparr>,
    f\<lparr>frame_block := Some (mem_write data 0 (bytes_of_s16 xs))\<rparr>, rl)"
proof -
  note I = int16_format [OF info, folded c]
  have bs: "byte_size f = n" "frame_format f = info" "frame_block f = Some data" using f by (simp_all add: AudioFrameLiteDelegate_new_def)
  have sz: "SampleSize n info = Some (frames * c)" "FrameSize n info = Some frames"
    using I unfolding n by (auto simp: SampleSize_def FrameSize_def div_size_def)
  have tk: "take n data = data" using f(2) by simp
  have src: "source_map m0 = source_map m" unfolding m0 by (rule mix_prepare_fields)
  have mb: "mix_buffer (m1\<lparr>read_buffer := rb, limiter := l, mix_buffer := mem_write (mix_buffer m1) 0 out\<rparr>) =
    mem_write (mix_buffer m1) 0 out" by simp
  show ?thesis
    unfolding mix_all_def bs sz bind.bind_lunit Let_def m0 [symmetric] src mix_delegate_def [symmetric] loop
      prod.case c [symmetric] lim mb tk xs samples.case ..
qed

lemma mix_all_steady:
  assumes info: "ValidPcmInt16Check info" and c: "c = nat (GetChannelsCount info)" and n: "n = frames * c * 2"
    and f: "f = AudioFrameLiteDelegate_new data n n info" "length data = n"
    and rb: "rb = grow 0 (read_buffer m) n"
    and reads: "steady_reads E (map_of (source_map m)) (length rb) info rb steps" "map fst steps = map fst (source_map m)"
      "distinct (map fst steps)"
    and lim: "\<forall>l a b xs. length (snd (limiter_Process E l a b xs)) = length xs"
    and range: "\<forall>x. - (2 ^ 15) \<le> FloatS16ToS16 (env_float E) x \<and> FloatS16ToS16 (env_float E) x < 2 ^ 15"
  obtains m' d mix where "mix_all E m f = Some (m', f\<lparr>frame_block := Some d\<rparr>, [])"
    "map fst (source_map m') = map fst (source_map m)" "length mix = frames * c"
    "\<And>ch i. ch < c \<Longrightarrow> i < frames \<Longrightarrow> mix ! (frames * ch + i) =
        foldl (\<lambda>a d. f_add (env_float E) a (S16ToFloatS16 (env_float E) (s16_of_bytes d ! (c * i + ch)))) (f_zero E)
          (map snd steps)"
    "\<And>ch i. ch < c \<Longrightarrow> i < frames \<Longrightarrow> s16_of_bytes d ! (c * i + ch) =
        FloatS16ToS16 (env_float E) (snd (limiter_Process E (limiter m) frames c mix) ! (frames * ch + i))"
proof -
  define m0 where "m0 = mix_prepare E m info (frames * c) n"
  note P = mix_prepare_fields [where E = E and m = m and info = info and k = "frames * c" and n = n, folded m0_def]
  let ?D = "mix_delegate rb n info"
  have D: "capacity_in_byte ?D = length rb" "frame_format ?D = info" "frame_block ?D = Some rb" "byte_size ?D = n"
    by (simp_all add: mix_delegate_def AudioFrameLiteDelegate_new_def rb grow_def)
  have "steady_reads E (map_of (source_map m0)) (capacity_in_byte ?D) (frame_format ?D) rb steps"
    using reads(1) P D by simp
  from mix_sources_steady [OF this reads(3) D(3)] obtain m1 where M: "mix_sources E (map fst steps) m0 ?D frames (frames * c) [] =
      Some (m1, ?D\<lparr>frame_block := Some (last (rb # map snd steps))\<rparr>, [])"
    "mix_buffer m1 = foldl (added E info frames (frames * c) n) (mix_buffer m0) (map snd steps)"
    "map fst (source_map m1) = map fst (source_map m)" "limiter m1 = limiter m"
    unfolding D P(1,2) by metis
  define mix where "mix = take (frames * c) (mix_buffer m1)"
  have lm: "length (mix_buffer m1) = length (mix_buffer m0)" unfolding M(2) by (rule sum_length [OF info])
  have mixl: "length mix = frames * c" using P(4) lm by (simp add: mix_def)
  have idx: "frames * ch + i < frames * c" if "ch < c" "i < frames" for ch i
    using grid_bound [OF that] by (simp add: mult.commute)
  have mixv: "mix ! (frames * ch + i) = foldl (\<lambda>a d. f_add (env_float E) a
      (S16ToFloatS16 (env_float E) (s16_of_bytes d ! (c * i + ch)))) (f_zero E) (map snd steps)"
    if "ch < c" "i < frames" for ch i
    using sum_nth [OF info c that P(4), of E "frames * c" "map snd steps"] idx [OF that] P(5)
    by (simp add: mix_def M(2) n)
  obtain l out where lo: "limiter_Process E (limiter m) frames c mix = (l, out)"
    by (cases "limiter_Process E (limiter m) frames c mix") auto
  have ol: "length out = frames * c" using lim mixl lo by (metis snd_conv)
  have mbv: "mem_write (mix_buffer m1) 0 out ! j = out ! j" if "j < frames * c" for j
    using that ol by (simp add: mem_write_def nth_append)
  have dl: "length data = frames * c * 2" using f n by simp
  obtain xs where X: "FloatS16ToAudioFrame (env_float E) (mem_write (mix_buffer m1) 0 out) (frames * c) True info frames
      (S16 (s16_of_bytes data)) = S16 xs" "length xs = frames * c" "s16_of_bytes (bytes_of_s16 xs) = xs"
    "\<And>ch i. ch < c \<Longrightarrow> i < frames \<Longrightarrow> xs ! (c * i + ch) =
      FloatS16ToS16 (env_float E) (mem_write (mix_buffer m1) 0 out ! (frames * ch + i))"
    using stored_mix [OF info c range dl] by metis
  have db: "mem_write data 0 (bytes_of_s16 xs) = bytes_of_s16 xs"
    using X(2) dl by (simp add: mem_write_def length_bytes_of_s16)
  have loop: "mix_sources E (map fst (source_map m)) m0 (mix_delegate (read_buffer m0) n info) frames (frames * c) [] =
      Some (m1, ?D\<lparr>frame_block := Some (last (rb # map snd steps))\<rparr>, [])"
    using M(1) unfolding reads(2) P(3) rb .
  have "frame_block (?D\<lparr>frame_block := Some (last (rb # map snd steps))\<rparr>) = Some (last (rb # map snd steps))" by simp
  from mix_all_after [OF info c n f m0_def loop this lo [folded M(4), unfolded mix_def] X(1)] have
    "mix_all E m f = Some (m1\<lparr>read_buffer := last (rb # map snd steps), limiter := l,
      mix_buffer := mem_write (mix_buffer m1) 0 out\<rparr>, f\<lparr>frame_block := Some (bytes_of_s16 xs)\<rparr>, [])"
    unfolding db .
  moreover have "s16_of_bytes (bytes_of_s16 xs) ! (c * i + ch) =
      FloatS16ToS16 (env_float E) (snd (limiter_Process E (limiter m) frames c mix) ! (frames * ch + i))"
    if "ch < c" "i < frames" for ch i
    using X(3,4) that mbv [OF idx [OF that]] lo by simp
  ultimately show ?thesis using that [OF _ _ mixl mixv] M(3) by simp
qed

lemma mixer_counts:
  assumes "2 \<le> length (source_map m)"
  shows "(mixer_SourceCount m = 0) = False" "(mixer_SourceCount m = 1) = False"
  using assms by (auto simp: mixer_SourceCount_def)

text \<open>
  C21: Mixing adds up the sources. Where two or more sources go on playing, sample \<open>i\<close> of channel \<open>ch\<close> is
  the 16-bit value of what the limiter makes of the sum, in the order of the sources, of the samples
  that the shared buffer holds at that place after each of the reads.
\<close>

theorem mix_is_sum:
  assumes info: "ValidPcmInt16Check info" and c: "c = nat (GetChannelsCount info)" and n: "n = frames * c * 2"
    and frames: "0 < frames" "n < 2 ^ 31" and data: "length data = n"
    and rb: "rb = grow 0 (read_buffer m) n" and two: "2 \<le> length (source_map m)"
    and reads: "steady_reads E (map_of (source_map m)) (length rb) info rb steps" "map fst steps = map fst (source_map m)"
      "distinct (map fst steps)"
    and lim: "\<forall>l a b xs. length (snd (limiter_Process E l a b xs)) = length xs"
    and range: "\<forall>x. - (2 ^ 15) \<le> FloatS16ToS16 (env_float E) x \<and> FloatS16ToS16 (env_float E) x < 2 ^ 15"
  shows "\<exists>m' d mix. mixer_Read E m data n info = Some (m', d, n, [], False) \<and>
    (\<forall>ch<c. \<forall>i<frames. mix ! (frames * ch + i) =
        foldl (\<lambda>a d. f_add (env_float E) a (S16ToFloatS16 (env_float E) (s16_of_bytes d ! (c * i + ch)))) (f_zero E)
          (map snd steps) \<and>
      s16_of_bytes d ! (c * i + ch) =
        FloatS16ToS16 (env_float E) (snd (limiter_Process E (limiter m) frames c mix) ! (frames * ch + i)))"
proof -
  obtain m' d mix where M: "mix_all E m (AudioFrameLiteDelegate_new data n n info) =
      Some (m', AudioFrameLiteDelegate_new data n n info\<lparr>frame_block := Some d\<rparr>, [])"
    "map fst (source_map m') = map fst (source_map m)"
    "\<And>ch i. ch < c \<Longrightarrow> i < frames \<Longrightarrow> mix ! (frames * ch + i) =
        foldl (\<lambda>a d. f_add (env_float E) a (S16ToFloatS16 (env_float E) (s16_of_bytes d ! (c * i + ch)))) (f_zero E)
          (map snd steps)"
    "\<And>ch i. ch < c \<Longrightarrow> i < frames \<Longrightarrow> s16_of_bytes d ! (c * i + ch) =
        FloatS16ToS16 (env_float E) (snd (limiter_Process E (limiter m) frames c mix) ! (frames * ch + i))"
    by (rule mix_all_steady [OF info c n refl data rb reads lim range]) blast
  have "n \<noteq> 0" using int16_format(2) [OF info] frames n c by auto
  moreover have "source_map m' \<noteq> []" using two M(2) by auto
  moreover have "byte_size (AudioFrameLiteDelegate_new data n n info\<lparr>frame_block := Some d\<rparr>) = n"
    by (simp add: AudioFrameLiteDelegate_new_def)
  ultimately have "mixer_Read E m data n info = Some (m', d, n, [], False)"
    using info frames(2) unfolding mixer_Read_def MixFrame_def Let_def mixer_counts [OF two] if_False M(1)
    by (simp add: int_of_size_id size_of_int_id)
  then show ?thesis using M(3,4) by blast
qed

text \<open>A source that is a list of bytes, and integers for the floats.\<close>

definition list_source :: "SourceStatus \<Rightarrow> byte list raw_source_ops" where
  "list_source status =
     \<lparr>source_Read = (\<lambda>s d n. Some (drop n s, mem_write d 0 (take n s), min n (length s))),
      source_Discard = (\<lambda>s n. (drop n s, 0)), source_CurrentSize = length, source_Status = (\<lambda>s. status),
      source_FillZeroFront = (\<lambda>s t. Some (s, 0)), source_Format = (\<lambda>s. k48kMonoPcm16)\<rparr>"

definition int_env :: "SourceStatus \<Rightarrow> (byte list, unit, int, unit) mixer_env" where
  "int_env status =
     \<lparr>env_swr = silent_swr, env_fresh = (\<lambda>n. replicate n 0), env_source = list_source status,
      env_float = int_ops\<lparr>FloatS16ToS16 := s16\<rparr>, f_zero = 0, f_one = 1, gain_scale = (*),
      gain_increment = (\<lambda>a b n. 0), limiter_Process = (\<lambda>l n c xs. (l, xs))\<rparr>"

definition list_wrapper :: "byte list \<Rightarrow> (byte list, unit, int) source_wrapper" where
  "list_wrapper bytes =
     \<lparr>audio_resample_audio_source = \<lparr>inner_source = Some bytes, source_converter = AudioConverterFFmpeg_new True,
        frame_buffer = AudioFrameLiteDelegate_format k48kMonoPcm16\<rparr>, start_gain = 1, end_gain = 1\<rparr>"

definition list_mixer :: "byte list list \<Rightarrow> (byte list, unit, int, unit) mixer" where
  "list_mixer sources =
     \<lparr>source_map = zip [0..<length sources] (map list_wrapper sources), last_audio_format_info = k48kMonoPcm16,
      limiter = (), mix_buffer = [], read_buffer = []\<rparr>"

lemma list_reads:
  "read_wrapper (int_env status) (list_wrapper bytes) d n k48kMonoPcm16 =
     Some (audio_resample_audio_source (list_wrapper (drop n bytes)), mem_write d 0 (take n bytes), min n (length bytes))"
  by (simp add: resample_Read_def list_wrapper_def AudioFrameLiteDelegate_format_def int_env_def list_source_def)

lemma list_env:
  "\<forall>l a b xs. length (snd (limiter_Process (int_env status) l a b xs)) = length xs"
  "\<forall>x. - (2 ^ 15) \<le> FloatS16ToS16 (env_float (int_env status)) x \<and> FloatS16ToS16 (env_float (int_env status)) x < 2 ^ 15"
  "ValidPcmInt16Check k48kMonoPcm16" "1 = nat (GetChannelsCount k48kMonoPcm16)" "start_gain (list_wrapper b) = end_gain (list_wrapper b)"
  "resample_GetSourceStatus (env_source (int_env status)) (audio_resample_audio_source (list_wrapper b)) = status"
  using s16_range by (simp_all add: int_env_def int_ops_def ValidPcmInt16Check_def k48kMonoPcm16_def GetChannelsCount_def
      format_lookups format_tables list_wrapper_def resample_GetSourceStatus_def list_source_def)

lemma mix_is_sum_witness:
  "\<exists>m' d. mixer_Read (int_env kStreaming) (list_mixer [[1, 0, 2, 0], [3, 0, 4, 0]]) (replicate 4 9) 4 k48kMonoPcm16 =
      Some (m', d, 4, [], False) \<and> s16_of_bytes d ! 0 = 4 \<and> s16_of_bytes d ! 1 = 6"
proof -
  let ?E = "int_env kStreaming" and ?m = "list_mixer [[1, 0, 2, 0], [3, 0, 4, 0]]"
  let ?steps = "[(0, [1, 0, 2, 0]), (1, [3, 0, 4, 0 :: byte])] :: (nat \<times> byte list) list"
  have m: "source_map ?m = [(0, list_wrapper [1, 0, 2, 0]), (1, list_wrapper [3, 0, 4, 0])]" "read_buffer ?m = []"
    by (simp_all add: list_mixer_def upt_rec)
  have rd: "steady_reads ?E (map_of (source_map ?m)) (length (replicate 4 (0 :: byte))) k48kMonoPcm16 (replicate 4 0) ?steps"
    by (simp add: m list_reads list_env mem_write_def numeral_eq_Suc)
  have "\<exists>m' d mix. mixer_Read ?E ?m (replicate 4 9) 4 k48kMonoPcm16 = Some (m', d, 4, [], False) \<and>
    (\<forall>ch<1. \<forall>i<2. mix ! (2 * ch + i) =
        foldl (\<lambda>a d. f_add (env_float ?E) a (S16ToFloatS16 (env_float ?E) (s16_of_bytes d ! (1 * i + ch)))) (f_zero ?E)
          (map snd ?steps) \<and>
      s16_of_bytes d ! (1 * i + ch) =
        FloatS16ToS16 (env_float ?E) (snd (limiter_Process ?E (limiter ?m) 2 1 mix) ! (2 * ch + i)))"
    by (rule mix_is_sum [OF list_env(3,4) _ _ _ _ _ _ rd _ _ list_env(1,2)]) (simp_all add: m grow_def)
  then obtain m' d mix where R: "mixer_Read ?E ?m (replicate 4 9) 4 k48kMonoPcm16 = Some (m', d, 4, [], False)"
    and V: "\<And>i. i < 2 \<Longrightarrow> mix ! i = foldl (\<lambda>a d. a + s16_of_bytes d ! i) 0 (map snd ?steps) \<and>
      s16_of_bytes d ! i = s16 (mix ! i)"
    by (auto simp: int_env_def int_ops_def)
  have "s16_of_bytes d ! 0 = 4" "s16_of_bytes d ! 1 = 6"
    using V [of 0] V [of 1] by (simp_all add: s16_def)
  then show ?thesis using R by blast
qed

text \<open>
  A source that delivers nothing is replaced by its neighbour. When the second of two sources has no
  data at the moment, the shared buffer still holds the samples of the first one, and these are added
  to the mix twice.
\<close>

theorem underrun_doubles_neighbour:
  assumes info: "ValidPcmInt16Check info" and c: "c = nat (GetChannelsCount info)" and n: "n = frames * c * 2"
    and frames: "0 < frames" "n < 2 ^ 31" and data: "length data = n" and rb: "rb = grow 0 (read_buffer m) n"
    and two: "source_map m = [(p, wp), (q, wq)]" "p \<noteq> q" "start_gain wp = end_gain wp" "start_gain wq = end_gain wq"
    and full: "read_wrapper E wp rb (length rb) info = Some (rp, d, length rb)"
    and empty: "read_wrapper E wq d (length rb) info = Some (rq, d, 0)"
      "resample_GetSourceStatus (env_source E) rq = kStreaming"
    and lim: "\<forall>l a b xs. length (snd (limiter_Process E l a b xs)) = length xs"
    and range: "\<forall>x. - (2 ^ 15) \<le> FloatS16ToS16 (env_float E) x \<and> FloatS16ToS16 (env_float E) x < 2 ^ 15"
  shows "\<exists>m' out mix. mixer_Read E m data n info = Some (m', out, n, [], False) \<and>
    (\<forall>ch<c. \<forall>i<frames.
      (let a = S16ToFloatS16 (env_float E) (s16_of_bytes d ! (c * i + ch)); add = f_add (env_float E)
       in mix ! (frames * ch + i) = add (add (f_zero E) a) a) \<and>
      s16_of_bytes out ! (c * i + ch) =
        FloatS16ToS16 (env_float E) (snd (limiter_Process E (limiter m) frames c mix) ! (frames * ch + i)))"
proof -
  let ?steps = "[(p, d), (q, d)]"
  have reads: "steady_reads E (map_of (source_map m)) (length rb) info rb ?steps" "map fst ?steps = map fst (source_map m)"
    "distinct (map fst ?steps)"
    using two full empty by auto
  obtain m' out mix where M: "mix_all E m (AudioFrameLiteDelegate_new data n n info) =
      Some (m', AudioFrameLiteDelegate_new data n n info\<lparr>frame_block := Some out\<rparr>, [])"
    "map fst (source_map m') = map fst (source_map m)"
    "\<And>ch i. ch < c \<Longrightarrow> i < frames \<Longrightarrow> mix ! (frames * ch + i) =
        foldl (\<lambda>a d. f_add (env_float E) a (S16ToFloatS16 (env_float E) (s16_of_bytes d ! (c * i + ch)))) (f_zero E)
          (map snd ?steps)"
    "\<And>ch i. ch < c \<Longrightarrow> i < frames \<Longrightarrow> s16_of_bytes out ! (c * i + ch) =
        FloatS16ToS16 (env_float E) (snd (limiter_Process E (limiter m) frames c mix) ! (frames * ch + i))"
    by (rule mix_all_steady [OF info c n refl data rb reads lim range]) blast
  have "n \<noteq> 0" using int16_format(2) [OF info] frames n c by auto
  moreover have "source_map m' \<noteq> []" "2 \<le> length (source_map m)" using two M(2) by auto
  moreover have "byte_size (AudioFrameLiteDelegate_new data n n info\<lparr>frame_block := Some out\<rparr>) = n"
    by (simp add: AudioFrameLiteDelegate_new_def)
  ultimately have "mixer_Read E m data n info = Some (m', out, n, [], False)"
    using info frames(2) unfolding mixer_Read_def MixFrame_def Let_def mixer_counts [OF \<open>2 \<le> _\<close>] if_False M(1)
    by (simp add: int_of_size_id size_of_int_id)
  then show ?thesis using M(3,4) by (auto simp: Let_def)
qed

lemma underrun_doubles_neighbour_witness:
  "\<exists>m' out mix. mixer_Read (int_env kStreaming) (list_mixer [[1, 0, 2, 0], []]) (replicate 4 9) 4 k48kMonoPcm16 =
      Some (m', out, 4, [], False) \<and> s16_of_bytes out ! 0 = 2 \<and> s16_of_bytes out ! 1 = 4"
proof -
  let ?E = "int_env kStreaming" and ?m = "list_mixer [[1, 0, 2, 0], []]"
  have m: "source_map ?m = [(0, list_wrapper [1, 0, 2, 0]), (1, list_wrapper [])]" "read_buffer ?m = []"
    by (simp_all add: list_mixer_def upt_rec)
  have r: "read_wrapper ?E (list_wrapper [1, 0, 2, 0]) (replicate 4 0) (length (replicate 4 (0 :: byte))) k48kMonoPcm16 =
      Some (audio_resample_audio_source (list_wrapper []), [1, 0, 2, 0], length (replicate 4 (0 :: byte)))"
    "read_wrapper ?E (list_wrapper []) [1, 0, 2, 0] (length (replicate 4 (0 :: byte))) k48kMonoPcm16 =
      Some (audio_resample_audio_source (list_wrapper []), [1, 0, 2, 0], 0)"
    by (simp_all add: list_reads mem_write_def numeral_eq_Suc)
  have "\<exists>m' out mix. mixer_Read ?E ?m (replicate 4 9) 4 k48kMonoPcm16 = Some (m', out, 4, [], False) \<and>
    (\<forall>ch<1. \<forall>i<2.
      (let a = S16ToFloatS16 (env_float ?E) (s16_of_bytes [1, 0, 2, 0] ! (1 * i + ch)); add = f_add (env_float ?E)
       in mix ! (2 * ch + i) = add (add (f_zero ?E) a) a) \<and>
      s16_of_bytes out ! (1 * i + ch) =
        FloatS16ToS16 (env_float ?E) (snd (limiter_Process ?E (limiter ?m) 2 1 mix) ! (2 * ch + i)))"
    by (rule underrun_doubles_neighbour [OF list_env(3,4) _ _ _ _ _ m(1) _ _ _ r _ list_env(1,2)])
      (simp_all add: m grow_def list_env)
  then obtain m' out mix where R: "mixer_Read ?E ?m (replicate 4 9) 4 k48kMonoPcm16 = Some (m', out, 4, [], False)"
    and V: "\<And>i. i < 2 \<Longrightarrow> mix ! i = s16_of_bytes [1, 0, 2, 0] ! i + s16_of_bytes [1, 0, 2, 0] ! i \<and>
      s16_of_bytes out ! i = s16 (mix ! i)"
    by (auto simp: int_env_def int_ops_def Let_def)
  have "s16_of_bytes out ! 0 = 2" "s16_of_bytes out ! 1 = 4"
    using V [of 0] V [of 1] by (simp_all add: s16_def)
  then show ?thesis using R by blast
qed

subsection \<open>Sources that are finished\<close>

lemma mix_all_exists:
  assumes info: "ValidPcmInt16Check info" and c: "c = nat (GetChannelsCount info)" and n: "n = frames * c * 2"
    and f: "f = AudioFrameLiteDelegate_new data n n info" "length data = n"
    and m0: "m0 = mix_prepare E m info (frames * c) n"
    and loop: "mix_sources E (map fst (source_map m)) m0 (mix_delegate (read_buffer m0) n info) frames (frames * c) [] =
      Some (m1, g, rl)" "frame_block g = Some rb"
  obtains m2 d where "mix_all E m f = Some (m2, f\<lparr>frame_block := Some d\<rparr>, rl)" "source_map m2 = source_map m1"
proof -
  obtain l out where lim: "limiter_Process E (limiter m1) frames c (take (frames * c) (mix_buffer m1)) = (l, out)"
    by (cases "limiter_Process E (limiter m1) frames c (take (frames * c) (mix_buffer m1))") auto
  obtain xs where xs: "FloatS16ToAudioFrame (env_float E) (mem_write (mix_buffer m1) 0 out) (frames * c) True info frames
      (S16 (s16_of_bytes data)) = S16 xs"
    by (simp add: FloatS16ToAudioFrame_def Let_def)
  show ?thesis by (rule that [OF mix_all_after [OF info c n f m0 loop lim xs]]) simp
qed

lemma mix_two_sources:
  assumes "ReadFrame E m p f rl = Some (m1, f1, rl1, k1)" "frame_block f1 = Some d1"
    and "m1' = m1\<lparr>mix_buffer := AudioFrameToFloatS16 (env_float E) (S16 (s16_of_bytes (take (byte_size f1) d1)))
      (frame_format f1) frames samples (mix_buffer m1) True True\<rparr>"
    and "ReadFrame E m1' q f1 rl1 = Some (m2, f2, rl2, k2)" "frame_block f2 = Some d2"
  obtains m3 where "mix_sources E [p, q] m f frames samples rl = Some (m3, f2, rl2)" "source_map m3 = source_map m2"
proof -
  have "mix_sources E [p, q] m f frames samples rl = mix_sources E [q] m1' f1 frames samples rl1"
    by (subst mix_sources.simps(2), subst assms(1)) (simp only: bind.bind_lunit prod.case assms(2,3) Let_def)
  also have "\<dots> = Some (m2\<lparr>mix_buffer := AudioFrameToFloatS16 (env_float E) (S16 (s16_of_bytes (take (byte_size f2) d2)))
      (frame_format f2) frames samples (mix_buffer m2) True True\<rparr>, f2, rl2)"
    by (subst mix_sources.simps(2), subst assms(4)) (simp only: bind.bind_lunit prod.case assms(5) Let_def mix_sources.simps(1))
  finally show ?thesis by (rule that) simp
qed

lemma mix_delegate_fields:
  assumes "rb = grow 0 (read_buffer m) n"
  shows "capacity_in_byte (mix_delegate rb n info) = length rb" "frame_format (mix_delegate rb n info) = info"
    "frame_block (mix_delegate rb n info) = Some rb" "byte_size (mix_delegate rb n info) = n"
  using assms by (simp_all add: mix_delegate_def AudioFrameLiteDelegate_new_def grow_def)

text \<open>
  Two sources, the second of which is finished; the first one is left as \<open>wp'\<close> and has the sources \<open>rl\<close>
  removed.
\<close>

lemma mix_second_finished:
  assumes info: "ValidPcmInt16Check info" and n: "n = frames * nat (GetChannelsCount info) * 2"
    and data: "length data = n" and rb: "rb = grow 0 (read_buffer m) n"
    and two: "source_map m = [(p, wp), (q, wq)]" "p \<noteq> q"
    and m0: "m0 = mix_prepare E m info (frames * nat (GetChannelsCount info)) n"
    and D: "D = mix_delegate rb n info"
    and first: "ReadFrame E m0 p D [] = Some (set_wrapper m0 p wp', D\<lparr>frame_block := Some d1\<rparr>, rl, k1)"
    and second: "read_wrapper E wq d1 (length rb) info = Some (rq, d2, k2)" "k2 < length rb"
      "resample_GetSourceStatus (env_source E) rq = kStatic"
  obtains m' d where "mix_all E m (AudioFrameLiteDelegate_new data n n info) =
      Some (m', AudioFrameLiteDelegate_new data n n info\<lparr>frame_block := Some d\<rparr>, rl @ [p])"
    "map fst (source_map m') = [p, q]"
proof -
  let ?c = "nat (GetChannelsCount info)"
  have M0: "source_map m0 = source_map m" "read_buffer m0 = rb" unfolding m0 rb by (rule mix_prepare_fields)+
  note DF = mix_delegate_fields [OF rb, of info, folded D]
  define m1 where "m1 = set_wrapper m0 p wp'\<lparr>mix_buffer := AudioFrameToFloatS16 (env_float E) (S16 (s16_of_bytes (take n d1)))
      info frames (frames * ?c) (mix_buffer (set_wrapper m0 p wp')) True True\<rparr>"
  have keys: "map fst (source_map m1) = [p, q]" "map_of (source_map m1) q = Some wq"
    using two M0 by (auto simp: m1_def set_wrapper_def)
  have hd: "fst (hd (source_map m1)) = p" using keys(1) by (cases "source_map m1") simp_all
  let ?D1 = "D\<lparr>frame_block := Some d1\<rparr>"
  have D1: "capacity_in_byte ?D1 = length rb" "frame_format ?D1 = info" "frame_block ?D1 = Some d1" "byte_size ?D1 = n"
    using DF by simp_all
  have fs: "FrameSize n info = Some frames"
    using int16_format [OF info] by (auto simp: FrameSize_def div_size_def n)
  obtain d3 w' where r2: "ReadFrame E m1 q ?D1 rl =
      Some (set_wrapper m1 q w', ?D1\<lparr>frame_block := Some d3\<rparr>, rl @ [fst (hd (source_map m1))], k2)"
  proof (rule ReadFrame_finished [OF keys(2) D1(3) _ _ second(3)])
    show "read_wrapper E wq d1 (capacity_in_byte ?D1) (frame_format ?D1) = Some (rq, d2, k2)"
      "k2 < capacity_in_byte ?D1" "FrameSize (byte_size ?D1) (frame_format ?D1) = Some frames"
      unfolding D1 by (rule second fs)+
  qed blast
  have m1': "m1 = set_wrapper m0 p wp'\<lparr>mix_buffer := AudioFrameToFloatS16 (env_float E)
      (S16 (s16_of_bytes (take (byte_size ?D1) d1))) (frame_format ?D1) frames (frames * ?c) (mix_buffer (set_wrapper m0 p wp'))
      True True\<rparr>" unfolding D1 by (rule m1_def)
  have fb: "frame_block (?D1\<lparr>frame_block := Some d3\<rparr>) = Some d3" by simp
  obtain m2 where loop: "mix_sources E [p, q] m0 D frames (frames * ?c) [] =
      Some (m2, ?D1\<lparr>frame_block := Some d3\<rparr>, rl @ [p])" "source_map m2 = source_map (set_wrapper m1 q w')"
    by (rule mix_two_sources [OF first D1(3) m1' r2 fb, unfolded hd]) blast
  have k: "map fst (source_map m) = [p, q]" using two by simp
  have "mix_sources E (map fst (source_map m)) m0 (mix_delegate (read_buffer m0) n info) frames (frames * ?c) [] =
      Some (m2, ?D1\<lparr>frame_block := Some d3\<rparr>, rl @ [p])"
    using loop(1) unfolding k M0(2) D .
  then obtain m3 d where "mix_all E m (AudioFrameLiteDelegate_new data n n info) =
      Some (m3, AudioFrameLiteDelegate_new data n n info\<lparr>frame_block := Some d\<rparr>, rl @ [p])" "source_map m3 = source_map m2"
    by (rule mix_all_exists [OF info refl n refl data m0 _ fb]) blast
  then show ?thesis using loop(2) keys(1) by (intro that [of m3 d]) simp_all
qed

text \<open>
  C22: The wrong source is removed. When the second of two sources comes to its end while the first one
  goes on, it is the first one, whose data are still to be played, that is taken out of the mixer and
  reported as removed; the finished one stays.
\<close>

theorem wrong_source_removed:
  assumes info: "ValidPcmInt16Check info" and n: "n = frames * nat (GetChannelsCount info) * 2"
    and frames: "0 < frames" and data: "length data = n" and rb: "rb = grow 0 (read_buffer m) n"
    and two: "source_map m = [(p, wp), (q, wq)]" "p \<noteq> q" "start_gain wp = end_gain wp"
    and full: "read_wrapper E wp rb (length rb) info = Some (rp, d1, length rb)"
    and last: "read_wrapper E wq d1 (length rb) info = Some (rq, d2, k)" "k < length rb"
      "resample_GetSourceStatus (env_source E) rq = kStatic"
  shows "\<exists>m' out size. mixer_Read E m data n info = Some (m', out, size, [p], False) \<and>
    map fst (source_map m') = [q]"
proof -
  define m0 where "m0 = mix_prepare E m info (frames * nat (GetChannelsCount info)) n"
  let ?D = "mix_delegate rb n info"
  note D = mix_delegate_fields [OF rb, of info]
  have mp: "map_of (source_map m0) p = Some wp" by (simp add: m0_def mix_prepare_fields two(1))
  have "\<not> (length rb < capacity_in_byte ?D \<and> resample_GetSourceStatus (env_source E) rp = kStatic)"
    by (simp add: D(1))
  moreover have "read_wrapper E wp rb (capacity_in_byte ?D) (frame_format ?D) = Some (rp, d1, length rb)"
    unfolding D by (rule full)
  ultimately have first: "ReadFrame E m0 p ?D [] =
      Some (set_wrapper m0 p (wp\<lparr>audio_resample_audio_source := rp\<rparr>), ?D\<lparr>frame_block := Some d1\<rparr>, [], length rb)"
    using ReadFrame_plain [OF mp D(3) two(3)] by blast
  obtain m3 d where M: "mix_all E m (AudioFrameLiteDelegate_new data n n info) =
      Some (m3, AudioFrameLiteDelegate_new data n n info\<lparr>frame_block := Some d\<rparr>, [] @ [p])" "map fst (source_map m3) = [p, q]"
    by (rule mix_second_finished [OF info n data rb two(1,2) m0_def refl first last]) (rule that)
  have n0: "n \<noteq> 0" using int16_format(2) [OF info] frames n by auto
  obtain wp' wq' where e: "source_map m3 = [(p, wp'), (q, wq')]"
    using M(2) by (auto simp: map_eq_Cons_conv)
  have "2 \<le> length (source_map m)" using two by simp
  note counts = mixer_counts [OF this]
  have "\<exists>size. mixer_Read E m data n info = Some (m3\<lparr>source_map := [(q, wq')]\<rparr>, d, size, [p], False)"
    using info n0 e two(2) unfolding mixer_Read_def MixFrame_def Let_def counts if_False M(1) by simp
  then show ?thesis by (auto intro!: exI [of _ "m3\<lparr>source_map := [(q, wq')]\<rparr>"])
qed

text \<open>
  C23: Two sources that come to their ends in the same read stop the program: the first one is to be
  removed twice, and the second time the end of the map is dereferenced and erased.
\<close>

theorem both_finished_crashes:
  assumes info: "ValidPcmInt16Check info" and n: "n = frames * nat (GetChannelsCount info) * 2"
    and frames: "0 < frames" and data: "length data = n" and rb: "rb = grow 0 (read_buffer m) n"
    and two: "source_map m = [(p, wp), (q, wq)]" "p \<noteq> q"
    and first: "read_wrapper E wp rb (length rb) info = Some (rp, d0, k0)" "k0 < length rb"
      "resample_GetSourceStatus (env_source E) rp = kStatic"
    and second: "\<forall>d. \<exists>rq d' k. read_wrapper E wq d (length rb) info = Some (rq, d', k) \<and> k < length rb \<and>
      resample_GetSourceStatus (env_source E) rq = kStatic"
  shows "mixer_Read E m data n info = None"
proof -
  define m0 where "m0 = mix_prepare E m info (frames * nat (GetChannelsCount info)) n"
  let ?D = "mix_delegate rb n info"
  note D = mix_delegate_fields [OF rb, of info]
  have mp: "map_of (source_map m0) p = Some wp" and hd: "fst (hd (source_map m0)) = p"
    by (simp_all add: m0_def mix_prepare_fields two(1))
  have fs: "FrameSize n info = Some frames"
    using int16_format [OF info] by (auto simp: FrameSize_def div_size_def n)
  obtain d1 wp' where r1: "ReadFrame E m0 p ?D [] =
      Some (set_wrapper m0 p wp', ?D\<lparr>frame_block := Some d1\<rparr>, [] @ [fst (hd (source_map m0))], k0)"
  proof (rule ReadFrame_finished [OF mp D(3) _ _ first(3)])
    show "read_wrapper E wp rb (capacity_in_byte ?D) (frame_format ?D) = Some (rp, d0, k0)"
      "k0 < capacity_in_byte ?D" "FrameSize (byte_size ?D) (frame_format ?D) = Some frames"
      unfolding D by (rule first fs)+
  qed blast
  obtain rq d2 k2 where s: "read_wrapper E wq d1 (length rb) info = Some (rq, d2, k2)" "k2 < length rb"
    "resample_GetSourceStatus (env_source E) rq = kStatic"
    using second by blast
  obtain m3 d where M: "mix_all E m (AudioFrameLiteDelegate_new data n n info) =
      Some (m3, AudioFrameLiteDelegate_new data n n info\<lparr>frame_block := Some d\<rparr>, ([] @ [p]) @ [p])"
      "map fst (source_map m3) = [p, q]"
    by (rule mix_second_finished [OF info n data rb two m0_def refl r1 [unfolded hd] s]) (rule that)
  have n0: "n \<noteq> 0" using int16_format(2) [OF info] frames n by auto
  obtain wp' wq' where e: "source_map m3 = [(p, wp'), (q, wq')]"
    using M(2) by (auto simp: map_eq_Cons_conv)
  have "2 \<le> length (source_map m)" using two by simp
  note counts = mixer_counts [OF this]
  show ?thesis
    using info n0 e two(2) unfolding mixer_Read_def MixFrame_def Let_def counts if_False M(1) by simp
qed

text \<open>The sources of these reads: one that is full, one that ends, two that end.\<close>

lemma wrong_source_removed_witness:
  "\<exists>m' out size. mixer_Read (int_env kStatic) (list_mixer [[1, 0, 2, 0, 5, 0, 6, 0], [3, 0]]) (replicate 4 9) 4 k48kMonoPcm16 =
      Some (m', out, size, [0], False) \<and> map fst (source_map m') = [1]"
proof -
  let ?E = "int_env kStatic" and ?m = "list_mixer [[1, 0, 2, 0, 5, 0, 6, 0], [3, 0]]"
  have m: "source_map ?m = [(0, list_wrapper [1, 0, 2, 0, 5, 0, 6, 0]), (1, list_wrapper [3, 0])]" "read_buffer ?m = []"
    by (simp_all add: list_mixer_def upt_rec)
  have r: "read_wrapper ?E (list_wrapper [1, 0, 2, 0, 5, 0, 6, 0]) (replicate 4 0) (length (replicate 4 (0 :: byte))) k48kMonoPcm16 =
      Some (audio_resample_audio_source (list_wrapper [5, 0, 6, 0]), [1, 0, 2, 0], length (replicate 4 (0 :: byte)))"
    "read_wrapper ?E (list_wrapper [3, 0]) [1, 0, 2, 0] (length (replicate 4 (0 :: byte))) k48kMonoPcm16 =
      Some (audio_resample_audio_source (list_wrapper []), [3, 0, 2, 0], 2)"
    by (simp_all add: list_reads mem_write_def numeral_eq_Suc)
  show ?thesis
    by (rule wrong_source_removed [where frames = 2, OF list_env(3) _ _ _ _ m(1) _ _ r(1) r(2)])
      (simp_all add: m grow_def list_env flip: list_env(4))
qed

lemma both_finished_crashes_witness:
  "mixer_Read (int_env kStatic) (list_mixer [[1, 0], [3, 0]]) (replicate 4 9) 4 k48kMonoPcm16 = None"
proof -
  let ?E = "int_env kStatic" and ?m = "list_mixer [[1, 0], [3, 0]]"
  have m: "source_map ?m = [(0, list_wrapper [1, 0]), (1, list_wrapper [3, 0])]" "read_buffer ?m = []"
    by (simp_all add: list_mixer_def upt_rec)
  have r: "read_wrapper ?E (list_wrapper [b, 0]) d (length (replicate 4 (0 :: byte))) k48kMonoPcm16 =
      Some (audio_resample_audio_source (list_wrapper []), mem_write d 0 [b, 0], 2)" for b d
    by (simp add: list_reads)
  show ?thesis
    by (rule both_finished_crashes [where frames = 2, OF list_env(3) _ _ _ _ m(1) _ r])
      (simp_all add: m grow_def list_env r [simplified] flip: list_env(4))
qed

end
