(* ===== verification/CallbackRegister.thy ===== *)
theory CallbackRegister
  imports Prelude
begin

text \<open>
  \<open>src/src/util/callback_register_template.h\<close>: the list of callbacks that several components keep. A
  callback that is taken out leaves a null pointer behind, and the next one takes its place. The
  locale \<open>member_register\<close> is what the users of the list rely on, with the members of a register after
  a sequence of calls; it is interpreted on the list.
\<close>

subsection \<open>The interface\<close>

datatype 'a register_call = Add 'a | Remove 'a

fun called_on :: "'a register_call \<Rightarrow> 'a" where
  "called_on (Add c) = c"
| "called_on (Remove c) = c"

definition calls_on :: "'a \<Rightarrow> 'a register_call list \<Rightarrow> 'a register_call list" where
  "calls_on c calls = filter (\<lambda>x. called_on x = c) calls"

locale member_register =
  fixes add :: "'r \<Rightarrow> 'a \<Rightarrow> 'r" and remove :: "'r \<Rightarrow> 'a \<Rightarrow> 'r" and members :: "'r \<Rightarrow> 'a set" and ok :: "'r \<Rightarrow> bool"
  assumes add_ok: "ok r \<Longrightarrow> ok (add r c)" and remove_ok: "ok r \<Longrightarrow> ok (remove r c)"
    and add_members: "ok r \<Longrightarrow> members (add r c) = insert c (members r)"
    and remove_members: "ok r \<Longrightarrow> members (remove r c) = members r - {c}"
begin

fun run_call :: "'r \<Rightarrow> 'a register_call \<Rightarrow> 'r" where
  "run_call r (Add c) = add r c"
| "run_call r (Remove c) = remove r c"

lemma run_call_ok: "ok r \<Longrightarrow> ok (run_call r x)"
  by (cases x) (simp_all add: add_ok remove_ok)

lemma run_ok: "ok r \<Longrightarrow> ok (foldl run_call r calls)"
  by (induction calls arbitrary: r) (simp_all add: run_call_ok)

lemma run_members:
  assumes "ok r"
  shows "c \<in> members (foldl run_call r calls) \<longleftrightarrow>
    (if calls_on c calls = [] then c \<in> members r else last (calls_on c calls) = Add c)"
  using assms
proof (induction calls rule: rev_induct)
  case Nil
  then show ?case by (simp add: calls_on_def)
next
  case (snoc x calls)
  have "ok (foldl run_call r calls)" by (rule run_ok [OF snoc.prems])
  then show ?case
    using snoc by (cases x) (auto simp: calls_on_def add_members remove_members)
qed

end

subsection \<open>CallbackRegisterTemplate\<close>

text \<open>The list of pointers; a null pointer is \<open>None\<close>.\<close>

type_synonym 'a callbacks = "'a option list"

fun fill_slot :: "'a callbacks \<Rightarrow> 'a option \<Rightarrow> 'a callbacks" where
  "fill_slot [] callback = [callback]"
| "fill_slot (None # cs) callback = callback # cs"
| "fill_slot (Some c # cs) callback = Some c # fill_slot cs callback"

definition RegisterCallback :: "'a callbacks \<Rightarrow> 'a option \<Rightarrow> 'a callbacks" where
  "RegisterCallback cs callback = (if callback \<in> set cs then cs else fill_slot cs callback)"

fun UnRegisterCallback :: "'a callbacks \<Rightarrow> 'a option \<Rightarrow> 'a callbacks" where
  "UnRegisterCallback [] callback = []"
| "UnRegisterCallback (c # cs) callback = (if c = callback then None # cs else c # UnRegisterCallback cs callback)"

text \<open>The callbacks that a loop over the list calls, in their order.\<close>

fun registered :: "'a callbacks \<Rightarrow> 'a list" where
  "registered [] = []"
| "registered (None # cs) = registered cs"
| "registered (Some c # cs) = c # registered cs"

lemma set_registered: "set (registered cs) = {c. Some c \<in> set cs}"
  by (induction cs rule: registered.induct) auto

lemma fill_slot_registered:
  "\<exists>xs ys. registered cs = xs @ ys \<and> registered (fill_slot cs (Some c)) = xs @ c # ys"
proof (induction cs rule: registered.induct)
  case 1
  then show ?case by simp
next
  case (2 cs)
  then show ?case by (rule_tac x = "[]" in exI) simp
next
  case (3 d cs)
  then obtain xs ys where "registered cs = xs @ ys" "registered (fill_slot cs (Some c)) = xs @ c # ys" by blast
  then show ?case by (rule_tac x = "d # xs" in exI) simp
qed

lemma unregister_registered:
  "registered (UnRegisterCallback cs (Some c)) = remove1 c (registered cs)"
proof (induction cs)
  case (Cons x cs)
  then show ?case by (cases x) simp_all
qed simp

lemma length_unregister [simp]: "length (UnRegisterCallback cs callback) = length cs"
  by (induction cs) simp_all

lemma register_not_empty: "RegisterCallback cs callback \<noteq> []"
proof -
  have "fill_slot cs callback \<noteq> []" by (cases "(cs, callback)" rule: fill_slot.cases) simp_all
  then show ?thesis by (auto simp: RegisterCallback_def)
qed

definition members_of :: "'a callbacks \<Rightarrow> 'a set" where
  "members_of cs = set (registered cs)"

definition no_duplicates :: "'a callbacks \<Rightarrow> bool" where
  "no_duplicates cs \<longleftrightarrow> distinct (registered cs)"

lemma register_adds:
  assumes "no_duplicates cs"
  shows "no_duplicates (RegisterCallback cs (Some c))"
    "members_of (RegisterCallback cs (Some c)) = insert c (members_of cs)"
proof -
  obtain xs ys where F: "registered cs = xs @ ys" "registered (fill_slot cs (Some c)) = xs @ c # ys"
    using fill_slot_registered [of cs c] by blast
  have s: "Some c \<in> set cs \<longleftrightarrow> c \<in> set (registered cs)" by (simp add: set_registered)
  show "no_duplicates (RegisterCallback cs (Some c))"
    using assms F s by (auto simp: RegisterCallback_def no_duplicates_def)
  show "members_of (RegisterCallback cs (Some c)) = insert c (members_of cs)"
    using F s by (auto simp: RegisterCallback_def members_of_def)
qed

lemma unregister_removes:
  assumes "no_duplicates cs"
  shows "no_duplicates (UnRegisterCallback cs (Some c))"
    "members_of (UnRegisterCallback cs (Some c)) = members_of cs - {c}"
  using assms by (simp_all add: no_duplicates_def members_of_def unregister_registered)

interpretation callback_register: member_register "\<lambda>cs c. RegisterCallback cs (Some c)" "\<lambda>cs c. UnRegisterCallback cs (Some c)"
  members_of no_duplicates
  by unfold_locales (simp_all add: register_adds unregister_removes)

end
