(* ===== verification/AudioDevice.thy ===== *)
theory AudioDevice
  imports AudioMixer CallbackRegister
begin

text \<open>
  \<open>src/src/core/audio/audio_device_wrapper_impl.cc\<close>: the audio device, which hands what is recorded to
  sinks and plays what the mixer gives. The audio device module of webrtc is the parameter \<open>adm_api\<close>;
  what is posted to the signal thread is the list \<open>signal_tasks\<close>, and the calls of sinks and
  subscribers, which are numbers here, are recorded in \<open>device_log\<close>. \<open>None\<close> is the use of a null
  pointer, an access outside of the block, or a mixer that stops the program.
\<close>

subsection \<open>The state\<close>

datatype platform = Mac | Ios | Win | Android | Linux

definition selects_device :: "platform \<Rightarrow> bool" where
  "selects_device P \<longleftrightarrow> P = Mac \<or> P = Win"

record 'd adm_api =
  adm_Create :: "int \<Rightarrow> 'd option"
  adm_Init :: "'d \<Rightarrow> 'd \<times> int"
  adm_RegisterAudioCallback :: "'d \<Rightarrow> 'd \<times> int"
  adm_Terminate :: "'d \<Rightarrow> 'd \<times> int"
  adm_EnableBuiltInAEC :: "'d \<Rightarrow> bool \<Rightarrow> 'd \<times> int"
  adm_Recording :: "'d \<Rightarrow> bool"
  adm_InitRecording :: "'d \<Rightarrow> 'd \<times> int"
  adm_StartRecording :: "'d \<Rightarrow> 'd \<times> int"
  adm_StopRecording :: "'d \<Rightarrow> 'd \<times> int"
  adm_Playing :: "'d \<Rightarrow> bool"
  adm_InitPlayout :: "'d \<Rightarrow> 'd \<times> int"
  adm_StartPlayout :: "'d \<Rightarrow> 'd \<times> int"
  adm_StopPlayout :: "'d \<Rightarrow> 'd \<times> int"
  adm_RecordingDevices :: "'d \<Rightarrow> int"
  adm_PlayoutDevices :: "'d \<Rightarrow> int"
  adm_RecordingDeviceName :: "'d \<Rightarrow> nat \<Rightarrow> string \<times> string \<Rightarrow> string \<times> string"
  adm_PlayoutDeviceName :: "'d \<Rightarrow> nat \<Rightarrow> string \<times> string \<Rightarrow> string \<times> string"
  adm_SetRecordingDevice :: "'d \<Rightarrow> nat \<Rightarrow> 'd \<times> int"
  adm_SetPlayoutDevice :: "'d \<Rightarrow> nat \<Rightarrow> 'd \<times> int"

datatype device_task = StartRecordingTask | StopRecordingTask | StartPlayoutTask | StopPlayoutTask

datatype device_event = SinkWrite nat "byte list" | OnFirstRecordFrame nat | OnFirstPlayoutFrame nat
  | OnRecordingStartResult nat bool | OnRecordingStop nat | OnPlayoutStartResult nat bool | OnPlayoutStop nat
  | OnAudioSourceAutoRemoved nat nat

record ('s, 'c, 'f, 'l, 'd) audio_device =
  record_events :: "nat callbacks"
  playout_events :: "nat callbacks"
  record_sinks :: "nat callbacks"
  playout_sinks :: "nat callbacks"
  record_index :: nat
  playout_index :: nat
  enable_buildin_aec :: bool
  first_record_frame :: bool
  first_playout_frame :: bool
  audio_layer :: int
  adm :: "'d option"
  audio_mixer :: "('s, 'c, 'f, 'l) mixer"
  device_buffers :: "string \<times> string"
  signal_tasks :: "device_task list"
  device_log :: "device_event list"

definition kPlatformDefaultAudio :: int where "kPlatformDefaultAudio = 0"

definition PostTask :: "device_task \<Rightarrow> ('s, 'c, 'f, 'l, 'd) audio_device \<Rightarrow> ('s, 'c, 'f, 'l, 'd) audio_device" where
  "PostTask t dev = dev\<lparr>signal_tasks := signal_tasks dev @ [t]\<rparr>"

text \<open>A loop over a list of callbacks.\<close>

definition notify :: "(nat \<Rightarrow> device_event) \<Rightarrow> nat callbacks \<Rightarrow> ('s, 'c, 'f, 'l, 'd) audio_device \<Rightarrow>
    ('s, 'c, 'f, 'l, 'd) audio_device" where
  "notify event cs dev = dev\<lparr>device_log := device_log dev @ map event (registered cs)\<rparr>"

subsection \<open>The tasks of the signal thread\<close>

definition CheckIfStartRecording :: "platform \<Rightarrow> 'd adm_api \<Rightarrow> ('s, 'c, 'f, 'l, 'd) audio_device \<Rightarrow>
    ('s, 'c, 'f, 'l, 'd) audio_device" where
  "CheckIfStartRecording P api dev =
     (case adm dev of
       None \<Rightarrow> dev
     | Some d \<Rightarrow>
         if adm_Recording api d then dev
         else let d = (if selects_device P then fst (adm_SetRecordingDevice api d (record_index dev)) else d);
                  (d, init) = adm_InitRecording api d;
                  (d, res) = (if init \<noteq> 0 then (d, init) else adm_StartRecording api d) in
           notify (\<lambda>c. OnRecordingStartResult c (res = 0)) (record_events dev) (dev\<lparr>adm := Some d\<rparr>))"

definition CheckIfStopRecording :: "'d adm_api \<Rightarrow> ('s, 'c, 'f, 'l, 'd) audio_device \<Rightarrow>
    ('s, 'c, 'f, 'l, 'd) audio_device" where
  "CheckIfStopRecording api dev =
     (if record_events dev = [] then
        case adm dev of
          None \<Rightarrow> dev
        | Some d \<Rightarrow>
            if adm_Recording api d then
              let (d, res) = adm_StopRecording api d; dev = dev\<lparr>adm := Some d\<rparr> in
              if res = 0 then notify OnRecordingStop (record_events dev) dev else dev
            else dev
      else dev)"

definition CheckIfStartPlayout :: "platform \<Rightarrow> 'd adm_api \<Rightarrow> ('s, 'c, 'f, 'l, 'd) audio_device \<Rightarrow>
    ('s, 'c, 'f, 'l, 'd) audio_device" where
  "CheckIfStartPlayout P api dev =
     (case adm dev of
       None \<Rightarrow> dev
     | Some d \<Rightarrow>
         if adm_Playing api d then dev
         else let d = (if selects_device P then fst (adm_SetPlayoutDevice api d (playout_index dev)) else d);
                  (d, init) = adm_InitPlayout api d;
                  (d, res) = (if init \<noteq> 0 then (d, init) else adm_StartPlayout api d) in
           notify (\<lambda>c. OnPlayoutStartResult c (res = 0)) (playout_events dev) (dev\<lparr>adm := Some d\<rparr>))"

definition CheckIfStopPlayout :: "'d adm_api \<Rightarrow> ('s, 'c, 'f, 'l, 'd) audio_device \<Rightarrow>
    ('s, 'c, 'f, 'l, 'd) audio_device" where
  "CheckIfStopPlayout api dev =
     (case adm dev of
       None \<Rightarrow> dev
     | Some d \<Rightarrow>
         if mixer_SourceCount (audio_mixer dev) = 0 \<and> adm_Playing api d then
           let (d, res) = adm_StopPlayout api d; dev = dev\<lparr>adm := Some d\<rparr> in
           if res = 0 then notify OnPlayoutStop (playout_events dev) dev else dev
         else dev)"

fun do_task :: "platform \<Rightarrow> 'd adm_api \<Rightarrow> device_task \<Rightarrow> ('s, 'c, 'f, 'l, 'd) audio_device \<Rightarrow>
    ('s, 'c, 'f, 'l, 'd) audio_device" where
  "do_task P api StartRecordingTask dev = CheckIfStartRecording P api dev"
| "do_task P api StopRecordingTask dev = CheckIfStopRecording api dev"
| "do_task P api StartPlayoutTask dev = CheckIfStartPlayout P api dev"
| "do_task P api StopPlayoutTask dev = CheckIfStopPlayout api dev"

text \<open>\<open>BlockingCall\<close> runs what it is given behind the tasks that were posted before.\<close>

definition run_tasks :: "platform \<Rightarrow> 'd adm_api \<Rightarrow> ('s, 'c, 'f, 'l, 'd) audio_device \<Rightarrow>
    ('s, 'c, 'f, 'l, 'd) audio_device" where
  "run_tasks P api dev = foldl (\<lambda>dev t. do_task P api t dev) (dev\<lparr>signal_tasks := []\<rparr>) (signal_tasks dev)"

definition ReCreateAudioDeviceIfNeed :: "'d adm_api \<Rightarrow> int \<Rightarrow> ('s, 'c, 'f, 'l, 'd) audio_device \<Rightarrow>
    ('s, 'c, 'f, 'l, 'd) audio_device option" where
  "ReCreateAudioDeviceIfNeed api layer dev =
     (if adm dev = None \<or> layer \<noteq> audio_layer dev then
        map_option (\<lambda>d. dev\<lparr>audio_layer := layer, adm := Some (fst (adm_RegisterAudioCallback api (fst (adm_Init api d))))\<rparr>)
          (adm_Create api layer)
      else Some dev)"

definition AudioDeviceWrapperImpl_new :: "'d adm_api \<Rightarrow> 'l \<Rightarrow> ('s, 'c, 'f, 'l, 'd) audio_device option" where
  "AudioDeviceWrapperImpl_new api l =
     ReCreateAudioDeviceIfNeed api kPlatformDefaultAudio
       \<lparr>record_events = [], playout_events = [], record_sinks = [], playout_sinks = [], record_index = 0,
        playout_index = 0, enable_buildin_aec = False, first_record_frame = True, first_playout_frame = True,
        audio_layer = kPlatformDefaultAudio, adm = None, audio_mixer = AudioMixerImpl_new l,
        device_buffers = ([], []), signal_tasks = [], device_log = []\<rparr>"

definition AudioDeviceWrapperImpl_destroy :: "platform \<Rightarrow> 'd adm_api \<Rightarrow> ('s, 'c, 'f, 'l, 'd) audio_device \<Rightarrow>
    ('s, 'c, 'f, 'l, 'd) audio_device" where
  "AudioDeviceWrapperImpl_destroy P api dev =
     (let dev = run_tasks P api dev in
      case adm dev of
        None \<Rightarrow> dev
      | Some d \<Rightarrow>
          let d = (if adm_Recording api d then fst (adm_StopRecording api d) else d);
              d = (if adm_Playing api d then fst (adm_StopPlayout api d) else d);
              d = fst (adm_Terminate api d)
          in dev\<lparr>adm := None\<rparr>)"

subsection \<open>The operations of AudioDeviceWrapper\<close>

definition EnableBuiltInAec :: "platform \<Rightarrow> 'd adm_api \<Rightarrow> bool \<Rightarrow> ('s, 'c, 'f, 'l, 'd) audio_device \<Rightarrow>
    (('s, 'c, 'f, 'l, 'd) audio_device \<times> int) option" where
  "EnableBuiltInAec P api enableaec dev =
     (let dev = (run_tasks P api dev)\<lparr>enable_buildin_aec := enableaec\<rparr> in
      map_option (\<lambda>d. (dev\<lparr>adm := Some (fst (adm_EnableBuiltInAEC api d enableaec))\<rparr>, 0)) (adm dev))"

definition EnableLowLatancy :: "platform \<Rightarrow> 'd adm_api \<Rightarrow> bool \<Rightarrow> ('s, 'c, 'f, 'l, 'd) audio_device \<Rightarrow>
    ('s, 'c, 'f, 'l, 'd) audio_device \<times> int" where
  "EnableLowLatancy P api enable dev = (run_tasks P api dev, - 1)"

definition GetDefaultRecordAudioFormatInfo :: AudioFormatInfo where
  "GetDefaultRecordAudioFormatInfo = k48kMonoPcm16"

definition GetDefaultPlayoutAudioFormatInfo :: AudioFormatInfo where
  "GetDefaultPlayoutAudioFormatInfo = k48kStereoPcm16"

definition AddRecordSink :: "('s, 'c, 'f, 'l, 'd) audio_device \<Rightarrow> nat option \<Rightarrow> ('s, 'c, 'f, 'l, 'd) audio_device \<times> int" where
  "AddRecordSink dev sink =
     (PostTask StartRecordingTask (dev\<lparr>record_sinks := RegisterCallback (record_sinks dev) sink\<rparr>), 0)"

definition RemoveRecordSink :: "('s, 'c, 'f, 'l, 'd) audio_device \<Rightarrow> nat option \<Rightarrow> ('s, 'c, 'f, 'l, 'd) audio_device \<times> int" where
  "RemoveRecordSink dev sink =
     (PostTask StopRecordingTask (dev\<lparr>record_sinks := UnRegisterCallback (record_sinks dev) sink\<rparr>), 0)"

definition AddPlayoutSink :: "('s, 'c, 'f, 'l, 'd) audio_device \<Rightarrow> nat option \<Rightarrow> ('s, 'c, 'f, 'l, 'd) audio_device \<times> int" where
  "AddPlayoutSink dev sink = (dev\<lparr>playout_sinks := RegisterCallback (playout_sinks dev) sink\<rparr>, 0)"

definition RemovePlayoutSink :: "('s, 'c, 'f, 'l, 'd) audio_device \<Rightarrow> nat option \<Rightarrow> ('s, 'c, 'f, 'l, 'd) audio_device \<times> int" where
  "RemovePlayoutSink dev sink = (dev\<lparr>playout_sinks := UnRegisterCallback (playout_sinks dev) sink\<rparr>, 0)"

definition AddPlayoutSource :: "('s, 'c, 'f, 'l) mixer_env \<Rightarrow> nat \<Rightarrow> ('s, 'c, 'f, 'l, 'd) audio_device \<Rightarrow> nat \<Rightarrow> 's \<Rightarrow>
    ('s, 'c, 'f, 'l, 'd) audio_device \<times> int" where
  "AddPlayoutSource E place dev source s =
     (PostTask StartPlayoutTask (dev\<lparr>audio_mixer := fst (mixer_AddSource E place (audio_mixer dev) source s)\<rparr>), 0)"

definition RemovePlayoutSource :: "('s, 'c, 'f, 'l, 'd) audio_device \<Rightarrow> nat \<Rightarrow>
    ('s, 'c, 'f, 'l, 'd) audio_device \<times> int" where
  "RemovePlayoutSource dev source =
     (PostTask StopPlayoutTask (dev\<lparr>audio_mixer := fst (mixer_RemoveSource (audio_mixer dev) source)\<rparr>), 0)"

definition AddRecordingEventSubscriber :: "('s, 'c, 'f, 'l, 'd) audio_device \<Rightarrow> nat option \<Rightarrow>
    ('s, 'c, 'f, 'l, 'd) audio_device \<times> int" where
  "AddRecordingEventSubscriber dev callback = (dev\<lparr>record_events := RegisterCallback (record_events dev) callback\<rparr>, 0)"

definition RemoveRecordingEventSubscriber :: "('s, 'c, 'f, 'l, 'd) audio_device \<Rightarrow> nat option \<Rightarrow>
    ('s, 'c, 'f, 'l, 'd) audio_device \<times> int" where
  "RemoveRecordingEventSubscriber dev callback = (dev\<lparr>record_events := UnRegisterCallback (record_events dev) callback\<rparr>, 0)"

definition AddPlayoutEventSubscriber :: "('s, 'c, 'f, 'l, 'd) audio_device \<Rightarrow> nat option \<Rightarrow>
    ('s, 'c, 'f, 'l, 'd) audio_device \<times> int" where
  "AddPlayoutEventSubscriber dev callback = (dev\<lparr>playout_events := RegisterCallback (playout_events dev) callback\<rparr>, 0)"

definition RemovePlayoutEventSubscriber :: "('s, 'c, 'f, 'l, 'd) audio_device \<Rightarrow> nat option \<Rightarrow>
    ('s, 'c, 'f, 'l, 'd) audio_device \<times> int" where
  "RemovePlayoutEventSubscriber dev callback = (dev\<lparr>playout_events := UnRegisterCallback (playout_events dev) callback\<rparr>, 0)"

definition GetPlayoutDelayMs :: "platform \<Rightarrow> time_data" where
  "GetPlayoutDelayMs P =
     (if P = Mac \<or> P = Win \<or> P = Ios then time_literal ms_factor 20 else time_literal ms_factor 150)"

definition device_Terminate :: "'d adm_api \<Rightarrow> ('s, 'c, 'f, 'l, 'd) audio_device \<Rightarrow>
    (('s, 'c, 'f, 'l, 'd) audio_device \<times> int) option" where
  "device_Terminate api dev =
     map_option (\<lambda>d. case adm_Terminate api d of (d, res) \<Rightarrow> (dev\<lparr>adm := Some d\<rparr>, res)) (adm dev)"

subsection \<open>What the device calls\<close>

definition RecordedDataIsAvailable :: "byte list \<Rightarrow> nat \<Rightarrow> nat \<Rightarrow> nat \<Rightarrow> ('s, 'c, 'f, 'l, 'd) audio_device \<Rightarrow>
    (('s, 'c, 'f, 'l, 'd) audio_device \<times> int) option" where
  "RecordedDataIsAvailable audioSamples nSamples nBytesPerSample nChannels dev =
     (let write_size = umul (umul nSamples nBytesPerSample) nChannels in
      if registered (record_sinks dev) \<noteq> [] \<and> length audioSamples < write_size then None
      else
        let dev = notify (\<lambda>sink. SinkWrite sink (take write_size audioSamples)) (record_sinks dev) dev;
            dev = (if first_record_frame dev
              then notify OnFirstRecordFrame (record_events dev) (dev\<lparr>first_record_frame := False\<rparr>) else dev)
        in Some (dev, 0))"

definition NeedMorePlayData :: "('s, 'c, 'f, 'l) mixer_env \<Rightarrow> nat \<Rightarrow> nat \<Rightarrow> nat \<Rightarrow> nat \<Rightarrow> byte list \<Rightarrow>
    ('s, 'c, 'f, 'l, 'd) audio_device \<Rightarrow> (('s, 'c, 'f, 'l, 'd) audio_device \<times> byte list \<times> nat \<times> int) option" where
  "NeedMorePlayData E nSamples nBytesPerSample nChannels samplesPerSec audioSamples dev =
     (let should_read_size = umul nSamples nBytesPerSample in
      do {
        (m, block, read_size, removed, none_left) \<leftarrow> mixer_Read E (audio_mixer dev) audioSamples should_read_size
          (AudioFormatInfo_new (s32 (int samplesPerSec)) (s32 (int nChannels)) kAudioSampleFormatPcmInt16);
        let dev = dev\<lparr>audio_mixer := m\<rparr>;
            dev = (if none_left then PostTask StopPlayoutTask dev else dev);
            dev = foldl (\<lambda>dev source. notify (\<lambda>c. OnAudioSourceAutoRemoved c source) (playout_events dev) dev) dev removed
        in do {
          block \<leftarrow> (if read_size < should_read_size then poke block read_size (replicate (should_read_size - read_size) 0)
            else Some block);
          nSamplesOut \<leftarrow> div_size (umul read_size nChannels) nBytesPerSample;
          if registered (playout_sinks dev) \<noteq> [] \<and> length block < read_size then None
          else
            let dev = notify (\<lambda>sink. SinkWrite sink (take read_size block)) (playout_sinks dev) dev;
                dev = (if first_playout_frame dev
                  then notify OnFirstPlayoutFrame (playout_events dev) (dev\<lparr>first_playout_frame := False\<rparr>) else dev)
            in Some (dev, block, nSamplesOut, 0)
        }
      })"

subsection \<open>Choosing a device, on the desktop\<close>

text \<open>The names are read into two static buffers, which keep what they hold where a name cannot be read.\<close>

fun device_names :: "(nat \<Rightarrow> string \<times> string \<Rightarrow> string \<times> string) \<Rightarrow> nat \<Rightarrow> nat \<Rightarrow> string \<times> string \<Rightarrow>
    (string \<times> string) list \<times> (string \<times> string)" where
  "device_names name_of i 0 buffers = ([], buffers)"
| "device_names name_of i (Suc k) buffers =
     (let buffers = name_of i buffers; (names, buffers') = device_names name_of (i + 1) k buffers
      in (buffers # names, buffers'))"

definition GetRecordDeviceListInternal :: "'d adm_api \<Rightarrow> ('s, 'c, 'f, 'l, 'd) audio_device \<Rightarrow>
    (('s, 'c, 'f, 'l, 'd) audio_device \<times> (string \<times> string) list) option" where
  "GetRecordDeviceListInternal api dev =
     map_option (\<lambda>d. case device_names (adm_RecordingDeviceName api d) 0 (nat (adm_RecordingDevices api d)) (device_buffers dev) of
       (names, buffers) \<Rightarrow> (dev\<lparr>device_buffers := buffers\<rparr>, names)) (adm dev)"

definition GetPlayoutDeviceListInternal :: "'d adm_api \<Rightarrow> ('s, 'c, 'f, 'l, 'd) audio_device \<Rightarrow>
    (('s, 'c, 'f, 'l, 'd) audio_device \<times> (string \<times> string) list) option" where
  "GetPlayoutDeviceListInternal api dev =
     map_option (\<lambda>d. case device_names (adm_PlayoutDeviceName api d) 0 (nat (adm_PlayoutDevices api d)) (device_buffers dev) of
       (names, buffers) \<Rightarrow> (dev\<lparr>device_buffers := buffers\<rparr>, names)) (adm dev)"

definition GetRecordDeviceList where
  "GetRecordDeviceList P api dev = GetRecordDeviceListInternal api (run_tasks P api dev)"

definition GetPlayoutDeviceList where
  "GetPlayoutDeviceList P api dev = GetPlayoutDeviceListInternal api (run_tasks P api dev)"

text \<open>The index of the first device with the identification.\<close>

fun guid_index :: "string \<Rightarrow> nat \<Rightarrow> (string \<times> string) list \<Rightarrow> nat option" where
  "guid_index guid i [] = None"
| "guid_index guid i (n # names) = (if snd n = guid then Some i else guid_index guid (i + 1) names)"

definition SetRecordingDevice :: "platform \<Rightarrow> 'd adm_api \<Rightarrow> string \<Rightarrow> ('s, 'c, 'f, 'l, 'd) audio_device \<Rightarrow>
    (('s, 'c, 'f, 'l, 'd) audio_device \<times> int) option" where
  "SetRecordingDevice P api guid dev =
     do {
       (dev, device_list) \<leftarrow> GetRecordDeviceListInternal api (run_tasks P api dev);
       d \<leftarrow> adm dev;
       case guid_index guid 0 device_list of
         None \<Rightarrow> Some (dev, - 1)
       | Some i \<Rightarrow> (case adm_SetRecordingDevice api d (i mod 2 ^ 16) of
           (d, res) \<Rightarrow> Some (dev\<lparr>adm := Some d\<rparr>, if res \<noteq> 0 then - 1 else 0))
     }"

definition SetPlayoutDevice :: "platform \<Rightarrow> 'd adm_api \<Rightarrow> string \<Rightarrow> ('s, 'c, 'f, 'l, 'd) audio_device \<Rightarrow>
    (('s, 'c, 'f, 'l, 'd) audio_device \<times> int) option" where
  "SetPlayoutDevice P api guid dev =
     do {
       (dev, device_list) \<leftarrow> GetPlayoutDeviceListInternal api (run_tasks P api dev);
       d \<leftarrow> adm dev;
       case guid_index guid 0 device_list of
         None \<Rightarrow> Some (dev, - 1)
       | Some i \<Rightarrow> (case adm_SetPlayoutDevice api d (i mod 2 ^ 16) of
           (d, res) \<Rightarrow> Some (dev\<lparr>adm := Some d\<rparr>, if res \<noteq> 0 then - 1 else 0))
     }"

subsection \<open>The device in use\<close>

text \<open>
  The calls of the program, of the audio device and of the signal thread, in any order; the destructor
  and \<open>Terminate\<close> come after them.
\<close>

inductive device_step :: "platform \<Rightarrow> 'd adm_api \<Rightarrow> ('s, 'c, 'f, 'l) mixer_env \<Rightarrow>
    ('s, 'c, 'f, 'l, 'd) audio_device \<Rightarrow> ('s, 'c, 'f, 'l, 'd) audio_device \<Rightarrow> bool"
  for P :: platform and api :: "'d adm_api" and E :: "('s, 'c, 'f, 'l) mixer_env" where
  step_add_record: "device_step P api E dev (fst (AddRecordSink dev sink))"
| step_remove_record: "device_step P api E dev (fst (RemoveRecordSink dev sink))"
| step_add_playout: "device_step P api E dev (fst (AddPlayoutSink dev sink))"
| step_remove_playout: "device_step P api E dev (fst (RemovePlayoutSink dev sink))"
| step_add_source: "device_step P api E dev (fst (AddPlayoutSource E place dev source s))"
| step_remove_source: "device_step P api E dev (fst (RemovePlayoutSource dev source))"
| step_add_record_event: "device_step P api E dev (fst (AddRecordingEventSubscriber dev callback))"
| step_remove_record_event: "device_step P api E dev (fst (RemoveRecordingEventSubscriber dev callback))"
| step_add_playout_event: "device_step P api E dev (fst (AddPlayoutEventSubscriber dev callback))"
| step_remove_playout_event: "device_step P api E dev (fst (RemovePlayoutEventSubscriber dev callback))"
| step_task: "signal_tasks dev = t # ts \<Longrightarrow> device_step P api E dev (do_task P api t (dev\<lparr>signal_tasks := ts\<rparr>))"
| step_recorded: "RecordedDataIsAvailable data n b c dev = Some (dev', res) \<Longrightarrow> device_step P api E dev dev'"
| step_need: "NeedMorePlayData E n b c rate data dev = Some (dev', block, k, res) \<Longrightarrow> device_step P api E dev dev'"
| step_aec: "EnableBuiltInAec P api enable dev = Some (dev', res) \<Longrightarrow> device_step P api E dev dev'"
| step_low: "device_step P api E dev (fst (EnableLowLatancy P api enable dev))"
| step_record_device: "SetRecordingDevice P api guid dev = Some (dev', res) \<Longrightarrow> device_step P api E dev dev'"
| step_playout_device: "SetPlayoutDevice P api guid dev = Some (dev', res) \<Longrightarrow> device_step P api E dev dev'"

text \<open>
  What the module promises: the operations succeed, \<open>Playing\<close> and \<open>Recording\<close> change with the
  operations that start and stop, and with no other.
\<close>

definition keeps :: "('d \<Rightarrow> bool) \<Rightarrow> ('d \<Rightarrow> 'd \<times> int) \<Rightarrow> bool" where
  "keeps flag f \<longleftrightarrow> (\<forall>d. flag (fst (f d)) = flag d)"

definition keeps_flag :: "('d \<Rightarrow> bool) \<Rightarrow> 'd adm_api \<Rightarrow> bool" where
  "keeps_flag flag api \<longleftrightarrow>
     (\<forall>b. keeps flag (\<lambda>d. adm_EnableBuiltInAEC api d b)) \<and> (\<forall>i. keeps flag (\<lambda>d. adm_SetRecordingDevice api d i)) \<and>
     (\<forall>i. keeps flag (\<lambda>d. adm_SetPlayoutDevice api d i)) \<and> keeps flag (adm_InitRecording api) \<and> keeps flag (adm_InitPlayout api)"

definition playout_module :: "'d adm_api \<Rightarrow> bool" where
  "playout_module api \<longleftrightarrow> keeps_flag (adm_Playing api) api \<and> keeps (adm_Playing api) (adm_StartRecording api) \<and>
     keeps (adm_Playing api) (adm_StopRecording api) \<and> (\<forall>d. snd (adm_InitPlayout api d) = 0) \<and>
     (\<forall>d. adm_Playing api (fst (adm_StartPlayout api d))) \<and> (\<forall>d. \<not> adm_Playing api (fst (adm_StopPlayout api d)))"

definition record_module :: "'d adm_api \<Rightarrow> bool" where
  "record_module api \<longleftrightarrow> keeps_flag (adm_Recording api) api \<and> keeps (adm_Recording api) (adm_StartPlayout api) \<and>
     keeps (adm_Recording api) (adm_StopPlayout api)"

lemmas module_laws = playout_module_def record_module_def keeps_flag_def keeps_def

lemma notify_fields [simp]:
  "record_events (notify ev cs dev) = record_events dev" "playout_events (notify ev cs dev) = playout_events dev"
  "record_sinks (notify ev cs dev) = record_sinks dev" "playout_sinks (notify ev cs dev) = playout_sinks dev"
  "adm (notify ev cs dev) = adm dev" "audio_mixer (notify ev cs dev) = audio_mixer dev"
  "signal_tasks (notify ev cs dev) = signal_tasks dev"
  by (simp_all add: notify_def)

lemma PostTask_fields [simp]:
  "record_events (PostTask t dev) = record_events dev" "adm (PostTask t dev) = adm dev"
  "audio_mixer (PostTask t dev) = audio_mixer dev" "signal_tasks (PostTask t dev) = signal_tasks dev @ [t]"
  "record_sinks (PostTask t dev) = record_sinks dev" "playout_events (PostTask t dev) = playout_events dev"
  "playout_sinks (PostTask t dev) = playout_sinks dev"
  by (simp_all add: PostTask_def)

text \<open>A read of the mixer reports that no source is left exactly when it leaves none.\<close>

lemma mixer_read_reports:
  assumes "mixer_Read E m data n info = Some (m', d, k, removed, none_left)"
  shows "m' = m \<and> \<not> none_left \<or> none_left \<and> mixer_SourceCount m' = 0 \<or>
    \<not> none_left \<and> mixer_SourceCount m' \<noteq> 0 \<and> mixer_SourceCount m \<noteq> 0"
proof (cases "\<not> ValidPcmInt16Check info \<or> n = 0")
  case True
  then show ?thesis using assms by (simp add: mixer_Read_def)
next
  case False
  then have M: "MixFrame E m data n info = Some (m', d, k, removed, none_left)"
    using assms by (simp add: mixer_Read_def)
  show ?thesis
  proof (cases "mixer_SourceCount m = 0")
    case True
    then have "source_map m = []" by (simp add: mixer_SourceCount_def)
    then show ?thesis
      using M True by (auto simp: MixFrame_def Let_def bind_Some_iff mixer_SourceCount_def)
  next
    case False
    have "none_left = (source_map m' = [])"
      using M unfolding MixFrame_def Let_def by (auto simp: bind_Some_iff)
    then show ?thesis using False by (auto simp: mixer_SourceCount_def)
  qed
qed

lemma notify_removed:
  "record_events (foldl (\<lambda>dev s. notify (ev s) (playout_events dev) dev) dev removed) = record_events dev"
  "adm (foldl (\<lambda>dev s. notify (ev s) (playout_events dev) dev) dev removed) = adm dev"
  "audio_mixer (foldl (\<lambda>dev s. notify (ev s) (playout_events dev) dev) dev removed) = audio_mixer dev"
  "signal_tasks (foldl (\<lambda>dev s. notify (ev s) (playout_events dev) dev) dev removed) = signal_tasks dev"
  by (induction removed arbitrary: dev) simp_all

lemma need_more_effect:
  assumes "NeedMorePlayData E n b c rate data dev = Some (dev', block, k, res)"
  obtains info d size removed none_left where
    "mixer_Read E (audio_mixer dev) data (umul n b) info = Some (audio_mixer dev', d, size, removed, none_left)"
    "signal_tasks dev' = signal_tasks dev @ (if none_left then [StopPlayoutTask] else [])"
    "adm dev' = adm dev" "record_events dev' = record_events dev"
  using assms unfolding NeedMorePlayData_def Let_def bind_Some_iff
  by (fastforce simp: notify_removed bind_Some_iff split: if_splits)

subsection \<open>Playing while there are sources\<close>

lemmas check_defs = CheckIfStartRecording_def CheckIfStopRecording_def CheckIfStartPlayout_def CheckIfStopPlayout_def

lemma task_fields:
  "record_events (do_task P api t dev) = record_events dev" "audio_mixer (do_task P api t dev) = audio_mixer dev"
  "signal_tasks (do_task P api t dev) = signal_tasks dev"
  by (cases t; simp add: check_defs Let_def split: option.splits prod.splits)+

fun play_after :: "bool \<Rightarrow> bool \<Rightarrow> device_task \<Rightarrow> bool" where
  "play_after sources playing StartPlayoutTask \<longleftrightarrow> True"
| "play_after sources playing StopPlayoutTask \<longleftrightarrow> playing \<and> sources"
| "play_after sources playing t \<longleftrightarrow> playing"

definition has_sources :: "('s, 'c, 'f, 'l, 'd) audio_device \<Rightarrow> bool" where
  "has_sources dev \<longleftrightarrow> mixer_SourceCount (audio_mixer dev) \<noteq> 0"

text \<open>Whether the module plays once the posted tasks are done, should nothing else happen.\<close>

definition will_play :: "'d adm_api \<Rightarrow> ('s, 'c, 'f, 'l, 'd) audio_device \<Rightarrow> bool option" where
  "will_play api dev =
     map_option (\<lambda>d. foldl (play_after (has_sources dev)) (adm_Playing api d) (signal_tasks dev)) (adm dev)"

text \<open>The module after a start, and after each of the tasks.\<close>

definition started :: "bool \<Rightarrow> ('d \<Rightarrow> 'd \<times> int) \<Rightarrow> ('d \<Rightarrow> 'd \<times> int) \<Rightarrow> ('d \<Rightarrow> 'd \<times> int) \<Rightarrow> 'd \<Rightarrow> 'd" where
  "started sel pick init start d =
     (let d = (if sel then fst (pick d) else d) in
      if snd (init d) \<noteq> 0 then fst (init d) else fst (start (fst (init d))))"

lemma started_keeps:
  assumes "keeps flag pick" "keeps flag init" "keeps flag start"
  shows "flag (started sel pick init start d) = flag d"
  using assms by (simp add: started_def Let_def keeps_def)

lemma task_adm:
  assumes "adm dev = Some d"
  shows "adm (do_task P api t dev) = Some (case t of
      StartRecordingTask \<Rightarrow> if adm_Recording api d then d
        else started (selects_device P) (\<lambda>d. adm_SetRecordingDevice api d (record_index dev)) (adm_InitRecording api)
          (adm_StartRecording api) d
    | StopRecordingTask \<Rightarrow> if record_events dev = [] \<and> adm_Recording api d then fst (adm_StopRecording api d) else d
    | StartPlayoutTask \<Rightarrow> if adm_Playing api d then d
        else started (selects_device P) (\<lambda>d. adm_SetPlayoutDevice api d (playout_index dev)) (adm_InitPlayout api)
          (adm_StartPlayout api) d
    | StopPlayoutTask \<Rightarrow> if \<not> has_sources dev \<and> adm_Playing api d then fst (adm_StopPlayout api d) else d)"
  using assms by (cases t) (simp_all add: check_defs started_def has_sources_def Let_def split: prod.split)

lemma task_playing:
  assumes api: "playout_module api" and d: "adm dev = Some d"
  obtains d' where "adm (do_task P api t dev) = Some d'"
    "adm_Playing api d' = play_after (has_sources dev) (adm_Playing api d) t"
proof -
  have s: "adm_Playing api (started sel pick (adm_InitPlayout api) (adm_StartPlayout api) d)" for sel pick d
    using api by (simp add: started_def Let_def module_laws)
  have r: "adm_Playing api (started sel (\<lambda>d. adm_SetRecordingDevice api d i) (adm_InitRecording api) (adm_StartRecording api) d) =
      adm_Playing api d" for sel i d
    using api by (intro started_keeps) (simp_all add: playout_module_def keeps_flag_def)
  show ?thesis
    by (rule that [OF task_adm [OF d]]) (cases t; use api in \<open>simp add: s r playout_module_def keeps_def\<close>)
qed

lemma task_will_play:
  assumes "playout_module api" "signal_tasks dev = t # ts"
  shows "will_play api (do_task P api t (dev\<lparr>signal_tasks := ts\<rparr>)) = will_play api dev"
proof (cases "adm dev")
  case None
  then have "adm (do_task P api t (dev\<lparr>signal_tasks := ts\<rparr>)) = None" by (cases t) (simp_all add: check_defs)
  then show ?thesis using None by (simp add: will_play_def)
next
  case (Some d)
  then have "adm (dev\<lparr>signal_tasks := ts\<rparr>) = Some d" by simp
  from task_playing [OF assms(1) this, of P t] obtain d' where
    "adm (do_task P api t (dev\<lparr>signal_tasks := ts\<rparr>)) = Some d'"
    "adm_Playing api d' = play_after (has_sources dev) (adm_Playing api d) t"
    by (auto simp: has_sources_def)
  then show ?thesis using Some assms(2) by (simp add: will_play_def task_fields has_sources_def)
qed

lemma run_tasks_step:
  "signal_tasks dev = t # ts \<Longrightarrow> run_tasks P api dev = run_tasks P api (do_task P api t (dev\<lparr>signal_tasks := ts\<rparr>))"
proof -
  have c: "do_task P api t (dev\<lparr>signal_tasks := us\<rparr>) = (do_task P api t dev)\<lparr>signal_tasks := us\<rparr>" for us
    by (cases t) (simp_all add: check_defs notify_def Let_def split: option.splits prod.splits)
  show "signal_tasks dev = t # ts \<Longrightarrow> ?thesis" by (simp add: run_tasks_def task_fields c)
qed

text \<open>What every task keeps is kept by \<open>run_tasks\<close>.\<close>

lemma run_tasks_keeps:
  assumes "\<And>dev t ts. Q dev \<Longrightarrow> signal_tasks dev = t # ts \<Longrightarrow> Q (do_task P api t (dev\<lparr>signal_tasks := ts\<rparr>))"
    and "Q dev"
  shows "Q (run_tasks P api dev)" "signal_tasks (run_tasks P api dev) = []"
proof -
  have "Q (run_tasks P api dev) \<and> signal_tasks (run_tasks P api dev) = []"
    using assms(2)
  proof (induction "signal_tasks dev" arbitrary: dev)
    case Nil
    then have "run_tasks P api dev = dev\<lparr>signal_tasks := []\<rparr>" "dev\<lparr>signal_tasks := []\<rparr> = dev"
      using Nil.hyps by (simp_all add: run_tasks_def)
    then show ?case using Nil by simp
  next
    case (Cons t ts)
    have "ts = signal_tasks (do_task P api t (dev\<lparr>signal_tasks := ts\<rparr>))" by (simp add: task_fields)
    from Cons.hyps(1) [OF this assms(1) [OF Cons.prems Cons.hyps(2) [symmetric]]] show ?case
      using run_tasks_step [OF Cons.hyps(2) [symmetric], of P api] by simp
  qed
  then show "Q (run_tasks P api dev)" "signal_tasks (run_tasks P api dev) = []" by simp_all
qed

lemma need_more_playing:
  assumes "NeedMorePlayData E n b c rate data dev = Some (dev', block, k, res)"
    and "will_play api dev = Some (has_sources dev)"
  shows "will_play api dev' = Some (has_sources dev')"
proof -
  obtain info d size removed none_left where
    N: "mixer_Read E (audio_mixer dev) data (umul n b) info = Some (audio_mixer dev', d, size, removed, none_left)"
    "signal_tasks dev' = signal_tasks dev @ (if none_left then [StopPlayoutTask] else [])" "adm dev' = adm dev"
    by (rule need_more_effect [OF assms(1)]) blast
  from mixer_read_reports [OF N(1)] show ?thesis
  proof (elim disjE conjE)
    assume "audio_mixer dev' = audio_mixer dev" "\<not> none_left"
    then show ?thesis using assms(2) N by (simp add: will_play_def has_sources_def)
  next
    assume "none_left" "mixer_SourceCount (audio_mixer dev') = 0"
    then show ?thesis using assms(2) N by (auto simp: will_play_def has_sources_def)
  next
    assume "\<not> none_left" "mixer_SourceCount (audio_mixer dev') \<noteq> 0" "mixer_SourceCount (audio_mixer dev) \<noteq> 0"
    then show ?thesis using assms(2) N by (auto simp: will_play_def has_sources_def)
  qed
qed

lemma add_source_count: "mixer_SourceCount (fst (mixer_AddSource E place m source s)) \<noteq> 0"
  by (auto simp: mixer_AddSource_def mixer_SourceCount_def)

lemma remove_source_count: "mixer_SourceCount (fst (mixer_RemoveSource m source)) \<noteq> 0 \<Longrightarrow> mixer_SourceCount m \<noteq> 0"
  by (auto simp: mixer_RemoveSource_def mixer_SourceCount_def split: if_splits)

lemma remove_source_playing:
  assumes "will_play api dev = Some (has_sources dev)"
  shows "will_play api (fst (RemovePlayoutSource dev source)) = Some (has_sources (fst (RemovePlayoutSource dev source)))"
proof -
  let ?h = "mixer_SourceCount (fst (mixer_RemoveSource (audio_mixer dev) source)) \<noteq> 0"
  have "?h \<Longrightarrow> has_sources dev" using remove_source_count by (auto simp: has_sources_def)
  then show ?thesis
    using assms by (cases ?h) (auto simp: will_play_def RemovePlayoutSource_def has_sources_def)
qed

lemma aec_effect:
  assumes "EnableBuiltInAec P api enable dev = Some (dev', res)"
  obtains d where "adm (run_tasks P api dev) = Some d" "adm dev' = Some (fst (adm_EnableBuiltInAEC api d enable))"
    "audio_mixer dev' = audio_mixer (run_tasks P api dev)" "signal_tasks dev' = signal_tasks (run_tasks P api dev)"
    "record_events dev' = record_events (run_tasks P api dev)"
  using assms by (auto simp: EnableBuiltInAec_def Let_def)

lemma set_device_effect:
  assumes "SetRecordingDevice P api guid dev = Some (dev', res) \<or> SetPlayoutDevice P api guid dev = Some (dev', res)"
  obtains d i where "adm (run_tasks P api dev) = Some d"
    "adm dev' \<in> Some ` {d, fst (adm_SetRecordingDevice api d i), fst (adm_SetPlayoutDevice api d i)}"
    "audio_mixer dev' = audio_mixer (run_tasks P api dev)" "signal_tasks dev' = signal_tasks (run_tasks P api dev)"
    "record_events dev' = record_events (run_tasks P api dev)"
proof -
  let ?dev = "run_tasks P api dev"
  have "\<exists>d i. adm ?dev = Some d \<and>
      adm dev' \<in> Some ` {d, fst (adm_SetRecordingDevice api d i), fst (adm_SetPlayoutDevice api d i)} \<and>
      audio_mixer dev' = audio_mixer ?dev \<and> signal_tasks dev' = signal_tasks ?dev \<and> record_events dev' = record_events ?dev"
    using assms
    by (elim disjE; cases "adm ?dev")
      (auto simp: SetRecordingDevice_def SetPlayoutDevice_def GetRecordDeviceListInternal_def
        GetPlayoutDeviceListInternal_def bind_Some_iff split: prod.splits option.splits, (metis fst_conv)+)
  then show ?thesis using that by blast
qed

lemma same_playing:
  assumes "will_play api dev = Some (has_sources dev)" "adm dev = Some d" "adm dev' = Some d'"
    and "adm_Playing api d' = adm_Playing api d" "audio_mixer dev' = audio_mixer dev" "signal_tasks dev' = signal_tasks dev"
  shows "will_play api dev' = Some (has_sources dev')"
  using assms by (simp add: will_play_def has_sources_def)

lemma step_playing:
  assumes api: "playout_module api" and step: "device_step P api E dev dev'"
    and inv: "will_play api dev = Some (has_sources dev)"
  shows "will_play api dev' = Some (has_sources dev')"
proof -
  have task: "will_play api (do_task P api t (dev\<lparr>signal_tasks := ts\<rparr>)) = Some (has_sources (do_task P api t (dev\<lparr>signal_tasks := ts\<rparr>)))"
    if "will_play api dev = Some (has_sources dev)" "signal_tasks dev = t # ts" for dev t ts
    using task_will_play [OF api that(2), of P] that(1) by (simp add: has_sources_def task_fields)
  note run = run_tasks_keeps [where P = P and api = api and Q = "\<lambda>dev. will_play api dev = Some (has_sources dev)",
      OF task inv]
  from step show ?thesis
  proof cases
    case (step_need n b c rate data block k res)
    then show ?thesis by (rule need_more_playing [OF _ inv])
  next
    case (step_task t ts)
    then show ?thesis using task [OF inv] by simp
  next
    case (step_remove_source source)
    then show ?thesis using remove_source_playing [OF inv] by simp
  next
    case (step_add_source place source s)
    then show ?thesis using inv add_source_count [of E place "audio_mixer dev" source s]
      by (auto simp: will_play_def has_sources_def AddPlayoutSource_def)
  next
    case (step_recorded data n b c res)
    then show ?thesis using inv
      by (auto simp: RecordedDataIsAvailable_def Let_def will_play_def has_sources_def split: if_splits)
  next
    case (step_aec enable res)
    from aec_effect [OF this] obtain d where "adm (run_tasks P api dev) = Some d"
      "adm dev' = Some (fst (adm_EnableBuiltInAEC api d enable))" "audio_mixer dev' = audio_mixer (run_tasks P api dev)"
      "signal_tasks dev' = signal_tasks (run_tasks P api dev)" by blast
    then show ?thesis using api by (auto intro: same_playing [OF run(1)] simp: module_laws)
  next
    case (step_record_device guid res)
    from set_device_effect [OF disjI1, OF this] obtain d i where "adm (run_tasks P api dev) = Some d"
      "adm dev' \<in> Some ` {d, fst (adm_SetRecordingDevice api d i), fst (adm_SetPlayoutDevice api d i)}"
      "audio_mixer dev' = audio_mixer (run_tasks P api dev)" "signal_tasks dev' = signal_tasks (run_tasks P api dev)"
      by blast
    then show ?thesis using api by (auto intro: same_playing [OF run(1)] simp: module_laws)
  next
    case (step_playout_device guid res)
    from set_device_effect [OF disjI2, OF this] obtain d i where "adm (run_tasks P api dev) = Some d"
      "adm dev' \<in> Some ` {d, fst (adm_SetRecordingDevice api d i), fst (adm_SetPlayoutDevice api d i)}"
      "audio_mixer dev' = audio_mixer (run_tasks P api dev)" "signal_tasks dev' = signal_tasks (run_tasks P api dev)"
      by blast
    then show ?thesis using api by (auto intro: same_playing [OF run(1)] simp: module_laws)
  next
    case (step_low enable)
    then show ?thesis using run(1) by (simp add: EnableLowLatancy_def)
  qed (use inv in \<open>auto simp: AddRecordSink_def RemoveRecordSink_def AddPlayoutSink_def RemovePlayoutSink_def
      AddRecordingEventSubscriber_def RemoveRecordingEventSubscriber_def AddPlayoutEventSubscriber_def
      RemovePlayoutEventSubscriber_def will_play_def has_sources_def\<close>)
qed

abbreviation device_steps where "device_steps P api E \<equiv> (device_step P api E)\<^sup>*\<^sup>*"

lemma steps_playing:
  assumes "playout_module api" "(device_step P api E)\<^sup>*\<^sup>* dev dev'" "will_play api dev = Some (has_sources dev)"
  shows "will_play api dev' = Some (has_sources dev')"
  using assms(2) by (induction rule: rtranclp_induct) (use assms step_playing [OF assms(1)] in blast)+


text \<open>A module of two flags and the chosen devices.\<close>

record flag_module =
  is_recording :: bool
  is_playing :: bool
  chosen_input :: nat
  chosen_output :: nat

definition flag_api :: "flag_module adm_api" where
  "flag_api = \<lparr>adm_Create = (\<lambda>layer. Some \<lparr>is_recording = False, is_playing = False, chosen_input = 0, chosen_output = 0\<rparr>),
     adm_Init = (\<lambda>d. (d, 0)), adm_RegisterAudioCallback = (\<lambda>d. (d, 0)), adm_Terminate = (\<lambda>d. (d, 0)),
     adm_EnableBuiltInAEC = (\<lambda>d b. (d, 0)), adm_Recording = is_recording, adm_InitRecording = (\<lambda>d. (d, 0)),
     adm_StartRecording = (\<lambda>d. (d\<lparr>is_recording := True\<rparr>, 0)), adm_StopRecording = (\<lambda>d. (d\<lparr>is_recording := False\<rparr>, 0)),
     adm_Playing = is_playing, adm_InitPlayout = (\<lambda>d. (d, 0)), adm_StartPlayout = (\<lambda>d. (d\<lparr>is_playing := True\<rparr>, 0)),
     adm_StopPlayout = (\<lambda>d. (d\<lparr>is_playing := False\<rparr>, 0)), adm_RecordingDevices = (\<lambda>d. 2), adm_PlayoutDevices = (\<lambda>d. 2),
     adm_RecordingDeviceName = (\<lambda>d i b. if i = 0 then (''mic'', ''m0'') else (''line'', ''m1'')),
     adm_PlayoutDeviceName = (\<lambda>d i b. if i = 0 then (''speaker'', ''s0'') else (''phones'', ''s1'')),
     adm_SetRecordingDevice = (\<lambda>d i. (d\<lparr>chosen_input := i\<rparr>, 0)), adm_SetPlayoutDevice = (\<lambda>d i. (d\<lparr>chosen_output := i\<rparr>, 0))\<rparr>"

lemma flag_modules: "playout_module flag_api" "record_module flag_api"
  by (simp_all add: module_laws flag_api_def)

type_synonym flag_device = "(byte list, unit, int, unit, flag_module) audio_device"

definition flag_device :: flag_device where
  "flag_device =
     \<lparr>record_events = [], playout_events = [], record_sinks = [], playout_sinks = [], record_index = 0,
      playout_index = 0, enable_buildin_aec = False, first_record_frame = True, first_playout_frame = True,
      audio_layer = 0, adm = Some \<lparr>is_recording = False, is_playing = False, chosen_input = 0, chosen_output = 0\<rparr>,
      audio_mixer = AudioMixerImpl_new (), device_buffers = ([], []), signal_tasks = [], device_log = []\<rparr>"

lemma flag_device_new: "AudioDeviceWrapperImpl_new flag_api () = Some flag_device"
  by (simp add: AudioDeviceWrapperImpl_new_def ReCreateAudioDeviceIfNeed_def kPlatformDefaultAudio_def flag_api_def
      flag_device_def)


subsection \<open>Recording\<close>

text \<open>
  The list of subscribers, which is what is looked at before the recording is stopped, never becomes
  empty again.
\<close>

lemma unregister_not_empty: "UnRegisterCallback cs callback = [] \<longleftrightarrow> cs = []"
  by (metis length_0_conv length_unregister)

definition keeps_recording :: "'d adm_api \<Rightarrow> ('s, 'c, 'f, 'l, 'd) audio_device \<Rightarrow> bool" where
  "keeps_recording api dev \<longleftrightarrow> record_events dev \<noteq> [] \<and> (\<exists>d. adm dev = Some d \<and> adm_Recording api d)"

lemma task_recording:
  assumes api: "record_module api" and inv: "keeps_recording api dev"
  shows "keeps_recording api (do_task P api t (dev\<lparr>signal_tasks := ts\<rparr>))"
proof -
  obtain d where d: "adm dev = Some d" "adm_Recording api d" "record_events dev \<noteq> []"
    using inv by (auto simp: keeps_recording_def)
  have d1: "adm (dev\<lparr>signal_tasks := ts\<rparr>) = Some d" using d(1) by simp
  have p: "adm_Recording api (started sel (\<lambda>d. adm_SetPlayoutDevice api d i) (adm_InitPlayout api) (adm_StartPlayout api) d) =
      adm_Recording api d" for sel i d
    using api by (intro started_keeps) (simp_all add: record_module_def keeps_flag_def)
  show ?thesis
    using d(2,3) api task_adm [OF d1, of P api t]
    by (cases t) (auto simp: keeps_recording_def task_fields p record_module_def keeps_def simp del: do_task.simps)
qed

lemma same_recording:
  assumes "keeps_recording api dev" "adm dev = Some d" "adm dev' = Some d'"
    and "adm_Recording api d' = adm_Recording api d" "record_events dev' = record_events dev"
  shows "keeps_recording api dev'"
  using assms by (simp add: keeps_recording_def)

lemma step_recording:
  assumes api: "record_module api" and step: "device_step P api E dev dev'" and inv: "keeps_recording api dev"
  shows "keeps_recording api dev'"
proof -
  note run = run_tasks_keeps(1) [where P = P and api = api and Q = "keeps_recording api", OF task_recording [OF api] inv]
  from step show ?thesis
  proof cases
    case (step_need n b c rate data block k res)
    then show ?thesis by (rule need_more_effect) (use inv in \<open>simp add: keeps_recording_def\<close>)
  next
    case (step_task t ts)
    then show ?thesis using task_recording [OF api inv] by simp
  next
    case (step_recorded data n b c res)
    then show ?thesis using inv
      by (auto simp: RecordedDataIsAvailable_def Let_def keeps_recording_def split: if_splits)
  next
    case (step_aec enable res)
    from aec_effect [OF this] obtain d where "adm (run_tasks P api dev) = Some d"
      "adm dev' = Some (fst (adm_EnableBuiltInAEC api d enable))"
      "record_events dev' = record_events (run_tasks P api dev)" by blast
    then show ?thesis using api by (auto intro: same_recording [OF run] simp: module_laws)
  next
    case (step_record_device guid res)
    from set_device_effect [OF disjI1, OF this] obtain d i where "adm (run_tasks P api dev) = Some d"
      "adm dev' \<in> Some ` {d, fst (adm_SetRecordingDevice api d i), fst (adm_SetPlayoutDevice api d i)}"
      "record_events dev' = record_events (run_tasks P api dev)" by blast
    then show ?thesis using api by (auto intro: same_recording [OF run] simp: module_laws)
  next
    case (step_playout_device guid res)
    from set_device_effect [OF disjI2, OF this] obtain d i where "adm (run_tasks P api dev) = Some d"
      "adm dev' \<in> Some ` {d, fst (adm_SetRecordingDevice api d i), fst (adm_SetPlayoutDevice api d i)}"
      "record_events dev' = record_events (run_tasks P api dev)" by blast
    then show ?thesis using api by (auto intro: same_recording [OF run] simp: module_laws)
  next
    case (step_low enable)
    then show ?thesis using run by (simp add: EnableLowLatancy_def)
  qed (use inv in \<open>auto simp: AddRecordSink_def RemoveRecordSink_def AddPlayoutSink_def RemovePlayoutSink_def
      AddRecordingEventSubscriber_def RemoveRecordingEventSubscriber_def AddPlayoutEventSubscriber_def
      RemovePlayoutEventSubscriber_def AddPlayoutSource_def RemovePlayoutSource_def keeps_recording_def
      register_not_empty unregister_not_empty\<close>)
qed

text \<open>
  C25: Recording never stops once there has been a subscriber to the events of recording. The task that
  stops it asks whether the list of subscribers is empty, and this list keeps a null pointer for each
  one that is gone; removing all sinks and all subscribers leaves the microphone on.
\<close>

theorem recording_never_stops:
  assumes api: "record_module api" and on: "adm dev0 = Some d0" "adm_Recording api d0"
    and steps: "(device_step P api E)\<^sup>*\<^sup>* (fst (AddRecordingEventSubscriber dev0 callback)) dev"
  shows "\<exists>d. adm dev = Some d \<and> adm_Recording api d"
proof -
  have "keeps_recording api (fst (AddRecordingEventSubscriber dev0 callback))"
    using on by (simp add: keeps_recording_def AddRecordingEventSubscriber_def register_not_empty)
  with steps have "keeps_recording api dev"
    by (induction rule: rtranclp_induct) (use step_recording [OF api] in blast)+
  then show ?thesis by (simp add: keeps_recording_def)
qed

lemma recording_never_stops_witness:
  "\<exists>(dev :: flag_device) d. registered (record_sinks dev) = [] \<and> registered (record_events dev) = [] \<and> signal_tasks dev = [] \<and>
     adm dev = Some d \<and> adm_Recording flag_api d"
proof -
  let ?E = "int_env kStreaming"
  define dev0 where "dev0 = do_task Linux flag_api StartRecordingTask (fst (AddRecordSink flag_device (Some 1))\<lparr>signal_tasks := []\<rparr>)"
  define dev1 where "dev1 = fst (AddRecordingEventSubscriber dev0 (Some 2))"
  define dev2 where "dev2 = fst (RemoveRecordingEventSubscriber dev1 (Some 2))"
  define dev3 where "dev3 = fst (RemoveRecordSink dev2 (Some 1))"
  define dev4 where "dev4 = do_task Linux flag_api StopRecordingTask (dev3\<lparr>signal_tasks := []\<rparr>)"
  have d0: "adm dev0 = Some \<lparr>is_recording = True, is_playing = False, chosen_input = 0, chosen_output = 0\<rparr>"
    "record_sinks dev0 = [Some 1]" "record_events dev0 = []" "signal_tasks dev0 = []"
    by (simp_all add: dev0_def check_defs AddRecordSink_def flag_device_def flag_api_def selects_device_def
        RegisterCallback_def PostTask_def notify_def)
  have t3: "signal_tasks dev3 = [StopRecordingTask]" "record_sinks dev3 = [None]" "record_events dev3 = [None]"
    by (simp_all add: dev3_def dev2_def dev1_def RemoveRecordSink_def RemoveRecordingEventSubscriber_def
        AddRecordingEventSubscriber_def d0 RegisterCallback_def)
  have steps: "(device_step Linux flag_api ?E)\<^sup>*\<^sup>* dev1 dev4"
    using step_remove_record_event [of Linux flag_api ?E dev1 "Some 2"] step_remove_record [of Linux flag_api ?E dev2 "Some 1"]
      step_task [OF t3(1), of Linux flag_api ?E]
    unfolding dev2_def [symmetric] dev3_def [symmetric] dev4_def [symmetric]
    by (intro converse_rtranclp_into_rtranclp [of _ dev1 dev2] converse_rtranclp_into_rtranclp [of _ dev2 dev3]
        converse_rtranclp_into_rtranclp [of _ dev3 dev4] rtranclp.rtrancl_refl)
  have "\<exists>d. adm dev4 = Some d \<and> adm_Recording flag_api d"
    by (rule recording_never_stops [OF flag_modules(2) d0(1) _ steps [unfolded dev1_def]]) (simp add: flag_api_def)
  moreover have "record_sinks dev4 = [None]" "record_events dev4 = [None]" "signal_tasks dev4 = []"
    using t3 by (simp_all add: dev4_def check_defs)
  ultimately show ?thesis by (intro exI [of _ dev4]) auto
qed

text \<open>
  C26: Without a subscriber to the events of recording, the removal of one sink stops the recording of
  all: when its task is done, the module does not record although another sink is registered.
\<close>

theorem removal_stops_other_sinks:
  assumes dev: "record_events dev = []" "signal_tasks dev = []" "adm dev = Some d" "adm_Recording api d"
    and api: "\<not> adm_Recording api (fst (adm_StopRecording api d))"
    and sinks: "no_duplicates (record_sinks dev)" "b \<in> members_of (record_sinks dev)" "b \<noteq> a"
  shows "\<exists>d'. adm (run_tasks P api (fst (RemoveRecordSink dev (Some a)))) = Some d' \<and> \<not> adm_Recording api d' \<and>
    b \<in> members_of (record_sinks (run_tasks P api (fst (RemoveRecordSink dev (Some a)))))"
proof -
  define dev1 where "dev1 = (fst (RemoveRecordSink dev (Some a)))\<lparr>signal_tasks := []\<rparr>"
  have run: "run_tasks P api (fst (RemoveRecordSink dev (Some a))) = CheckIfStopRecording api dev1"
    using dev(2) by (simp add: run_tasks_def RemoveRecordSink_def dev1_def)
  have f: "adm dev1 = Some d" "record_events dev1 = []" "record_sinks dev1 = UnRegisterCallback (record_sinks dev) (Some a)"
    using dev by (simp_all add: dev1_def RemoveRecordSink_def)
  have "adm (CheckIfStopRecording api dev1) = Some (fst (adm_StopRecording api d))"
    using task_adm [OF f(1), of P api StopRecordingTask] f(2) dev(4) by simp
  moreover have "record_sinks (CheckIfStopRecording api dev1) = record_sinks dev1"
    by (simp add: check_defs Let_def split: option.splits prod.splits)
  ultimately show ?thesis
    using api sinks unregister_removes(2) [OF sinks(1), of a] by (simp add: run f(3))
qed

lemma removal_stops_other_sinks_witness:
  "\<exists>(dev :: flag_device) d. 2 \<in> members_of (record_sinks dev) \<and> adm dev = Some d \<and> \<not> adm_Recording flag_api d"
proof -
  define dev :: flag_device where "dev = flag_device\<lparr>record_sinks := [Some 1, Some 2],
    adm := Some \<lparr>is_recording = True, is_playing = False, chosen_input = 0, chosen_output = 0\<rparr>\<rparr>"
  have "\<exists>d'. adm (run_tasks Linux flag_api (fst (RemoveRecordSink dev (Some 1)))) = Some d' \<and> \<not> adm_Recording flag_api d' \<and>
    2 \<in> members_of (record_sinks (run_tasks Linux flag_api (fst (RemoveRecordSink dev (Some 1)))))"
    by (rule removal_stops_other_sinks [where d = "\<lparr>is_recording = True, is_playing = False, chosen_input = 0, chosen_output = 0\<rparr>"])
      (simp_all add: dev_def flag_device_def flag_api_def no_duplicates_def members_of_def)
  then show ?thesis by blast
qed

subsection \<open>What the sinks get\<close>

fun sink_call :: "('s, 'c, 'f, 'l, 'd) audio_device \<Rightarrow> nat register_call \<Rightarrow> ('s, 'c, 'f, 'l, 'd) audio_device" where
  "sink_call dev (Add sink) = fst (AddRecordSink dev (Some sink))"
| "sink_call dev (Remove sink) = fst (RemoveRecordSink dev (Some sink))"

lemma sink_calls_register:
  "record_sinks (foldl sink_call dev calls) = foldl callback_register.run_call (record_sinks dev) calls"
proof (induction calls arbitrary: dev)
  case (Cons x calls)
  then show ?case by (cases x) (simp_all add: AddRecordSink_def RemoveRecordSink_def)
qed simp

lemma recorded_block_cases:
  assumes sinks: "record_sinks dev0 = []" "dev = foldl sink_call dev0 calls"
    and block: "length data = frames * (2 * channels)" "0 < frames" "frames < 2 ^ 32"
  shows "channels = 1 \<Longrightarrow> \<exists>dev' targets events. RecordedDataIsAvailable data frames (2 * channels) channels dev = Some (dev', 0) \<and>
      device_log dev' = device_log dev @ map (\<lambda>s. SinkWrite s data) targets @ events \<and> distinct targets \<and>
      set targets = {s. calls_on s calls \<noteq> [] \<and> last (calls_on s calls) = Add s} \<and>
      (\<forall>s x. SinkWrite s x \<notin> set events)"
    and "channels = 2 \<Longrightarrow> calls_on s calls \<noteq> [] \<Longrightarrow> last (calls_on s calls) = Add s \<Longrightarrow>
      RecordedDataIsAvailable data frames (2 * channels) channels dev = None"
proof -
  have reg: "record_sinks dev = foldl callback_register.run_call [] calls"
    using sink_calls_register [of dev0 calls] sinks by simp
  have ok: "no_duplicates ([] :: nat callbacks)" by (simp add: no_duplicates_def)
  have mem: "set (registered (record_sinks dev)) = {s. calls_on s calls \<noteq> [] \<and> last (calls_on s calls) = Add s}"
    using callback_register.run_members [OF ok, of _ calls]
    by (intro set_eqI) (simp only: reg members_of_def mem_Collect_eq registered.simps list.set empty_iff if_False
        split: if_split, blast)
  have dis: "distinct (registered (record_sinks dev))"
    using callback_register.run_ok [OF ok, of calls] by (simp add: reg no_duplicates_def)
  have sz: "umul (umul frames 2) 1 = frames * 2" "umul (umul frames 4) 2 = frames * 8"
    using block(3) by (simp_all add: umul_def)
  show "\<exists>dev' targets events. RecordedDataIsAvailable data frames (2 * channels) channels dev = Some (dev', 0) \<and>
      device_log dev' = device_log dev @ map (\<lambda>s. SinkWrite s data) targets @ events \<and> distinct targets \<and>
      set targets = {s. calls_on s calls \<noteq> [] \<and> last (calls_on s calls) = Add s} \<and>
      (\<forall>s x. SinkWrite s x \<notin> set events)" if "channels = 1"
  proof -
    define events where "events = (if first_record_frame dev then map OnFirstRecordFrame (registered (record_events dev)) else [])"
    have "\<exists>dev'. RecordedDataIsAvailable data frames (2 * channels) channels dev = Some (dev', 0) \<and>
        device_log dev' = device_log dev @ map (\<lambda>s. SinkWrite s data) (registered (record_sinks dev)) @ events"
      using sz(1) that block(1) by (simp add: RecordedDataIsAvailable_def Let_def notify_def events_def)
    moreover have "\<forall>s x. SinkWrite s x \<notin> set events" by (auto simp: events_def)
    ultimately show ?thesis
      by (elim exE conjE, intro exI conjI) (assumption | rule dis | rule mem)+
  qed
  show "RecordedDataIsAvailable data frames (2 * channels) channels dev = None"
    if "channels = 2" "calls_on s calls \<noteq> []" "last (calls_on s calls) = Add s"
  proof -
    have "registered (record_sinks dev) \<noteq> []" using mem that(2,3) by auto
    then show ?thesis using sz(2) that(1) block by (simp add: RecordedDataIsAvailable_def)
  qed
qed

text \<open>
  C27: A recorded block of a mono stream is delivered once to every sink whose last call was
  \<open>AddRecordSink\<close>, and to no other; of a stereo stream, the device gives the size of a frame for that of
  a sample, and the sinks are made to read twice the block, beyond its end.
\<close>

theorem recorded_block_delivered:
  assumes sinks: "record_sinks dev0 = []" "dev = foldl sink_call dev0 calls"
    and block: "length data = frames * (2 * channels)" "0 < frames" "frames < 2 ^ 32"
  shows "(channels = 1 \<longrightarrow> (\<exists>dev' targets events.
      RecordedDataIsAvailable data frames (2 * channels) channels dev = Some (dev', 0) \<and>
      device_log dev' = device_log dev @ map (\<lambda>s. SinkWrite s data) targets @ events \<and> distinct targets \<and>
      set targets = {s. calls_on s calls \<noteq> [] \<and> last (calls_on s calls) = Add s} \<and>
      (\<forall>s x. SinkWrite s x \<notin> set events))) \<and>
    (channels = 2 \<longrightarrow> (\<exists>s. calls_on s calls \<noteq> [] \<and> last (calls_on s calls) = Add s) \<longrightarrow>
      RecordedDataIsAvailable data frames (2 * channels) channels dev = None)"
proof (intro conjI impI, erule recorded_block_cases(1) [OF assms], elim exE conjE)
  fix s assume "channels = 2" "calls_on s calls \<noteq> []" "last (calls_on s calls) = Add s"
  then show "RecordedDataIsAvailable data frames (2 * channels) channels dev = None"
    by (rule recorded_block_cases(2) [OF assms])
qed

lemma recorded_block_delivered_witness:
  "(\<exists>dev'. RecordedDataIsAvailable [1, 2] 1 2 1 (foldl sink_call flag_device [Add 5, Add 6, Remove 5]) = Some (dev', 0) \<and>
      SinkWrite 6 [1, 2] \<in> set (device_log dev')) \<and>
   RecordedDataIsAvailable [1, 2, 3, 4] 1 4 2 (foldl sink_call flag_device [Add 5]) = None"
proof
  have c: "calls_on 6 [Add 5, Add 6, Remove 5] = [Add (6 :: nat)]" "calls_on 5 [Add 5] = [Add (5 :: nat)]"
    by (simp_all add: calls_on_def)
  have s: "record_sinks flag_device = []" by (simp add: flag_device_def)
  have mono: "length [1, 2 :: byte] = 1 * (2 * 1)" "(0 :: nat) < 1" "(1 :: nat) < 2 ^ 32" by simp_all
  obtain dev' targets events where
    R: "RecordedDataIsAvailable [1, 2] 1 (2 * 1) 1 (foldl sink_call flag_device [Add 5, Add 6, Remove 5]) = Some (dev', 0)"
    "device_log dev' = device_log (foldl sink_call flag_device [Add 5, Add 6, Remove 5]) @
      map (\<lambda>s. SinkWrite s [1, 2]) targets @ events"
    "set targets = {s. calls_on s [Add 5, Add 6, Remove 5] \<noteq> [] \<and>
      last (calls_on s [Add 5, Add 6, Remove 5]) = Add s}"
    using recorded_block_delivered [OF s refl mono, THEN conjunct1, THEN mp, OF refl] by blast
  have "6 \<in> set targets" unfolding R(3) by (simp add: c)
  then show "\<exists>dev'. RecordedDataIsAvailable [1, 2] 1 2 1 (foldl sink_call flag_device [Add 5, Add 6, Remove 5]) =
      Some (dev', 0) \<and> SinkWrite 6 [1, 2] \<in> set (device_log dev')"
    using R(1,2) by auto
  have stereo: "length [1, 2, 3, 4 :: byte] = 1 * (2 * 2)" by simp
  have "\<exists>s. calls_on s [Add (5 :: nat)] \<noteq> [] \<and> last (calls_on s [Add 5]) = Add s" by (rule exI [of _ 5]) (simp add: c)
  from recorded_block_delivered [OF s refl stereo mono(2,3), THEN conjunct2, THEN mp, OF refl, THEN mp, OF this]
  show "RecordedDataIsAvailable [1, 2, 3, 4] 1 4 2 (foldl sink_call flag_device [Add 5]) = None" by simp
qed

text \<open>
  The block that is played is what the mixer read, followed by zeros, and the sinks of the playout get
  what was read.
\<close>

lemma played_block:
  assumes read: "mixer_Read E (audio_mixer dev) data (umul n b)
      (AudioFormatInfo_new (s32 (int rate)) (s32 (int c)) kAudioSampleFormatPcmInt16) = Some (m, d, k, removed, none_left)"
    and block: "length d = umul n b" "k \<le> umul n b" "0 < b" "k * c < 2 ^ 64"
  shows "\<exists>dev'. NeedMorePlayData E n b c rate data dev =
      Some (dev', take k d @ replicate (umul n b - k) 0, k * c div b, 0) \<and> audio_mixer dev' = m \<and>
    (\<forall>s\<in>set (registered (playout_sinks dev)). SinkWrite s (take k d) \<in> set (device_log dev'))"
proof -
  have p: "(if k < umul n b then poke d k (replicate (umul n b - k) 0) else Some d) =
      Some (take k d @ replicate (umul n b - k) 0)"
    using block by (auto simp: poke_def mem_write_def)
  have kc: "div_size (umul k c) b = Some (k * c div b)" using block by (simp add: div_size_def umul_id)
  define dev1 where "dev1 = foldl (\<lambda>dev source. notify (\<lambda>c. OnAudioSourceAutoRemoved c source) (playout_events dev) dev)
    (if none_left then PostTask StopPlayoutTask (dev\<lparr>audio_mixer := m\<rparr>) else dev\<lparr>audio_mixer := m\<rparr>) removed"
  have ps: "playout_sinks (foldl (\<lambda>dev s. notify (ev s) (playout_events dev) dev) x removed) = playout_sinks x" for ev x
    by (induction removed arbitrary: x) simp_all
  have f: "audio_mixer dev1 = m" "playout_sinks dev1 = playout_sinks dev"
    by (simp_all add: dev1_def notify_removed ps)
  have l: "\<not> (registered (playout_sinks dev1) \<noteq> [] \<and> length (take k d @ replicate (umul n b - k) 0) < k)"
    using block by simp
  show ?thesis
    unfolding NeedMorePlayData_def Let_def read bind.bind_lunit prod.case dev1_def [symmetric] p kc if_not_P [OF l]
    using f block by (auto simp: notify_def)
qed

text \<open>
  The device that was chosen is forgotten: before every start, the task chooses the device 0, which is
  what \<open>record_index_\<close> stays at.
\<close>

lemma chosen_device_forgotten:
  assumes "selects_device P" "adm dev = Some d" "\<not> adm_Recording api d" "record_index dev = 0"
  shows "adm (CheckIfStartRecording P api dev) =
    Some (started True (\<lambda>d. adm_SetRecordingDevice api d 0) (adm_InitRecording api) (adm_StartRecording api) d)"
  using task_adm [OF assms(2), of P api StartRecordingTask] assms by simp

end
