(* ===== verification/PacketQueues.thy ===== *)
theory PacketQueues
  imports TimeClass
begin

text \<open>
  \<open>src/src/core/ffmpeg/av_packet_wrapper.cc\<close>, \<open>src/src/player/packet_info.cc\<close>,
  \<open>packet_queue.cc\<close> and \<open>av_packet_queue.cc\<close>: the queues of compressed packets between the
  reader and the two decoders.

  FFmpeg is not part of the repository: an \<open>AVPacket\<close> is the record of the fields the code
  reads, and the library functions are the fields of a parameter \<open>api\<close>. \<open>packet_api_ok\<close> states
  what their documentation promises. \<open>None\<close> is an access outside the vector, a dereference of
  \<open>NULL\<close>, a failed \<open>RTC_CHECK\<close> or an endless loop.
\<close>

datatype FfmpegStatus = kOk | kEof | kEAgain | kFfmpegError

record av_packet =
  pkt_data :: "nat option"
  pkt_dts :: int
  pkt_pts :: int
  pkt_duration :: int
  pkt_stream_index :: int
  pkt_key :: bool

type_synonym rational = "int \<times> int"

record packet_api =
  av_packet_alloc :: av_packet
  av_packet_unref :: "av_packet \<Rightarrow> av_packet"
  av_packet_move_ref :: "av_packet \<Rightarrow> av_packet \<Rightarrow> av_packet \<times> av_packet"
  av_rescale_q :: "int \<Rightarrow> rational \<Rightarrow> rational \<Rightarrow> int"

definition AV_NOPTS_VALUE :: int where
  "AV_NOPTS_VALUE = - (2 ^ 63)"

text \<open>
  \<open>av_packet_move_ref(dst, src)\<close> moves every field to \<open>dst\<close> and resets \<open>src\<close>;
  \<open>av_packet_alloc\<close> and \<open>av_packet_unref\<close> give a packet with the default fields.
\<close>

definition packet_api_ok :: "packet_api \<Rightarrow> bool" where
  "packet_api_ok api \<longleftrightarrow>
     pkt_data (av_packet_alloc api) = None \<and>
     (\<forall>p. pkt_data (av_packet_unref api p) = None \<and> pkt_dts (av_packet_unref api p) = AV_NOPTS_VALUE) \<and>
     (\<forall>d s. fst (av_packet_move_ref api d s) = s \<and>
            pkt_data (snd (av_packet_move_ref api d s)) = None)"

subsection \<open>AvPacketWrapper\<close>

record AvPacketWrapper =
  packet :: "av_packet option"
  time_base :: rational

definition AvPacketWrapper_new :: "packet_api \<Rightarrow> AvPacketWrapper" where
  "AvPacketWrapper_new api = \<lparr>packet = Some (av_packet_alloc api), time_base = (0, 0)\<rparr>"

text \<open>The move assignment, with the state of both objects; memory is not modelled.\<close>

definition wrapper_move_assign :: "AvPacketWrapper \<Rightarrow> AvPacketWrapper \<Rightarrow> AvPacketWrapper \<times> AvPacketWrapper" where
  "wrapper_move_assign self oth =
     (self\<lparr>time_base := time_base oth, packet := packet oth\<rparr>, oth\<lparr>packet := None\<rparr>)"

definition wrapper_MoveFromPaket :: "packet_api \<Rightarrow> AvPacketWrapper \<Rightarrow> AvPacketWrapper \<Rightarrow>
    (AvPacketWrapper \<times> AvPacketWrapper) option" where
  "wrapper_MoveFromPaket api self oth =
     do {
       d \<leftarrow> packet self;
       s \<leftarrow> packet oth;
       (case av_packet_move_ref api (av_packet_unref api d) s of (d', s') \<Rightarrow>
          Some (self\<lparr>time_base := time_base oth, packet := Some d'\<rparr>, oth\<lparr>packet := Some s'\<rparr>))
     }"

definition wrapper_UnRefPacket :: "packet_api \<Rightarrow> AvPacketWrapper \<Rightarrow> AvPacketWrapper option" where
  "wrapper_UnRefPacket api self =
     do { d \<leftarrow> packet self; Some (self\<lparr>packet := Some (av_packet_unref api d)\<rparr>) }"

definition wrapper_IsValid :: "AvPacketWrapper \<Rightarrow> bool" where
  "wrapper_IsValid self \<longleftrightarrow>
     (case packet self of None \<Rightarrow> False | Some p \<Rightarrow> pkt_data p \<noteq> None) \<and>
     fst (time_base self) \<noteq> 0 \<and> snd (time_base self) \<noteq> 0"

definition wrapper_GetPtsMs :: "packet_api \<Rightarrow> AvPacketWrapper \<Rightarrow> int" where
  "wrapper_GetPtsMs api self =
     (if \<not> wrapper_IsValid self then - (2 ^ 63)
      else av_rescale_q api (pkt_pts (the (packet self))) (time_base self) (1, 1000))"

definition wrapper_GetDurationMs :: "packet_api \<Rightarrow> AvPacketWrapper \<Rightarrow> int" where
  "wrapper_GetDurationMs api self =
     (if \<not> wrapper_IsValid self then - (2 ^ 63)
      else av_rescale_q api (pkt_duration (the (packet self))) (time_base self) (1, 1000))"

subsection \<open>PacketInfo\<close>

text \<open>
  A \<open>PacketInfo\<close> is a \<open>PacketProxy\<close> that points to its own wrapper; a proxy that points to a
  wrapper elsewhere is the same record, standing for the wrapper it points to.
\<close>

record PacketInfo =
  private_packet :: AvPacketWrapper
  serial :: nat

definition PacketInfo_new :: "packet_api \<Rightarrow> PacketInfo" where
  "PacketInfo_new api = \<lparr>private_packet = AvPacketWrapper_new api, serial = 0\<rparr>"

definition MoveFromPaket :: "packet_api \<Rightarrow> PacketInfo \<Rightarrow> PacketInfo \<Rightarrow> (PacketInfo \<times> PacketInfo) option" where
  "MoveFromPaket api self oth =
     do {
       (w, v) \<leftarrow> wrapper_MoveFromPaket api (private_packet self) (private_packet oth);
       Some (self\<lparr>private_packet := w, serial := serial oth\<rparr>,
             oth\<lparr>private_packet := v, serial := 0\<rparr>)
     }"

definition info_move_assign :: "PacketInfo \<Rightarrow> PacketInfo \<Rightarrow> PacketInfo \<times> PacketInfo" where
  "info_move_assign self oth =
     (case wrapper_move_assign (private_packet self) (private_packet oth) of (w, v) \<Rightarrow>
        (self\<lparr>serial := serial oth, private_packet := w\<rparr>, oth\<lparr>private_packet := v\<rparr>))"

definition UnRefPacket :: "packet_api \<Rightarrow> PacketInfo \<Rightarrow> PacketInfo option" where
  "UnRefPacket api self =
     do { w \<leftarrow> wrapper_UnRefPacket api (private_packet self); Some (self\<lparr>private_packet := w\<rparr>) }"

definition IsValid :: "PacketInfo \<Rightarrow> bool" where
  "IsValid self = wrapper_IsValid (private_packet self)"

definition SetTimeBase :: "PacketInfo \<Rightarrow> rational \<Rightarrow> PacketInfo" where
  "SetTimeBase self tb = self\<lparr>private_packet := (private_packet self)\<lparr>time_base := tb\<rparr>\<rparr>"

definition GetPacket_ptr :: "PacketInfo \<Rightarrow> av_packet option" where
  "GetPacket_ptr self = packet (private_packet self)"

subsection \<open>PacketQueue\<close>

record PacketQueue =
  is_video :: bool
  is_eof :: bool
  first_reserved_index :: int
  second_idr_index :: int
  read_index :: int
  last_writed_index :: int
  write_index :: int
  reserved_time :: time_data
  packet_queue :: "PacketInfo list"

definition PacketQueue_new :: "packet_api \<Rightarrow> time_data \<Rightarrow> bool \<Rightarrow> PacketQueue" where
  "PacketQueue_new api reserved video =
     \<lparr>is_video = video, is_eof = False, first_reserved_index = - 1, second_idr_index = - 1,
      read_index = - 1, last_writed_index = - 1, write_index = 0, reserved_time = reserved,
      packet_queue = replicate 10 (PacketInfo_new api)\<rparr>"

text \<open>\<open>packet_queue_[i]\<close>\<close>

definition slot :: "PacketQueue \<Rightarrow> int \<Rightarrow> PacketInfo option" where
  "slot q i = (if 0 \<le> i \<and> nat i < length (packet_queue q) then Some (packet_queue q ! nat i) else None)"

definition set_slot :: "PacketQueue \<Rightarrow> int \<Rightarrow> PacketInfo \<Rightarrow> PacketQueue" where
  "set_slot q i p = q\<lparr>packet_queue := (packet_queue q)[nat i := p]\<rparr>"

definition ReSizeQueue :: "packet_api \<Rightarrow> PacketQueue \<Rightarrow> PacketQueue" where
  "ReSizeQueue api q =
     (let size1 = length (packet_queue q);
          new_vec = replicate (size1 * 2) (PacketInfo_new api)
      in q\<lparr>packet_queue :=
           map (\<lambda>i. if i < size1 then fst (info_move_assign (new_vec ! i) (packet_queue q ! i))
                    else new_vec ! i) [0..<size1 * 2]\<rparr>)"

definition PushPacket :: "packet_api \<Rightarrow> PacketQueue \<Rightarrow> PacketInfo \<Rightarrow> (PacketQueue \<times> PacketInfo) option" where
  "PushPacket api q p =
     (if \<not> IsValid p then Some (q, p)
      else
        (let q1 = (if write_index q = - 1
                   then (ReSizeQueue api q)\<lparr>write_index := int (length (packet_queue q))\<rparr> else q)
         in do {
           dst \<leftarrow> slot q1 (write_index q1);
           (dst', p') \<leftarrow> MoveFromPaket api dst p;
           let q2 = set_slot q1 (write_index q1) dst';
               q3 = (if read_index q2 = - 1 then q2\<lparr>read_index := write_index q2\<rparr> else q2);
               q4 = q3\<lparr>last_writed_index := write_index q3,
                       write_index := (write_index q3 + 1) mod int (length (packet_queue q3))\<rparr>
           in Some (if write_index q4 = first_reserved_index q4 \<or> write_index q4 = read_index q4
                    then q4\<lparr>write_index := - 1\<rparr> else q4, p')
         }))"

definition index_dts :: "PacketQueue \<Rightarrow> int \<Rightarrow> int option" where
  "index_dts q i =
     (if 0 \<le> i then do { s \<leftarrow> slot q i; p \<leftarrow> GetPacket_ptr s; Some (pkt_dts p) } else Some 0)"

definition GetDuration :: "PacketQueue \<Rightarrow> int option" where
  "GetDuration q =
     do {
       first_dts \<leftarrow> index_dts q (read_index q);
       last_dts \<leftarrow> index_dts q (last_writed_index q);
       Some (s64 (last_dts - first_dts))
     }"

definition PeekPacket :: "PacketQueue \<Rightarrow> PacketInfo option" where
  "PeekPacket q = slot q (read_index q)"

text \<open>\<open>out\<close> is the target, \<open>None\<close> for \<open>NULL\<close>.\<close>

definition GetPacket :: "packet_api \<Rightarrow> PacketQueue \<Rightarrow> PacketInfo option \<Rightarrow>
    (PacketQueue \<times> PacketInfo option \<times> FfmpegStatus) option" where
  "GetPacket api q out =
     (case out of
        Some target \<Rightarrow>
          if read_index q \<noteq> - 1 then
            do {
              src \<leftarrow> slot q (read_index q);
              if \<not> IsValid src then Some (q, out, kFfmpegError)
              else do {
                (target', src') \<leftarrow> MoveFromPaket api target src;
                let q1 = set_slot q (read_index q) src';
                    q2 = (if write_index q1 = - 1 then q1\<lparr>write_index := read_index q1\<rparr> else q1);
                    q3 = (if read_index q2 = last_writed_index q2
                          then q2\<lparr>last_writed_index := - 1\<rparr> else q2);
                    q4 = q3\<lparr>read_index := (read_index q3 + 1) mod int (length (packet_queue q3))\<rparr>
                in Some (if read_index q4 = write_index q4 then q4\<lparr>read_index := - 1\<rparr> else q4,
                         Some target', kOk)
              }
            }
          else Some (q, out, if is_eof q then kEof else kEAgain)
      | None \<Rightarrow> Some (q, out, if is_eof q then kEof else kEAgain))"

definition PacketQueue_SetEof :: "PacketQueue \<Rightarrow> PacketQueue" where
  "PacketQueue_SetEof q = q\<lparr>is_eof := True\<rparr>"

definition PacketQueue_SeekTo :: "PacketQueue \<Rightarrow> int \<Rightarrow> nat \<Rightarrow> bool" where
  "PacketQueue_SeekTo q target_ms serial_id = False"

fun unref_all :: "packet_api \<Rightarrow> PacketInfo list \<Rightarrow> PacketInfo list option" where
  "unref_all api [] = Some []"
| "unref_all api (p # ps) = do { p' \<leftarrow> UnRefPacket api p; ps' \<leftarrow> unref_all api ps; Some (p' # ps') }"

definition PacketQueue_Clear :: "packet_api \<Rightarrow> PacketQueue \<Rightarrow> PacketQueue option" where
  "PacketQueue_Clear api q =
     do {
       ps \<leftarrow> unref_all api (packet_queue q);
       Some (q\<lparr>packet_queue := ps, read_index := - 1, write_index := 0\<rparr>)
     }"

subsection \<open>The operations that keep packets for going back (not called yet)\<close>

definition PacketDiffMs :: "packet_api \<Rightarrow> PacketQueue \<Rightarrow> int \<Rightarrow> int \<Rightarrow> int option" where
  "PacketDiffMs api q index1 index2 =
     do {
       s1 \<leftarrow> slot q index1; p1 \<leftarrow> GetPacket_ptr s1;
       s2 \<leftarrow> slot q index2; p2 \<leftarrow> GetPacket_ptr s2;
       (if pkt_dts p2 \<le> pkt_dts p1
        then Some (av_rescale_q api (s64 (pkt_dts p1 - pkt_dts p2)) (1, 1000000) (1, 1000))
        else None)
     }"

partial_function (option) UnRefPackets :: "packet_api \<Rightarrow> PacketQueue \<Rightarrow> int \<Rightarrow> int \<Rightarrow> PacketQueue option" where
  "UnRefPackets api q start stop =
     (if start = stop then Some q
      else do {
        p \<leftarrow> slot q start;
        p' \<leftarrow> UnRefPacket api p;
        UnRefPackets api (set_slot q start p') ((start + 1) mod int (length (packet_queue q))) stop
      })"

fun reserve_audio :: "packet_api \<Rightarrow> int \<Rightarrow> int list \<Rightarrow> PacketQueue \<Rightarrow> PacketQueue option" where
  "reserve_audio api index [] q = Some q"
| "reserve_audio api index (i # is) q =
     do {
       diff_ms \<leftarrow> PacketDiffMs api q index i;
       reserved \<leftarrow> Value ms_factor (reserved_time q);
       q' \<leftarrow> (if reserved < diff_ms
             then do { p \<leftarrow> slot q i; p' \<leftarrow> UnRefPacket api p;
                       Some ((set_slot q i p')\<lparr>first_reserved_index := i + 1\<rparr>) }
             else Some q);
       reserve_audio api index is q'
     }"

definition HandleReservedPacket :: "packet_api \<Rightarrow> PacketQueue \<Rightarrow> int \<Rightarrow> PacketQueue option" where
  "HandleReservedPacket api q index =
     (if first_reserved_index q < 0 then None
      else do {
        s \<leftarrow> slot q index;
        p \<leftarrow> GetPacket_ptr s;
        (if is_video q then
           (if pkt_key p then
              (let q1 = (if first_reserved_index q \<noteq> - 1 \<and> second_idr_index q = - 1
                         then q\<lparr>second_idr_index := read_index q\<rparr> else q)
               in if 0 < second_idr_index q1 then do {
                    diff \<leftarrow> PacketDiffMs api q1 index (second_idr_index q1);
                    reserved \<leftarrow> Value ms_factor (reserved_time q1);
                    (if reserved < diff then do {
                       q2 \<leftarrow> UnRefPackets api q1 (first_reserved_index q1) (second_idr_index q1);
                       Some (q2\<lparr>first_reserved_index := second_idr_index q2\<rparr>)
                     } else Some q1)
                  } else Some q1)
            else Some q)
         else reserve_audio api index [first_reserved_index q..index - 1] q)
      })"

subsection \<open>AvPacketQueue\<close>

record AvPacketQueue =
  audio_packet_queue :: PacketQueue
  video_packet_queue :: PacketQueue

definition AvPacketQueue_new :: "packet_api \<Rightarrow> time_data \<Rightarrow> AvPacketQueue" where
  "AvPacketQueue_new api reserved =
     \<lparr>audio_packet_queue = PacketQueue_new api reserved False,
      video_packet_queue = PacketQueue_new api reserved True\<rparr>"

definition av_PushPacket :: "packet_api \<Rightarrow> AvPacketQueue \<Rightarrow> PacketInfo \<Rightarrow> bool \<Rightarrow>
    (AvPacketQueue \<times> PacketInfo) option" where
  "av_PushPacket api q p video =
     (if video
      then map_option (\<lambda>(v, p'). (q\<lparr>video_packet_queue := v\<rparr>, p')) (PushPacket api (video_packet_queue q) p)
      else map_option (\<lambda>(a, p'). (q\<lparr>audio_packet_queue := a\<rparr>, p')) (PushPacket api (audio_packet_queue q) p))"

definition av_GetDuration :: "AvPacketQueue \<Rightarrow> bool \<Rightarrow> int option" where
  "av_GetDuration q video =
     (if video then GetDuration (video_packet_queue q) else GetDuration (audio_packet_queue q))"

definition av_PeekPacket :: "AvPacketQueue \<Rightarrow> bool \<Rightarrow> PacketInfo option" where
  "av_PeekPacket q video =
     (if video then PeekPacket (video_packet_queue q) else PeekPacket (audio_packet_queue q))"

definition av_GetPacket :: "packet_api \<Rightarrow> AvPacketQueue \<Rightarrow> PacketInfo option \<Rightarrow> bool \<Rightarrow>
    (AvPacketQueue \<times> PacketInfo option \<times> FfmpegStatus) option" where
  "av_GetPacket api q out video =
     (if video
      then map_option (\<lambda>(v, out', st). (q\<lparr>video_packet_queue := v\<rparr>, out', st))
             (GetPacket api (video_packet_queue q) out)
      else map_option (\<lambda>(a, out', st). (q\<lparr>audio_packet_queue := a\<rparr>, out', st))
             (GetPacket api (audio_packet_queue q) out))"

definition av_SeekTo :: "AvPacketQueue \<Rightarrow> int \<Rightarrow> nat \<Rightarrow> bool" where
  "av_SeekTo q target_ms serial_id \<longleftrightarrow>
     PacketQueue_SeekTo (audio_packet_queue q) target_ms serial_id \<and>
     PacketQueue_SeekTo (video_packet_queue q) target_ms serial_id"

definition av_Clear :: "packet_api \<Rightarrow> AvPacketQueue \<Rightarrow> AvPacketQueue option" where
  "av_Clear api q =
     do {
       a \<leftarrow> PacketQueue_Clear api (audio_packet_queue q);
       v \<leftarrow> PacketQueue_Clear api (video_packet_queue q);
       Some (q\<lparr>audio_packet_queue := a, video_packet_queue := v\<rparr>)
     }"

definition av_SetEof :: "AvPacketQueue \<Rightarrow> AvPacketQueue" where
  "av_SetEof q = q\<lparr>audio_packet_queue := PacketQueue_SetEof (audio_packet_queue q),
                   video_packet_queue := PacketQueue_SetEof (video_packet_queue q)\<rparr>"

subsection \<open>The queue as a segment of a circular vector\<close>

definition seg :: "'a list \<Rightarrow> nat \<Rightarrow> nat \<Rightarrow> 'a list" where
  "seg vec r k = map (\<lambda>i. vec ! ((r + i) mod length vec)) [0..<k]"

lemma length_seg [simp]: "length (seg vec r k) = k"
  by (simp add: seg_def)

lemma ring_index_inj:
  assumes "(r + i) mod n = (r + j) mod n" "i < n" "j < (n :: nat)"
  shows "i = j"
proof -
  have "(int (r + i) - int r) mod int n = (int (r + j) - int r) mod int n"
    using assms(1) by (metis mod_diff_left_eq of_nat_mod)
  then have "int i mod int n = int j mod int n" by simp
  then show ?thesis using assms(2,3) by simp
qed

lemma seg_push:
  assumes "k < length vec"
  shows "seg (vec[(r + k) mod length vec := x]) r (Suc k) = seg vec r k @ [x]"
proof -
  have n: "vec \<noteq> []" using assms by auto
  have "vec[(r + k) mod length vec := x] ! ((r + i) mod length vec) = vec ! ((r + i) mod length vec)"
    if "i < k" for i
    using ring_index_inj [of r i "length vec" k] that assms by (intro nth_list_update_neq) auto
  then show ?thesis using n by (auto simp: seg_def)
qed

lemma seg_pop:
  assumes "Suc k \<le> length vec" and "r < length vec"
  shows "seg vec r (Suc k) = vec ! r # seg (vec[r := y]) ((r + 1) mod length vec) k"
proof -
  have "vec ! ((r + Suc i) mod length vec) = vec[r := y] ! (((r + 1) mod length vec + i) mod length vec)"
    if "i < k" for i
  proof -
    have "((r + 1) mod length vec + i) mod length vec = (r + Suc i) mod length vec"
      by (simp add: mod_add_left_eq)
    moreover have "(r + Suc i) mod length vec \<noteq> r"
    proof
      assume "(r + Suc i) mod length vec = r"
      then have "(r + Suc i) mod length vec = (r + 0) mod length vec" using assms(2) by simp
      moreover have "Suc i < length vec" "0 < length vec" using that assms by linarith+
      ultimately show False using ring_index_inj by blast
    qed
    ultimately show ?thesis by simp
  qed
  then have "map (\<lambda>i. vec ! ((r + Suc i) mod length vec)) [0..<k]
      = seg (vec[r := y]) ((r + 1) mod length vec) k"
    by (simp add: seg_def)
  moreover have "seg vec r (Suc k) = vec ! (r mod length vec) # map (\<lambda>i. vec ! ((r + Suc i) mod length vec)) [0..<k]"
    unfolding seg_def upt_conv_Cons [OF zero_less_Suc] by (simp add: map_Suc_upt [symmetric] del: upt_Suc)
  ultimately show ?thesis using assms(2) by simp
qed

lemma seg_take: "j \<le> k \<Longrightarrow> take j (seg vec r k) = seg vec r j"
  by (simp add: seg_def take_map)

lemma seg_straight:
  assumes "r + k \<le> length vec"
  shows "seg (vec @ ys) r k = seg vec r k"
proof -
  have "(r + i) mod length (vec @ ys) = r + i" "(r + i) mod length vec = r + i" if "i < k" for i
    using assms that by (simp_all add: mod_less)
  then show ?thesis using assms by (auto simp: seg_def nth_append)
qed

text \<open>
  \<open>pq_shape q r k\<close>: \<open>k\<close> packets are readable, the first one in slot \<open>r\<close>. An empty queue has no
  read position, a full one no write position.
\<close>

definition pq_shape :: "PacketQueue \<Rightarrow> nat \<Rightarrow> nat \<Rightarrow> bool" where
  "pq_shape q r k \<longleftrightarrow>
     (let n = length (packet_queue q) in
      r < n \<and> k \<le> n \<and> first_reserved_index q = - 1 \<and>
      read_index q = (if k = 0 then - 1 else int r) \<and>
      write_index q = (if k = n then - 1 else int ((r + k) mod n)) \<and>
      (\<forall>p\<in>set (packet_queue q). packet (private_packet p) \<noteq> None) \<and>
      (\<forall>p\<in>set (seg (packet_queue q) r k). IsValid p))"

text \<open>The readable packets, computed from the two indices alone.\<close>

definition pq_count :: "PacketQueue \<Rightarrow> nat" where
  "pq_count q =
     (if read_index q = - 1 then 0
      else if write_index q = - 1 then length (packet_queue q)
      else nat ((write_index q - read_index q) mod int (length (packet_queue q))))"

definition pq_contents :: "PacketQueue \<Rightarrow> PacketInfo list" where
  "pq_contents q = seg (packet_queue q) (nat (read_index q)) (pq_count q)"

definition pq_inv :: "PacketQueue \<Rightarrow> bool" where
  "pq_inv q \<longleftrightarrow> (\<exists>r k. pq_shape q r k)"

lemma shape_count:
  assumes "pq_shape q r k"
  shows "pq_count q = k"
proof -
  let ?n = "length (packet_queue q)"
  have S: "r < ?n" "k \<le> ?n" "read_index q = (if k = 0 then - 1 else int r)"
    "write_index q = (if k = ?n then - 1 else int ((r + k) mod ?n))"
    using assms by (simp_all add: pq_shape_def Let_def)
  show ?thesis
  proof (cases "k = 0 \<or> k = ?n")
    case True
    then show ?thesis using S by (auto simp: pq_count_def)
  next
    case False
    have "(int ((r + k) mod ?n) - int r) mod int ?n = (int (r + k) - int r) mod int ?n"
      by (simp add: zmod_int mod_diff_left_eq)
    also have "\<dots> = int k" using False S by simp
    finally show ?thesis using False S by (simp add: pq_count_def)
  qed
qed

lemma shape_contents:
  assumes "pq_shape q r k"
  shows "pq_contents q = seg (packet_queue q) r k"
proof -
  have "read_index q = (if k = 0 then - 1 else int r)"
    using assms by (simp add: pq_shape_def Let_def)
  then show ?thesis
    using shape_count [OF assms] by (cases "k = 0") (simp_all add: pq_contents_def seg_def)
qed

subsection \<open>What the operations do to the contents\<close>

lemma move_stored:
  assumes api: "packet_api_ok api" and p: "IsValid p" and d: "packet (private_packet dst) \<noteq> None"
  obtains p' where "MoveFromPaket api dst p = Some (p, p')" "\<not> IsValid p'"
    "packet (private_packet p') \<noteq> None"
proof -
  obtain a where a: "packet (private_packet dst) = Some a" using d by blast
  obtain s where s: "packet (private_packet p) = Some s"
    using p by (auto simp: IsValid_def wrapper_IsValid_def split: option.splits)
  obtain d' s' where m: "av_packet_move_ref api (av_packet_unref api a) s = (d', s')" by (meson surj_pair)
  have "d' = s" "pkt_data s' = None"
    using api m unfolding packet_api_ok_def by (metis fst_conv, metis snd_conv)
  then show ?thesis using a s m
    by (intro that [of "p\<lparr>private_packet := (private_packet p)\<lparr>packet := Some s'\<rparr>, serial := 0\<rparr>"])
      (simp_all add: MoveFromPaket_def wrapper_MoveFromPaket_def IsValid_def wrapper_IsValid_def)
qed

lemma resize_queue:
  "packet_queue (ReSizeQueue api q) =
     packet_queue q @ replicate (length (packet_queue q)) (PacketInfo_new api)"
proof -
  have "fst (info_move_assign x y) = y" for x y :: PacketInfo
    by (simp add: info_move_assign_def wrapper_move_assign_def)
  then show ?thesis
    by (intro nth_equalityI) (auto simp: ReSizeQueue_def Let_def nth_append)
qed

text \<open>
  Doubling a full queue: the packets before the read position stay in the slots in front of it,
  where the queue does not look for them.
\<close>

lemma shape_resized:
  assumes "pq_shape q r (length (packet_queue q))"
  shows "pq_shape ((ReSizeQueue api q)\<lparr>write_index := int (length (packet_queue q))\<rparr>) r
           (length (packet_queue q) - r)"
    and "seg (packet_queue (ReSizeQueue api q)) r (length (packet_queue q) - r) =
           take (length (packet_queue q) - r) (seg (packet_queue q) r (length (packet_queue q)))"
proof -
  let ?n = "length (packet_queue q)"
  have S: "r < ?n" "first_reserved_index q = - 1" "read_index q = int r"
    "\<forall>p\<in>set (packet_queue q). packet (private_packet p) \<noteq> None"
    "\<forall>p\<in>set (seg (packet_queue q) r ?n). IsValid p"
    using assms by (auto simp: pq_shape_def Let_def split: if_splits)
  show s: "seg (packet_queue (ReSizeQueue api q)) r (?n - r) = take (?n - r) (seg (packet_queue q) r ?n)"
    using S(1) unfolding resize_queue by (simp add: seg_take seg_straight)
  have v: "\<forall>p\<in>set (seg (packet_queue (ReSizeQueue api q)) r (?n - r)). IsValid p"
    unfolding s using S(5) set_take_subset by fast
  have "\<forall>p\<in>set (packet_queue (ReSizeQueue api q)). packet (private_packet p) \<noteq> None"
    using S(4) unfolding resize_queue by (auto simp: PacketInfo_new_def AvPacketWrapper_new_def)
  moreover have "read_index (ReSizeQueue api q) = int r" "first_reserved_index (ReSizeQueue api q) = - 1"
    using S by (simp_all add: ReSizeQueue_def Let_def)
  moreover have "length (packet_queue (ReSizeQueue api q)) = 2 * ?n" by (simp add: resize_queue)
  ultimately show "pq_shape ((ReSizeQueue api q)\<lparr>write_index := int ?n\<rparr>) r (?n - r)"
    using S(1) v by (auto simp: pq_shape_def Let_def)
qed

text \<open>A push into a queue that has a write position.\<close>

definition push_tail :: "packet_api \<Rightarrow> PacketQueue \<Rightarrow> PacketInfo \<Rightarrow> (PacketQueue \<times> PacketInfo) option" where
  "push_tail api q1 p =
     do {
       dst \<leftarrow> slot q1 (write_index q1);
       (dst', p') \<leftarrow> MoveFromPaket api dst p;
       let q2 = set_slot q1 (write_index q1) dst';
           q3 = (if read_index q2 = - 1 then q2\<lparr>read_index := write_index q2\<rparr> else q2);
           q4 = q3\<lparr>last_writed_index := write_index q3,
                   write_index := (write_index q3 + 1) mod int (length (packet_queue q3))\<rparr>
       in Some (if write_index q4 = first_reserved_index q4 \<or> write_index q4 = read_index q4
                then q4\<lparr>write_index := - 1\<rparr> else q4, p')
     }"

lemma PushPacket_tail:
  "IsValid p \<Longrightarrow> PushPacket api q p = push_tail api (if write_index q = - 1
     then (ReSizeQueue api q)\<lparr>write_index := int (length (packet_queue q))\<rparr> else q) p"
  by (simp add: PushPacket_def push_tail_def Let_def)

lemma push_tail_shape:
  assumes api: "packet_api_ok api" and p: "IsValid p" and q: "pq_shape q r k"
    and k: "k < length (packet_queue q)"
  obtains q' p' where "push_tail api q p = Some (q', p')" "\<not> IsValid p'"
    "pq_shape q' r (Suc k)" "seg (packet_queue q') r (Suc k) = seg (packet_queue q) r k @ [p]"
    "last_writed_index q' = int ((r + k) mod length (packet_queue q'))"
    "length (packet_queue q') = length (packet_queue q)"
    "is_eof q' = is_eof q"
proof -
  let ?vec = "packet_queue q" and ?n = "length (packet_queue q)"
  let ?w = "(r + k) mod ?n"
  have S: "r < ?n" "first_reserved_index q = - 1" "read_index q = (if k = 0 then - 1 else int r)"
    "write_index q = int ?w" "\<forall>p\<in>set ?vec. packet (private_packet p) \<noteq> None"
    "\<forall>p\<in>set (seg ?vec r k). IsValid p"
    using q k by (auto simp: pq_shape_def Let_def)
  have "0 < ?n" using S(1) by linarith
  then have w: "?w < ?n" by (rule mod_less_divisor)
  have "packet (private_packet (?vec ! ?w)) \<noteq> None" using S(5) w by simp
  from move_stored [OF api p this] obtain p' where
    p': "MoveFromPaket api (?vec ! ?w) p = Some (p, p')" "\<not> IsValid p'" by blast
  have w1: "(int ?w + 1) mod int ?n = int ((r + Suc k) mod ?n)"
    by (simp add: zmod_int mod_add_left_eq mod_add_right_eq add.commute)
  have full: "int ((r + Suc k) mod ?n) = int r \<longleftrightarrow> Suc k = ?n"
  proof
    assume "int ((r + Suc k) mod ?n) = int r"
    then have "(r + Suc k) mod ?n = (r + 0) mod ?n" using S(1) by simp
    then show "Suc k = ?n"
      using ring_index_inj [OF _ _ \<open>0 < ?n\<close>, of r "Suc k"] k by (cases "Suc k < ?n") auto
  next
    assume "Suc k = ?n"
    then show "int ((r + Suc k) mod ?n) = int r" using S(1) by simp
  qed
  define q' where "q' = q\<lparr>packet_queue := ?vec[?w := p], read_index := int r,
      last_writed_index := int ?w,
      write_index := (if Suc k = ?n then - 1 else int ((r + Suc k) mod ?n))\<rparr>"
  have rd: "(if read_index q = - 1 then int ?w else read_index q) = int r"
    using S(1,3) by (cases "k = 0") simp_all
  have "push_tail api q p = Some (q', p')"
  proof (cases "k = 0")
    case True
    then have rw: "?w = r" using S(1) by simp
    show ?thesis
      using w p'(1) S(2,3,4) w1 full True mod_less [OF S(1)]
      by (auto simp: push_tail_def slot_def set_slot_def Let_def q'_def rw)
  next
    case False
    then show ?thesis
      using w p'(1) S(2,3,4) w1 full
      by (auto simp: push_tail_def slot_def set_slot_def Let_def q'_def)
  qed
  moreover have seg': "seg (packet_queue q') r (Suc k) = seg ?vec r k @ [p]"
    using seg_push [OF k] by (simp add: q'_def)
  moreover have "pq_shape q' r (Suc k)"
  proof -
    have "packet (private_packet p) \<noteq> None"
      using p by (auto simp: IsValid_def wrapper_IsValid_def split: option.splits)
    then have "\<forall>x\<in>set (?vec[?w := p]). packet (private_packet x) \<noteq> None"
      using S(5) set_update_subset_insert [of ?vec ?w p] by blast
    moreover have "\<forall>x\<in>set (seg (packet_queue q') r (Suc k)). IsValid x"
      unfolding seg' using S(6) p by auto
    ultimately show ?thesis using S(1,2) k by (auto simp: pq_shape_def Let_def q'_def)
  qed
  ultimately show ?thesis using p'(2) by (intro that [of q' p']) (simp_all add: q'_def)
qed

lemma push_shape:
  assumes api: "packet_api_ok api" and p: "IsValid p" and q: "pq_shape q r k"
  obtains q' p' j where "PushPacket api q p = Some (q', p')" "\<not> IsValid p'"
    "j = (if k = length (packet_queue q) then k - r else k)" "pq_shape q' r (Suc j)"
    "seg (packet_queue q') r (Suc j) = take j (seg (packet_queue q) r k) @ [p]"
    "last_writed_index q' = int ((r + j) mod length (packet_queue q'))"
    "is_eof q' = is_eof q"
proof -
  let ?n = "length (packet_queue q)"
  have r: "r < ?n" "k \<le> ?n" using q by (auto simp: pq_shape_def Let_def)
  show ?thesis
  proof (cases "k = ?n")
    case True
    let ?q = "(ReSizeQueue api q)\<lparr>write_index := int ?n\<rparr>"
    have s: "pq_shape ?q r (?n - r)" using shape_resized(1) q True by blast
    have lt: "?n - r < length (packet_queue ?q)" using r by (simp add: resize_queue)
    from push_tail_shape [OF api p s lt] obtain q' p' where
      t: "push_tail api ?q p = Some (q', p')" "\<not> IsValid p'" "pq_shape q' r (Suc (?n - r))"
      "seg (packet_queue q') r (Suc (?n - r)) = seg (packet_queue ?q) r (?n - r) @ [p]"
      "last_writed_index q' = int ((r + (?n - r)) mod length (packet_queue q'))"
      "is_eof q' = is_eof ?q"
      by blast
    have "write_index q = - 1" using q True by (auto simp: pq_shape_def Let_def split: if_splits)
    then have "PushPacket api q p = Some (q', p')"
      using t(1) p by (simp add: PushPacket_tail)
    moreover have "seg (packet_queue ?q) r (?n - r) = take (?n - r) (seg (packet_queue q) r k)"
      using shape_resized(2) q True by simp
    moreover have "is_eof ?q = is_eof q" by (simp add: ReSizeQueue_def Let_def)
    ultimately show ?thesis using t True by (intro that [of q' p' "?n - r"]) simp_all
  next
    case False
    then have lt: "k < ?n" using r by simp
    from push_tail_shape [OF api p q lt] obtain q' p' where
      t: "push_tail api q p = Some (q', p')" "\<not> IsValid p'" "pq_shape q' r (Suc k)"
      "seg (packet_queue q') r (Suc k) = seg (packet_queue q) r k @ [p]"
      "last_writed_index q' = int ((r + k) mod length (packet_queue q'))" "is_eof q' = is_eof q"
      by blast
    have "write_index q \<noteq> - 1" using q False by (auto simp: pq_shape_def Let_def)
    then have "PushPacket api q p = Some (q', p')"
      using t(1) p by (simp add: PushPacket_tail)
    then show ?thesis using t False by (intro that [of q' p' k]) simp_all
  qed
qed

lemma get_shape:
  assumes api: "packet_api_ok api" and q: "pq_shape q r (Suc k)"
    and out: "packet (private_packet target) \<noteq> None"
  obtains q' where
    "GetPacket api q (Some target) = Some (q', Some (packet_queue q ! r), kOk)"
    "pq_shape q' ((r + 1) mod length (packet_queue q)) k"
    "seg (packet_queue q) r (Suc k) = packet_queue q ! r #
       seg (packet_queue q') ((r + 1) mod length (packet_queue q)) k"
    "length (packet_queue q') = length (packet_queue q)" "is_eof q' = is_eof q"
    "last_writed_index q' = (if last_writed_index q = int r then - 1 else last_writed_index q)"
proof -
  let ?vec = "packet_queue q" and ?n = "length (packet_queue q)"
  let ?r' = "(r + 1) mod ?n"
  have S: "r < ?n" "Suc k \<le> ?n" "first_reserved_index q = - 1" "read_index q = int r"
    "write_index q = (if Suc k = ?n then - 1 else int ((r + Suc k) mod ?n))"
    "\<forall>p\<in>set ?vec. packet (private_packet p) \<noteq> None" "\<forall>p\<in>set (seg ?vec r (Suc k)). IsValid p"
    using q by (auto simp: pq_shape_def Let_def)
  have n0: "0 < ?n" using S(1) by linarith
  have split: "seg ?vec r (Suc k) = ?vec ! r # seg (?vec[r := y]) ?r' k" for y
    using S(1,2) by (intro seg_pop) simp_all
  have "?vec ! r \<in> set (seg ?vec r (Suc k))" unfolding split [of undefined] by simp
  then have v: "IsValid (?vec ! r)" using S(7) by blast
  from move_stored [OF api v out] obtain s' where
    s': "MoveFromPaket api target (?vec ! r) = Some (?vec ! r, s')" "packet (private_packet s') \<noteq> None"
    by blast
  have r1: "(int r + 1) mod int ?n = int ?r'" by (simp add: zmod_int add.commute)
  have wr: "(if write_index q = - 1 then int r else write_index q) = int ((?r' + k) mod ?n)"
  proof -
    have e: "(?r' + k) mod ?n = (r + Suc k) mod ?n" by (simp add: mod_add_left_eq)
    show ?thesis
    proof (cases "Suc k = ?n")
      case True
      have "(r + ?n) mod ?n = r" using S(1) by simp
      then have "(?r' + k) mod ?n = r" unfolding e True .
      then show ?thesis using S(5) True by simp
    next
      case False
      then show ?thesis using S(5) unfolding e by simp
    qed
  qed
  have meet: "int ?r' = int ((?r' + k) mod ?n) \<longleftrightarrow> k = 0"
  proof
    assume "int ?r' = int ((?r' + k) mod ?n)"
    then have "(?r' + k) mod ?n = (?r' + 0) mod ?n" by simp
    from ring_index_inj [OF this] show "k = 0" using S(2) n0 by simp
  qed simp
  define q' where "q' = q\<lparr>packet_queue := ?vec[r := s'], write_index := int ((?r' + k) mod ?n),
      last_writed_index := (if last_writed_index q = int r then - 1 else last_writed_index q),
      read_index := (if k = 0 then - 1 else int ?r')\<rparr>"
  have "GetPacket api q (Some target) = Some (q', Some (?vec ! r), kOk)"
  proof -
    have sl: "slot q (int r) = Some (?vec ! r)" using S(1) by (simp add: slot_def)
    show ?thesis
      using s'(1) v S(4) r1 wr meet
      by (cases "write_index q = - 1"; cases "last_writed_index q = int r")
        (simp_all add: GetPacket_def sl set_slot_def Let_def q'_def)
  qed
  moreover have "pq_shape q' ?r' k"
  proof -
    have "\<forall>x\<in>set (?vec[r := s']). packet (private_packet x) \<noteq> None"
      using S(6) s'(2) set_update_subset_insert [of ?vec r s'] by blast
    moreover have "\<forall>x\<in>set (seg (?vec[r := s']) ?r' k). IsValid x"
      using S(7) unfolding split [of s'] by simp
    moreover have "?r' < ?n" using n0 by (rule mod_less_divisor)
    ultimately show ?thesis using S(2,3) by (simp add: pq_shape_def Let_def q'_def)
  qed
  ultimately show ?thesis
    using split [of s'] by (intro that [of q']) (simp_all add: q'_def)
qed

lemma get_empty:
  assumes "pq_shape q r 0"
  shows "GetPacket api q (Some target) = Some (q, Some target, if is_eof q then kEof else kEAgain)"
  using assms by (simp add: pq_shape_def Let_def GetPacket_def)

subsection \<open>Properties\<close>

text \<open>
  A concrete \<open>api\<close> with the documented behaviour, and packets with a time base of milliseconds.
\<close>

definition blank_packet :: av_packet where
  "blank_packet = \<lparr>pkt_data = None, pkt_dts = AV_NOPTS_VALUE, pkt_pts = AV_NOPTS_VALUE,
     pkt_duration = 0, pkt_stream_index = 0, pkt_key = False\<rparr>"

definition sample_api :: packet_api where
  "sample_api = \<lparr>av_packet_alloc = blank_packet, av_packet_unref = (\<lambda>p. blank_packet),
     av_packet_move_ref = (\<lambda>d s. (s, blank_packet)),
     av_rescale_q = (\<lambda>a b c. (a * fst b * snd c) div (snd b * fst c))\<rparr>"

definition sample_packet :: "int \<Rightarrow> PacketInfo" where
  "sample_packet t = \<lparr>private_packet = \<lparr>packet = Some (blank_packet\<lparr>pkt_data := Some 1, pkt_dts := t\<rparr>),
     time_base = (1, 1000)\<rparr>, serial = 0\<rparr>"

definition sample_queue :: "int list \<Rightarrow> nat \<Rightarrow> PacketQueue" where
  "sample_queue ts r = \<lparr>is_video = False, is_eof = False, first_reserved_index = - 1,
     second_idr_index = - 1, read_index = int r, last_writed_index = (int r - 1) mod int (length ts),
     write_index = - 1, reserved_time = 0, packet_queue = map sample_packet ts\<rparr>"

lemma sample_api_ok: "packet_api_ok sample_api"
  by (simp add: packet_api_ok_def sample_api_def blank_packet_def)

lemma sample_packet_valid: "IsValid (sample_packet t)"
  by (simp add: IsValid_def wrapper_IsValid_def sample_packet_def)

lemma sample_queue_shape:
  assumes "r < length ts"
  shows "pq_shape (sample_queue ts r) r (length ts)"
proof -
  have v: "\<forall>p\<in>set (packet_queue (sample_queue ts r)). packet (private_packet p) \<noteq> None \<and> IsValid p"
    using sample_packet_valid by (auto simp: sample_queue_def sample_packet_def)
  have "set (seg vec r (length ts)) \<subseteq> set vec" if "length vec = length ts" for vec :: "PacketInfo list"
    using assms that by (auto simp: seg_def intro!: nth_mem mod_less_divisor)
  from this [of "map sample_packet ts"]
  have "set (seg (packet_queue (sample_queue ts r)) r (length ts)) \<subseteq> set (packet_queue (sample_queue ts r))"
    by (simp add: sample_queue_def)
  then show ?thesis using v assms by (auto simp: pq_shape_def Let_def sample_queue_def)
qed

lemma sample_queue_312: "pq_shape (sample_queue [3, 1, 2] 1) 1 3"
  using sample_queue_shape [of 1 "[3, 1, 2]"] by (simp add: numeral_3_eq_3)

lemma seg_three: "seg [a, b, c] 1 3 = [b, c, a]"
  by (simp add: seg_def upt_rec)

lemma sample_contents_312:
  "pq_contents (sample_queue [3, 1, 2] 1) = [sample_packet 1, sample_packet 2, sample_packet 3]"
  unfolding shape_contents [OF sample_queue_312] by (simp add: sample_queue_def seg_three [simplified])

text \<open>
  C7: \<open>PushPacket\<close> on a well-formed queue never leaves the vector and keeps the queue well-formed.
  While the queue is not full, or is full with its read position at the start, the packet is
  appended and everything before it is kept; a full queue whose read position is \<open>r > 0\<close> is
  doubled in place and loses its last \<open>r\<close> packets.
\<close>

theorem push_packet_contents:
  assumes "packet_api_ok api" and "pq_inv q" and "IsValid p"
  shows "\<exists>q' p'. PushPacket api q p = Some (q', p') \<and> pq_inv q' \<and>
     pq_contents q' =
       (if pq_count q = length (packet_queue q)
        then take (length (packet_queue q) - nat (read_index q)) (pq_contents q) else pq_contents q) @ [p]"
proof -
  obtain r k where s: "pq_shape q r k" using assms(2) by (auto simp: pq_inv_def)
  obtain q' p' j where q': "PushPacket api q p = Some (q', p')" "\<not> IsValid p'"
    "j = (if k = length (packet_queue q) then k - r else k)" "pq_shape q' r (Suc j)"
    "seg (packet_queue q') r (Suc j) = take j (seg (packet_queue q) r k) @ [p]"
    "last_writed_index q' = int ((r + j) mod length (packet_queue q'))"
    "is_eof q' = is_eof q"
    by (rule push_shape [OF assms(1,3) s])
  have "nat (read_index q) = r" if "k = length (packet_queue q)"
    using s that by (auto simp: pq_shape_def Let_def)
  moreover have "pq_inv q'" using q'(4) by (auto simp: pq_inv_def)
  ultimately show ?thesis
    using q'(1,3,5) shape_contents [OF s] shape_contents [OF q'(4)] shape_count [OF s] by auto
qed

theorem push_packet_contents_witness:
  "\<exists>q' p'. PushPacket sample_api (sample_queue [3, 1, 2] 1) (sample_packet 4) = Some (q', p') \<and>
     pq_contents q' = [sample_packet 1, sample_packet 2, sample_packet 4]"
proof -
  let ?q = "sample_queue [3, 1, 2] 1"
  note s = sample_queue_312
  from s have i: "pq_inv ?q" by (auto simp: pq_inv_def)
  note c = sample_contents_312
  have views: "length (packet_queue ?q) = 3" "read_index ?q = 1" by (simp_all add: sample_queue_def)
  from push_packet_contents [OF sample_api_ok i sample_packet_valid, of 4]
  show ?thesis unfolding c shape_count [OF s] views by auto
qed

text \<open>
  C8: \<open>GetPacket\<close> hands out the oldest packet, unchanged, and keeps the others in order; on an
  empty queue it answers end-of-file or try-again and changes nothing.
\<close>

theorem get_packet_front:
  assumes "packet_api_ok api" and "pq_inv q" and "packet (private_packet target) \<noteq> None"
  shows "\<exists>q'. pq_inv q' \<and>
     (case pq_contents q of
        [] \<Rightarrow> GetPacket api q (Some target) = Some (q', Some target, if is_eof q then kEof else kEAgain) \<and> q' = q
      | p # ps \<Rightarrow> GetPacket api q (Some target) = Some (q', Some p, kOk) \<and> pq_contents q' = ps)"
proof -
  obtain r k where s: "pq_shape q r k" using assms(2) by (auto simp: pq_inv_def)
  show ?thesis
  proof (cases k)
    case 0
    then have "pq_contents q = []" using shape_contents [OF s] by (simp add: seg_def)
    then show ?thesis using get_empty [of q r] s 0 assms(2) by auto
  next
    case (Suc j)
    have s': "pq_shape q r (Suc j)" using s Suc by simp
    obtain q' where q': "GetPacket api q (Some target) = Some (q', Some (packet_queue q ! r), kOk)"
      "pq_shape q' ((r + 1) mod length (packet_queue q)) j"
      "seg (packet_queue q) r (Suc j) = packet_queue q ! r #
         seg (packet_queue q') ((r + 1) mod length (packet_queue q)) j"
      "length (packet_queue q') = length (packet_queue q)" "is_eof q' = is_eof q"
      "last_writed_index q' = (if last_writed_index q = int r then - 1 else last_writed_index q)"
      by (rule get_shape [OF assms(1) s' assms(3)])
    have "pq_inv q'" using q'(2) by (auto simp: pq_inv_def)
    then show ?thesis
      using q'(1,3) shape_contents [OF s'] shape_contents [OF q'(2)] by auto
  qed
qed

theorem get_packet_front_witness:
  "\<exists>q'. GetPacket sample_api (sample_queue [3, 1, 2] 1) (Some (PacketInfo_new sample_api)) =
          Some (q', Some (sample_packet 1), kOk) \<and> pq_contents q' = [sample_packet 2, sample_packet 3]"
proof -
  let ?q = "sample_queue [3, 1, 2] 1"
  note s = sample_queue_312
  from s have i: "pq_inv ?q" by (auto simp: pq_inv_def)
  note c = sample_contents_312
  have "packet (private_packet (PacketInfo_new sample_api)) \<noteq> None"
    by (simp add: PacketInfo_new_def AvPacketWrapper_new_def)
  from get_packet_front [OF sample_api_ok i this] show ?thesis unfolding c by auto
qed

text \<open>
  \<open>Clear\<close> empties the queue but keeps the end-of-file mark and the position of the last
  write. Afterwards an empty queue that had seen the end still answers end-of-file, as after a
  seek back, and the reported duration is that of a wiped packet, the smallest 64-bit integer.
\<close>

theorem clear_keeps_eof:
  assumes "packet_api_ok api" and "pq_inv q"
    and "0 \<le> last_writed_index q" "last_writed_index q < int (length (packet_queue q))"
  shows "\<exists>q'. PacketQueue_Clear api q = Some q' \<and> pq_inv q' \<and> pq_contents q' = [] \<and>
     is_eof q' = is_eof q \<and> GetDuration q' = Some (- (2 ^ 63)) \<and>
     (is_eof q \<longrightarrow> GetPacket api q' (Some target) = Some (q', Some target, kEof))"
proof -
  obtain r k where s: "pq_shape q r k" using assms(2) by (auto simp: pq_inv_def)
  have nn: "\<forall>p\<in>set (packet_queue q). packet (private_packet p) \<noteq> None"
    and n: "0 < length (packet_queue q)" and fr: "first_reserved_index q = - 1"
    using s by (auto simp: pq_shape_def Let_def)
  have "\<exists>ps'. unref_all api ps = Some ps' \<and> length ps' = length ps \<and>
      (\<forall>p\<in>set ps'. \<exists>a. packet (private_packet p) = Some (av_packet_unref api a))"
    if "\<forall>p\<in>set ps. packet (private_packet p) \<noteq> None" for ps
    using that
    by (induction ps) (auto simp: UnRefPacket_def wrapper_UnRefPacket_def)
  from this [OF nn] obtain ps' where
    ps': "unref_all api (packet_queue q) = Some ps'" "length ps' = length (packet_queue q)"
    "\<forall>p\<in>set ps'. \<exists>a. packet (private_packet p) = Some (av_packet_unref api a)"
    by blast
  define q' where "q' = q\<lparr>packet_queue := ps', read_index := - 1, write_index := 0\<rparr>"
  have shape: "pq_shape q' 0 0"
    using n fr ps'(2,3) by (auto simp: pq_shape_def Let_def q'_def seg_def)
  have "ps' ! nat (last_writed_index q) \<in> set ps'" using assms(3,4) ps'(2) by (intro nth_mem) simp
  then obtain a where "packet (private_packet (ps' ! nat (last_writed_index q))) = Some (av_packet_unref api a)"
    using ps'(3) by blast
  then have "GetDuration q' = Some (s64 AV_NOPTS_VALUE)"
    using assms(1,3,4) ps'(2)
    by (simp add: GetDuration_def index_dts_def slot_def GetPacket_ptr_def q'_def packet_api_ok_def nat_less_iff)
  then have "GetDuration q' = Some (- (2 ^ 63))" by (simp add: s64_def AV_NOPTS_VALUE_def)
  moreover have "PacketQueue_Clear api q = Some q'"
    using ps'(1) by (simp add: PacketQueue_Clear_def q'_def)
  moreover have "pq_contents q' = []" using shape_contents [OF shape] by (simp add: seg_def)
  moreover have "is_eof q' = is_eof q" by (simp add: q'_def)
  ultimately show ?thesis using shape get_empty [OF shape, of api target] by (auto simp: pq_inv_def)
qed

theorem clear_keeps_eof_witness:
  "\<exists>q'. PacketQueue_Clear sample_api ((sample_queue [3, 1, 2] 1)\<lparr>is_eof := True\<rparr>) = Some q' \<and>
        is_eof q' \<and> GetDuration q' = Some (- (2 ^ 63))"
proof -
  let ?q = "(sample_queue [3, 1, 2] 1)\<lparr>is_eof := True\<rparr>"
  have "pq_shape ?q 1 3" using sample_queue_312 by (simp add: pq_shape_def)
  then have i: "pq_inv ?q" by (auto simp: pq_inv_def)
  have "0 \<le> last_writed_index ?q" "last_writed_index ?q < int (length (packet_queue ?q))"
    by (simp_all add: sample_queue_def)
  from clear_keeps_eof [OF sample_api_ok i this, of "sample_packet 0"] show ?thesis by auto
qed

end
