(* ===== verification/PlayerTimer.thy ===== *)
theory PlayerTimer
  imports TimeClass
begin

text \<open>
  \<open>src/src/player/player_timer.cc\<close>: the clock of the player. It extrapolates from the
  presentation time of the last rendered frame; the system time is the argument \<open>now\<close>. Each
  operation runs under the mutex.
\<close>

datatype PlayerTimerType = kAudio | kVideo

record player_timer =
  is_paused :: bool
  seek_id :: int
  timer_type :: PlayerTimerType
  last_render_pts_ms :: int
  last_update_time_ms :: int

definition PlayerTimer_new :: "PlayerTimerType \<Rightarrow> int \<Rightarrow> player_timer" where
  "PlayerTimer_new tt init_seek_id =
     \<lparr>is_paused = False, seek_id = init_seek_id, timer_type = tt, last_render_pts_ms = 0,
      last_update_time_ms = 0\<rparr>"

definition InValidTime :: "int \<Rightarrow> bool" where
  "InValidTime t = (t = - (2 ^ 63))"

definition SetAudioCurrentTime :: "int \<Rightarrow> player_timer \<Rightarrow> int \<Rightarrow> int \<Rightarrow> player_timer" where
  "SetAudioCurrentTime now t current_time_ms sid =
     (if timer_type t = kAudio \<and> sid = seek_id t
      then t\<lparr>last_update_time_ms := now, last_render_pts_ms := current_time_ms\<rparr> else t)"

definition SetVideoCurrentTime :: "int \<Rightarrow> player_timer \<Rightarrow> int \<Rightarrow> int \<Rightarrow> player_timer" where
  "SetVideoCurrentTime now t current_time_ms sid =
     (if timer_type t = kVideo \<and> sid = seek_id t
      then t\<lparr>last_update_time_ms := now, last_render_pts_ms := current_time_ms\<rparr> else t)"

definition timer_SeekTo :: "player_timer \<Rightarrow> int \<Rightarrow> player_timer" where
  "timer_SeekTo t current_time_ms = t\<lparr>seek_id := s32 (seek_id t + 1)\<rparr>"

definition timer_Seek :: "int \<Rightarrow> player_timer \<Rightarrow> int \<Rightarrow> player_timer" where
  "timer_Seek now t diff_time_ms =
     t\<lparr>seek_id := s32 (seek_id t + 1), last_update_time_ms := now,
       last_render_pts_ms := s64 (last_render_pts_ms t + diff_time_ms)\<rparr>"

definition GetCurrentMainTime :: "int \<Rightarrow> player_timer \<Rightarrow> player_timer \<times> int" where
  "GetCurrentMainTime now t =
     (let t1 = (if last_update_time_ms t = 0 \<or> is_paused t
                then t\<lparr>last_update_time_ms := now\<rparr> else t)
      in (t1, s64 (s64 (now - last_update_time_ms t1) + last_render_pts_ms t1)))"

definition timer_Pause :: "player_timer \<Rightarrow> player_timer" where
  "timer_Pause t = t\<lparr>is_paused := True\<rparr>"

definition timer_Resume :: "player_timer \<Rightarrow> player_timer" where
  "timer_Resume t = t\<lparr>is_paused := False\<rparr>"

subsection \<open>Properties\<close>

text \<open>
  a time report with the current seek id sets the clock, one with another id, from before a
  seek, is ignored; the clock then runs on by the system time, and stands at the time of the
  last rendered frame (not at the time it showed) while it is paused.
\<close>

theorem timer_runs_from_last_report:
  assumes "timer_type t = kAudio" and "0 < a" "a \<le> b" "b < 2 ^ 61" "\<bar>pts\<bar> < 2 ^ 61"
    and "\<not> is_paused t"
  shows "snd (GetCurrentMainTime b (SetAudioCurrentTime a t pts (seek_id t))) = pts + (b - a) \<and>
     (sid \<noteq> seek_id t \<longrightarrow> SetAudioCurrentTime a t pts sid = t) \<and>
     snd (GetCurrentMainTime b (timer_Pause (SetAudioCurrentTime a t pts (seek_id t)))) = pts"
proof -
  have "s64 (b - a) = b - a" "s64 (b - a + pts) = b - a + pts" "s64 pts = pts"
    using assms(2-5) by (intro s64_id; simp)+
  then show ?thesis
    using assms(1,2,6)
    by (simp add: GetCurrentMainTime_def SetAudioCurrentTime_def timer_Pause_def Let_def s64_def)
qed

theorem timer_runs_from_last_report_witness:
  "snd (GetCurrentMainTime 1500 (SetAudioCurrentTime 1000 (PlayerTimer_new kAudio 0) 40 0)) = 540"
  using timer_runs_from_last_report [of "PlayerTimer_new kAudio 0" 1000 1500 40]
  by (simp add: PlayerTimer_new_def)

end
