(* ===== verification/Decoder.thy ===== *)
theory Decoder
  imports PacketQueues PlayerTimer
begin

text \<open>
  \<open>src/src/core/codec/decoder_ffmpeg.cc\<close> and \<open>src/src/player/decode_to_render.cc\<close> with its audio
  and video variants: from packets to frames on the decoder thread.

  The codec is not part of the repository: its context has a type \<open>'c\<close> and the functions on it
  are the fields of \<open>codec_api\<close>. The callback that delivers packets works on a state \<open>'g\<close> of its
  own and may flush the codec. \<open>None\<close> is a dereference of \<open>NULL\<close>, a failed \<open>RTC_CHECK\<close> or a
  loop that does not end.
\<close>

record av_frame =
  frame_pts :: int
  frame_duration :: int

record 'c codec_api =
  averror_eagain :: int
  averror_eof :: int
  avcodec_alloc_context3 :: "'c option"
  avcodec_parameters_to_context :: "'c \<Rightarrow> 'c \<times> int"
  avcodec_open2 :: "'c \<Rightarrow> 'c \<times> int"
  avcodec_receive_frame :: "'c \<Rightarrow> av_frame \<Rightarrow> 'c \<times> av_frame \<times> int"
  avcodec_send_packet :: "'c \<Rightarrow> av_packet option \<Rightarrow> 'c \<times> int"
  avcodec_flush_buffers :: "'c \<Rightarrow> 'c"

text \<open>\<open>FFmpegUtils::GetStatus\<close>\<close>

definition GetStatus :: "'c codec_api \<Rightarrow> int \<Rightarrow> FfmpegStatus" where
  "GetStatus capi ffmpeg_ret =
     (if ffmpeg_ret = averror_eagain capi then kEAgain
      else if ffmpeg_ret = averror_eof capi then kEof
      else if ffmpeg_ret < 0 then kFfmpegError else kOk)"

subsection \<open>DecoderFfmpeg\<close>

record 'c DecoderFfmpeg =
  dec_is_init :: bool
  packet_pending :: bool
  dec_packet :: AvPacketWrapper
  has_get_packet :: bool
  decoder_ctx :: "'c option"

definition DecoderFfmpeg_new :: "packet_api \<Rightarrow> 'c DecoderFfmpeg" where
  "DecoderFfmpeg_new papi =
     \<lparr>dec_is_init = False, packet_pending = False, dec_packet = AvPacketWrapper_new papi,
      has_get_packet = False, decoder_ctx = None\<rparr>"

definition decoder_Clear :: "'c DecoderFfmpeg \<Rightarrow> 'c DecoderFfmpeg" where
  "decoder_Clear d = d\<lparr>decoder_ctx := None\<rparr>"

text \<open>\<open>stream\<close> says that the stream and its parameters are not \<open>NULL\<close>.\<close>

definition InitCodec :: "'c codec_api \<Rightarrow> 'c DecoderFfmpeg \<Rightarrow> bool \<Rightarrow> 'c DecoderFfmpeg \<times> int" where
  "InitCodec capi d stream =
     (if \<not> stream then (d, - 1)
      else
        (let (d1, ret) =
           (case avcodec_alloc_context3 capi of
              None \<Rightarrow> (d\<lparr>decoder_ctx := None\<rparr>, - 1)
            | Some c \<Rightarrow>
                (case avcodec_parameters_to_context capi c of (c1, r1) \<Rightarrow>
                   if r1 < 0 then (d\<lparr>decoder_ctx := Some c1\<rparr>, - 1)
                   else
                     (case avcodec_open2 capi c1 of (c2, r2) \<Rightarrow>
                        if r2 < 0 then (d\<lparr>decoder_ctx := Some c2\<rparr>, - 1)
                        else (d\<lparr>decoder_ctx := Some c2\<rparr>, 0))));
             d2 = (if ret \<noteq> 0 then decoder_Clear d1 else d1)
         in (d2\<lparr>dec_is_init := True, has_get_packet := True\<rparr>, ret)))"

type_synonym ('c, 'g) packet_source =
  "'g \<Rightarrow> 'c \<Rightarrow> AvPacketWrapper \<Rightarrow> (FfmpegStatus \<times> AvPacketWrapper \<times> 'c \<times> 'g) option"

text \<open>One packet for the codec: the pending one, or a new one from the callback.\<close>

definition next_packet :: "('c, 'g) packet_source \<Rightarrow> 'c DecoderFfmpeg \<Rightarrow> 'c \<Rightarrow> 'g \<Rightarrow>
    (FfmpegStatus \<times> 'c DecoderFfmpeg \<times> 'c \<times> 'g) option" where
  "next_packet gp d c g =
     (if packet_pending d then Some (kOk, d, c, g)
      else map_option (\<lambda>(res, w, c', g'). (res, d\<lparr>dec_packet := w\<rparr>, c', g')) (gp g c (dec_packet d)))"

partial_function (option) receive_loop ::
    "packet_api \<Rightarrow> 'c codec_api \<Rightarrow> ('c, 'g) packet_source \<Rightarrow> 'c DecoderFfmpeg \<Rightarrow> av_frame \<Rightarrow> 'g \<Rightarrow>
     ('c DecoderFfmpeg \<times> av_frame \<times> 'g \<times> FfmpegStatus) option" where
  "receive_loop papi capi gp d frame g =
     do {
       c \<leftarrow> decoder_ctx d;
       (case avcodec_receive_frame capi c frame of (c1, frame1, ret) \<Rightarrow>
          if ret = averror_eagain capi then
            do {
              (res, d1, c2, g1) \<leftarrow> next_packet gp d c1 g;
              (if res = kFfmpegError \<or> res = kEAgain
               then Some (d1\<lparr>decoder_ctx := Some c2\<rparr>, frame1, g1, res)
               else
                 (case avcodec_send_packet capi c2 (if res = kEof then None else packet (dec_packet d1)) of
                    (c3, ret2) \<Rightarrow>
                    if ret2 = averror_eagain capi
                    then Some (d1\<lparr>decoder_ctx := Some c3, packet_pending := True\<rparr>, frame1, g1, kEAgain)
                    else if ret2 < 0 then Some (d1\<lparr>decoder_ctx := Some c3\<rparr>, frame1, g1, kFfmpegError)
                    else do {
                      w \<leftarrow> wrapper_UnRefPacket papi (dec_packet d1);
                      receive_loop papi capi gp
                        (d1\<lparr>decoder_ctx := Some c3, dec_packet := w, packet_pending := False\<rparr>) frame1 g1
                    }))
            }
          else if ret = averror_eof capi then Some (d\<lparr>decoder_ctx := Some c1\<rparr>, frame1, g, kEof)
          else if ret < 0 then Some (d\<lparr>decoder_ctx := Some c1\<rparr>, frame1, g, kFfmpegError)
          else if ret = 0 then Some (d\<lparr>decoder_ctx := Some c1\<rparr>, frame1, g, kOk)
          else receive_loop papi capi gp (d\<lparr>decoder_ctx := Some c1\<rparr>) frame1 g)
     }"

definition Receive :: "packet_api \<Rightarrow> 'c codec_api \<Rightarrow> ('c, 'g) packet_source \<Rightarrow> 'c DecoderFfmpeg \<Rightarrow>
    av_frame \<Rightarrow> 'g \<Rightarrow> ('c DecoderFfmpeg \<times> av_frame \<times> 'g \<times> FfmpegStatus) option" where
  "Receive papi capi gp d frame g =
     (if \<not> dec_is_init d \<or> \<not> has_get_packet d then Some (d, frame, g, kFfmpegError)
      else receive_loop papi capi gp d frame g)"

definition decoder_Flush :: "'c codec_api \<Rightarrow> 'c DecoderFfmpeg \<Rightarrow> ('c DecoderFfmpeg \<times> int) option" where
  "decoder_Flush capi d =
     (if \<not> dec_is_init d then Some (d, - 1)
      else map_option (\<lambda>c. (d\<lparr>decoder_ctx := Some (avcodec_flush_buffers capi c)\<rparr>, 0)) (decoder_ctx d))"

definition decoder_UnInit :: "'c DecoderFfmpeg \<Rightarrow> 'c DecoderFfmpeg \<times> int" where
  "decoder_UnInit d = (if dec_is_init d then (decoder_Clear d, 0) else (d, 0))"

subsection \<open>DecodeToRender::GetPacket\<close>

text \<open>
  The callback that \<open>DecodeToRender\<close> gives to the decoder. \<open>source\<close> is \<open>config_.get_packet\<close> on its
  state, \<open>want\<close> is \<open>serial_\<close>. Packets of an older serial, from before a seek, are dropped; the
  result says whether there were any, with the serial of the last packet.
\<close>

partial_function (option) fetch_current ::
    "packet_api \<Rightarrow> ('g \<Rightarrow> PacketInfo \<Rightarrow> ('g \<times> PacketInfo \<times> FfmpegStatus) option) \<Rightarrow> nat \<Rightarrow>
     'g \<Rightarrow> PacketInfo \<Rightarrow> bool \<Rightarrow> ('g \<times> PacketInfo \<times> bool \<times> FfmpegStatus) option" where
  "fetch_current papi source want g p should_flush =
     do {
       (g1, p1, st) \<leftarrow> source g p;
       (if st = kOk \<and> serial p1 \<noteq> want then
          (if serial p1 < want
           then do {
             p2 \<leftarrow> UnRefPacket papi p1;
             fetch_current papi source want g1 p2 True
           }
           else None)
        else Some (g1, p1, should_flush, st))
     }"

record 'c DecodeToRender =
  d2r_is_init :: bool
  last_av_frame_pending :: bool
  d2r_serial :: nat
  newest_packet_serial :: nat
  start_time :: int
  d2r_frame :: av_frame
  frame_serial :: nat
  frame_time_base :: rational
  decoder :: "'c DecoderFfmpeg"

text \<open>
  The callback on a codec context: \<open>flush\<close> is \<open>decoder_->Flush()\<close>, which acts on that context; the
  state carries \<open>newest_packet_serial_\<close>.
\<close>

definition d2r_GetPacket ::
    "packet_api \<Rightarrow> 'c codec_api \<Rightarrow> ('g \<Rightarrow> PacketInfo \<Rightarrow> ('g \<times> PacketInfo \<times> FfmpegStatus) option) \<Rightarrow>
     nat \<Rightarrow> ('c, 'g \<times> nat) packet_source" where
  "d2r_GetPacket papi capi source want gs c w =
     do {
       (g1, p1, should_flush, st) \<leftarrow>
         fetch_current papi source want (fst gs) \<lparr>private_packet = w, serial = 0\<rparr> False;
       Some (st, private_packet p1, if should_flush then avcodec_flush_buffers capi c else c,
             (g1, serial p1))
     }"

subsection \<open>DecodeToRender::ProcessInternal\<close>

text \<open>What the task does at its end: stop, report, or post itself again.\<close>

datatype process_end = Stop | OnError | OnCompleted | PostDelayed int | PostAgain

definition frame_ms :: "packet_api \<Rightarrow> rational \<Rightarrow> int \<Rightarrow> int" where
  "frame_ms papi tb t = (if fst tb = 0 \<and> snd tb = 0 then 0 else av_rescale_q papi t tb (1, 1000))"

definition d2r_Init :: "'c codec_api \<Rightarrow> 'c DecodeToRender \<Rightarrow> bool \<Rightarrow> rational \<Rightarrow> 'c DecodeToRender \<times> int" where
  "d2r_Init capi r config_ok tb =
     (if d2r_is_init r then (r, 0)
      else if \<not> config_ok then (r, - 1)
      else (r\<lparr>d2r_frame := \<lparr>frame_pts = AV_NOPTS_VALUE, frame_duration = 0\<rparr>, frame_serial := 0,
              frame_time_base := tb, decoder := fst (InitCodec capi (decoder r) True),
              d2r_is_init := True\<rparr>, 0))"

text \<open>The first half: a pending frame, or a new one from the decoder.\<close>

definition obtain_frame ::
    "packet_api \<Rightarrow> 'c codec_api \<Rightarrow> ('g \<Rightarrow> PacketInfo \<Rightarrow> ('g \<times> PacketInfo \<times> FfmpegStatus) option) \<Rightarrow>
     'c DecodeToRender \<Rightarrow> 'g \<Rightarrow> ('c DecodeToRender \<times> 'g \<times> FfmpegStatus) option" where
  "obtain_frame papi capi source r g =
     do {
       (d', f', gs, ret) \<leftarrow> Receive papi capi (d2r_GetPacket papi capi source (d2r_serial r))
         (decoder r) (d2r_frame r) (g, newest_packet_serial r);
       Some (r\<lparr>decoder := d', d2r_frame := f', newest_packet_serial := snd gs,
               frame_serial := snd gs\<rparr>, fst gs, ret)
     }"

text \<open>\<open>on_frame\<close> is the virtual \<open>OnFrame\<close>, on the state \<open>'e\<close> of the renderer and the clock.\<close>

definition deliver_frame ::
    "packet_api \<Rightarrow> ('e \<Rightarrow> 'c DecodeToRender \<Rightarrow> 'e \<times> int) \<Rightarrow> 'c DecodeToRender \<Rightarrow> bool \<Rightarrow> int \<Rightarrow> 'e \<Rightarrow>
     'c DecodeToRender \<times> 'e \<times> process_end" where
  "deliver_frame papi on_frame r can_send task_delay e =
     (let (e1, delay) =
        (if can_send \<and> start_time r \<le> frame_ms papi (frame_time_base r) (frame_pts (d2r_frame r))
         then on_frame e r else (e, task_delay))
      in if delay < 0 then (r, e1, Stop)
         else if 0 < delay then (r, e1, PostDelayed delay)
         else (r\<lparr>last_av_frame_pending := False\<rparr>, e1, PostAgain))"

definition ProcessInternal ::
    "packet_api \<Rightarrow> 'c codec_api \<Rightarrow> ('g \<Rightarrow> PacketInfo \<Rightarrow> ('g \<times> PacketInfo \<times> FfmpegStatus) option) \<Rightarrow>
     ('e \<Rightarrow> 'c DecodeToRender \<Rightarrow> 'e \<times> int) \<Rightarrow> 'c DecodeToRender \<Rightarrow> 'g \<Rightarrow> 'e \<Rightarrow>
     ('c DecodeToRender \<times> 'g \<times> 'e \<times> process_end) option" where
  "ProcessInternal papi capi source on_frame r g e =
     (if \<not> d2r_is_init r then Some (r, g, e, Stop)
      else if last_av_frame_pending r then
        (case deliver_frame papi on_frame r True 0 e of (r', e', fin) \<Rightarrow> Some (r', g, e', fin))
      else
        do {
          (r1, g1, ret) \<leftarrow> obtain_frame papi capi source r g;
          (case ret of
             kFfmpegError \<Rightarrow> Some (r1, g1, e, OnError)
           | kEof \<Rightarrow> Some (r1, g1, e, OnCompleted)
           | kEAgain \<Rightarrow>
               (case deliver_frame papi on_frame r1 False 20 e of (r', e', fin) \<Rightarrow> Some (r', g1, e', fin))
           | kOk \<Rightarrow>
               (case deliver_frame papi on_frame (r1\<lparr>last_av_frame_pending := True\<rparr>) True 0 e of
                  (r', e', fin) \<Rightarrow> Some (r', g1, e', fin)))
        })"

definition d2r_UnInit :: "'c DecodeToRender \<Rightarrow> 'c DecodeToRender" where
  "d2r_UnInit r = r\<lparr>d2r_is_init := False, d2r_serial := 0\<rparr>"

definition SetSerial :: "'c DecodeToRender \<Rightarrow> nat \<Rightarrow> 'c DecodeToRender" where
  "SetSerial r s = r\<lparr>d2r_serial := s\<rparr>"

definition SetStartTime :: "'c DecodeToRender \<Rightarrow> int \<Rightarrow> 'c DecodeToRender" where
  "SetStartTime r t = r\<lparr>start_time := t\<rparr>"

subsection \<open>The two OnFrame\<close>

text \<open>
  The renderers are virtual interfaces: \<open>send\<close> offers the frame and says whether it was accepted
  (0), \<open>delay_ms\<close> is the audio still queued in front of it. The clock is the player's timer, read
  and written at the system time \<open>now\<close>. The fields \<open>last_frame_pts_ms_\<close> and \<open>last_task_delay_\<close> of the video side
  are written and never read, and left out.
\<close>

definition audio_OnFrame :: "packet_api \<Rightarrow> (av_frame \<Rightarrow> int) \<Rightarrow> int \<Rightarrow> int \<Rightarrow>
    player_timer \<Rightarrow> 'c DecodeToRender \<Rightarrow> player_timer \<times> int" where
  "audio_OnFrame papi send delay_ms now t r =
     (let pts = frame_ms papi (frame_time_base r) (frame_pts (d2r_frame r));
          dur = frame_ms papi (frame_time_base r) (frame_duration (d2r_frame r))
      in if send (d2r_frame r) = 0
         then (SetAudioCurrentTime now t (s64 (pts - delay_ms)) (s32 (int (frame_serial r))), 0)
         else (t, s32 (max dur 20)))"

definition max_diff_ms :: int where
  "max_diff_ms = 15"

definition video_OnFrame :: "packet_api \<Rightarrow> (av_frame \<Rightarrow> int) \<Rightarrow> int \<Rightarrow>
    player_timer \<Rightarrow> 'c DecodeToRender \<Rightarrow> player_timer \<times> int" where
  "video_OnFrame papi send now t r =
     (let pts = frame_ms papi (frame_time_base r) (frame_pts (d2r_frame r));
          dur = frame_ms papi (frame_time_base r) (frame_duration (d2r_frame r));
          (t1, main) = GetCurrentMainTime now t;
          diff = s64 (pts - main)
      in if \<bar>diff\<bar> < max_diff_ms then
           (if send (d2r_frame r) \<noteq> 0 then (t1, s32 (max dur 100))
            else (SetVideoCurrentTime now t1 pts (s32 (int (frame_serial r))), 0))
         else (t1, if 0 < diff then s32 diff else 0))"

subsection \<open>Fetching from a packet queue\<close>

definition queue_source :: "packet_api \<Rightarrow> PacketQueue \<Rightarrow> PacketInfo \<Rightarrow>
    (PacketQueue \<times> PacketInfo \<times> FfmpegStatus) option" where
  "queue_source papi q p = map_option (\<lambda>(q', out, st). (q', the out, st)) (GetPacket papi q (Some p))"

lemma fetch_shape:
  assumes api: "packet_api_ok papi"
    and q: "pq_shape q r k" and t: "packet (private_packet target) \<noteq> None"
    and le: "\<forall>p\<in>set (seg (packet_queue q) r k). serial p \<le> want"
  shows "\<exists>q' p' r' j st. fetch_current papi (queue_source papi) want q target fl =
       Some (q', p', fl \<or> takeWhile (\<lambda>p. serial p \<noteq> want) (seg (packet_queue q) r k) \<noteq> [], st) \<and>
     pq_shape q' r' j \<and>
     (case dropWhile (\<lambda>p. serial p \<noteq> want) (seg (packet_queue q) r k) of
        [] \<Rightarrow> st = (if is_eof q then kEof else kEAgain) \<and> j = 0
      | p # ps \<Rightarrow> st = kOk \<and> p' = p \<and> seg (packet_queue q') r' j = ps)"
  using q t le
proof (induction k arbitrary: q r target fl)
  case 0
  have "fetch_current papi (queue_source papi) want q target fl =
      Some (q, target, fl, if is_eof q then kEof else kEAgain)"
    by (subst fetch_current.simps) (simp add: queue_source_def get_empty [OF 0(1)])
  then show ?case using 0(1) by (auto simp: seg_def)
next
  case (Suc k)
  let ?p = "packet_queue q ! r"
  obtain q1 where q1: "GetPacket papi q (Some target) = Some (q1, Some ?p, kOk)"
    "pq_shape q1 ((r + 1) mod length (packet_queue q)) k"
    "seg (packet_queue q) r (Suc k) = ?p # seg (packet_queue q1) ((r + 1) mod length (packet_queue q)) k"
    "length (packet_queue q1) = length (packet_queue q)" "is_eof q1 = is_eof q"
    "last_writed_index q1 = (if last_writed_index q = int r then - 1 else last_writed_index q)"
    by (rule get_shape [OF api Suc.prems(1,2)])
  let ?r1 = "(r + 1) mod length (packet_queue q)"
  have src: "queue_source papi q target = Some (q1, ?p, kOk)" by (simp add: queue_source_def q1(1))
  show ?case
  proof (cases "serial ?p = want")
    case True
    have "fetch_current papi (queue_source papi) want q target fl = Some (q1, ?p, fl, kOk)"
      using True by (subst fetch_current.simps) (simp add: src)
    then show ?thesis using True q1(2,3) by auto
  next
    case False
    have le: "serial ?p \<le> want" "\<forall>p\<in>set (seg (packet_queue q1) ?r1 k). serial p \<le> want"
      using Suc.prems(3) unfolding q1(3) by simp_all
    have "?p \<in> set (seg (packet_queue q) r (Suc k))" unfolding q1(3) by simp
    then have "IsValid ?p" using Suc.prems(1) by (auto simp: pq_shape_def Let_def)
    then obtain a where a: "packet (private_packet ?p) = Some a"
      by (auto simp: IsValid_def wrapper_IsValid_def split: option.splits)
    define p2 where "p2 = ?p\<lparr>private_packet := (private_packet ?p)\<lparr>packet := Some (av_packet_unref papi a)\<rparr>\<rparr>"
    have u: "UnRefPacket papi ?p = Some p2"
      using a by (simp add: UnRefPacket_def wrapper_UnRefPacket_def p2_def)
    have step: "fetch_current papi (queue_source papi) want q target fl
        = fetch_current papi (queue_source papi) want q1 p2 True"
      using False le(1) by (subst fetch_current.simps) (simp add: src u)
    have "packet (private_packet p2) \<noteq> None" by (simp add: p2_def)
    from Suc.IH [OF q1(2) this le(2), of True] show ?thesis
      using False unfolding step q1(3) q1(5) by simp
  qed
qed

definition failing_codec :: "unit codec_api" where
  "failing_codec = \<lparr>averror_eagain = - 11, averror_eof = - 541478725, avcodec_alloc_context3 = None,
     avcodec_parameters_to_context = (\<lambda>c. (c, 0)), avcodec_open2 = (\<lambda>c. (c, 0)),
     avcodec_receive_frame = (\<lambda>c f. (c, f, - 11)), avcodec_send_packet = (\<lambda>c p. (c, 0)),
     avcodec_flush_buffers = (\<lambda>c. c)\<rparr>"

definition sample_d2r :: "unit DecodeToRender" where
  "sample_d2r = \<lparr>d2r_is_init = True, last_av_frame_pending = True, d2r_serial = 0,
     newest_packet_serial = 0, start_time = 0, d2r_frame = \<lparr>frame_pts = 40, frame_duration = 20\<rparr>,
     frame_serial = 0, frame_time_base = (1, 1000), decoder = DecoderFfmpeg_new sample_api\<rparr>"

subsection \<open>Properties\<close>







text \<open>
  a decoder whose initialisation failed calls itself initialised. It has no codec context,
  and the first \<open>Receive\<close> dereferences the missing one.
\<close>

theorem failed_init_crashes:
  assumes "InitCodec capi d True = (d', ret)" and "ret \<noteq> 0"
  shows "dec_is_init d' \<and> decoder_ctx d' = None \<and> Receive papi capi gp d' frame g = None"
proof -
  have "dec_is_init d'" "has_get_packet d'" "decoder_ctx d' = None"
    using assms by (auto simp: InitCodec_def Let_def decoder_Clear_def split: prod.splits)
  then show ?thesis
    by (simp add: Receive_def) (subst receive_loop.simps, simp)
qed

theorem failed_init_crashes_witness:
  "Receive sample_api failing_codec (\<lambda>g c w. Some (kEof, w, c, g))
     (fst (InitCodec failing_codec (DecoderFfmpeg_new sample_api) True))
     \<lparr>frame_pts = 0, frame_duration = 0\<rparr> () = None"
proof -
  have "InitCodec failing_codec (DecoderFfmpeg_new sample_api) True
      = (fst (InitCodec failing_codec (DecoderFfmpeg_new sample_api) True), - 1)"
    by (simp add: InitCodec_def failing_codec_def Let_def)
  then show ?thesis
    by (rule failed_init_crashes [THEN conjunct2, THEN conjunct2]) simp
qed

end
