(* ===== verification/VideoFormat.thy ===== *)
theory VideoFormat
  imports TimeClass
begin

text \<open>
  \<open>src/src/core/video_common\<close>, \<open>src/src/core/adapter/video_format_converter.cc\<close> and the part of
  \<open>src/src/core/video_render/video_render_impl.cc\<close> that is not OpenGL: formats and frames of video, the
  conversion to RGB, and the frame that the renderer keeps. A plane is the memory from its pointer on,
  or an offset into the block of a frame. The functions of libyuv are a parameter: the rows of the
  converted picture. \<open>None\<close> is a failed \<open>RTC_CHECK\<close>, or an access outside of a block.
\<close>

subsection \<open>Formats\<close>

datatype RawVideoFormat = kVideoNone | kYUV420P | kYUV422P | kYUV444P | kNV12 | kRGBA | kBGRA | kRGB | kBGR | kNative

record VideoSize =
  video_width :: int
  video_height :: int

record VideoFormatInfo =
  video_size :: VideoSize
  video_strides :: "int list"
  video_format :: RawVideoFormat

definition kRawVideoFormatToString :: "(RawVideoFormat \<times> string) list" where
  "kRawVideoFormatToString =
     [(kYUV420P, ''YUV420P''), (kYUV422P, ''YUV422P''), (kYUV444P, ''YUV444P''), (kNV12, ''NV12''), (kRGBA, ''RGBA''),
      (kRGB, ''RGB'')]"

definition IsYUVPlanar :: "RawVideoFormat \<Rightarrow> bool" where
  "IsYUVPlanar f \<longleftrightarrow> f = kYUV420P \<or> f = kYUV422P \<or> f = kYUV444P"

definition IsUVInterleaved :: "RawVideoFormat \<Rightarrow> bool" where
  "IsUVInterleaved f \<longleftrightarrow> f = kNV12"

definition IsYUVInterleaved :: "RawVideoFormat \<Rightarrow> bool" where
  "IsYUVInterleaved f \<longleftrightarrow> f = kRGBA \<or> f = kRGB"

definition IsRGB :: "RawVideoFormat \<Rightarrow> bool" where
  "IsRGB f \<longleftrightarrow> f = kRGBA \<or> f = kRGB"

fun GetPlaneNum :: "RawVideoFormat \<Rightarrow> nat" where
  "GetPlaneNum kYUV420P = 3"
| "GetPlaneNum kYUV422P = 3"
| "GetPlaneNum kYUV444P = 3"
| "GetPlaneNum kNV12 = 2"
| "GetPlaneNum kRGBA = 1"
| "GetPlaneNum kRGB = 1"
| "GetPlaneNum f = 0"

definition RawVideoFormatToString :: "RawVideoFormat \<Rightarrow> string" where
  "RawVideoFormatToString f = ArrayFind kRawVideoFormatToString f ''Unknown''"

definition VideoFormatInfo_new :: "VideoSize \<Rightarrow> RawVideoFormat \<Rightarrow> VideoFormatInfo option" where
  "VideoFormatInfo_new sz f =
     (let w = video_width sz in
      map_option (\<lambda>strides. \<lparr>video_size = sz, video_strides = strides, video_format = f\<rparr>)
        (case f of
          kYUV420P \<Rightarrow> Some [w, c_div w 2, c_div w 2]
        | kYUV422P \<Rightarrow> Some [w, c_div w 2, c_div w 2]
        | kYUV444P \<Rightarrow> Some [w, w, w]
        | kNV12 \<Rightarrow> Some [w, w]
        | kRGBA \<Rightarrow> Some [s32 (w * 4)]
        | kRGB \<Rightarrow> Some [s32 (w * 3)]
        | _ \<Rightarrow> None))"

definition VideoFormatInfo_strided :: "VideoSize \<Rightarrow> RawVideoFormat \<Rightarrow> int list \<Rightarrow> VideoFormatInfo" where
  "VideoFormatInfo_strided sz f strides = \<lparr>video_size = sz, video_strides = strides, video_format = f\<rparr>"

definition GetLengthEachPlane :: "VideoFormatInfo \<Rightarrow> int list option" where
  "GetLengthEachPlane info =
     (let h = video_height (video_size info) in
      case (video_format info, video_strides info) of
        (kYUV420P, [y, u, v]) \<Rightarrow> Some [s32 (y * h), c_div (s32 (u * h)) 2, c_div (s32 (v * h)) 2]
      | (kYUV422P, [y, u, v]) \<Rightarrow> Some [s32 (y * h), s32 (u * h), s32 (v * h)]
      | (kYUV444P, [y, u, v]) \<Rightarrow> Some [s32 (y * h), s32 (u * h), s32 (v * h)]
      | (kNV12, [y, uv]) \<Rightarrow> Some [s32 (y * h), c_div (s32 (uv * h)) 2]
      | (kRGBA, [rgb]) \<Rightarrow> Some [s32 (rgb * h)]
      | (kRGB, [rgb]) \<Rightarrow> Some [s32 (rgb * h)]
      | _ \<Rightarrow> None)"

definition GetAllSizeInByte :: "VideoFormatInfo \<Rightarrow> nat option" where
  "GetAllSizeInByte info = map_option (foldl (\<lambda>a n. uadd a (size_of_int n)) 0) (GetLengthEachPlane info)"

definition video_IsValid :: "VideoFormatInfo \<Rightarrow> bool" where
  "video_IsValid info \<longleftrightarrow>
     video_format info \<noteq> kVideoNone \<and> 0 < video_width (video_size info) \<and> 0 < video_height (video_size info)"

text \<open>The pixel formats of ffmpeg; the others are numbered.\<close>

datatype AVPixelFormat = AV_PIX_FMT_NONE | AV_PIX_FMT_YUV420P | AV_PIX_FMT_YUV422P | AV_PIX_FMT_YUV444P
  | AV_PIX_FMT_NV12 | AV_PIX_FMT_RGBA | AV_PIX_FMT_other nat

definition kPixelFormatMap :: "(AVPixelFormat \<times> RawVideoFormat) list" where
  "kPixelFormatMap =
     [(AV_PIX_FMT_YUV420P, kYUV420P), (AV_PIX_FMT_YUV422P, kYUV422P), (AV_PIX_FMT_YUV444P, kYUV444P),
      (AV_PIX_FMT_NV12, kNV12), (AV_PIX_FMT_RGBA, kRGBA), (AV_PIX_FMT_NONE, kVideoNone)]"

definition ToRawVideoFormat :: "AVPixelFormat \<Rightarrow> RawVideoFormat" where
  "ToRawVideoFormat f = ArrayFind kPixelFormatMap f kVideoNone"

definition ToAVPixelFormat :: "RawVideoFormat \<Rightarrow> AVPixelFormat" where
  "ToAVPixelFormat f = ArrayFindKey kPixelFormatMap f AV_PIX_FMT_NONE"

subsection \<open>Frames\<close>

text \<open>A frame of the decoder: its planes, its format and its time.\<close>

record video_frame_delegate =
  delegate_data :: "byte list list"
  delegate_info :: VideoFormatInfo
  delegate_time :: time_data

definition VideoFrameDelegate_new :: "byte list list \<Rightarrow> VideoFormatInfo \<Rightarrow> time_data \<Rightarrow> video_frame_delegate option" where
  "VideoFrameDelegate_new data info time =
     (if length data = length (video_strides info) \<and> length data \<le> 4
      then Some \<lparr>delegate_data = data, delegate_info = info, delegate_time = time\<rparr> else None)"

text \<open>\<open>VideoFrameFfmpeg::GetVideoFrame\<close> on the sizes, the planes, the line sizes and the time of a decoded frame.\<close>

definition GetVideoFrame :: "AVPixelFormat \<Rightarrow> int \<Rightarrow> int \<Rightarrow> byte list list \<Rightarrow> int list \<Rightarrow> time_data \<Rightarrow>
    video_frame_delegate option" where
  "GetVideoFrame pix w h planes linesize pts =
     (let f = ToRawVideoFormat pix; n = GetPlaneNum f in
      VideoFrameDelegate_new (take n planes)
        (VideoFormatInfo_strided \<lparr>video_width = w, video_height = h\<rparr> f (take n linesize)) pts)"

text \<open>A frame with a block of its own; the planes are offsets into it.\<close>

record video_frame =
  frame_info :: VideoFormatInfo
  frame_planes :: "int list"
  frame_pixels :: "byte list"

fun plane_starts :: "int \<Rightarrow> int list \<Rightarrow> int list" where
  "plane_starts at [] = []"
| "plane_starts at (n # ns) = at # plane_starts (at + n) ns"

definition VideoFrame_new :: "(nat \<Rightarrow> byte list) \<Rightarrow> VideoFormatInfo \<Rightarrow> video_frame option" where
  "VideoFrame_new fresh info =
     do {
       lengths \<leftarrow> GetLengthEachPlane info;
       let all_size = foldl (\<lambda>a n. uadd a (size_of_int n)) 0 lengths;
       expected \<leftarrow> GetAllSizeInByte info;
       if expected \<le> all_size
       then Some \<lparr>frame_info = info, frame_planes = plane_starts 0 lengths, frame_pixels = fresh all_size\<rparr>
       else None
     }"

text \<open>Views of the planes of a block: the offsets of the planes.\<close>

definition YUVPVideoFrameView_planes :: "int \<Rightarrow> int \<Rightarrow> int \<Rightarrow> RawVideoFormat \<Rightarrow> int list option" where
  "YUVPVideoFrameView_planes y_stride u_stride h f =
     (if \<not> IsYUVPlanar f then None
      else let u = s32 (y_stride * h) in
        Some [0, u, u + (if f = kYUV420P then c_div (s32 (u_stride * h)) 2 else s32 (u_stride * h))])"

definition NV12VideoFrameView_planes :: "int \<Rightarrow> int \<Rightarrow> RawVideoFormat \<Rightarrow> int list option" where
  "NV12VideoFrameView_planes y_stride h f = (if IsUVInterleaved f then Some [0, s32 (y_stride * h)] else None)"

subsection \<open>The conversion to RGB\<close>

text \<open>
  What libyuv makes of the planes with their strides, a width and a height: the rows, from the top, and
  the status. They are stored at the stride of the destination.
\<close>

record yuv_api =
  I420ToRGB24 :: "(byte list \<times> int) list \<Rightarrow> int \<Rightarrow> int \<Rightarrow> byte list list"
  I422ToRGB24 :: "(byte list \<times> int) list \<Rightarrow> int \<Rightarrow> int \<Rightarrow> byte list list"
  I444ToRGB24 :: "(byte list \<times> int) list \<Rightarrow> int \<Rightarrow> int \<Rightarrow> byte list list"
  NV12ToRGB24 :: "(byte list \<times> int) list \<Rightarrow> int \<Rightarrow> int \<Rightarrow> byte list list"

fun store_rows :: "byte list \<Rightarrow> int \<Rightarrow> int \<Rightarrow> byte list list \<Rightarrow> byte list option" where
  "store_rows d at stride [] = Some d"
| "store_rows d at stride (row # rows) =
     (if at < 0 then None else Option.bind (poke d (nat at) row) (\<lambda>d. store_rows d (at + stride) stride rows))"

definition video_ToRGB :: "yuv_api \<Rightarrow> video_frame_delegate \<Rightarrow> video_frame \<Rightarrow> (video_frame \<times> int) option" where
  "video_ToRGB yuv frame out =
     (let info = delegate_info frame; w = video_width (video_size info); h = video_height (video_size info);
          planes = zip (delegate_data frame) (video_strides info);
          stride = s32 (video_width (video_size (frame_info out)) * 3);
          convert = (\<lambda>f n. if length planes < n \<or> frame_planes out = [] then None
            else map_option (\<lambda>d. (out\<lparr>frame_pixels := d\<rparr>, 0)) (store_rows (frame_pixels out) (hd (frame_planes out)) stride (f (take n planes) w h)))
      in case video_format info of
        kYUV420P \<Rightarrow> convert (I420ToRGB24 yuv) 3
      | kYUV422P \<Rightarrow> convert (I422ToRGB24 yuv) 3
      | kYUV444P \<Rightarrow> convert (I444ToRGB24 yuv) 3
      | kNV12 \<Rightarrow> convert (NV12ToRGB24 yuv) 2
      | _ \<Rightarrow> Some (out, - 1))"

definition VideoConvert_Convert :: "yuv_api \<Rightarrow> video_frame_delegate \<Rightarrow> video_frame \<Rightarrow> (video_frame \<times> int) option" where
  "VideoConvert_Convert yuv frame out =
     (if video_format (frame_info out) = kRGB then video_ToRGB yuv frame out else None)"

subsection \<open>The renderer\<close>

text \<open>\<open>rendered\<close> are the blocks and sizes that were handed to the texture.\<close>

record video_render =
  vr_is_init :: bool
  vr_is_playing :: bool
  vr_error_code :: int
  vr_frame :: "video_frame option"
  rendered :: "(byte list \<times> VideoSize) list"

definition VideoRenderImpl_new :: video_render where
  "VideoRenderImpl_new = \<lparr>vr_is_init = False, vr_is_playing = False, vr_error_code = 0, vr_frame = None, rendered = []\<rparr>"

definition vr_Init :: "bool \<Rightarrow> video_render \<Rightarrow> video_render \<times> int" where
  "vr_Init window r =
     (if \<not> window then (r, - 1) else if vr_is_init r then (r, - 1) else (r\<lparr>vr_is_init := True\<rparr>, 0))"

definition vr_Play :: "video_render \<Rightarrow> video_render \<times> int" where
  "vr_Play r = (r\<lparr>vr_is_playing := True\<rparr>, 0)"

definition vr_Pause :: "video_render \<Rightarrow> video_render \<times> int" where
  "vr_Pause r = (r\<lparr>vr_is_playing := False\<rparr>, 0)"

definition vr_UnInit :: "video_render \<Rightarrow> video_render \<times> int" where
  "vr_UnInit r = (r\<lparr>vr_is_init := False\<rparr>, 0)"

text \<open>The alignment is that of \<open>GL_UNPACK_ALIGNMENT\<close>.\<close>

definition GetAlignSize :: "int \<Rightarrow> VideoSize \<Rightarrow> VideoSize" where
  "GetAlignSize alignment sz =
     sz\<lparr>video_width := s32 (video_width sz + c_mod (alignment - c_mod (video_width sz) alignment) alignment)\<rparr>"

definition ReCreateRGBFrameIfNeed :: "(nat \<Rightarrow> byte list) \<Rightarrow> int \<Rightarrow> video_render \<Rightarrow> VideoSize \<Rightarrow> video_render option" where
  "ReCreateRGBFrameIfNeed fresh alignment r sz =
     (let align_size = GetAlignSize alignment sz in
      if (case vr_frame r of None \<Rightarrow> True | Some f \<Rightarrow> video_size (frame_info f) \<noteq> align_size)
      then do {
        info \<leftarrow> VideoFormatInfo_new align_size kRGB;
        f \<leftarrow> VideoFrame_new fresh info;
        Some (r\<lparr>vr_frame := Some f\<rparr>)
      }
      else Some r)"

definition vr_SendFrame :: "yuv_api \<Rightarrow> (nat \<Rightarrow> byte list) \<Rightarrow> int \<Rightarrow> video_render \<Rightarrow> video_frame_delegate \<Rightarrow>
    (video_render \<times> int) option" where
  "vr_SendFrame yuv fresh alignment r frame =
     (if \<not> vr_is_init r \<or> \<not> vr_is_playing r then Some (r, - 1)
      else do {
        r \<leftarrow> ReCreateRGBFrameIfNeed fresh alignment r (video_size (delegate_info frame));
        f \<leftarrow> vr_frame r;
        (f, res) \<leftarrow> VideoConvert_Convert yuv frame f;
        if IsRGB kRGB \<and> frame_planes f \<noteq> [] then
          Some (r\<lparr>vr_frame := Some f,
            rendered := rendered r @ [(drop (nat (hd (frame_planes f))) (frame_pixels f), video_size (frame_info f))]\<rparr>,
            vr_error_code r)
        else None
      })"

subsection \<open>The picture\<close>

lemma pixel_format_roundtrip:
  "f \<noteq> kVideoNone \<Longrightarrow> ToAVPixelFormat f \<noteq> AV_PIX_FMT_NONE \<Longrightarrow> ToRawVideoFormat (ToAVPixelFormat f) = f"
  by (cases f) (simp_all add: ToAVPixelFormat_def ToRawVideoFormat_def kPixelFormatMap_def)

lemma mem_read_write_same:
  "off + length src \<le> length d \<Longrightarrow> mem_read (mem_write d off src) off (length src) = src"
  by (simp add: mem_read_def mem_write_def)

lemma mem_read_take: "off + n \<le> k \<Longrightarrow> mem_read (take k d) off n = mem_read d off n"
  by (simp add: mem_read_def drop_take)

lemma store_rows_value:
  assumes "\<forall>row\<in>set rows. length row = m" "m \<le> stride" "off + stride * length rows \<le> length d"
  obtains d' where "store_rows d (int off) (int stride) rows = Some d'" "length d' = length d" "take off d' = take off d"
    "\<And>i. i < length rows \<Longrightarrow> mem_read d' (off + stride * i) m = rows ! i"
  using assms
proof (induction rows arbitrary: d off thesis)
  case Nil
  then show ?case by simp
next
  case (Cons row rows)
  let ?d = "mem_write d off row"
  have room: "off + length row \<le> length d" using Cons.prems by auto
  then have ld: "length ?d = length d" by (simp add: length_mem_write)
  have "\<forall>row\<in>set rows. length row = m" "off + stride + stride * length rows \<le> length ?d"
    using Cons.prems by (simp_all add: ld)
  then obtain d' where d': "store_rows ?d (int (off + stride)) (int stride) rows = Some d'" "length d' = length ?d"
    "take (off + stride) d' = take (off + stride) ?d"
    "\<And>i. i < length rows \<Longrightarrow> mem_read d' (off + stride + stride * i) m = rows ! i"
    using Cons.IH [where d = ?d and off = "off + stride"] Cons.prems(3) by blast
  have "store_rows d (int off) (int stride) (row # rows) = Some d'"
    using d'(1) room by (simp add: poke_def)
  moreover have "take off d' = take off d"
  proof -
    have "take off d' = take off (take (off + stride) d')" by (simp add: min_def)
    also have "\<dots> = take off ?d" unfolding d'(3) by (simp add: min_def)
    finally show ?thesis using room by (simp add: mem_write_def)
  qed
  moreover have "mem_read d' (off + stride * i) m = (row # rows) ! i" if "i < length (row # rows)" for i
  proof (cases i)
    case 0
    have m: "length row = m" using Cons.prems(2) by simp
    have "mem_read d' off m = mem_read (take (off + stride) d') off m"
      using Cons.prems(3) by (simp add: mem_read_take)
    also have "\<dots> = mem_read ?d off m" unfolding d'(3) using Cons.prems(3) by (simp add: mem_read_take)
    also have "\<dots> = row" using mem_read_write_same [OF room] m by simp
    finally show ?thesis using 0 by simp
  next
    case (Suc j)
    then show ?thesis using d'(4) [of j] that by (simp add: add.assoc)
  qed
  ultimately show ?case using Cons.prems(1) [of d'] d'(2) ld by simp
qed

text \<open>The frames that the renderer makes.\<close>

definition rgb_info :: "nat \<Rightarrow> nat \<Rightarrow> VideoFormatInfo" where
  "rgb_info w h = \<lparr>video_size = \<lparr>video_width = int w, video_height = int h\<rparr>, video_strides = [int (w * 3)], video_format = kRGB\<rparr>"

definition rgb_frame_ok :: "video_frame \<Rightarrow> bool" where
  "rgb_frame_ok f \<longleftrightarrow> (\<exists>w h. frame_info f = rgb_info w h \<and> frame_planes f = [0] \<and> length (frame_pixels f) = w * 3 * h)"

lemma rgb_frame_new:
  assumes "w * 3 < 2 ^ 31" "w * 3 * h < 2 ^ 31" "\<forall>n. length (fresh n) = n"
  obtains f where "VideoFormatInfo_new \<lparr>video_width = int w, video_height = int h\<rparr> kRGB = Some (rgb_info w h)"
    "VideoFrame_new fresh (rgb_info w h) = Some f" "rgb_frame_ok f" "frame_info f = rgb_info w h"
proof -
  have s0: "s32 (int n) = int n" if "n < 2 ^ 31" for n
    using that by (intro s32_id) simp_all
  have s: "s32 (int (w * 3) * int h) = int (w * 3 * h)" "s32 (int w * 3) = int (w * 3)"
    using s0 [OF assms(2)] s0 [OF assms(1)] by (simp_all only: of_nat_mult of_nat_numeral)
  have i: "VideoFormatInfo_new \<lparr>video_width = int w, video_height = int h\<rparr> kRGB = Some (rgb_info w h)"
    using s(2) by (simp add: VideoFormatInfo_new_def rgb_info_def)
  have l: "GetLengthEachPlane (rgb_info w h) = Some [int (w * 3 * h)]"
    using s(1) by (simp add: GetLengthEachPlane_def rgb_info_def)
  have z0: "uadd 0 (size_of_int (int n)) = n" if "n < 2 ^ 31" for n
    using that by (simp add: uadd_def size_of_int_def)
  note z = z0 [OF assms(2)]
  have "VideoFrame_new fresh (rgb_info w h) =
      Some \<lparr>frame_info = rgb_info w h, frame_planes = [0], frame_pixels = fresh (w * 3 * h)\<rparr>"
    unfolding VideoFrame_new_def GetAllSizeInByte_def l by (simp del: of_nat_mult add: z)
  moreover have "rgb_frame_ok \<lparr>frame_info = rgb_info w h, frame_planes = [0], frame_pixels = fresh (w * 3 * h)\<rparr>"
    unfolding rgb_frame_ok_def using assms(3) by (intro exI [of _ w] exI [of _ h]) simp
  ultimately show ?thesis
    using i by (intro that [of "\<lparr>frame_info = rgb_info w h, frame_planes = [0], frame_pixels = fresh (w * 3 * h)\<rparr>"]) simp_all
qed

lemma align_size:
  assumes "0 < a" "w + a < 2 ^ 31"
  obtains W where "GetAlignSize (int a) \<lparr>video_width = int w, video_height = int h\<rparr> = \<lparr>video_width = int W, video_height = int h\<rparr>"
    "W mod a = 0" "w \<le> W" "W < w + a"
proof -
  define W where "W = w + (a - w mod a) mod a"
  have m: "int a - int (w mod a) = int (a - w mod a)" using assms(1) by (simp add: of_nat_diff less_imp_le)
  have "W < w + a" using assms(1) by (simp add: W_def)
  moreover have "int w + int ((a - w mod a) mod a) = int W" by (simp add: W_def)
  moreover have cm: "c_mod (int x) (int a) = int (x mod a)" for x using assms(1) by (simp add: c_mod_nonneg zmod_int)
  ultimately have "GetAlignSize (int a) \<lparr>video_width = int w, video_height = int h\<rparr> = \<lparr>video_width = int W, video_height = int h\<rparr>"
    using assms(2) unfolding GetAlignSize_def VideoSize.select_convs cm m by (simp only: VideoSize.update_convs, subst s32_id) simp_all
  moreover have "W mod a = 0"
  proof (cases "w mod a = 0")
    case False
    then have "W = w + (a - w mod a)" using assms(1) by (simp add: W_def)
    also have "\<dots> = a * (w div a) + a" using mult_div_mod_eq [of a w] mod_less_divisor [OF assms(1), of w] by linarith
    finally show ?thesis by simp
  qed (use assms(1) in \<open>simp add: W_def\<close>)
  moreover have "w \<le> W" by (simp add: W_def)
  ultimately show ?thesis using \<open>W < w + a\<close> by (intro that [of W])
qed

definition converted :: "yuv_api \<Rightarrow> video_frame_delegate \<Rightarrow> byte list list" where
  "converted yuv frame =
     (let info = delegate_info frame; w = video_width (video_size info); h = video_height (video_size info);
          planes = take (GetPlaneNum (video_format info)) (zip (delegate_data frame) (video_strides info))
      in case video_format info of
        kYUV420P \<Rightarrow> I420ToRGB24 yuv planes w h
      | kYUV422P \<Rightarrow> I422ToRGB24 yuv planes w h
      | kYUV444P \<Rightarrow> I444ToRGB24 yuv planes w h
      | kNV12 \<Rightarrow> NV12ToRGB24 yuv planes w h
      | _ \<Rightarrow> [])"

definition convertible :: "RawVideoFormat \<Rightarrow> bool" where
  "convertible f \<longleftrightarrow> f \<in> {kYUV420P, kYUV422P, kYUV444P, kNV12}"

lemma ToRGB_rows:
  assumes "convertible (video_format (delegate_info frame))"
    and "GetPlaneNum (video_format (delegate_info frame)) \<le> length (zip (delegate_data frame) (video_strides (delegate_info frame)))"
    and "frame_planes out = p # ps"
  shows "video_ToRGB yuv frame out =
    map_option (\<lambda>d. (out\<lparr>frame_pixels := d\<rparr>, 0))
      (store_rows (frame_pixels out) p (s32 (video_width (video_size (frame_info out)) * 3)) (converted yuv frame))"
  using assms unfolding convertible_def
  by (elim insertE emptyE) (simp_all add: video_ToRGB_def converted_def Let_def del: length_zip)

definition render_frame_ok :: "video_render \<Rightarrow> bool" where
  "render_frame_ok r \<longleftrightarrow> (case vr_frame r of None \<Rightarrow> True | Some f \<Rightarrow> rgb_frame_ok f)"

lemma rgb_frame_sized:
  assumes "rgb_frame_ok f" "video_size (frame_info f) = \<lparr>video_width = int w, video_height = int h\<rparr>"
  shows "frame_info f = rgb_info w h" "frame_planes f = [0]" "length (frame_pixels f) = w * 3 * h"
  using assms by (auto simp: rgb_frame_ok_def rgb_info_def)

lemma recreated_frame:
  assumes ok: "render_frame_ok r" and a: "0 < a" "w + a < 2 ^ 31" and sz: "(w + a) * 3 * (h + 1) < 2 ^ 31"
    and fresh: "\<forall>n. length (fresh n) = n"
  obtains W f where "ReCreateRGBFrameIfNeed fresh (int a) r \<lparr>video_width = int w, video_height = int h\<rparr> = Some (r\<lparr>vr_frame := Some f\<rparr>)"
    "rgb_frame_ok f" "video_size (frame_info f) = \<lparr>video_width = int W, video_height = int h\<rparr>"
    "W mod a = 0" "w \<le> W" "W < w + a" "W * 3 < 2 ^ 31"
proof -
  obtain W where W: "GetAlignSize (int a) \<lparr>video_width = int w, video_height = int h\<rparr> = \<lparr>video_width = int W, video_height = int h\<rparr>"
    "W mod a = 0" "w \<le> W" "W < w + a" by (rule align_size [OF a])
  have le: "W * 3 * (h + 1) \<le> (w + a) * 3 * (h + 1)" using W(4) by (intro mult_le_mono) simp_all
  then have b: "W * 3 * h < 2 ^ 31" "W * 3 < 2 ^ 31" using sz by simp_all
  show ?thesis
  proof (cases "\<exists>f. vr_frame r = Some f \<and> video_size (frame_info f) = \<lparr>video_width = int W, video_height = int h\<rparr>")
    case True
    then obtain f where f: "vr_frame r = Some f" "video_size (frame_info f) = \<lparr>video_width = int W, video_height = int h\<rparr>"
      by blast
    moreover have "r\<lparr>vr_frame := Some f\<rparr> = r" using f(1) by simp
    ultimately show ?thesis using ok W b(2)
      by (intro that [of f W]) (simp_all add: ReCreateRGBFrameIfNeed_def render_frame_ok_def)
  next
    case False
    obtain f where f: "VideoFormatInfo_new \<lparr>video_width = int W, video_height = int h\<rparr> kRGB = Some (rgb_info W h)"
      "VideoFrame_new fresh (rgb_info W h) = Some f" "rgb_frame_ok f" "frame_info f = rgb_info W h"
      by (rule rgb_frame_new [OF b(2,1) fresh])
    have "(case vr_frame r of None \<Rightarrow> True | Some f \<Rightarrow> video_size (frame_info f) \<noteq> \<lparr>video_width = int W, video_height = int h\<rparr>)"
      using False by (auto split: option.split)
    then show ?thesis using f W b(2)
      by (intro that [of f W]) (simp_all add: ReCreateRGBFrameIfNeed_def rgb_info_def)
  qed
qed

text \<open>
  C17: A converted picture fits its frame, for every alignment that OpenGL asks for. The frame that the
  renderer keeps is as wide as the smallest multiple of the alignment that holds the picture, each
  row of the picture is stored at its place, and no row leaves the block.
\<close>

theorem picture_fits:
  assumes on: "vr_is_init r" "vr_is_playing r" and ok: "render_frame_ok r"
    and frame: "convertible (video_format (delegate_info frame))"
      "GetPlaneNum (video_format (delegate_info frame)) \<le> length (zip (delegate_data frame) (video_strides (delegate_info frame)))"
      "video_size (delegate_info frame) = \<lparr>video_width = int w, video_height = int h\<rparr>"
    and rows: "length (converted yuv frame) = h" "\<forall>row\<in>set (converted yuv frame). length row = w * 3"
    and a: "0 < a" "w + a < 2 ^ 31" "(w + a) * 3 * (h + 1) < 2 ^ 31" and fresh: "\<forall>n. length (fresh n) = n"
  shows "\<exists>r' out W. vr_SendFrame yuv fresh (int a) r frame = Some (r', vr_error_code r) \<and> render_frame_ok r' \<and>
    rendered r' = rendered r @ [(out, \<lparr>video_width = int W, video_height = int h\<rparr>)] \<and>
    W mod a = 0 \<and> w \<le> W \<and> W < w + a \<and> length out = W * 3 * h \<and>
    (\<forall>i<h. mem_read out (W * 3 * i) (w * 3) = converted yuv frame ! i)"
proof -
  obtain W f where R: "ReCreateRGBFrameIfNeed fresh (int a) r \<lparr>video_width = int w, video_height = int h\<rparr> = Some (r\<lparr>vr_frame := Some f\<rparr>)"
    "rgb_frame_ok f" "video_size (frame_info f) = \<lparr>video_width = int W, video_height = int h\<rparr>"
    "W mod a = 0" "w \<le> W" "W < w + a" "W * 3 < 2 ^ 31" by (rule recreated_frame [OF ok a fresh])
  note F = rgb_frame_sized [OF R(2,3)]
  have st: "s32 (int W * 3) = int (W * 3)" using R(7) by (subst s32_id) simp_all
  have room: "0 + W * 3 * length (converted yuv frame) \<le> length (frame_pixels f)" using F(3) rows(1) by simp
  obtain d where d: "store_rows (frame_pixels f) (int 0) (int (W * 3)) (converted yuv frame) = Some d"
    "length d = length (frame_pixels f)"
    "\<And>i. i < length (converted yuv frame) \<Longrightarrow> mem_read d (0 + W * 3 * i) (w * 3) = converted yuv frame ! i"
    by (rule store_rows_value [OF rows(2) _ room]) (use R(5) in simp_all)
  have "video_ToRGB yuv frame f = Some (f\<lparr>frame_pixels := d\<rparr>, 0)"
    using ToRGB_rows [OF frame(1,2) F(2), of yuv] d(1) by (simp add: R(3) st)
  then have "VideoConvert_Convert yuv frame f = Some (f\<lparr>frame_pixels := d\<rparr>, 0)"
    by (simp add: VideoConvert_Convert_def F(1) rgb_info_def)
  then have "vr_SendFrame yuv fresh (int a) r frame =
      Some (r\<lparr>vr_frame := Some (f\<lparr>frame_pixels := d\<rparr>),
        rendered := rendered r @ [(d, \<lparr>video_width = int W, video_height = int h\<rparr>)]\<rparr>, vr_error_code r)"
    using on R(1,3) F(2) frame(3) by (simp add: vr_SendFrame_def IsRGB_def)
  moreover have "rgb_frame_ok (f\<lparr>frame_pixels := d\<rparr>)"
    unfolding rgb_frame_ok_def using F d(2) by (intro exI [of _ W] exI [of _ h]) simp
  ultimately show ?thesis using R(4-6) F(3) d(2,3) rows(1)
    by (intro exI [of _ "r\<lparr>vr_frame := Some (f\<lparr>frame_pixels := d\<rparr>),
        rendered := rendered r @ [(d, \<lparr>video_width = int W, video_height = int h\<rparr>)]\<rparr>"] exI [of _ d] exI [of _ W])
      (simp add: render_frame_ok_def)
qed

text \<open>A decoded frame of two by one pixels, its planes, and libyuv making it white.\<close>

definition white_yuv :: yuv_api where
  "white_yuv = \<lparr>I420ToRGB24 = (\<lambda>planes w h. replicate (nat h) (replicate (nat w * 3) 255)),
     I422ToRGB24 = (\<lambda>planes w h. []), I444ToRGB24 = (\<lambda>planes w h. []), NV12ToRGB24 = (\<lambda>planes w h. [])\<rparr>"

definition small_frame :: "RawVideoFormat \<Rightarrow> video_frame_delegate" where
  "small_frame f = \<lparr>delegate_data = [[1, 2], [3], [4]],
     delegate_info = \<lparr>video_size = \<lparr>video_width = int 2, video_height = int 1\<rparr>, video_strides = [2, 1, 1], video_format = f\<rparr>,
     delegate_time = 0\<rparr>"

lemma small_frame_fields:
  "delegate_data (small_frame f) = [[1, 2], [3], [4]]" "video_format (delegate_info (small_frame f)) = f"
  "video_size (delegate_info (small_frame f)) = \<lparr>video_width = int 2, video_height = int 1\<rparr>"
  "video_strides (delegate_info (small_frame f)) = [2, 1, 1]"
  by (simp_all add: small_frame_def)

definition playing_render :: video_render where
  "playing_render = fst (vr_Play (fst (vr_Init True VideoRenderImpl_new)))"

lemma playing_render_fields:
  "vr_is_init playing_render" "vr_is_playing playing_render" "vr_frame playing_render = None" "vr_error_code playing_render = 0"
  "rendered playing_render = []"
  by (simp_all add: playing_render_def vr_Play_def vr_Init_def VideoRenderImpl_new_def)

lemma picture_fits_witness:
  "\<exists>r' out W. vr_SendFrame white_yuv (\<lambda>n. replicate n 0) (int 4) playing_render (small_frame kYUV420P) = Some (r', 0) \<and>
    rendered r' = [(out, \<lparr>video_width = int W, video_height = int 1\<rparr>)] \<and> mem_read out 0 6 = replicate 6 255"
proof -
  have c: "converted white_yuv (small_frame kYUV420P) = [replicate 6 255]"
    by (simp add: converted_def small_frame_def white_yuv_def Let_def)
  have "\<exists>r' out W. vr_SendFrame white_yuv (\<lambda>n. replicate n 0) (int 4) playing_render (small_frame kYUV420P) =
      Some (r', vr_error_code playing_render) \<and> render_frame_ok r' \<and>
    rendered r' = rendered playing_render @ [(out, \<lparr>video_width = int W, video_height = int 1\<rparr>)] \<and>
    W mod 4 = 0 \<and> 2 \<le> W \<and> W < 2 + 4 \<and> length out = W * 3 * 1 \<and>
    (\<forall>i<1. mem_read out (W * 3 * i) (2 * 3) = converted white_yuv (small_frame kYUV420P) ! i)"
    by (rule picture_fits) (simp_all add: c playing_render_fields render_frame_ok_def small_frame_fields convertible_def)
  then show ?thesis unfolding c by (auto simp: playing_render_fields)
qed

text \<open>
  C18: A frame in a format that cannot be converted is reported as shown, and what is shown is the
  picture before it, or the contents of new memory: the result of the conversion is not looked at.
\<close>

theorem unconvertible_repeats_picture:
  assumes on: "vr_is_init r" "vr_is_playing r" and ok: "render_frame_ok r" "vr_frame r = Some f"
    and frame: "\<not> convertible (video_format (delegate_info frame))"
      "GetAlignSize alignment (video_size (delegate_info frame)) = video_size (frame_info f)"
  shows "vr_SendFrame yuv fresh alignment r frame =
    Some (r\<lparr>rendered := rendered r @ [(frame_pixels f, video_size (frame_info f))]\<rparr>, vr_error_code r)"
proof -
  obtain w h where f: "frame_info f = rgb_info w h" "frame_planes f = [0]"
    using ok by (auto simp: render_frame_ok_def rgb_frame_ok_def)
  have "ReCreateRGBFrameIfNeed fresh alignment r (video_size (delegate_info frame)) = Some r"
    using ok(2) frame(2) by (simp add: ReCreateRGBFrameIfNeed_def)
  moreover have "video_ToRGB yuv frame f = Some (f, - 1)"
    using frame(1) by (cases "video_format (delegate_info frame)") (simp_all add: video_ToRGB_def convertible_def Let_def)
  moreover have "r\<lparr>vr_frame := Some f\<rparr> = r" using ok(2) by simp
  ultimately show ?thesis using on ok(2) f by (simp add: vr_SendFrame_def VideoConvert_Convert_def rgb_info_def IsRGB_def)
qed

lemma unconvertible_repeats_picture_witness:
  "\<exists>r. vr_SendFrame white_yuv (\<lambda>n. replicate n 0) 1 r (small_frame kRGBA) =
     Some (r\<lparr>rendered := rendered r @ [([9, 9, 9, 9, 9, 9], \<lparr>video_width = 2, video_height = 1\<rparr>)]\<rparr>, 0)"
proof -
  define r where "r = playing_render\<lparr>vr_frame := Some \<lparr>frame_info = rgb_info 2 1, frame_planes = [0], frame_pixels = replicate 6 9\<rparr>\<rparr>"
  have "vr_SendFrame white_yuv (\<lambda>n. replicate n 0) 1 r (small_frame kRGBA) =
      Some (r\<lparr>rendered := rendered r @ [(frame_pixels \<lparr>frame_info = rgb_info 2 1, frame_planes = [0], frame_pixels = replicate 6 9\<rparr>,
        video_size (frame_info \<lparr>frame_info = rgb_info 2 1, frame_planes = [0], frame_pixels = replicate 6 9\<rparr>))]\<rparr>, vr_error_code r)"
  proof (rule unconvertible_repeats_picture)
    show "render_frame_ok r"
      unfolding render_frame_ok_def rgb_frame_ok_def r_def by (simp, intro exI [of _ 2] exI [of _ 1]) simp
  qed (simp_all add: r_def playing_render_fields small_frame_def convertible_def GetAlignSize_def c_mod_def c_div_def
      rgb_info_def s32_def)
  then show ?thesis by (intro exI [of _ r]) (simp add: r_def playing_render_fields rgb_info_def numeral_eq_Suc)
qed

end
