(* ===== verification/ReaderFfmpeg.thy ===== *)
theory ReaderFfmpeg
  imports Decoder VideoFormat AudioConverter
begin

text \<open>
  \<open>src/src/core/codec/reader_ffmpeg.cc\<close>: the demuxer, with the tables of
  \<open>src/src/core/adapter/audio_format_ffmpeg_convert.cc\<close> and the way the player opens it. The functions
  of libavformat are the parameter \<open>format_api\<close>. \<open>None\<close> is the use of a null pointer, an access outside
  of the array of streams, or a failed \<open>RTC_CHECK\<close>.
\<close>

subsection \<open>Between the formats of the program and of ffmpeg\<close>

definition adapter_sample_fmt_map :: "(AudioSampleFormat \<times> av_sample_format) list" where
  "adapter_sample_fmt_map =
     [(kAudioSampleFormatPcmInt16, AV_SAMPLE_FMT_S16), (kAudioSampleFormatPcmFloat, AV_SAMPLE_FMT_FLT),
      (kAudioSampleFormatPcmFloatPlanar, AV_SAMPLE_FMT_FLTP), (kAudioSampleFormatPcmInt16Planar, AV_SAMPLE_FMT_S16P)]"

text \<open>The channel layouts of ffmpeg are bit sets; those of the table are 4 and 3.\<close>

definition av_ch_layout_mono :: int where "av_ch_layout_mono = 4"
definition av_ch_layout_stereo :: int where "av_ch_layout_stereo = 3"

definition adapter_channel_layout_map :: "(AudioChannelLayout \<times> int) list" where
  "adapter_channel_layout_map = [(kMono, av_ch_layout_mono), (kStereo, av_ch_layout_stereo)]"

definition adapter_GetFFmpegSampleFormat :: "AudioSampleFormat \<Rightarrow> av_sample_format" where
  "adapter_GetFFmpegSampleFormat f = ArrayFind adapter_sample_fmt_map f AV_SAMPLE_FMT_NONE"

definition GetSampleFormat :: "av_sample_format \<Rightarrow> AudioSampleFormat" where
  "GetSampleFormat f = ArrayFindKey adapter_sample_fmt_map f kAudioSampleFormatNone"

definition adapter_GetFFmpegChannelLayout :: "AudioChannelLayout \<Rightarrow> int" where
  "adapter_GetFFmpegChannelLayout l = ArrayFind adapter_channel_layout_map l av_ch_layout_mono"

definition GetChannelLayout :: "int \<Rightarrow> AudioChannelLayout" where
  "GetChannelLayout bits = ArrayFindKey adapter_channel_layout_map bits LayoutNull"

lemma adapter_roundtrips:
  "f \<noteq> kAudioSampleFormatNone \<Longrightarrow> GetSampleFormat (adapter_GetFFmpegSampleFormat f) = f"
  "l \<noteq> LayoutNull \<Longrightarrow> GetChannelLayout (adapter_GetFFmpegChannelLayout l) = l"
  by (cases f; simp add: GetSampleFormat_def adapter_GetFFmpegSampleFormat_def adapter_sample_fmt_map_def)
    (cases l; simp add: GetChannelLayout_def adapter_GetFFmpegChannelLayout_def adapter_channel_layout_map_def
      av_ch_layout_mono_def av_ch_layout_stereo_def)

text \<open>A frame of decoded audio as a view of its planes.\<close>

record decoded_audio =
  da_sample_rate :: int
  da_channel_layout :: int
  da_format :: av_sample_format
  da_nb_samples :: int
  da_channels :: nat
  da_data :: "byte list list"

definition GetAudioFrameLiteView :: "decoded_audio \<Rightarrow> planar_view option" where
  "GetAudioFrameLiteView frame =
     (let info = \<lparr>sample_rate_hz = IntToAudioSampleRate (da_sample_rate frame),
            channel_layout = GetChannelLayout (s32 (da_channel_layout frame)),
            audio_sample_format = GetSampleFormat (da_format frame)\<rparr>;
          one_dim_size = umul (size_of_int (da_nb_samples frame)) (ByteSizePerSample (audio_sample_format info));
          n = (if IsPlanner info then max 1 (da_channels frame) else 1)
      in if length (da_data frame) < n then None
         else Some (AudioFrameMaybePlanarView_new (take n (da_data frame)) one_dim_size info))"

subsection \<open>ReaderFfmpeg\<close>

record av_stream =
  st_sample_rate :: int
  st_channel_layout :: int
  st_sample_format :: av_sample_format
  st_width :: int
  st_height :: int
  st_pixel_format :: AVPixelFormat
  st_duration :: int
  st_time_base :: rational

record 'f format_api =
  avformat_open_input :: "'f option \<Rightarrow> string \<Rightarrow> 'f option \<times> int"
  avformat_find_stream_info :: "'f \<Rightarrow> 'f \<times> int"
  av_find_best_stream :: "'f \<Rightarrow> bool \<Rightarrow> int \<Rightarrow> int"
  fmt_streams :: "'f \<Rightarrow> av_stream list"
  fmt_duration :: "'f \<Rightarrow> int"
  avformat_seek_file :: "'f \<Rightarrow> int \<Rightarrow> int \<Rightarrow> int \<Rightarrow> 'f \<times> int"
  av_read_frame :: "'f \<Rightarrow> av_packet \<Rightarrow> 'f \<times> av_packet \<times> int"
  av_rescale :: "int \<Rightarrow> int \<Rightarrow> int \<Rightarrow> int"
  av_rescale_q :: "int \<Rightarrow> rational \<Rightarrow> rational \<Rightarrow> int"

definition AV_TIME_BASE :: int where "AV_TIME_BASE = 1000000"

record reader_config =
  cfg_url :: string
  disable_audio :: bool
  disable_video :: bool

record 'f reader =
  rd_is_init :: bool
  rd_config :: reader_config
  rd_duration_ms :: int
  audio_stream_index :: int
  video_stream_index :: int
  format_context :: "'f option"

definition ReaderFfmpeg_new :: "'f reader" where
  "ReaderFfmpeg_new = \<lparr>rd_is_init = False, rd_config = \<lparr>cfg_url = [], disable_audio = False, disable_video = False\<rparr>,
     rd_duration_ms = 0, audio_stream_index = - 1, video_stream_index = - 1, format_context = None\<rparr>"

definition reader_UnInit :: "'f reader \<Rightarrow> 'f reader \<times> int" where
  "reader_UnInit r = (r, if \<not> rd_is_init r then - 1 else 0)"

text \<open>The body of the loop that runs once: the value of \<open>ret\<close> when it is left.\<close>

definition reader_open :: "'f format_api \<Rightarrow> 'f reader \<Rightarrow> ('f reader \<times> int) option" where
  "reader_open api r =
     (case avformat_open_input api (format_context r) (cfg_url (rd_config r)) of (ctx, ret) \<Rightarrow>
       let r = r\<lparr>format_context := ctx\<rparr> in
       if ret < 0 then Some (r, ret)
       else do {
         f \<leftarrow> ctx;
         case avformat_find_stream_info api f of (f, ret) \<Rightarrow>
           let r = r\<lparr>format_context := Some f\<rparr> in
           if ret < 0 then Some (r, ret)
           else
             let r = (if \<not> disable_video (rd_config r)
                   then r\<lparr>video_stream_index := av_find_best_stream api f True (- 1)\<rparr> else r);
                 r = (if \<not> disable_audio (rd_config r)
                   then r\<lparr>audio_stream_index := av_find_best_stream api f False (video_stream_index r)\<rparr> else r)
             in if audio_stream_index r = - 1 \<and> video_stream_index r = - 1 then Some (r, ret)
                else Some (r\<lparr>rd_duration_ms := c_div (fmt_duration api f) (AV_TIME_BASE div 1000)\<rparr>, ret)
       })"

definition InitReader :: "'f format_api \<Rightarrow> 'f reader \<Rightarrow> reader_config \<Rightarrow> ('f reader \<times> int) option" where
  "InitReader api r config =
     (if rd_is_init r then Some (r, - 1)
      else if disable_audio (rd_config r) \<and> disable_video (rd_config r) then Some (r, - 1)
      else do {
        (r, ret) \<leftarrow> reader_open api (r\<lparr>rd_config := config\<rparr>);
        if ret \<noteq> 0 then Some (fst (reader_UnInit r), - 1) else Some (r\<lparr>rd_is_init := True\<rparr>, 0)
      })"

definition reader_SeekTo :: "'f format_api \<Rightarrow> 'f reader \<Rightarrow> int \<Rightarrow> ('f reader \<times> int) option" where
  "reader_SeekTo api r ts_ms =
     (if \<not> rd_is_init r then Some (r, - 1)
      else map_option (\<lambda>f. case avformat_seek_file api f (- (2 ^ 63)) (av_rescale api ts_ms AV_TIME_BASE 1000) (2 ^ 63 - 1) of
          (f, res) \<Rightarrow> (r\<lparr>format_context := Some f\<rparr>, res)) (format_context r))"

definition reader_ReadPacket :: "'c codec_api \<Rightarrow> 'f format_api \<Rightarrow> 'f reader \<Rightarrow> av_packet \<Rightarrow>
    ('f reader \<times> av_packet \<times> FfmpegStatus) option" where
  "reader_ReadPacket capi api r pkt =
     (if \<not> rd_is_init r then Some (r, pkt, kFfmpegError)
      else map_option (\<lambda>f. case av_read_frame api f pkt of
          (f, pkt, res) \<Rightarrow> (r\<lparr>format_context := Some f\<rparr>, pkt, GetStatus capi res)) (format_context r))"

text \<open>The outer option is the access; the null pointer is \<open>Some None\<close>.\<close>

definition stream_at :: "'f format_api \<Rightarrow> 'f reader \<Rightarrow> int \<Rightarrow> av_stream option option" where
  "stream_at api r i =
     (if i = - 1 then Some None
      else do {
        f \<leftarrow> format_context r;
        if 0 \<le> i \<and> nat i < length (fmt_streams api f) then Some (Some (fmt_streams api f ! nat i)) else None
      })"

definition GetVideoStream :: "'f format_api \<Rightarrow> 'f reader \<Rightarrow> av_stream option option" where
  "GetVideoStream api r = stream_at api r (video_stream_index r)"

definition GetAudioStream :: "'f format_api \<Rightarrow> 'f reader \<Rightarrow> av_stream option option" where
  "GetAudioStream api r = stream_at api r (audio_stream_index r)"

definition GetVideoStreamIndex :: "'f reader \<Rightarrow> int" where "GetVideoStreamIndex r = video_stream_index r"
definition GetAudioStreamIndex :: "'f reader \<Rightarrow> int" where "GetAudioStreamIndex r = audio_stream_index r"
definition HasVideo :: "'f reader \<Rightarrow> bool" where "HasVideo r \<longleftrightarrow> video_stream_index r \<noteq> - 1"
definition HasAudio :: "'f reader \<Rightarrow> bool" where "HasAudio r \<longleftrightarrow> audio_stream_index r \<noteq> - 1"
definition GetDurationMs :: "'f reader \<Rightarrow> int" where "GetDurationMs r = rd_duration_ms r"

definition stream_duration :: "'f format_api \<Rightarrow> av_stream option \<Rightarrow> int" where
  "stream_duration api s =
     (case s of None \<Rightarrow> 0 | Some st \<Rightarrow> av_rescale_q api (st_duration st) (st_time_base st) (1, AV_TIME_BASE))"

definition GetAudioDurationMs :: "'f format_api \<Rightarrow> 'f reader \<Rightarrow> int option" where
  "GetAudioDurationMs api r = map_option (stream_duration api) (GetAudioStream api r)"

definition GetVideoDurationMs :: "'f format_api \<Rightarrow> 'f reader \<Rightarrow> int option" where
  "GetVideoDurationMs api r = map_option (stream_duration api) (GetVideoStream api r)"

definition GetAudioFormatInfo :: "'f format_api \<Rightarrow> 'f reader \<Rightarrow> AudioFormatInfo option" where
  "GetAudioFormatInfo api r =
     map_option (\<lambda>s. case s of
         Some st \<Rightarrow> if rd_is_init r
           then \<lparr>sample_rate_hz = IntToAudioSampleRate (st_sample_rate st), channel_layout = GetChannelLayout (s32 (st_channel_layout st)),
                 audio_sample_format = GetSampleFormat (st_sample_format st)\<rparr>
           else kNullAudioFormatInfo
       | None \<Rightarrow> kNullAudioFormatInfo) (GetAudioStream api r)"

definition GetVideoFormatInfo :: "'f format_api \<Rightarrow> 'f reader \<Rightarrow> VideoFormatInfo option" where
  "GetVideoFormatInfo api r =
     do {
       s \<leftarrow> GetVideoStream api r;
       case (rd_is_init r, s) of
         (True, Some st) \<Rightarrow> VideoFormatInfo_new \<lparr>video_width = st_width st, video_height = st_height st\<rparr>
           (ToRawVideoFormat (st_pixel_format st))
       | _ \<Rightarrow> VideoFormatInfo_new \<lparr>video_width = 0, video_height = 0\<rparr> kVideoNone
     }"

text \<open>
  What \<open>PlayerImpl::InitReaderIfNeed\<close> does with a new reader before the first packet is read: the
  reader, whether it failed, and the formats that it logs.
\<close>

definition open_media :: "'f format_api \<Rightarrow> reader_config \<Rightarrow>
    ('f reader \<times> bool \<times> AudioFormatInfo option \<times> VideoFormatInfo option) option" where
  "open_media api config =
     do {
       (r, ret) \<leftarrow> InitReader api ReaderFfmpeg_new config;
       audio_stream \<leftarrow> GetAudioStream api r;
       video_stream \<leftarrow> GetVideoStream api r;
       ai \<leftarrow> (if audio_stream \<noteq> None then map_option Some (GetAudioFormatInfo api r) else Some None);
       vi \<leftarrow> (if video_stream \<noteq> None then map_option Some (GetVideoFormatInfo api r) else Some None);
       Some (r, ret \<noteq> 0 \<or> audio_stream = None \<and> video_stream = None, ai, vi)
     }"

subsection \<open>Opening a medium\<close>

lemma VideoFormatInfo_new_aborts:
  "VideoFormatInfo_new sz (ToRawVideoFormat pix) = None \<longleftrightarrow> ToRawVideoFormat pix = kVideoNone"
  by (cases pix) (simp_all add: ToRawVideoFormat_def kPixelFormatMap_def VideoFormatInfo_new_def Let_def)

text \<open>What \<open>av_find_best_stream\<close> promises: an index of a stream, or an error code, which is not -1.\<close>

definition stream_result :: "'f format_api \<Rightarrow> 'f \<Rightarrow> int \<Rightarrow> bool" where
  "stream_result api f i \<longleftrightarrow> i < - 1 \<or> 0 \<le> i \<and> nat i < length (fmt_streams api f)"

lemma opened_reader:
  assumes "avformat_open_input api None (cfg_url config) = (Some f0, 0)" "avformat_find_stream_info api f0 = (f, 0)"
    and v: "v = (if disable_video config then - 1 else av_find_best_stream api f True (- 1))"
    and a: "a = (if disable_audio config then - 1 else av_find_best_stream api f False v)"
  obtains r where "InitReader api ReaderFfmpeg_new config = Some (r, 0)" "rd_is_init r" "format_context r = Some f"
    "video_stream_index r = v" "audio_stream_index r = a"
proof -
  have "\<exists>r. reader_open api (ReaderFfmpeg_new\<lparr>rd_config := config\<rparr>) = Some (r, 0) \<and> format_context r = Some f \<and>
      video_stream_index r = v \<and> audio_stream_index r = a"
    using assms(1,2) unfolding v a by (auto simp: reader_open_def ReaderFfmpeg_new_def Let_def)
  then obtain r where "reader_open api (ReaderFfmpeg_new\<lparr>rd_config := config\<rparr>) = Some (r, 0)" "format_context r = Some f"
    "video_stream_index r = v" "audio_stream_index r = a" by blast
  then show ?thesis
    by (intro that [of "r\<lparr>rd_is_init := True\<rparr>"]) (simp_all add: InitReader_def ReaderFfmpeg_new_def)
qed

text \<open>
  C14: A medium opens without stopping the program exactly when every kind of stream that is not
  disabled is there and its pixels are in a format that the program knows. Where there is no video,
  or no audio, the index is an error code of ffmpeg, which is not the -1 that the reader looks for,
  and the streams are read outside of their array; where the format of the pixels is another one,
  the constructor of the format aborts.
\<close>

theorem media_opens_iff:
  assumes opened: "avformat_open_input api None (cfg_url config) = (Some f0, 0)" "avformat_find_stream_info api f0 = (f, 0)"
    and v: "v = av_find_best_stream api f True (- 1)" "stream_result api f v"
    and a: "a = av_find_best_stream api f False (if disable_video config then - 1 else v)" "stream_result api f a"
  shows "open_media api config \<noteq> None \<longleftrightarrow>
    (disable_video config \<or> 0 \<le> v \<and> ToRawVideoFormat (st_pixel_format (fmt_streams api f ! nat v)) \<noteq> kVideoNone) \<and>
    (disable_audio config \<or> 0 \<le> a)"
proof -
  obtain r where r: "InitReader api ReaderFfmpeg_new config = Some (r, 0)" "rd_is_init r" "format_context r = Some f"
    "video_stream_index r = (if disable_video config then - 1 else v)"
    "audio_stream_index r = (if disable_audio config then - 1 else a)"
    by (rule opened_reader [OF opened refl refl]) (simp add: v(1) a(1))
  have as: "GetAudioStream api r = (if disable_audio config then Some None
      else if 0 \<le> a then Some (Some (fmt_streams api f ! nat a)) else None)"
    using r(3,5) a(2) by (auto simp: GetAudioStream_def stream_at_def stream_result_def)
  have vs: "GetVideoStream api r = (if disable_video config then Some None
      else if 0 \<le> v then Some (Some (fmt_streams api f ! nat v)) else None)"
    using r(3,4) v(2) by (auto simp: GetVideoStream_def stream_at_def stream_result_def)
  have vi: "GetVideoFormatInfo api r \<noteq> None \<longleftrightarrow> ToRawVideoFormat (st_pixel_format (fmt_streams api f ! nat v)) \<noteq> kVideoNone"
    if "\<not> disable_video config" "0 \<le> v"
    using that r(2) by (simp add: GetVideoFormatInfo_def vs VideoFormatInfo_new_aborts del: not_None_eq)
  show ?thesis
    unfolding open_media_def r(1) bind.bind_lunit prod.case as vs
    using vi by (auto simp: GetAudioFormatInfo_def as simp del: not_None_eq split: option.splits)
qed

text \<open>A medium of one audio stream, and one that has a picture in addition.\<close>

definition audio_stream_info :: av_stream where
  "audio_stream_info = \<lparr>st_sample_rate = 48000, st_channel_layout = 3, st_sample_format = AV_SAMPLE_FMT_FLTP, st_width = 0,
     st_height = 0, st_pixel_format = AV_PIX_FMT_NONE, st_duration = 480000, st_time_base = (1, 48000)\<rparr>"

definition sample_format_api :: "unit format_api" where
  "sample_format_api = \<lparr>avformat_open_input = (\<lambda>ctx url. (Some (), 0)), avformat_find_stream_info = (\<lambda>f. (f, 0)),
     av_find_best_stream = (\<lambda>f video related. if video then - 1381258232 else 0), fmt_streams = (\<lambda>f. [audio_stream_info]),
     fmt_duration = (\<lambda>f. 10000000), avformat_seek_file = (\<lambda>f lo ts hi. (f, 0)), av_read_frame = (\<lambda>f p. (f, p, 0)),
     av_rescale = (\<lambda>a b c. a * b div c), av_rescale_q = (\<lambda>a (n, d) (n', d'). a * n * d' div (d * n'))\<rparr>"

lemma sample_format_fields:
  "avformat_open_input sample_format_api ctx url = (Some (), 0)" "avformat_find_stream_info sample_format_api f = (f, 0)"
  "av_find_best_stream sample_format_api f video related = (if video then - 1381258232 else 0)"
  "fmt_streams sample_format_api f = [audio_stream_info]"
  by (simp_all add: sample_format_api_def)

lemma media_opens_iff_witness:
  "open_media sample_format_api \<lparr>cfg_url = ''song'', disable_audio = False, disable_video = False\<rparr> = None \<and>
   open_media sample_format_api \<lparr>cfg_url = ''song'', disable_audio = False, disable_video = True\<rparr> \<noteq> None"
proof -
  have "open_media sample_format_api \<lparr>cfg_url = ''song'', disable_audio = False, disable_video = dv\<rparr> \<noteq> None \<longleftrightarrow> dv" for dv
    using media_opens_iff [of sample_format_api "\<lparr>cfg_url = ''song'', disable_audio = False, disable_video = dv\<rparr>" "()" "()"
        "- 1381258232" 0]
    by (simp add: sample_format_fields stream_result_def del: not_None_eq)
  from this [of False] this [of True] show ?thesis by (simp del: not_None_eq)
qed

subsection \<open>Opening once\<close>

inductive reader_step :: "'c codec_api \<Rightarrow> 'f format_api \<Rightarrow> 'f reader \<Rightarrow> 'f reader \<Rightarrow> bool" for capi api where
  step_InitReader: "InitReader api r config = Some (r', res) \<Longrightarrow> reader_step capi api r r'"
| step_SeekTo: "reader_SeekTo api r ts = Some (r', res) \<Longrightarrow> reader_step capi api r r'"
| step_ReadPacket: "reader_ReadPacket capi api r pkt = Some (r', pkt', st) \<Longrightarrow> reader_step capi api r r'"
| step_UnInitReader: "reader_step capi api r (fst (reader_UnInit r))"

lemma step_stays_open:
  assumes "reader_step capi api r r'" "rd_is_init r"
  shows "rd_is_init r' \<and> rd_config r' = rd_config r \<and> audio_stream_index r' = audio_stream_index r \<and>
    video_stream_index r' = video_stream_index r"
  using assms
  by cases (auto simp: InitReader_def reader_SeekTo_def reader_ReadPacket_def reader_UnInit_def case_prod_beta)

text \<open>
  C15: A reader opens one medium in its life. \<open>UnInitReader\<close> reports success and changes nothing: after
  any sequence of calls the streams are still those of the first medium, and \<open>InitReader\<close> fails.
\<close>

theorem reader_opens_once:
  assumes first: "InitReader api r0 config = Some (r1, 0)" and steps: "(reader_step capi api)\<^sup>*\<^sup>* r1 r"
  shows "InitReader api r config' = Some (r, - 1) \<and> video_stream_index r = video_stream_index r1 \<and>
    audio_stream_index r = audio_stream_index r1"
proof -
  have "rd_is_init r1"
    using first by (auto simp: InitReader_def bind_Some_iff split: if_splits)
  with steps have "rd_is_init r \<and> audio_stream_index r = audio_stream_index r1 \<and> video_stream_index r = video_stream_index r1"
    by (induction rule: rtranclp_induct) (auto dest: step_stays_open)
  then show ?thesis by (simp add: InitReader_def)
qed

lemma reader_opens_once_witness:
  "\<exists>r. (reader_step undefined sample_format_api)\<^sup>*\<^sup>* r (fst (reader_UnInit r)) \<and> snd (reader_UnInit r) = 0 \<and>
     InitReader sample_format_api (fst (reader_UnInit r)) \<lparr>cfg_url = ''other'', disable_audio = False, disable_video = False\<rparr> =
       Some (fst (reader_UnInit r), - 1)"
proof -
  let ?c = "\<lparr>cfg_url = ''song'', disable_audio = False, disable_video = False\<rparr>"
  obtain r where r: "InitReader sample_format_api ReaderFfmpeg_new ?c = Some (r, 0)" "rd_is_init r"
    by (rule opened_reader [of sample_format_api ?c "()" "()"]) (simp_all add: sample_format_fields)
  have s: "(reader_step undefined sample_format_api)\<^sup>*\<^sup>* r (fst (reader_UnInit r))"
    by (rule r_into_rtranclp) (rule step_UnInitReader)
  then show ?thesis using reader_opens_once [OF r(1) s] r(2) by (intro exI [of _ r]) (simp add: reader_UnInit_def)
qed

text \<open>A configuration that disables both is found out only by the next call, and a medium without streams opens.\<close>

lemma both_disabled_opens:
  assumes "avformat_open_input api None (cfg_url config) = (Some f0, 0)" "avformat_find_stream_info api f0 = (f, 0)"
    and "disable_audio config" "disable_video config"
  shows "\<exists>r. InitReader api ReaderFfmpeg_new config = Some (r, 0) \<and> \<not> HasAudio r \<and> \<not> HasVideo r"
  using opened_reader [OF assms(1,2) refl refl] assms(3,4) by (metis HasAudio_def HasVideo_def)

end
