(* ===== verification/Player.thy ===== *)
theory Player
  imports Decoder
begin

text \<open>
  \<open>src/src/player/player_impl.cc\<close>: the player's state machine and its threads. The public calls
  post tasks to the player thread, where each runs as one function below; the calls into the
  decoder and reader threads are either blocking (done in place) or posted (recorded in
  \<open>decoder_posted\<close> and \<open>reader_posted\<close>). The renderers, the demuxer and the application's
  callback are outside: calls on them are recorded in \<open>calls\<close>, and what they answer is in
  \<open>player_env\<close>. \<open>None\<close> is a dereference of \<open>NULL\<close> or a failed \<open>RTC_CHECK\<close>.
\<close>

datatype PlayerState = kIdle | kPrepared | kPlaying | kPaused | kCompleted | kEnded | kPlayerError

record player_config =
  url :: string
  disable_audio :: bool
  disable_video :: bool
  has_callback :: bool
  has_window :: bool
  window_width :: int
  window_height :: int

datatype decoder_task = ResumeTask | PauseTask
datatype reader_task = SeekTask int nat | ReadTask

datatype call = OnPrepared | OnCompleted | OnError int | AudioInit | AudioPlay | AudioFlush
  | AudioPause
  | AudioUnInit | VideoInit | VideoPlay | VideoPause | VideoUnInit | AudioProcess | VideoProcess
  | ReaderSeek int | ReaderUnInit

record player =
  pl_state :: PlayerState
  pl_config :: player_config
  pl_timer :: player_timer
  pl_seek_id :: nat
  pl_start_time :: int
  reader_is_init :: bool
  reader_serial :: nat
  reader_packet :: PacketInfo
  reader_thread :: bool
  decoder_thread :: bool
  has_reader :: bool
  has_audio :: bool
  has_video :: bool
  audio_render :: bool
  video_render :: bool
  audio_d2r :: bool
  video_d2r :: bool
  audio_serial :: nat
  video_serial :: nat
  audio_start :: int
  video_start :: int
  av_packet_queue :: AvPacketQueue
  decoder_posted :: "decoder_task list"
  reader_posted :: "reader_task list"
  player_posted :: "int list"
  calls :: "call list"

record player_env =
  init_ret :: int
  stream_audio :: bool
  stream_video :: bool
  video_render_factory :: bool
  audio_index :: int
  video_index :: int
  audio_time_base :: rational
  video_time_base :: rational
  read_frame :: "FfmpegStatus \<times> av_packet"

definition no_config :: player_config where
  "no_config = \<lparr>url = '''', disable_audio = False, disable_video = False, has_callback = False,
     has_window = False, window_width = 0, window_height = 0\<rparr>"

definition PlayerImpl_new :: "packet_api \<Rightarrow> player" where
  "PlayerImpl_new papi =
     \<lparr>pl_state = kIdle, pl_config = no_config, pl_timer = PlayerTimer_new kAudio 0, pl_seek_id = 0,
      pl_start_time = 0, reader_is_init = False, reader_serial = 0,
      reader_packet = PacketInfo_new papi, reader_thread = False, decoder_thread = False,
      has_reader = False, has_audio = False, has_video = False, audio_render = False,
      video_render = False, audio_d2r = False, video_d2r = False, audio_serial = 0,
      video_serial = 0, audio_start = 0, video_start = 0,
      av_packet_queue = AvPacketQueue_new papi (time_convert (time_literal sec_factor 10)),
      decoder_posted = [], reader_posted = [], player_posted = [], calls = []\<rparr>"

subsection \<open>The state\<close>

fun CheckState :: "PlayerState \<Rightarrow> PlayerState \<Rightarrow> bool" where
  "CheckState current kIdle \<longleftrightarrow> current = kIdle"
| "CheckState current kPrepared \<longleftrightarrow> current = kIdle"
| "CheckState current kPlaying \<longleftrightarrow> current = kPrepared \<or> current = kPaused"
| "CheckState current kPaused \<longleftrightarrow> current = kPlaying"
| "CheckState current kCompleted \<longleftrightarrow> current \<noteq> kPlayerError \<and> current \<noteq> kIdle"
| "CheckState current kEnded \<longleftrightarrow> True"
| "CheckState current kPlayerError \<longleftrightarrow> True"

definition SetState :: "player \<Rightarrow> PlayerState \<Rightarrow> player" where
  "SetState p st = (if CheckState (pl_state p) st then p\<lparr>pl_state := st\<rparr> else p)"

definition SetError :: "player \<Rightarrow> int \<Rightarrow> player" where
  "SetError p error_code =
     p\<lparr>pl_state := kPlayerError, player_posted := player_posted p @ [error_code]\<rparr>"

definition ThreadShouldExit :: "player \<Rightarrow> bool" where
  "ThreadShouldExit p \<longleftrightarrow> pl_state p = kPlayerError \<or> pl_state p = kEnded"

definition log_call :: "player \<Rightarrow> call list \<Rightarrow> player" where
  "log_call p cs = p\<lparr>calls := calls p @ cs\<rparr>"

subsection \<open>The reader\<close>

definition max_packet_queue_size_ms :: int where
  "max_packet_queue_size_ms = 1000"

text \<open>The duration of one of the queues in milliseconds, 0 for a stream that is not used.\<close>

definition queued_ms :: "packet_api \<Rightarrow> player_env \<Rightarrow> player \<Rightarrow> bool \<Rightarrow> int option" where
  "queued_ms papi env p video =
     (if (if video then has_video p \<and> \<not> disable_video (pl_config p)
          else has_audio p \<and> \<not> disable_audio (pl_config p))
      then do {
        d \<leftarrow> av_GetDuration (av_packet_queue p) video;
        Some (av_rescale_q papi d (if video then video_time_base env else audio_time_base env) (1, 1000))
      }
      else Some 0)"

text \<open>What is done with a packet that was read: into the queue of its stream, or ignored.\<close>

definition push_read :: "packet_api \<Rightarrow> player_env \<Rightarrow> player \<Rightarrow> PacketInfo \<Rightarrow> player option" where
  "push_read papi env p pkt =
     (case GetPacket_ptr pkt of
        None \<Rightarrow> None
      | Some a \<Rightarrow>
          if pkt_stream_index a = (if has_audio p then audio_index env else - 1) \<and>
             \<not> disable_audio (pl_config p)
          then map_option (\<lambda>(q, pkt'). p\<lparr>av_packet_queue := q, reader_packet := pkt'\<rparr>)
                 (av_PushPacket papi (av_packet_queue p) (SetTimeBase pkt (audio_time_base env)) False)
          else if pkt_stream_index a = (if has_video p then video_index env else - 1) \<and>
             \<not> disable_video (pl_config p)
          then map_option (\<lambda>(q, pkt'). p\<lparr>av_packet_queue := q, reader_packet := pkt'\<rparr>)
                 (av_PushPacket papi (av_packet_queue p) (SetTimeBase pkt (video_time_base env)) True)
          else Some (p\<lparr>reader_packet := pkt\<rparr>))"

definition ReadPacket :: "packet_api \<Rightarrow> player_env \<Rightarrow> player \<Rightarrow> player option" where
  "ReadPacket papi env p =
     (if ThreadShouldExit p then Some p
      else if \<not> has_reader p then None
      else do {
        audio_ms \<leftarrow> queued_ms papi env p False;
        video_ms \<leftarrow> queued_ms papi env p True;
        p1 \<leftarrow> (if audio_ms < max_packet_queue_size_ms \<and> video_ms < max_packet_queue_size_ms \<and>
                 pl_seek_id p = reader_serial p
              then
                (let pkt = (reader_packet p)\<lparr>serial := reader_serial p,
                       private_packet := (private_packet (reader_packet p))
                         \<lparr>packet := Some (snd (read_frame env))\<rparr>\<rparr>
                 in (case fst (read_frame env) of
                       kOk \<Rightarrow> push_read papi env p pkt
                     | kEof \<Rightarrow> Some (p\<lparr>av_packet_queue := av_SetEof (av_packet_queue p),
                                      reader_packet := pkt\<rparr>)
                     | kFfmpegError \<Rightarrow> Some (SetError (p\<lparr>reader_packet := pkt\<rparr>) (- 1))
                     | kEAgain \<Rightarrow> Some (p\<lparr>reader_packet := pkt\<rparr>)))
              else Some p);
        Some (p1\<lparr>reader_posted := reader_posted p1 @ [ReadTask]\<rparr>)
      })"

text \<open>Always \<open>true\<close>, whatever happened: the result only says that the call was made.\<close>

definition InitReaderIfNeed :: "packet_api \<Rightarrow> player_env \<Rightarrow> player \<Rightarrow> (player \<times> bool) option" where
  "InitReaderIfNeed papi env p =
     (if reader_is_init p then Some (p, True)
      else
        (let p1 = p\<lparr>reader_thread := True, has_reader := True, reader_serial := pl_seek_id p,
                   has_audio := stream_audio env, has_video := stream_video env\<rparr>;
             p2 = (if init_ret env \<noteq> 0 then SetError p1 (- 1) else p1);
             p3 = (if \<not> stream_audio env \<and> \<not> stream_video env then SetError p2 (- 1) else p2)
         in do {
           p4 \<leftarrow> ReadPacket papi env p3;
           Some (p4\<lparr>reader_is_init := True\<rparr>, True)
         }))"

definition UnInitReader :: "player \<Rightarrow> player option" where
  "UnInitReader p =
     (if \<not> reader_is_init p then Some p
      else if \<not> reader_thread p \<or> \<not> has_reader p then None
      else Some ((log_call p [ReaderUnInit])\<lparr>reader_thread := False, has_reader := False,
              reader_posted := [], reader_is_init := False\<rparr>))"

subsection \<open>The decoder\<close>

definition InitDecoder :: "player_env \<Rightarrow> player \<Rightarrow> (player \<times> bool) option" where
  "InitDecoder env p0 =
     (let p = p0\<lparr>decoder_thread := True\<rparr> in
      if \<not> has_reader p then Some (SetError p (- 1), True)
      else if has_video p \<and> \<not> video_render p \<and> \<not> video_render_factory env then None
      else
        (let p1 = (if has_audio p
                   then (log_call p [AudioInit, AudioPlay])\<lparr>audio_render := True\<rparr> else p);
             p2 = (if has_video p
                   then (log_call p1 [VideoInit, VideoPlay])\<lparr>video_render := True\<rparr> else p1);
             p3 = (if \<not> disable_audio (pl_config p) \<and> has_audio p
                   then (log_call p2 [AudioProcess])\<lparr>audio_d2r := True\<rparr> else p2);
             p4 = (if \<not> disable_video (pl_config p) \<and> has_video p
                   then (log_call p3 [VideoProcess])\<lparr>video_d2r := True\<rparr> else p3)
         in Some (p4, True)))"

definition UnInitDecoder :: "player \<Rightarrow> player option" where
  "UnInitDecoder p =
     (if \<not> decoder_thread p then None
      else
        (let p1 = (if audio_render p then log_call p [AudioUnInit] else p);
             p2 = (if video_render p then log_call p1 [VideoUnInit] else p1)
         in Some (p2\<lparr>audio_d2r := False, video_d2r := False, audio_render := False,
                 video_render := False, decoder_posted := [], decoder_thread := False\<rparr>)))"

subsection \<open>The tasks of the player thread\<close>

definition InitInternal :: "packet_api \<Rightarrow> player_env \<Rightarrow> player \<Rightarrow> player_config \<Rightarrow> bool \<Rightarrow> player option" where
  "InitInternal papi env p0 config render =
     (if pl_state p0 \<noteq> kIdle then Some p0
      else
        (let p = p0\<lparr>pl_config := config, video_render := render\<rparr> in
         if url config = [] \<or> \<not> has_window config \<or> window_width config = 0 \<or> window_height config = 0
         then Some (SetError p (- 1))
         else do {
           (p1, reader_ok) \<leftarrow> InitReaderIfNeed papi env p;
           (if \<not> reader_ok then Some (SetError p1 (- 1))
            else do {
              (p2, decoder_ok) \<leftarrow> InitDecoder env p1;
              (if \<not> decoder_ok then Some (SetError p2 (- 1))
               else
                 (let p3 = SetState p2 kPrepared
                  in Some (if has_callback (pl_config p3) then log_call p3 [OnPrepared] else p3)))
            })
         }))"

text \<open>What the decoder thread does for a seek; \<open>q\<close> are the cleared queues.\<close>

definition seek_decoder :: "player \<Rightarrow> int \<Rightarrow> AvPacketQueue \<Rightarrow> player" where
  "seek_decoder p target_ms q =
     p\<lparr>calls := calls p @ (if audio_render p then [AudioFlush] else []),
       audio_serial := (if audio_d2r p then pl_seek_id p else audio_serial p),
       audio_start := (if audio_d2r p then target_ms else audio_start p),
       video_serial := (if video_d2r p then pl_seek_id p else video_serial p),
       video_start := (if video_d2r p then target_ms else video_start p),
       pl_timer := timer_SeekTo (pl_timer p) target_ms, av_packet_queue := q\<rparr>"

definition SeekInternal :: "packet_api \<Rightarrow> player \<Rightarrow> int \<Rightarrow> player option" where
  "SeekInternal papi p target =
     (let target_ms = (if target < 0 then 0 else target);
          p1 = p\<lparr>pl_seek_id := (pl_seek_id p + 1) mod 2 ^ 32, pl_start_time := target_ms\<rparr>
      in if \<not> decoder_thread p1 then None
         else do {
           q \<leftarrow> av_Clear papi (av_packet_queue p1);
           let p2 = seek_decoder p1 target_ms q
           in (if \<not> reader_thread p2 then None
               else Some (p2\<lparr>reader_posted := reader_posted p2 @ [SeekTask target_ms (pl_seek_id p2)]\<rparr>))
         })"

definition PlayInternal :: "packet_api \<Rightarrow> player \<Rightarrow> player option" where
  "PlayInternal papi p =
     (if pl_state p = kPrepared \<or> pl_state p = kPaused then
        (if \<not> decoder_thread p then None
         else Some (SetState (p\<lparr>decoder_posted := decoder_posted p @ [ResumeTask]\<rparr>) kPlaying))
      else if pl_state p = kCompleted then
        map_option (\<lambda>p1. SetState p1 kPlaying) (SeekInternal papi p 0)
      else Some p)"

definition PauseInternal :: "player \<Rightarrow> player option" where
  "PauseInternal p =
     (let p1 = SetState p kPaused
      in if \<not> decoder_thread p1 then None
         else Some (p1\<lparr>decoder_posted := decoder_posted p1 @ [PauseTask]\<rparr>))"

definition UnInitInternal :: "player \<Rightarrow> player option" where
  "UnInitInternal p = do { p1 \<leftarrow> UnInitDecoder (SetState p kEnded); UnInitReader p1 }"

text \<open>\<open>Seek\<close> adds the offset to the clock when its task runs.\<close>

definition SeekTask_relative :: "packet_api \<Rightarrow> int \<Rightarrow> player \<Rightarrow> int \<Rightarrow> player option" where
  "SeekTask_relative papi now p diff_current =
     (case GetCurrentMainTime now (pl_timer p) of (t, main) \<Rightarrow>
        SeekInternal papi (p\<lparr>pl_timer := t\<rparr>) (s64 (diff_current + main)))"

subsection \<open>Tasks of the other threads and callbacks\<close>

definition run_decoder_task :: "player \<Rightarrow> decoder_task \<Rightarrow> player" where
  "run_decoder_task p t =
     (case t of
        ResumeTask \<Rightarrow>
          (log_call p ((if audio_render p then [AudioPlay] else []) @
                       (if video_render p then [VideoPlay] else [])))
            \<lparr>pl_timer := timer_Resume (pl_timer p)\<rparr>
      | PauseTask \<Rightarrow>
          log_call (p\<lparr>pl_timer := timer_Pause (pl_timer p)\<rparr>)
            ((if audio_render p then [AudioPause] else []) @ (if video_render p then [VideoPause] else [])))"

definition run_reader_task :: "packet_api \<Rightarrow> player_env \<Rightarrow> player \<Rightarrow> reader_task \<Rightarrow> player option" where
  "run_reader_task papi env p t =
     (case t of
        ReadTask \<Rightarrow> ReadPacket papi env p
      | SeekTask target_ms sid \<Rightarrow>
          if sid \<noteq> pl_seek_id p then Some p
          else if \<not> has_reader p then None
          else Some ((log_call p [ReaderSeek target_ms])\<lparr>reader_serial := sid\<rparr>))"

definition OnAudioCompleted :: "player \<Rightarrow> player" where
  "OnAudioCompleted p = (if has_callback (pl_config p) then log_call p [OnCompleted] else p)"

definition OnVideoCompleted :: "player \<Rightarrow> player" where
  "OnVideoCompleted p = (if has_callback (pl_config p) then log_call p [OnCompleted] else p)"

definition OnAudioError :: "player \<Rightarrow> player" where
  "OnAudioError p = SetError p (- 1)"

definition OnVideoError :: "player \<Rightarrow> player" where
  "OnVideoError p = SetError p (- 1)"

definition GetVideoPacket :: "packet_api \<Rightarrow> player \<Rightarrow> PacketInfo \<Rightarrow> (player \<times> PacketInfo \<times> FfmpegStatus) option" where
  "GetVideoPacket papi p pkt =
     (if \<not> disable_video (pl_config p) then
        (if \<not> has_reader p then None
         else if has_video p then
           map_option (\<lambda>(q, out, st). (p\<lparr>av_packet_queue := q\<rparr>, the out, st))
             (av_GetPacket papi (av_packet_queue p) (Some pkt) True)
         else Some (p, pkt, kEof))
      else Some (p, pkt, kEof))"

text \<open>Audio packets that end before the seek target are skipped.\<close>

partial_function (option) skip_early ::
    "packet_api \<Rightarrow> int \<Rightarrow> AvPacketQueue \<Rightarrow> PacketInfo \<Rightarrow> (AvPacketQueue \<times> PacketInfo \<times> FfmpegStatus) option" where
  "skip_early papi start q pkt =
     do {
       (q1, out, st) \<leftarrow> av_GetPacket papi q (Some pkt) False;
       (if st = kOk \<and> s64 (wrapper_GetPtsMs papi (private_packet (the out)) +
            wrapper_GetDurationMs papi (private_packet (the out))) < start
        then skip_early papi start q1 (the out)
        else Some (q1, the out, st))
     }"

definition GetAudioPacket :: "packet_api \<Rightarrow> player \<Rightarrow> PacketInfo \<Rightarrow> (player \<times> PacketInfo \<times> FfmpegStatus) option" where
  "GetAudioPacket papi p pkt =
     (if \<not> disable_audio (pl_config p) then
        (if \<not> has_reader p then None
         else if has_audio p then
           map_option (\<lambda>(q, out, st). (p\<lparr>av_packet_queue := q\<rparr>, out, st))
             (skip_early papi (pl_start_time p) (av_packet_queue p) pkt)
         else Some (p, pkt, kEof))
      else Some (p, pkt, kEof))"

definition IsPlaying :: "player \<Rightarrow> bool" where
  "IsPlaying p \<longleftrightarrow> pl_state p = kPlaying"

subsection \<open>Runs of the control calls\<close>

datatype control = CtlPlay | CtlPause | CtlSeekTo int | CtlSeek int int

fun control_step :: "packet_api \<Rightarrow> player \<Rightarrow> control \<Rightarrow> player option" where
  "control_step papi p CtlPlay = PlayInternal papi p"
| "control_step papi p CtlPause = PauseInternal p"
| "control_step papi p (CtlSeekTo target_ms) = SeekInternal papi p target_ms"
| "control_step papi p (CtlSeek now diff) = SeekTask_relative papi now p diff"

fun control_run :: "packet_api \<Rightarrow> player \<Rightarrow> control list \<Rightarrow> player option" where
  "control_run papi p [] = Some p"
| "control_run papi p (c # cs) = do { p1 \<leftarrow> control_step papi p c; control_run papi p1 cs }"

text \<open>The automaton that the caller sees.\<close>

fun spec_state :: "PlayerState \<Rightarrow> control \<Rightarrow> PlayerState" where
  "spec_state st CtlPlay = (if st = kPrepared \<or> st = kPaused then kPlaying else st)"
| "spec_state st CtlPause = (if st = kPlaying then kPaused else st)"
| "spec_state st (CtlSeekTo target_ms) = st"
| "spec_state st (CtlSeek now diff) = st"

definition ready :: "player \<Rightarrow> bool" where
  "ready p \<longleftrightarrow> decoder_thread p \<and> reader_thread p \<and>
     pq_inv (audio_packet_queue (av_packet_queue p)) \<and> pq_inv (video_packet_queue (av_packet_queue p))"

lemma unref_all_total:
  "\<forall>p\<in>set ps. packet (private_packet p) \<noteq> None \<Longrightarrow>
   \<exists>ps'. unref_all papi ps = Some ps' \<and> length ps' = length ps \<and>
     (\<forall>p\<in>set ps'. packet (private_packet p) \<noteq> None)"
  by (induction ps) (auto simp: UnRefPacket_def wrapper_UnRefPacket_def)

lemma clear_total:
  assumes "pq_inv q"
  obtains q' where "PacketQueue_Clear papi q = Some q'" "pq_shape q' 0 0" "pq_contents q' = []"
proof -
  obtain r k where s: "pq_shape q r k" using assms by (auto simp: pq_inv_def)
  then have "\<forall>p\<in>set (packet_queue q). packet (private_packet p) \<noteq> None"
    by (simp add: pq_shape_def Let_def)
  from unref_all_total [OF this, of papi] obtain ps where
    ps: "unref_all papi (packet_queue q) = Some ps" "length ps = length (packet_queue q)"
    "\<forall>p\<in>set ps. packet (private_packet p) \<noteq> None"
    by blast
  let ?q = "q\<lparr>packet_queue := ps, read_index := - 1, write_index := 0\<rparr>"
  have "0 < length (packet_queue q)" "first_reserved_index q = - 1"
    using s by (auto simp: pq_shape_def Let_def)
  then have sh: "pq_shape ?q 0 0" using ps(2,3) by (auto simp: pq_shape_def Let_def seg_def)
  then have "pq_contents ?q = []" using shape_contents [OF sh] by (simp add: seg_def)
  then show ?thesis using sh ps(1) by (intro that [of ?q]) (simp_all add: PacketQueue_Clear_def)
qed

lemma seek_ready:
  assumes "ready p"
  obtains p' where "SeekInternal papi p target = Some p'" "ready p'" "pl_state p' = pl_state p"
proof -
  have r: "decoder_thread p" "reader_thread p" "pq_inv (audio_packet_queue (av_packet_queue p))"
    "pq_inv (video_packet_queue (av_packet_queue p))"
    using assms by (simp_all add: ready_def)
  obtain a where a: "PacketQueue_Clear papi (audio_packet_queue (av_packet_queue p)) = Some a"
    "pq_shape a 0 0" using clear_total [OF r(3)] by metis
  obtain v where v: "PacketQueue_Clear papi (video_packet_queue (av_packet_queue p)) = Some v"
    "pq_shape v 0 0" using clear_total [OF r(4)] by metis
  have i: "pq_inv a" "pq_inv v" using a(2) v(2) by (auto simp: pq_inv_def)
  have c: "av_Clear papi (av_packet_queue p) =
      Some ((av_packet_queue p)\<lparr>audio_packet_queue := a, video_packet_queue := v\<rparr>)"
    using a(1) v(1) by (simp add: av_Clear_def)
  obtain p' where "SeekInternal papi p target = Some p'" "decoder_thread p' \<and> reader_thread p'"
    "av_packet_queue p' = (av_packet_queue p)\<lparr>audio_packet_queue := a, video_packet_queue := v\<rparr>"
    "pl_state p' = pl_state p"
    using r(1,2) c by (simp add: SeekInternal_def Let_def seek_decoder_def)
  then show ?thesis using i by (intro that [of p']) (simp_all add: ready_def)
qed

lemma control_step_ready:
  assumes "ready p" and "pl_state p \<noteq> kCompleted"
  obtains p' where "control_step papi p c = Some p'" "ready p'" "pl_state p' = spec_state (pl_state p) c"
proof (cases c)
  case CtlPlay
  then show ?thesis using assms
    by (intro that [of "if pl_state p = kPrepared \<or> pl_state p = kPaused
          then p\<lparr>decoder_posted := decoder_posted p @ [ResumeTask], pl_state := kPlaying\<rparr> else p"])
      (auto simp: PlayInternal_def SetState_def ready_def)
next
  case CtlPause
  let ?p = "if pl_state p = kPlaying then p\<lparr>pl_state := kPaused\<rparr> else p"
  show ?thesis using assms CtlPause
    by (intro that [of "?p\<lparr>decoder_posted := decoder_posted ?p @ [PauseTask]\<rparr>"])
      (auto simp: PauseInternal_def SetState_def ready_def Let_def)
next
  case (CtlSeekTo target)
  obtain p' where "SeekInternal papi p target = Some p'" "ready p'" "pl_state p' = pl_state p"
    using seek_ready [OF assms(1)] by blast
  then show ?thesis using CtlSeekTo by (intro that [of p']) simp_all
next
  case (CtlSeek now diff)
  obtain t main where m: "GetCurrentMainTime now (pl_timer p) = (t, main)" by (meson surj_pair)
  have "ready (p\<lparr>pl_timer := t\<rparr>)" using assms(1) by (simp add: ready_def)
  then obtain p' where "SeekInternal papi (p\<lparr>pl_timer := t\<rparr>) (s64 (diff + main)) = Some p'" "ready p'"
    "pl_state p' = pl_state (p\<lparr>pl_timer := t\<rparr>)"
    using seek_ready by blast
  then show ?thesis using CtlSeek m by (intro that [of p']) (simp_all add: SeekTask_relative_def)
qed

lemma spec_state_completed: "st \<noteq> kCompleted \<Longrightarrow> spec_state st c \<noteq> kCompleted"
  by (cases c) auto

subsection \<open>The serial protocol of a seek\<close>

text \<open>
  A seek runs on the player thread while the reader thread reads: \<open>seek_id_\<close> is raised first, then
  the decoder thread takes the new serial and clears the queues, and last the reader gets its
  task. A packet that was being read in between may enter the cleared queue with the old serial.
  One step is one of these pieces.
\<close>

record seek_system =
  sys_queue :: AvPacketQueue
  sys_seek_id :: nat
  sys_reader_serial :: nat
  sys_decoder_serial :: nat
  sys_tasks :: "nat list"
  sys_seeking :: bool
  sys_inflight :: "PacketInfo option"

inductive seek_step :: "packet_api \<Rightarrow> seek_system \<Rightarrow> seek_system \<Rightarrow> bool" for papi where
  seek_begin: "\<not> sys_seeking s \<Longrightarrow> sys_seek_id s + 1 < 2 ^ 32 \<Longrightarrow>
    seek_step papi s (s\<lparr>sys_seek_id := sys_seek_id s + 1, sys_seeking := True\<rparr>)"
| seek_commit: "sys_seeking s \<Longrightarrow> av_Clear papi (sys_queue s) = Some q \<Longrightarrow>
    seek_step papi s (s\<lparr>sys_decoder_serial := sys_seek_id s, sys_queue := q, sys_seeking := False,
      sys_tasks := sys_tasks s @ [sys_seek_id s]\<rparr>)"
| reader_seek: "sys_tasks s = sid # sids \<Longrightarrow>
    seek_step papi s (s\<lparr>sys_tasks := sids,
      sys_reader_serial := (if sid = sys_seek_id s then sid else sys_reader_serial s)\<rparr>)"
| read_begin: "sys_inflight s = None \<Longrightarrow> sys_seek_id s = sys_reader_serial s \<Longrightarrow>
    serial p = sys_reader_serial s \<Longrightarrow>
    seek_step papi s (s\<lparr>sys_inflight := Some p\<rparr>)"
| read_end: "sys_inflight s = Some p \<Longrightarrow> av_PushPacket papi (sys_queue s) p video = Some (q, p') \<Longrightarrow>
    seek_step papi s (s\<lparr>sys_inflight := None, sys_queue := q\<rparr>)"
| decode: "av_GetPacket papi (sys_queue s) (Some target) video = Some (q, out, st) \<Longrightarrow>
    packet (private_packet target) \<noteq> None \<Longrightarrow>
    seek_step papi s (s\<lparr>sys_queue := q\<rparr>)"

definition all_packets :: "AvPacketQueue \<Rightarrow> PacketInfo set" where
  "all_packets q = set (pq_contents (audio_packet_queue q)) \<union> set (pq_contents (video_packet_queue q))"

definition av_inv :: "AvPacketQueue \<Rightarrow> bool" where
  "av_inv q \<longleftrightarrow> pq_inv (audio_packet_queue q) \<and> pq_inv (video_packet_queue q)"

definition sys_ok :: "seek_system \<Rightarrow> bool" where
  "sys_ok s \<longleftrightarrow> av_inv (sys_queue s) \<and>
     sys_reader_serial s \<le> sys_decoder_serial s \<and> sys_decoder_serial s \<le> sys_seek_id s \<and>
     (\<forall>sid\<in>set (sys_tasks s). sid \<le> sys_decoder_serial s) \<and>
     (\<forall>p. sys_inflight s = Some p \<longrightarrow> serial p \<le> sys_decoder_serial s) \<and>
     (\<forall>p\<in>all_packets (sys_queue s). serial p \<le> sys_decoder_serial s)"

lemma push_subset:
  assumes "packet_api_ok papi" "pq_inv q" "PushPacket papi q p = Some (q', p')"
  shows "pq_inv q'" "set (pq_contents q') \<subseteq> insert p (set (pq_contents q))"
proof -
  obtain r k where s: "pq_shape q r k" using assms(2) by (auto simp: pq_inv_def)
  have "pq_inv q' \<and> set (pq_contents q') \<subseteq> insert p (set (pq_contents q))"
  proof (cases "IsValid p")
    case False
    then show ?thesis using assms(2,3) by (auto simp: PushPacket_def)
  next
    case True
    from push_shape [OF assms(1) this s] obtain q1 p1 j where
      "PushPacket papi q p = Some (q1, p1)" "pq_shape q1 r (Suc j)"
      "seg (packet_queue q1) r (Suc j) = take j (seg (packet_queue q) r k) @ [p]"
      by metis
    then show ?thesis
      using assms(3) shape_contents [OF s] shape_contents [of q1 r "Suc j"]
      by (auto simp: pq_inv_def dest: in_set_takeD)
  qed
  then show "pq_inv q'" "set (pq_contents q') \<subseteq> insert p (set (pq_contents q))" by blast+
qed

lemma get_subset:
  assumes "packet_api_ok papi" "pq_inv q" "packet (private_packet target) \<noteq> None"
    "GetPacket papi q (Some target) = Some (q', out, st)"
  shows "pq_inv q'" "set (pq_contents q') \<subseteq> set (pq_contents q)"
proof -
  obtain r k where s: "pq_shape q r k" using assms(2) by (auto simp: pq_inv_def)
  have "pq_inv q' \<and> set (pq_contents q') \<subseteq> set (pq_contents q)"
  proof (cases k)
    case 0
    then show ?thesis using get_empty [of q r papi target] s assms(2,4) by simp
  next
    case (Suc j)
    then have s': "pq_shape q r (Suc j)" using s by simp
    from get_shape [OF assms(1) s' assms(3)] obtain q1 where
      "GetPacket papi q (Some target) = Some (q1, Some (packet_queue q ! r), kOk)"
      "pq_shape q1 ((r + 1) mod length (packet_queue q)) j"
      "seg (packet_queue q) r (Suc j) = packet_queue q ! r #
         seg (packet_queue q1) ((r + 1) mod length (packet_queue q)) j"
      by metis
    then show ?thesis
      using assms(4) shape_contents [OF s'] shape_contents [of q1 "(r + 1) mod length (packet_queue q)" j]
      by (auto simp: pq_inv_def)
  qed
  then show "pq_inv q'" "set (pq_contents q') \<subseteq> set (pq_contents q)" by blast+
qed

lemma av_push_subset:
  assumes "packet_api_ok papi" "av_inv q" "av_PushPacket papi q p video = Some (q', p')"
  shows "av_inv q'" "all_packets q' \<subseteq> insert p (all_packets q)"
  using assms push_subset [OF assms(1)]
  by (fastforce simp: av_PushPacket_def av_inv_def all_packets_def split: if_splits)+

lemma av_get_subset:
  assumes "packet_api_ok papi" "av_inv q" "packet (private_packet target) \<noteq> None"
    "av_GetPacket papi q (Some target) video = Some (q', out, st)"
  shows "av_inv q'" "all_packets q' \<subseteq> all_packets q"
  using assms get_subset [OF assms(1) _ assms(3)]
  by (fastforce simp: av_GetPacket_def av_inv_def all_packets_def split: if_splits)+

lemma av_clear_empty:
  assumes "av_inv q" "av_Clear papi q = Some q'"
  shows "av_inv q'" "all_packets q' = {}"
proof -
  obtain a where a: "PacketQueue_Clear papi (audio_packet_queue q) = Some a" "pq_shape a 0 0"
    "pq_contents a = []" using clear_total assms(1) unfolding av_inv_def by metis
  obtain v where v: "PacketQueue_Clear papi (video_packet_queue q) = Some v" "pq_shape v 0 0"
    "pq_contents v = []" using clear_total assms(1) unfolding av_inv_def by metis
  have "q' = q\<lparr>audio_packet_queue := a, video_packet_queue := v\<rparr>"
    using assms(2) a(1) v(1) by (simp add: av_Clear_def)
  then show "av_inv q'" "all_packets q' = {}"
    using a v by (auto simp: av_inv_def all_packets_def pq_inv_def)
qed

lemma seek_step_ok:
  assumes "packet_api_ok papi" and "seek_step papi s s'" and "sys_ok s"
  shows "sys_ok s'"
  using assms(2)
proof cases
  case seek_begin
  then show ?thesis using assms(3) by (auto simp: sys_ok_def)
next
  case (seek_commit q)
  then show ?thesis using assms(3) av_clear_empty [of "sys_queue s" papi q]
    by (fastforce simp: sys_ok_def)
next
  case (reader_seek sid sids)
  then show ?thesis using assms(3) by (auto simp: sys_ok_def)
next
  case (read_begin p)
  then show ?thesis using assms(3) by (auto simp: sys_ok_def)
next
  case (read_end p video q p')
  have "av_inv (sys_queue s)" using assms(3) by (simp add: sys_ok_def)
  from av_push_subset [OF assms(1) this read_end(3)] show ?thesis
    using read_end assms(3) by (auto simp: sys_ok_def)
next
  case (decode target video q out st)
  have "av_inv (sys_queue s)" using assms(3) by (simp add: sys_ok_def)
  from av_get_subset [OF assms(1) this decode(3,2)] show ?thesis
    using decode assms(3) by (auto simp: sys_ok_def)
qed

subsection \<open>Completed is never reached\<close>

lemma log_call_state [simp]: "pl_state (log_call p cs) = pl_state p"
  by (simp add: log_call_def)

lemma SetState_completed: "pl_state p \<noteq> kCompleted \<Longrightarrow> st \<noteq> kCompleted \<Longrightarrow> pl_state (SetState p st) \<noteq> kCompleted"
  by (simp add: SetState_def)

lemma SetError_state [simp]: "pl_state (SetError p e) = kPlayerError"
  by (simp add: SetError_def)

lemma push_read_state: "push_read papi env p pkt = Some p' \<Longrightarrow> pl_state p' = pl_state p"
  by (auto simp: push_read_def split: option.splits if_splits)

lemma ReadPacket_state:
  assumes "ReadPacket papi env p = Some p'"
  shows "pl_state p' = pl_state p \<or> pl_state p' = kPlayerError"
proof (cases "ThreadShouldExit p")
  case True
  then show ?thesis using assms by (simp add: ReadPacket_def)
next
  case False
  then show ?thesis using assms
    by (auto simp: ReadPacket_def Let_def bind_Some_iff dest: push_read_state
        split: if_splits FfmpegStatus.splits)
qed

lemma InitReader_state:
  assumes "InitReaderIfNeed papi env p = Some (p', ok)"
  shows "pl_state p' = pl_state p \<or> pl_state p' = kPlayerError"
proof (cases "reader_is_init p")
  case True
  then show ?thesis using assms by (simp add: InitReaderIfNeed_def)
next
  case False
  then obtain p3 p4 where "ReadPacket papi env p3 = Some p4" "pl_state p' = pl_state p4"
    "pl_state p3 = pl_state p \<or> pl_state p3 = kPlayerError"
    using assms by (auto simp: InitReaderIfNeed_def Let_def bind_Some_iff split: if_splits)
  then show ?thesis using ReadPacket_state by metis
qed

lemma InitDecoder_state:
  assumes "InitDecoder env p = Some (p', ok)"
  shows "pl_state p' = pl_state p \<or> pl_state p' = kPlayerError"
  using assms by (auto simp: InitDecoder_def Let_def split: if_splits)

lemma SeekInternal_state: "SeekInternal papi p target = Some p' \<Longrightarrow> pl_state p' = pl_state p"
  by (auto simp: SeekInternal_def Let_def seek_decoder_def bind_Some_iff split: if_splits)

datatype player_op = OpInit player_env player_config bool | OpControl control | OpUnInit
  | OpDecoderTask decoder_task | OpReaderTask player_env reader_task
  | OpAudioCompleted | OpVideoCompleted | OpAudioError | OpVideoError

fun player_step :: "packet_api \<Rightarrow> player \<Rightarrow> player_op \<Rightarrow> player option" where
  "player_step papi p (OpInit env config render) = InitInternal papi env p config render"
| "player_step papi p (OpControl c) = control_step papi p c"
| "player_step papi p OpUnInit = UnInitInternal p"
| "player_step papi p (OpDecoderTask t) = Some (run_decoder_task p t)"
| "player_step papi p (OpReaderTask env t) = run_reader_task papi env p t"
| "player_step papi p OpAudioCompleted = Some (OnAudioCompleted p)"
| "player_step papi p OpVideoCompleted = Some (OnVideoCompleted p)"
| "player_step papi p OpAudioError = Some (OnAudioError p)"
| "player_step papi p OpVideoError = Some (OnVideoError p)"

fun player_run :: "packet_api \<Rightarrow> player \<Rightarrow> player_op list \<Rightarrow> player option" where
  "player_run papi p [] = Some p"
| "player_run papi p (op # ops) = do { p1 \<leftarrow> player_step papi p op; player_run papi p1 ops }"

lemma InitInternal_completed:
  assumes "pl_state p \<noteq> kCompleted" and "InitInternal papi env p config render = Some p'"
  shows "pl_state p' \<noteq> kCompleted"
proof -
  let ?p = "p\<lparr>pl_config := config, video_render := render\<rparr>"
  show ?thesis
  proof (cases "pl_state p \<noteq> kIdle \<or> url config = [] \<or> \<not> has_window config \<or>
      window_width config = 0 \<or> window_height config = 0")
    case True
    then show ?thesis using assms by (auto simp: InitInternal_def Let_def split: if_splits)
  next
    case ok: False
    then obtain p1 b where r: "InitReaderIfNeed papi env ?p = Some (p1, b)"
      using assms(2) by (cases "InitReaderIfNeed papi env ?p") (auto simp: InitInternal_def Let_def)
    have p1: "pl_state p1 \<noteq> kCompleted" using InitReader_state [OF r] assms(1) by auto
    show ?thesis
    proof (cases b)
      case False
      then show ?thesis using assms(2) r ok by (auto simp: InitInternal_def Let_def)
    next
      case True
      then obtain p2 b' where d: "InitDecoder env p1 = Some (p2, b')"
        using assms(2) r ok
        by (cases "InitDecoder env p1") (auto simp: InitInternal_def Let_def)
      have "pl_state p2 \<noteq> kCompleted" using InitDecoder_state [OF d] p1 by auto
      from SetState_completed [OF this, of kPrepared] show ?thesis
        using assms(2) r d True ok
        by (auto simp: InitInternal_def Let_def split: if_splits)
    qed
  qed
qed

lemma control_completed:
  assumes "pl_state p \<noteq> kCompleted" and "control_step papi p c = Some p'"
  shows "pl_state p' \<noteq> kCompleted"
proof (cases c)
  case CtlPlay
  then show ?thesis using assms by (auto simp: PlayInternal_def SetState_def split: if_splits)
next
  case CtlPause
  then show ?thesis using assms by (auto simp: PauseInternal_def Let_def SetState_def split: if_splits)
next
  case (CtlSeekTo t)
  then show ?thesis using assms SeekInternal_state by fastforce
next
  case (CtlSeek now t)
  then show ?thesis using assms
    by (auto simp: SeekTask_relative_def dest: SeekInternal_state split: prod.splits)
qed

lemma UnInit_completed:
  assumes "UnInitInternal p = Some p'"
  shows "pl_state p' = kEnded"
  using assms
  by (auto simp: UnInitInternal_def UnInitDecoder_def UnInitReader_def SetState_def Let_def
      bind_Some_iff split: if_splits)

lemma step_completed:
  assumes "pl_state p \<noteq> kCompleted" and "player_step papi p op = Some p'"
  shows "pl_state p' \<noteq> kCompleted"
proof (cases op)
  case (OpInit env config render)
  then show ?thesis using InitInternal_completed assms by simp
next
  case (OpControl c)
  then show ?thesis using control_completed assms by simp
next
  case OpUnInit
  then show ?thesis using UnInit_completed assms by simp
next
  case (OpDecoderTask t)
  then show ?thesis using assms by (cases t) (auto simp: run_decoder_task_def)
next
  case (OpReaderTask env t)
  then show ?thesis using assms
    by (cases t) (auto simp: run_reader_task_def dest: ReadPacket_state split: if_splits)
qed (use assms in \<open>auto simp: OnAudioCompleted_def OnVideoCompleted_def OnAudioError_def OnVideoError_def
      split: if_splits\<close>)

subsection \<open>Properties\<close>

text \<open>
  C13: between a successful initialisation and \<open>UnInit\<close>, any sequence of play, pause and seek calls
  runs without failing, and the state follows the caller's automaton: play leads from prepared
  or paused to playing, pause from playing to paused, and nothing else changes it.
\<close>

theorem controls_follow_spec:
  assumes "ready p" and "pl_state p \<noteq> kCompleted"
  shows "\<exists>p'. control_run papi p cs = Some p' \<and> ready p' \<and>
     pl_state p' = foldl spec_state (pl_state p) cs"
  using assms
proof (induction cs arbitrary: p)
  case Nil
  then show ?case by simp
next
  case (Cons c cs)
  obtain p1 where "control_step papi p c = Some p1" "ready p1" "pl_state p1 = spec_state (pl_state p) c"
    using control_step_ready [OF Cons.prems] by blast
  then show ?case using Cons.IH [of p1] spec_state_completed [OF Cons.prems(2)] by auto
qed

definition sample_player :: player where
  "sample_player = (PlayerImpl_new sample_api)\<lparr>pl_state := kPrepared, decoder_thread := True,
     reader_thread := True, has_reader := True,
     av_packet_queue := \<lparr>audio_packet_queue = sample_queue [3, 1, 2] 1,
       video_packet_queue = sample_queue [3, 1, 2] 1\<rparr>\<rparr>"

lemma sample_player_ready: "ready sample_player" "pl_state sample_player = kPrepared"
  using sample_queue_312 by (auto simp: ready_def sample_player_def pq_inv_def)

theorem controls_follow_spec_witness:
  "\<exists>p'. control_run sample_api sample_player [CtlPlay, CtlSeekTo 500, CtlPause, CtlPause] = Some p' \<and>
        pl_state p' = kPaused"
  using controls_follow_spec [OF sample_player_ready(1), of sample_api
      "[CtlPlay, CtlSeekTo 500, CtlPause, CtlPause]"]
  by (simp add: sample_player_ready(2)) blast

text \<open>
  the state \<open>kCompleted\<close> is never reached, by no sequence of calls, tasks and callbacks: the end
  of a stream is only reported to the application, so the branch of \<open>Play\<close> that starts over from
  the beginning is dead code.
\<close>

theorem completed_unreachable:
  assumes "player_run papi (PlayerImpl_new papi) ops = Some p"
  shows "pl_state p \<noteq> kCompleted"
proof -
  have "pl_state p0 \<noteq> kCompleted \<Longrightarrow> player_run papi p0 ops = Some p \<Longrightarrow> pl_state p \<noteq> kCompleted" for p0
  proof (induction ops arbitrary: p0)
    case Nil
    then show ?case by simp
  next
    case (Cons op ops)
    from Cons.prems(2) obtain p1 where p1: "player_step papi p0 op = Some p1" "player_run papi p1 ops = Some p"
      by (auto simp: bind_Some_iff)
    from step_completed [OF Cons.prems(1) p1(1)] Cons.IH p1(2) show ?case by blast
  qed
  from this [OF _ assms] show ?thesis by (simp add: PlayerImpl_new_def)
qed

theorem completed_unreachable_witness:
  "\<exists>p. player_run sample_api (PlayerImpl_new sample_api) [OpAudioCompleted, OpAudioError] = Some p \<and>
       pl_state p \<noteq> kCompleted"
proof -
  obtain p where p: "player_run sample_api (PlayerImpl_new sample_api) [OpAudioCompleted, OpAudioError] = Some p"
    by simp
  from completed_unreachable [OF this] p show ?thesis by blast
qed

text \<open>
  a failing reader does not stop the initialisation. With a usable configuration and a demuxer
  that fails, the player ends in the error state, with the error queued for the application, and
  the application is told that the player is prepared.
\<close>

theorem prepared_despite_error:
  assumes "pl_state p = kIdle" and "\<not> reader_is_init p"
    and "url config \<noteq> []" "has_window config" "window_width config \<noteq> 0" "window_height config \<noteq> 0"
    and "has_callback config" and "init_ret env \<noteq> 0" "\<not> stream_audio env" "\<not> stream_video env"
  shows "\<exists>p'. InitInternal papi env p config render = Some p' \<and> pl_state p' = kPlayerError \<and>
     OnPrepared \<in> set (calls p') \<and> - 1 \<in> set (player_posted p')"
  using assms
  by (simp add: InitInternal_def InitReaderIfNeed_def InitDecoder_def ReadPacket_def
      ThreadShouldExit_def SetError_def SetState_def log_call_def Let_def)

definition failing_env :: player_env where
  "failing_env = \<lparr>init_ret = - 1, stream_audio = False, stream_video = False,
     video_render_factory = True, audio_index = - 1, video_index = - 1, audio_time_base = (1, 1000),
     video_time_base = (1, 1000), read_frame = (kFfmpegError, blank_packet)\<rparr>"

definition sample_config :: player_config where
  "sample_config = \<lparr>url = ''a.mp4'', disable_audio = False, disable_video = False,
     has_callback = True, has_window = True, window_width = 640, window_height = 480\<rparr>"

theorem prepared_despite_error_witness:
  "\<exists>p'. InitInternal sample_api failing_env (PlayerImpl_new sample_api) sample_config False = Some p' \<and>
        pl_state p' = kPlayerError \<and> OnPrepared \<in> set (calls p')"
  using prepared_despite_error [of "PlayerImpl_new sample_api" sample_config failing_env sample_api False]
  by (auto simp: PlayerImpl_new_def sample_config_def failing_env_def)

text \<open>
  \<open>Pause\<close>, \<open>Seek\<close> and \<open>UnInit\<close> on a player that was not initialised (or whose initialisation was
  refused) dereference the missing decoder thread; \<open>Play\<close> is safe there.
\<close>

theorem controls_before_init_crash:
  assumes "\<not> decoder_thread p" and "pl_state p = kIdle \<or> pl_state p = kPlayerError"
  shows "PauseInternal p = None \<and> SeekInternal papi p target = None \<and> UnInitInternal p = None \<and>
     PlayInternal papi p = Some p"
  using assms
  by (auto simp: PauseInternal_def SeekInternal_def UnInitInternal_def UnInitDecoder_def
      PlayInternal_def SetState_def Let_def)

theorem controls_before_init_crash_witness:
  "PauseInternal (PlayerImpl_new sample_api) = None"
  using controls_before_init_crash [of "PlayerImpl_new sample_api" sample_api 0]
  by (simp add: PlayerImpl_new_def)

text \<open>
  C12: whatever the interleaving of seeks, reads and decoding, no packet in a queue is newer than
  the decoder's serial. A packet read across a seek carries an older one, so the decoder can
  tell it and drops it, and its check that such a serial is smaller never fails.
\<close>

theorem seek_serials_safe:
  assumes "packet_api_ok papi" and "(seek_step papi)\<^sup>*\<^sup>* s0 s" and "av_inv (sys_queue s0)"
    and "all_packets (sys_queue s0) = {}" "sys_inflight s0 = None" "sys_tasks s0 = []"
    and "sys_reader_serial s0 = 0" "sys_decoder_serial s0 = 0" "sys_seek_id s0 = 0"
    and "p \<in> all_packets (sys_queue s)"
  shows "serial p \<le> sys_decoder_serial s"
proof -
  have "sys_ok s"
    using assms(2)
  proof (induction rule: rtranclp_induct)
    case base
    then show ?case using assms(3-9) by (simp add: sys_ok_def)
  next
    case (step s s')
    then show ?case using seek_step_ok [OF assms(1)] by blast
  qed
  then show ?thesis using assms(10) by (auto simp: sys_ok_def)
qed

definition start_system :: "AvPacketQueue \<Rightarrow> seek_system" where
  "start_system q = \<lparr>sys_queue = q, sys_seek_id = 0, sys_reader_serial = 0, sys_decoder_serial = 0,
     sys_tasks = [], sys_seeking = False, sys_inflight = None\<rparr>"

theorem seek_serials_safe_witness:
  "\<exists>q s. (seek_step sample_api)\<^sup>*\<^sup>* (start_system q) s \<and> sample_packet 4 \<in> all_packets (sys_queue s) \<and>
     serial (sample_packet 4) \<le> sys_decoder_serial s"
proof -
  have i: "pq_inv (sample_queue [3, 1, 2] 1)" using sample_queue_312 by (auto simp: pq_inv_def)
  obtain a where a: "pq_shape a 0 0" "pq_contents a = []" using clear_total [OF i] by metis
  let ?q = "\<lparr>audio_packet_queue = a, video_packet_queue = a\<rparr>"
  from push_shape [OF sample_api_ok sample_packet_valid a(1), of 4] obtain a1 p1 j where
    pu: "PushPacket sample_api a (sample_packet 4) = Some (a1, p1)" "pq_shape a1 0 (Suc j)"
    "seg (packet_queue a1) 0 (Suc j) = take j (seg (packet_queue a) 0 0) @ [sample_packet 4]"
    by blast
  have c: "pq_contents a1 = [sample_packet 4]" using shape_contents [OF pu(2)] pu(3) by (cases j) (simp_all add: seg_def)
  let ?s0 = "start_system ?q"
  let ?s1 = "?s0\<lparr>sys_inflight := Some (sample_packet 4)\<rparr>"
  let ?s2 = "?s1\<lparr>sys_inflight := None, sys_queue := ?q\<lparr>audio_packet_queue := a1\<rparr>\<rparr>"
  have "seek_step sample_api ?s0 ?s1"
    by (rule read_begin) (simp_all add: start_system_def sample_packet_def)
  moreover have "seek_step sample_api ?s1 ?s2"
    by (rule read_end [where video = False and p' = p1])
      (use pu(1) in \<open>simp_all add: start_system_def av_PushPacket_def sample_packet_def\<close>)
  ultimately have r: "(seek_step sample_api)\<^sup>*\<^sup>* ?s0 ?s2" by simp
  have m: "sample_packet 4 \<in> all_packets (sys_queue ?s2)" by (simp add: all_packets_def c)
  have "av_inv (sys_queue ?s0)" "all_packets (sys_queue ?s0) = {}"
    using a by (auto simp: start_system_def av_inv_def pq_inv_def all_packets_def)
  then have "serial (sample_packet 4) \<le> sys_decoder_serial ?s2"
    by (intro seek_serials_safe [OF sample_api_ok r _ _ _ _ _ _ _ m]) (simp_all add: start_system_def)
  then show ?thesis using r m by blast
qed

end
