(* ===== verification/Spl.thy ===== *)
theory Spl
  imports Prelude
begin

text \<open>
  The arithmetic helpers of WebRTC's signal processing library
  (\<open>src/src/webrtc/common_audio/signal_processing\<close>): \<open>include/spl_inl.h\<close>, \<open>spl_inl.c\<close> and
  \<open>division_operations.c\<close>.

  A value of a C integer type is an \<open>int\<close>; \<open>s16\<close>, \<open>s32\<close> and \<open>u32\<close> are the conversions to the
  type, and stand around every operation whose result may leave it. \<open>>>\<close> is \<open>drop_bit\<close>, the
  arithmetic shift. An array is a list, and its length is the length argument of the C function.
\<close>

unbundle bit_operations_syntax

subsection \<open>Ranges\<close>

definition is_s16 :: "int \<Rightarrow> bool" where
  "is_s16 x \<longleftrightarrow> - 32768 \<le> x \<and> x \<le> 32767"

definition is_s32 :: "int \<Rightarrow> bool" where
  "is_s32 x \<longleftrightarrow> - 2147483648 \<le> x \<and> x \<le> 2147483647"

lemma is_s16_s16 [simp]: "is_s16 (s16 x)"
  using s16_range [of x] by (simp add: is_s16_def)

lemma is_s32_s32 [simp]: "is_s32 (s32 x)"
  using s32_range [of x] by (simp add: is_s32_def)

lemma s16_is [simp]: "is_s16 x \<Longrightarrow> s16 x = x"
  by (simp add: is_s16_def s16_id)

lemma s32_is [simp]: "is_s32 x \<Longrightarrow> s32 x = x"
  by (simp add: is_s32_def s32_id)

lemma is_s16_is_s32: "is_s16 x \<Longrightarrow> is_s32 x"
  by (simp add: is_s16_def is_s32_def)

lemma shr_lower:
  assumes "- m \<le> x" and "(0 :: int) \<le> m"
  shows "- m \<le> drop_bit n x"
proof -
  have "m * 1 \<le> m * 2 ^ n" by (rule mult_left_mono) (use assms(2) in simp_all)
  then have "- m * 2 ^ n \<le> x" using assms(1) by simp
  from zdiv_mono1 [OF this, of "2 ^ n"] have "(- m * 2 ^ n) div 2 ^ n \<le> x div 2 ^ n" by simp
  moreover have "(- m * 2 ^ n) div 2 ^ n = - m" by (rule nonzero_mult_div_cancel_right) simp
  ultimately show ?thesis by (simp only: drop_bit_eq_div)
qed

lemma int_div_less:
  assumes "(x :: int) < m * d" and "0 < d"
  shows "x div d < m"
proof (rule ccontr)
  assume "\<not> x div d < m"
  then have "m * d \<le> x div d * d" using assms(2) by (intro mult_right_mono) simp_all
  moreover have "0 \<le> x mod d" using assms(2) by simp
  ultimately show False using assms(1) div_mult_mod_eq [of x d] by linarith
qed

lemma shr_upper:
  assumes "x < m" and "(0 :: int) \<le> m"
  shows "drop_bit n x < m"
proof -
  have "m * 1 \<le> m * 2 ^ n" by (rule mult_left_mono) (use assms(2) in simp_all)
  then have "x < m * 2 ^ n" using assms(1) by simp
  then show ?thesis unfolding drop_bit_eq_div by (rule int_div_less) simp
qed

subsection \<open>Leading zeros\<close>

fun bit_length :: "nat \<Rightarrow> nat" where
  "bit_length n = (if n = 0 then 0 else Suc (bit_length (n div 2)))"

declare bit_length.simps [simp del]

lemma bit_length_0 [simp]: "bit_length 0 = 0"
  by (simp add: bit_length.simps)

lemma bit_length_le: "bit_length n \<le> k \<longleftrightarrow> n < 2 ^ k"
proof (induction n arbitrary: k rule: bit_length.induct)
  case (1 n)
  show ?case
  proof (cases "n = 0")
    case True
    then show ?thesis by simp
  next
    case False
    then have r: "bit_length n = Suc (bit_length (n div 2))" by (subst bit_length.simps) simp
    show ?thesis
    proof (cases k)
      case 0
      then show ?thesis using False r by simp
    next
      case (Suc j)
      then show ?thesis using r 1 [OF False, of j] by (simp add: div_less_iff_less_mult mult.commute)
    qed
  qed
qed

lemma bit_length_lt: "n < 2 ^ bit_length n"
  using bit_length_le [of n "bit_length n"] by simp

lemma bit_length_ge:
  assumes "0 < n"
  shows "2 ^ (bit_length n - 1) \<le> n"
proof -
  have "\<not> bit_length n \<le> 0" using assms bit_length_le [of n 0] by simp
  then have "\<not> bit_length n \<le> bit_length n - 1" by linarith
  then show ?thesis unfolding bit_length_le by simp
qed

text \<open>\<open>__builtin_clz\<close> is only called on a positive value, where it counts the leading zeros.\<close>

definition WebRtcSpl_CountLeadingZeros32 :: "int \<Rightarrow> int" where
  "WebRtcSpl_CountLeadingZeros32 n = (if n = 0 then 32 else 32 - int (bit_length (nat n)))"

definition WebRtcSpl_CountLeadingZeros64 :: "int \<Rightarrow> int" where
  "WebRtcSpl_CountLeadingZeros64 n = (if n = 0 then 64 else 64 - int (bit_length (nat n)))"

definition kWebRtcSpl_CountLeadingZeros32_Table :: "int list" where
  "kWebRtcSpl_CountLeadingZeros32_Table =
     [32, 8,  17, -1, -1, 14, -1, -1, -1, 20, -1, -1, -1, 28, -1, 18,
      -1, -1, -1, -1, -1, -1, -1, -1, -1, -1, -1, -1, 0,  26, 25, 24,
      4,  11, 23, 31, 3,  7,  10, 16, 22, 30, -1, -1, 2,  6,  13, 9,
      -1, 15, -1, 21, -1, 29, 19, -1, -1, -1, -1, -1, 1,  27, 5,  12]"

definition WebRtcSpl_CountLeadingZeros32_NotBuiltin :: "int \<Rightarrow> int" where
  "WebRtcSpl_CountLeadingZeros32_NotBuiltin n =
     (let n1 = n OR drop_bit 1 n;
          n2 = n1 OR drop_bit 2 n1;
          n4 = n2 OR drop_bit 4 n2;
          n8 = n4 OR drop_bit 8 n4;
          n16 = n8 OR drop_bit 16 n8
      in kWebRtcSpl_CountLeadingZeros32_Table ! nat (drop_bit 26 (u32 (n16 * 0x8c0b2891))))"

definition WebRtcSpl_CountLeadingZeros64_NotBuiltin :: "int \<Rightarrow> int" where
  "WebRtcSpl_CountLeadingZeros64_NotBuiltin n =
     (let leading_zeros = (if drop_bit 32 n = 0 then 32 else 0)
      in leading_zeros +
         WebRtcSpl_CountLeadingZeros32_NotBuiltin (u32 (drop_bit (nat (32 - leading_zeros)) n)))"

definition WebRtcSpl_GetSizeInBits :: "int \<Rightarrow> int" where
  "WebRtcSpl_GetSizeInBits n = s16 (32 - WebRtcSpl_CountLeadingZeros32 n)"

definition WebRtcSpl_NormW32 :: "int \<Rightarrow> int" where
  "WebRtcSpl_NormW32 a =
     (if a = 0 then 0 else s16 (WebRtcSpl_CountLeadingZeros32 (if a < 0 then NOT a else a) - 1))"

definition WebRtcSpl_NormU32 :: "int \<Rightarrow> int" where
  "WebRtcSpl_NormU32 a = (if a = 0 then 0 else s16 (WebRtcSpl_CountLeadingZeros32 a))"

definition WebRtcSpl_NormW16 :: "int \<Rightarrow> int" where
  "WebRtcSpl_NormW16 a =
     (if a = 0 then 0 else s16 (WebRtcSpl_CountLeadingZeros32 (if a < 0 then NOT a else a) - 17))"

subsection \<open>Saturating arithmetic\<close>

definition WebRtcSpl_SatW32ToW16 :: "int \<Rightarrow> int" where
  "WebRtcSpl_SatW32ToW16 value32 =
     (if 32767 < value32 then 32767 else if value32 < - 32768 then - 32768 else s16 value32)"

definition WebRtcSpl_AddSatW32 :: "int \<Rightarrow> int \<Rightarrow> int" where
  "WebRtcSpl_AddSatW32 a b =
     (let sum = s32 (u32 (u32 a + u32 b))
      in if (a < 0) = (b < 0) \<and> (a < 0) \<noteq> (sum < 0)
         then (if sum < 0 then 2147483647 else - 2147483648) else sum)"

definition WebRtcSpl_SubSatW32 :: "int \<Rightarrow> int \<Rightarrow> int" where
  "WebRtcSpl_SubSatW32 a b =
     (let diff = s32 (u32 (u32 a - u32 b))
      in if (a < 0) \<noteq> (b < 0) \<and> (a < 0) \<noteq> (diff < 0)
         then (if diff < 0 then 2147483647 else - 2147483648) else diff)"

definition WebRtcSpl_AddSatW16 :: "int \<Rightarrow> int \<Rightarrow> int" where
  "WebRtcSpl_AddSatW16 a b = WebRtcSpl_SatW32ToW16 (a + b)"

definition WebRtcSpl_SubSatW16 :: "int \<Rightarrow> int \<Rightarrow> int" where
  "WebRtcSpl_SubSatW16 var1 var2 = WebRtcSpl_SatW32ToW16 (var1 - var2)"

definition WebRtc_MulAccumW16 :: "int \<Rightarrow> int \<Rightarrow> int \<Rightarrow> int" where
  "WebRtc_MulAccumW16 a b c = s32 (a * b + c)"

subsection \<open>Division\<close>

definition WebRtcSpl_DivU32U16 :: "int \<Rightarrow> int \<Rightarrow> int" where
  "WebRtcSpl_DivU32U16 num den = (if den \<noteq> 0 then u32 (num div den) else 0xFFFFFFFF)"

definition WebRtcSpl_DivW32W16 :: "int \<Rightarrow> int \<Rightarrow> int" where
  "WebRtcSpl_DivW32W16 num den = (if den \<noteq> 0 then s32 (c_div num den) else 0x7FFFFFFF)"

definition WebRtcSpl_DivW32W16ResW16 :: "int \<Rightarrow> int \<Rightarrow> int" where
  "WebRtcSpl_DivW32W16ResW16 num den = (if den \<noteq> 0 then s16 (c_div num den) else 0x7FFF)"

fun div_q31_loop :: "nat \<Rightarrow> int \<Rightarrow> int \<Rightarrow> int \<Rightarrow> int" where
  "div_q31_loop 0 L_num L_den quot = quot"
| "div_q31_loop (Suc k) L_num L_den quot =
     (let quot1 = s32 (quot * 2); L_num1 = s32 (L_num * 2)
      in if L_den \<le> L_num1 then div_q31_loop k (s32 (L_num1 - L_den)) L_den (s32 (quot1 + 1))
         else div_q31_loop k L_num1 L_den quot1)"

definition WebRtcSpl_DivResultInQ31 :: "int \<Rightarrow> int \<Rightarrow> int" where
  "WebRtcSpl_DivResultInQ31 num den =
     (if num = 0 then 0
      else
        (let L_num = (if num < 0 then s32 (- num) else num);
             L_den = (if den < 0 then s32 (- den) else den);
             quot = div_q31_loop 31 L_num L_den 0
         in if (num < 0) \<noteq> (den < 0) then s32 (- quot) else quot))"

text \<open>A 32-bit value split in its high and its low 15 bits.\<close>

definition hi_low :: "int \<Rightarrow> int \<times> int" where
  "hi_low w = (let hi = s16 (drop_bit 16 w) in (hi, s16 (drop_bit 1 (s32 (w - push_bit 16 hi)))))"

definition WebRtcSpl_DivW32HiLow :: "int \<Rightarrow> int \<Rightarrow> int \<Rightarrow> int" where
  "WebRtcSpl_DivW32HiLow num den_hi den_low =
     (let approx = s16 (WebRtcSpl_DivW32W16 0x1FFFFFFF den_hi);
          w1 = s32 (push_bit 1 (den_hi * approx) + push_bit 1 (drop_bit 15 (den_low * approx)));
          w2 = s32 (0x7fffffff - w1);
          (hi1, low1) = hi_low w2;
          w3 = s32 (push_bit 1 (hi1 * approx + drop_bit 15 (low1 * approx)));
          (hi2, low2) = hi_low w3;
          (num_hi, num_low) = hi_low num;
          w4 = s32 (num_hi * hi2 + drop_bit 15 (num_hi * low2) + drop_bit 15 (num_low * hi2))
      in s32 (push_bit 3 w4))"

subsection \<open>Facts about the leading zeros\<close>

lemma clz32_value:
  assumes "0 \<le> n" and "n < 2 ^ 32"
  shows "WebRtcSpl_CountLeadingZeros32 n = 32 - int (bit_length (nat n))"
  by (simp add: WebRtcSpl_CountLeadingZeros32_def)

lemma bit_length_32: "n < 2 ^ 32 \<Longrightarrow> bit_length n \<le> 32"
  by (simp add: bit_length_le)

lemma nat_lt_power: "0 \<le> n \<Longrightarrow> n < 2 ^ k \<Longrightarrow> nat n < 2 ^ k"
  by (simp add: nat_less_iff)

lemma norm_w32_value:
  assumes "0 < a" and "a < 2 ^ 31"
  shows "WebRtcSpl_NormW32 a = 31 - int (bit_length (nat a))"
proof -
  have "bit_length (nat a) \<le> 31" using assms nat_lt_power [of a 31] by (simp add: bit_length_le)
  then show ?thesis using assms
    by (simp add: WebRtcSpl_NormW32_def WebRtcSpl_CountLeadingZeros32_def is_s16_def)
qed

lemma size_in_bits_value:
  assumes "0 \<le> n" and "n < 2 ^ 32"
  shows "WebRtcSpl_GetSizeInBits n = int (bit_length (nat n))"
proof -
  have "bit_length (nat n) \<le> 32" using assms nat_lt_power [of n 32] by (simp add: bit_length_le)
  then show ?thesis using assms
    by (simp add: WebRtcSpl_GetSizeInBits_def clz32_value is_s16_def)
qed

lemma bit_smear:
  fixes n :: int
  assumes "\<And>i. bit x i \<longleftrightarrow> (\<exists>j<m. bit n (i + j))"
  shows "bit (x OR drop_bit m x) i \<longleftrightarrow> (\<exists>j<m + m. bit n (i + j))"
proof
  assume "bit (x OR drop_bit m x) i"
  then consider j where "j < m" "bit n (i + j)" | j where "j < m" "bit n (m + i + j)"
    using assms by (auto simp: bit_or_iff bit_drop_bit_eq)
  then show "\<exists>j<m + m. bit n (i + j)"
  proof cases
    case 1
    then show ?thesis by (intro exI [of _ j]) simp
  next
    case 2
    then show ?thesis by (intro exI [of _ "m + j"]) (simp add: ac_simps)
  qed
next
  assume "\<exists>j<m + m. bit n (i + j)"
  then obtain j where j: "j < m + m" "bit n (i + j)" by blast
  show "bit (x OR drop_bit m x) i"
  proof (cases "j < m")
    case True
    then show ?thesis using assms j by (auto simp: bit_or_iff)
  next
    case False
    then have "j - m < m" "bit n (m + i + (j - m))" using j by (simp_all add: ac_simps)
    then show ?thesis using assms by (auto simp: bit_or_iff bit_drop_bit_eq)
  qed
qed

text \<open>The five steps fill every bit below the leading one.\<close>

lemma smear_mask:
  fixes n x :: int
  assumes "0 \<le> n" and "n < 2 ^ 32"
    and x: "\<And>i. bit x i \<longleftrightarrow> (\<exists>j<32. bit n (i + j))"
  shows "x = mask (bit_length (nat n))"
proof (rule bit_eqI)
  fix i
  let ?k = "bit_length (nat n)"
  have k: "?k \<le> 32" using assms nat_lt_power [of n 32] by (simp add: bit_length_le)
  have high: "\<not> bit n i" if "?k \<le> i" for i
  proof -
    have "nat n < 2 ^ i" using that bit_length_le by blast
    then have "n < 2 ^ i" using assms(1) by (simp add: nat_less_iff)
    then have "take_bit i n = n" using assms(1) by (simp add: take_bit_int_eq_self)
    then show ?thesis by (metis bit_take_bit_iff less_irrefl)
  qed
  show "bit x i \<longleftrightarrow> bit (mask ?k :: int) i"
  proof (cases "i < ?k")
    case True
    then have "0 < nat n" using bit_length_0 by (cases "nat n = 0") auto
    then have ge: "2 ^ (?k - 1) \<le> nat n" by (rule bit_length_ge)
    have "bit n (?k - 1)"
    proof -
      have "nat n < 2 ^ (?k - 1) * Suc 1"
        using bit_length_lt [of "nat n"] True by (cases ?k) (simp_all add: mult.commute)
      then have "nat n div 2 ^ (?k - 1) = 1" using ge by (intro div_nat_eqI) simp_all
      then have "bit (nat n) (?k - 1)" by (simp add: bit_iff_odd)
      then show ?thesis using assms(1) by (simp add: bit_nat_iff)
    qed
    moreover have "i + (?k - 1 - i) = ?k - 1" "?k - 1 - i < 32" using True k by simp_all
    ultimately have "bit x i" using x by metis
    then show ?thesis using True by (simp add: bit_mask_iff)
  next
    case False
    then have "\<not> bit x i" using x high by auto
    then show ?thesis using False by (simp add: bit_mask_iff)
  qed
qed

lemma clz_table_entry:
  assumes "k \<le> 32"
  shows "kWebRtcSpl_CountLeadingZeros32_Table ! nat (drop_bit 26 (u32 ((mask k :: int) * 0x8c0b2891))) = 32 - int k"
proof -
  have "\<forall>k\<in>set [0..<33]. kWebRtcSpl_CountLeadingZeros32_Table !
      nat (drop_bit 26 (u32 ((mask k :: int) * 0x8c0b2891))) = 32 - int k"
    by (simp add: upt_rec kWebRtcSpl_CountLeadingZeros32_Table_def u32_def mask_eq_exp_minus_1 drop_bit_eq_div)
  then show ?thesis using assms by simp
qed

text \<open>
  the portable count of leading zeros, which smears the leading one downwards and looks the
  product with a constant up in a table, agrees with the compiler's count on every 32-bit value.
\<close>

theorem clz_table_correct:
  assumes "0 \<le> n" and "n < 2 ^ 32"
  shows "WebRtcSpl_CountLeadingZeros32_NotBuiltin n = WebRtcSpl_CountLeadingZeros32 n"
proof -
  let ?n1 = "n OR drop_bit 1 n"
  let ?n2 = "?n1 OR drop_bit 2 ?n1"
  let ?n4 = "?n2 OR drop_bit 4 ?n2"
  let ?n8 = "?n4 OR drop_bit 8 ?n4"
  let ?n16 = "?n8 OR drop_bit 16 ?n8"
  have b0: "bit n i \<longleftrightarrow> (\<exists>j<1. bit n (i + j))" for i by simp
  have b1: "bit ?n1 i \<longleftrightarrow> (\<exists>j<2. bit n (i + j))" for i
    using bit_smear [of n 1 n i, OF b0] by (simp add: numeral_2_eq_2)
  have b2: "bit ?n2 i \<longleftrightarrow> (\<exists>j<4. bit n (i + j))" for i using bit_smear [of ?n1 2 n i, OF b1] by simp
  have b4: "bit ?n4 i \<longleftrightarrow> (\<exists>j<8. bit n (i + j))" for i using bit_smear [of ?n2 4 n i, OF b2] by simp
  have b8: "bit ?n8 i \<longleftrightarrow> (\<exists>j<16. bit n (i + j))" for i using bit_smear [of ?n4 8 n i, OF b4] by simp
  have b16: "bit ?n16 i \<longleftrightarrow> (\<exists>j<32. bit n (i + j))" for i using bit_smear [of ?n8 16 n i, OF b8] by simp
  have m: "?n16 = mask (bit_length (nat n))" using assms b16 by (rule smear_mask)
  have "bit_length (nat n) \<le> 32" using assms nat_lt_power [of n 32] by (simp add: bit_length_le)
  from clz_table_entry [OF this] show ?thesis
    unfolding WebRtcSpl_CountLeadingZeros32_NotBuiltin_def Let_def m clz32_value [OF assms] .
qed

theorem clz_table_correct_witness:
  "WebRtcSpl_CountLeadingZeros32_NotBuiltin 255 = 24"
  using clz_table_correct [of 255] by (simp add: WebRtcSpl_CountLeadingZeros32_def bit_length.simps)

text \<open>
  \<open>WebRtcSpl_NormW32\<close> is the largest left shift that keeps a 32-bit value in range: shifting by it
  does not overflow, one bit more does.
\<close>

theorem norm_w32_largest:
  assumes "is_s32 a" and "a \<noteq> 0"
  shows "0 \<le> WebRtcSpl_NormW32 a \<and> is_s32 (push_bit (nat (WebRtcSpl_NormW32 a)) a) \<and>
     \<not> is_s32 (push_bit (Suc (nat (WebRtcSpl_NormW32 a))) a)"
proof -
  define b where "b = (if a < 0 then NOT a else a)"
  define k where "k = bit_length (nat b)"
  have b: "0 \<le> b" "b < 2 ^ 31"
    using assms by (auto simp: b_def is_s32_def not_int_def)
  have k: "k \<le> 31" "nat b < 2 ^ k"
    using nat_lt_power [OF b] bit_length_lt [of "nat b"] by (simp_all add: k_def bit_length_le)
  then have lt: "b < 2 ^ k" using b(1) by (simp add: nat_less_iff)
  have n: "WebRtcSpl_NormW32 a = 31 - int k"
    using k(1) assms(2) b
    by (auto simp: WebRtcSpl_NormW32_def WebRtcSpl_CountLeadingZeros32_def b_def [symmetric] k_def is_s16_def)
  have ge: "2 ^ (k - 1) \<le> b" if "0 < k"
    using that bit_length_ge [of "nat b"] b(1)
    by (cases "nat b = 0") (simp_all add: k_def nat_le_iff le_nat_iff)
  let ?s = "31 - k"
  have p: "(2::int) ^ ?s * 2 ^ k = 2 ^ 31" using k(1) by (simp flip: power_add)
  have sh: "nat (WebRtcSpl_NormW32 a) = ?s" using n k(1) by (simp add: nat_diff_distrib)
  have up: "(b + 1) * 2 ^ ?s \<le> 2 ^ 31"
  proof -
    have "(b + 1) * 2 ^ ?s \<le> 2 ^ k * 2 ^ ?s" by (rule mult_right_mono) (use lt in simp_all)
    then show ?thesis using p by (simp only: mult.commute)
  qed
  have a: "a = (if a < 0 then - b - 1 else b)" by (simp add: b_def not_int_def)
  have in_range: "is_s32 (a * 2 ^ ?s)"
  proof (cases "a < 0")
    case True
    then have "a = - (b + 1)" using a by simp
    then have "a * 2 ^ ?s = - ((b + 1) * 2 ^ ?s)" by (simp only: mult_minus_left)
    moreover have "0 \<le> (b + 1) * 2 ^ ?s" using b(1) by simp
    ultimately show ?thesis using up by (simp add: is_s32_def)
  next
    case False
    then have "a * 2 ^ ?s = b * 2 ^ ?s" "0 \<le> b * 2 ^ ?s" using a b(1) by simp_all
    moreover have "b * 2 ^ ?s < 2 ^ 31"
      using up zero_less_power [of "2::int" ?s] unfolding distrib_right by linarith
    ultimately show ?thesis by (simp add: is_s32_def)
  qed
  have out: "\<not> is_s32 (a * 2 ^ Suc ?s)"
  proof (cases "k = 0")
    case True
    then have "b = 0" using lt b(1) by simp
    then have "a = - 1" using a assms(2) by (simp split: if_splits)
    then show ?thesis using True by (simp add: is_s32_def)
  next
    case False
    then have q: "(2::int) ^ (k - 1) * 2 ^ Suc ?s = 2 ^ 31"
      using k(1) by (simp flip: power_add power_Suc)
    have "2 ^ (k - 1) * 2 ^ Suc ?s \<le> b * 2 ^ Suc ?s"
      by (rule mult_right_mono) (use ge False in simp_all)
    then have l: "2147483648 \<le> b * 2 ^ Suc ?s" unfolding q by simp
    have pos: "(0::int) < 2 ^ Suc ?s" by simp
    show ?thesis
    proof (cases "a < 0")
      case True
      then have "a = - b - 1" using a by simp
      then have "a * 2 ^ Suc ?s = - (b * 2 ^ Suc ?s) - 2 ^ Suc ?s"
        by (simp only: left_diff_distrib mult_minus_left mult_1)
      then have "a * 2 ^ Suc ?s < - 2147483648" using l pos by linarith
      then show ?thesis unfolding is_s32_def by simp
    next
      case False
      then have "a * 2 ^ Suc ?s = b * 2 ^ Suc ?s" using a by simp
      then have "2147483647 < a * 2 ^ Suc ?s" using l by linarith
      then show ?thesis unfolding is_s32_def by simp
    qed
  qed
  show ?thesis using in_range out n k(1) unfolding sh push_bit_eq_mult by simp
qed

theorem norm_w32_largest_witness:
  "is_s32 (push_bit (nat (WebRtcSpl_NormW32 1000)) 1000) \<and> 0 \<le> WebRtcSpl_NormW32 1000"
  using norm_w32_largest [of 1000] by (simp add: is_s32_def)

text \<open>
  the saturating additions and subtractions, which detect an overflow from the signs of the
  wrapped result, clamp the exact result to the 32-bit range.
\<close>

theorem sat_arith_clamps:
  assumes "is_s32 a" and "is_s32 b"
  shows "WebRtcSpl_AddSatW32 a b = max (- (2 ^ 31)) (min (2 ^ 31 - 1) (a + b)) \<and>
     WebRtcSpl_SubSatW32 a b = max (- (2 ^ 31)) (min (2 ^ 31 - 1) (a - b))"
proof -
  have w: "s32 (u32 (u32 x + u32 y)) = s32 (x + y)" "s32 (u32 (u32 x - u32 y)) = s32 (x - y)" for x y
    by (simp_all add: s32_def u32_def mod_simps)
  have s: "s32 x = (if x < - (2 ^ 31) then x + 2 ^ 32 else if 2 ^ 31 \<le> x then x - 2 ^ 32 else x)"
    if "- (2 ^ 32) \<le> x" "x < 2 ^ 32" for x
  proof -
    have "(x + 2 ^ 31) mod 2 ^ 32 = x + 2 ^ 31 + 2 ^ 32" if "x < - (2 ^ 31)"
      unfolding mod_add_self2 [of "x + 2 ^ 31" "2 ^ 32", symmetric]
      by (rule mod_pos_pos_trivial) (use that \<open>- (2 ^ 32) \<le> x\<close> in simp_all)
    moreover have "(x + 2 ^ 31) mod 2 ^ 32 = x + 2 ^ 31 - 2 ^ 32" if "2 ^ 31 \<le> x"
      unfolding minus_mod_self2 [of "x + 2 ^ 31" "2 ^ 32", symmetric]
      by (rule mod_pos_pos_trivial) (use that \<open>x < 2 ^ 32\<close> in simp_all)
    ultimately show ?thesis by (simp add: s32_def)
  qed
  have r: "- (2 ^ 32) \<le> a + b" "a + b < 2 ^ 32" "- (2 ^ 32) \<le> a - b" "a - b < 2 ^ 32"
    using assms by (simp_all add: is_s32_def)
  show ?thesis
    using assms
    by (simp add: WebRtcSpl_AddSatW32_def WebRtcSpl_SubSatW32_def w s [OF r(1,2)] s [OF r(3,4)]
        is_s32_def Let_def)
qed

theorem sat_arith_clamps_witness:
  "WebRtcSpl_AddSatW32 2000000000 2000000000 = 2147483647"
  using sat_arith_clamps [of 2000000000 2000000000] by (simp add: is_s32_def)

lemma div_q31_loop_value:
  assumes "0 \<le> L" "L < D" "D \<le> 2 ^ 30" "0 \<le> q" "(q + 1) * 2 ^ k \<le> 2 ^ 31"
  shows "div_q31_loop k L D q = q * 2 ^ k + (L * 2 ^ k) div D"
  using assms
proof (induction k arbitrary: L q)
  case 0
  then show ?case by simp
next
  case (Suc k)
  have q2: "(2 * q + 2) * 2 ^ k \<le> 2 ^ 31" using Suc.prems(5) by (simp add: algebra_simps)
  have "(2 * q + 1) * 2 ^ k \<le> (2 * q + 2) * 2 ^ k" by (rule mult_right_mono) simp_all
  then have q1: "(2 * q + 1) * 2 ^ k \<le> 2 ^ 31" using q2 by linarith
  have "2 * q + 2 \<le> (2 * q + 2) * 2 ^ k"
    using mult_left_mono [of 1 "2 ^ k" "2 * q + 2"] Suc.prems(4) by simp
  then have r: "2 * q + 2 \<le> 2 ^ 31" using q2 by linarith
  have L: "s32 (L * 2) = 2 * L" using Suc.prems by (simp add: is_s32_def)
  have Q: "s32 (q * 2) = 2 * q" "s32 (2 * q + 1) = 2 * q + 1"
    using r Suc.prems(4) by (simp_all add: is_s32_def)
  show ?case
  proof (cases "D \<le> 2 * L")
    case True
    have s: "s32 (2 * L - D) = 2 * L - D" using True Suc.prems by (simp add: is_s32_def)
    have e: "(2 * L) * 2 ^ k = (2 * L - D) * 2 ^ k + 2 ^ k * D" by (simp add: algebra_simps)
    have d: "(2 * L * 2 ^ k) div D = (2 * L - D) * 2 ^ k div D + 2 ^ k"
      unfolding e using Suc.prems by (subst div_mult_self1) auto
    have "div_q31_loop k (2 * L - D) D (2 * q + 1) = (2 * q + 1) * 2 ^ k + ((2 * L - D) * 2 ^ k) div D"
      by (rule Suc.IH) (use True Suc.prems q2 in \<open>simp_all add: algebra_simps\<close>)
    moreover have "div_q31_loop (Suc k) L D q = div_q31_loop k (2 * L - D) D (2 * q + 1)"
      using True by (simp only: div_q31_loop.simps Let_def L Q s if_True)
    ultimately show ?thesis using d by (simp add: algebra_simps)
  next
    case False
    have "div_q31_loop k (2 * L) D (2 * q) = 2 * q * 2 ^ k + (2 * L * 2 ^ k) div D"
      by (rule Suc.IH) (use False Suc.prems q1 in \<open>simp_all add: algebra_simps\<close>)
    moreover have "div_q31_loop (Suc k) L D q = div_q31_loop k (2 * L) D (2 * q)"
      using False by (simp only: div_q31_loop.simps Let_def L Q if_False)
    ultimately show ?thesis by (simp add: algebra_simps)
  qed
qed

text \<open>
  the 31-step division returns the quotient in Q31, truncated towards zero, of any numerator
  below the denominator as long as the denominator is at most \<open>2\<^sup>3\<^sup>0\<close>; above that the doubled
  remainder overflows.
\<close>

theorem div_q31_correct:
  assumes "\<bar>num\<bar> < \<bar>den\<bar>" and "\<bar>den\<bar> \<le> 2 ^ 30"
  shows "WebRtcSpl_DivResultInQ31 num den = c_div (num * 2 ^ 31) den"
proof (cases "num = 0")
  case True
  then show ?thesis by (simp add: WebRtcSpl_DivResultInQ31_def c_div_def)
next
  case False
  have "is_s32 (- num)" "is_s32 (- den)"
    unfolding is_s32_def using assms by (simp_all add: abs_if split: if_splits)
  then have v: "s32 (- num) = - num" "s32 (- den) = - den" by simp_all
  let ?q = "(\<bar>num\<bar> * 2 ^ 31) div \<bar>den\<bar>"
  have loop: "div_q31_loop 31 \<bar>num\<bar> \<bar>den\<bar> 0 = ?q"
    using div_q31_loop_value [of "\<bar>num\<bar>" "\<bar>den\<bar>" 0 31] assms by simp
  have "0 \<le> ?q" using assms by (simp add: pos_imp_zdiv_nonneg_iff)
  moreover have "?q < 2 ^ 31"
    using assms by (intro int_div_less) (simp_all add: mult.commute)
  ultimately have n: "s32 (- ?q) = - ?q" by (simp add: is_s32_def)
  have a: "(if num < 0 then s32 (- num) else num) = \<bar>num\<bar>"
    "(if den < 0 then s32 (- den) else den) = \<bar>den\<bar>" using v by simp_all
  have "den \<noteq> 0" using assms(1) by auto
  then show ?thesis
    using False n unfolding WebRtcSpl_DivResultInQ31_def a loop Let_def c_div_def
    by (auto simp: abs_mult sgn_mult sgn_if)
qed

theorem div_q31_correct_witness:
  "WebRtcSpl_DivResultInQ31 (- 1) 2 = - (2 ^ 30)"
  using div_q31_correct [of "- 1" 2] by (simp add: c_div_def)

end
