(* ===== verification/SplScalar.thy ===== *)
theory SplScalar
  imports Spl
begin

text \<open>
  Scalar routines of the signal processing library: the square roots (\<open>spl_sqrt.c\<close> and
  \<open>third_party/spl_sqrt_floor/spl_sqrt_floor.c\<close>) and the random numbers
  (\<open>randomization_functions.c\<close>).
\<close>

subsection \<open>The integer square root\<close>

text \<open>\<open>sqrt_iters n\<close> is the iterations \<open>n - 1\<close> down to 0 of the macro.\<close>

fun sqrt_iters :: "nat \<Rightarrow> int \<Rightarrow> int \<Rightarrow> int" where
  "sqrt_iters 0 root value = root"
| "sqrt_iters (Suc n) root value =
     (let try1 = s32 (root + push_bit n 1)
      in if s32 (push_bit n try1) \<le> value
         then sqrt_iters n (root OR push_bit n 2) (s32 (value - s32 (push_bit n try1)))
         else sqrt_iters n root value)"

definition WebRtcSpl_SqrtFloor :: "int \<Rightarrow> int" where
  "WebRtcSpl_SqrtFloor value = drop_bit 1 (sqrt_iters 16 0 value)"

subsection \<open>The square root by a Taylor series\<close>

definition WebRtcSpl_SqrtLocal :: "int \<Rightarrow> int" where
  "WebRtcSpl_SqrtLocal in0 =
     (let B0 = s32 (c_div in0 2 - 0x40000000);
          x_half = s16 (drop_bit 16 B0);
          B1 = s32 (s32 (B0 + 0x40000000) + 0x40000000);
          x2 = s32 (x_half * x_half * 2);
          A0 = s32 (- x2);
          B2 = s32 (B1 + drop_bit 1 A0);
          A1 = drop_bit 16 A0;
          A2 = s32 (A1 * A1 * 2);
          t16 = s16 (drop_bit 16 A2);
          B3 = s32 (B2 + s32 (- 20480 * t16 * 2));
          A3 = s32 (x_half * t16 * 2);
          t16' = s16 (drop_bit 16 A3);
          B4 = s32 (B3 + s32 (28672 * t16' * 2));
          t16'' = s16 (drop_bit 16 x2);
          A4 = s32 (x_half * t16'' * 2);
          B5 = s32 (B4 + drop_bit 1 A4)
      in s32 (B5 + 32768))"

definition WebRtcSpl_Sqrt :: "int \<Rightarrow> int" where
  "WebRtcSpl_Sqrt value =
     (if value = 0 then 0
      else
        (let A0 = (if value < 0 then (if value = - 2147483648 then 2147483647 else - value) else value);
             sh = WebRtcSpl_NormW32 A0;
             A1 = s32 (push_bit (nat sh) A0);
             A2 = (if A1 < 2147483647 - 32767 then s32 (A1 + 32768) else 2147483647);
             x_norm = s16 (drop_bit 16 A2);
             nshift = s16 (c_div sh 2);
             A3 = \<bar>s32 (push_bit 16 x_norm)\<bar>;
             A4 = WebRtcSpl_SqrtLocal A3;
             A5 = (if 2 * nshift = sh then
                     (let t16 = s16 (drop_bit 16 A4);
                          B = s32 (s32 (23170 * t16 * 2) + 32768)
                      in drop_bit 15 (B AND 0x7fff0000))
                   else drop_bit 16 A4)
         in drop_bit (nat nshift) (A5 AND 0x0000ffff)))"

subsection \<open>Random numbers\<close>

definition kMaxSeedUsed :: int where
  "kMaxSeedUsed = 0x80000000"

definition kRandNTable :: "int list" where
  "kRandNTable =
     [9178, - 7260, 40, 10189, 4894, - 3531, - 13779, 14764, - 4008, - 8884, - 8990, 1008,
      7368, 5184, 3251, - 5817, - 9786, 5963, 1770, 8066, - 7135, 10772, - 2298, 1361,
      6484, 2241, - 8633, 792, 199, - 3344, 6553, - 10079, - 15040, 95, 11608, - 12469,
      14161, - 4176, 2476, 6403, 13685, - 16005, 6646, 2239, 10916, - 3004, - 602, - 3141,
      2142, 14144, - 5829, 5305, 8209, 4713, 2697, - 5112, 16092, - 1210, - 2891, - 6631,
      - 5360, - 11878, - 6781, - 2739, - 6392, 536, 10923, 10872, 5059, - 4748, - 7770, 5477,
      38, - 1025, - 2892, 1638, 6304, 14375, - 11028, 1553, - 1565, 10762, - 393, 4040,
      5257, 12310, 6554, - 4799, 4899, - 6354, 1603, - 1048, - 2220, 8247, - 186, - 8944,
      - 12004, 2332, 4801, - 4933, 6371, 131, 8614, - 5927, - 8287, - 22760, 4033, - 15162,
      3385, 3246, 3153, - 5250, 3766, 784, 6494, - 62, 3531, - 1582, 15572, 662,
      - 3952, - 330, - 3196, 669, 7236, - 2678, - 6569, 23319, - 8645, - 741, 14830, - 15976,
      4903, 315, - 11342, 10311, 1858, - 7777, 2145, 5436, 5677, - 113, - 10033, 826,
      - 1353, 17210, 7768, 986, - 1471, 8291, - 4982, 8207, - 14911, - 6255, - 2449, - 11881,
      - 7059, - 11703, - 4338, 8025, 7538, - 2823, - 12490, 9470, - 1613, - 2529, - 10092, - 7807,
      9480, 6970, - 12844, 5123, 3532, 4816, 4803, - 8455, - 5045, 14032, - 4378, - 1643,
      5756, - 11041, - 2732, - 16618, - 6430, - 18375, - 3320, 6098, 5131, - 4269, - 8840, 2482,
      - 7048, 1547, - 21890, - 6505, - 7414, - 424, - 11722, 7955, 1653, - 17299, 1823, 473,
      - 9232, 3337, 1111, 873, 4018, - 8982, 9889, 3531, - 11763, - 3799, 7373, - 4539,
      3231, 7054, - 8537, 7616, 6244, 16635, 447, - 2915, 13967, 705, - 2669, - 1520,
      - 1771, - 16188, 5956, 5117, 6371, - 9936, - 1448, 2480, 5128, 7550, - 8130, 5236,
      8213, - 6443, 7707, - 1950, - 13811, 7218, 7031, - 3883, 67, 5731, - 2874, 13480,
      - 3743, 9298, - 3280, 3552, - 4425, - 18, - 3785, - 9988, - 5357, 5477, - 11794, 2117,
      1416, - 9935, 3376, 802, - 5079, - 8243, 12652, 66, 3653, - 2368, 6781, - 21895,
      - 7227, 2487, 7839, - 385, 6646, - 7016, - 4658, 5531, - 1705, 834, 129, 3694,
      - 1343, 2238, - 22640, - 6417, - 11139, 11301, - 2945, - 3494, - 5626, 185, - 3615, - 2041,
      - 7972, - 3106, - 60, - 23497, - 1566, 17064, 3519, 2518, 304, - 6805, - 10269, 2105,
      1936, - 426, - 736, - 8122, - 1467, 4238, - 6939, - 13309, 360, 7402, - 7970, 12576,
      3287, 12194, - 6289, - 16006, 9171, 4042, - 9193, 9123, - 2512, 6388, - 4734, - 8739,
      1028, - 5406, - 1696, 5889, - 666, - 4736, 4971, 3565, 9362, - 6292, 3876, - 3652,
      - 19666, 7523, - 4061, 391, - 11773, 7502, - 3763, 4929, - 9478, 13278, 2805, 4496,
      7814, 16419, 12455, - 14773, 2127, - 2746, 3763, 4847, 3698, 6978, 4751, - 6957,
      - 3581, - 45, 6252, 1513, - 4797, - 7925, 11270, 16188, - 2359, - 5269, 9376, - 10777,
      7262, 20031, - 6515, - 2208, - 5353, 8085, - 1341, - 1303, 7333, 5576, 3625, 5763,
      - 7931, 9833, - 3371, - 10305, 6534, - 13539, - 9971, 997, 8464, - 4064, - 1495, 1857,
      13624, 5458, 9490, - 11086, - 4524, 12022, - 550, - 198, 408, - 8455, - 7068, 10289,
      9712, - 3366, 9028, - 7621, - 5243, 2362, 6909, 4672, - 4933, - 1799, 4709, - 4563,
      - 62, - 566, 1624, - 7010, 14730, - 17791, - 3697, - 2344, - 1741, 7099, - 9509, - 6855,
      - 1989, 3495, - 2289, 2031, 12784, 891, 14189, - 3963, - 5683, 421, - 12575, 1724,
      - 12682, - 5970, - 8169, 3143, - 1824, - 5488, - 5130, 8536, 12799, 794, 5738, 3459,
      - 11689, - 258, - 3738, - 3775, - 8742, 2333, 8312, - 9383, 10331, 13119, 8398, 10644,
      - 19433, - 6446, - 16277, - 11793, 16284, 9345, 15222, 15834, 2009, - 7349, 130, - 14547,
      338, - 5998, 3337, 21492, 2406, 7703, - 951, 11196, - 564, 3406, 2217, 4806,
      2374, - 5797, 11839, 8940, - 11874, 18213, 2855, 10492]"

definition IncreaseSeed :: "int \<Rightarrow> int" where
  "IncreaseSeed seed = u32 (u32 (seed * 69069) + 1) AND (kMaxSeedUsed - 1)"

definition WebRtcSpl_RandU :: "int \<Rightarrow> int \<times> int" where
  "WebRtcSpl_RandU seed = (let seed1 = IncreaseSeed seed in (seed1, s16 (drop_bit 16 seed1)))"

definition WebRtcSpl_RandN :: "int \<Rightarrow> int \<times> int" where
  "WebRtcSpl_RandN seed = (let seed1 = IncreaseSeed seed in (seed1, kRandNTable ! nat (drop_bit 23 seed1)))"

text \<open>The seed after the calls, and the numbers.\<close>

fun rand_array :: "nat \<Rightarrow> int \<Rightarrow> int \<times> int list" where
  "rand_array 0 seed = (seed, [])"
| "rand_array (Suc n) seed =
     (case WebRtcSpl_RandU seed of (seed1, x) \<Rightarrow>
        case rand_array n seed1 of (seed2, xs) \<Rightarrow> (seed2, x # xs))"

definition WebRtcSpl_RandUArray :: "int \<Rightarrow> int \<Rightarrow> int \<times> int list" where
  "WebRtcSpl_RandUArray vector_length seed = rand_array (nat vector_length) seed"

subsection \<open>The square root is the integer part\<close>

lemma or_disjoint_power:
  fixes a :: int
  assumes "2 ^ Suc n dvd a"
  shows "a OR 2 ^ n = a + 2 ^ n"
proof -
  have "a AND 2 ^ n = 0"
  proof (rule bit_eqI)
    fix i
    have "take_bit (Suc n) a = 0" using assms by (simp add: take_bit_eq_0_iff)
    then have "\<not> bit a n" by (metis bit_0_eq bit_take_bit_iff bot_apply bot_bool_def lessI)
    then show "bit (a AND 2 ^ n) i \<longleftrightarrow> bit (0 :: int) i" by (auto simp: bit_and_iff bit_exp_iff)
  qed
  then show ?thesis by (rule disjunctive_add_eq_or [symmetric])
qed

text \<open>
  Before the iterations \<open>n - 1\<close> to 0 the root is twice a number \<open>R\<close>, a multiple of \<open>2\<^sup>n\<close> whose
  square has been taken off the value, and the rest is less than one step of \<open>2\<^sup>n\<close> needs.
\<close>

lemma sqrt_iters_value:
  assumes "0 \<le> R" "2 ^ n dvd R" "R * R + value = v0" "0 \<le> value" "v0 < (R + 2 ^ n) * (R + 2 ^ n)"
    and "v0 < 2 ^ 31" "n \<le> 16" "n = 16 \<longrightarrow> R = 0"
  shows "\<exists>r. sqrt_iters n (2 * R) value = 2 * r \<and> 0 \<le> r \<and> r * r \<le> v0 \<and> v0 < (r + 1) * (r + 1)"
  using assms
proof (induction n arbitrary: R "value")
  case 0
  then show ?case by (intro exI [of _ R]) (simp add: algebra_simps)
next
  case (Suc n)
  let ?p = "2 ^ n :: int"
  have R: "R \<le> 46340"
  proof (rule ccontr)
    assume "\<not> R \<le> 46340"
    then have "46341 * 46341 \<le> R * R" by (intro mult_mono) simp_all
    then show False using Suc.prems(3,4,6) by simp
  qed
  have p: "?p \<le> 2 ^ 15" using Suc.prems(7) by (intro power_increasing) simp_all
  have pos: "0 < ?p" by simp
  have big: "(2 * R + ?p) * ?p < 2 ^ 31"
  proof (cases "n = 15")
    case True
    then show ?thesis using Suc.prems(8) by simp
  next
    case False
    then have "?p \<le> 2 ^ 14" using Suc.prems(7) by (intro power_increasing) simp_all
    then have "(2 * R + ?p) * ?p \<le> (2 * 46340 + 2 ^ 14) * 2 ^ 14"
      using R Suc.prems(1) pos by (intro mult_mono add_mono) simp_all
    then show ?thesis by simp
  qed
  have nn: "0 \<le> (2 * R + ?p) * ?p" using Suc.prems(1) by simp
  have "2 * R + ?p < 2 ^ 31" using R p by simp
  then have try1: "s32 (2 * R + push_bit n 1) = 2 * R + ?p"
    using Suc.prems(1) by (simp add: push_bit_eq_mult s32_nonneg)
  have sh: "s32 (push_bit n (2 * R + ?p)) = (2 * R + ?p) * ?p"
    using big nn by (simp add: push_bit_eq_mult s32_nonneg)
  have d: "?p dvd R" using Suc.prems(2) by (auto elim: dvdE)
  have e: "(R + ?p) * (R + ?p) = R * R + (2 * R + ?p) * ?p" by (simp add: algebra_simps)
  show ?case
  proof (cases "(2 * R + ?p) * ?p \<le> value")
    case True
    obtain m where m: "R = 2 ^ Suc n * m" using Suc.prems(2) by (rule dvdE)
    have "2 ^ Suc (Suc n) dvd 2 * R" using m by simp
    then have "2 * R OR push_bit n 2 = 2 * (R + ?p)"
      using or_disjoint_power [of "Suc n" "2 * R"] by (simp add: push_bit_eq_mult mult.commute)
    moreover have "s32 (value - (2 * R + ?p) * ?p) = value - (2 * R + ?p) * ?p"
    proof (rule s32_nonneg)
      have "0 \<le> R * R" by simp
      then show "value - (2 * R + ?p) * ?p < 2 ^ 31" using nn Suc.prems(3,6) by linarith
    qed (use True in simp)
    ultimately have "sqrt_iters (Suc n) (2 * R) value =
        sqrt_iters n (2 * (R + ?p)) (value - (2 * R + ?p) * ?p)"
      using True by (simp only: sqrt_iters.simps Let_def try1 sh if_True)
    moreover have "\<exists>r. sqrt_iters n (2 * (R + ?p)) (value - (2 * R + ?p) * ?p) = 2 * r \<and>
        0 \<le> r \<and> r * r \<le> v0 \<and> v0 < (r + 1) * (r + 1)"
    proof (rule Suc.IH)
      show "(R + ?p) * (R + ?p) + (value - (2 * R + ?p) * ?p) = v0" using e Suc.prems(3) by simp
      show "v0 < (R + ?p + ?p) * (R + ?p + ?p)" using Suc.prems(5) by (simp add: algebra_simps)
      show "?p dvd R + ?p" using d by simp
    qed (use True Suc.prems in simp_all)
    ultimately show ?thesis by simp
  next
    case False
    then have "sqrt_iters (Suc n) (2 * R) value = sqrt_iters n (2 * R) value"
      by (simp only: sqrt_iters.simps Let_def try1 sh if_False)
    moreover have "\<exists>r. sqrt_iters n (2 * R) value = 2 * r \<and> 0 \<le> r \<and> r * r \<le> v0 \<and> v0 < (r + 1) * (r + 1)"
    proof (rule Suc.IH)
      show "v0 < (R + ?p) * (R + ?p)" using e False Suc.prems(3) by simp
    qed (use Suc.prems d in simp_all)
    ultimately show ?thesis by simp
  qed
qed

lemma sqrt_iters_negative:
  assumes "value < 0" and "n \<le> 16"
  shows "sqrt_iters n 0 value = 0"
  using assms(2)
proof (induction n)
  case 0
  then show ?case by simp
next
  case (Suc n)
  have "(2::int) ^ n * 2 ^ n \<le> 2 ^ 15 * 2 ^ 15"
    using Suc.prems by (intro mult_mono power_increasing) simp_all
  moreover have "(2::int) ^ n \<le> 2 ^ 15" using Suc.prems by (intro power_increasing) simp_all
  ultimately have "s32 (2 ^ n) = 2 ^ n" "s32 (2 ^ n * 2 ^ n) = 2 ^ n * 2 ^ n"
    by (auto intro!: s32_nonneg)
  moreover have "\<not> 2 ^ n * 2 ^ n \<le> value"
  proof -
    have "0 < (2::int) ^ n * 2 ^ n" by simp
    then show ?thesis using assms(1) by linarith
  qed
  ultimately show ?case using Suc by (simp add: push_bit_eq_mult Let_def)
qed

text \<open>
  C40: the square root by successive approximation is the integer part of the root for every
  non-negative 32-bit value, without overflow, and 0 for a negative one.
\<close>

theorem sqrt_floor_correct:
  assumes "is_s32 value"
  shows "if value < 0 then WebRtcSpl_SqrtFloor value = 0
     else 0 \<le> WebRtcSpl_SqrtFloor value \<and>
       WebRtcSpl_SqrtFloor value * WebRtcSpl_SqrtFloor value \<le> value \<and>
       value < (WebRtcSpl_SqrtFloor value + 1) * (WebRtcSpl_SqrtFloor value + 1)"
proof (cases "value < 0")
  case True
  then show ?thesis by (simp add: WebRtcSpl_SqrtFloor_def sqrt_iters_negative)
next
  case False
  have "\<exists>r. sqrt_iters 16 (2 * 0) value = 2 * r \<and> 0 \<le> r \<and> r * r \<le> value \<and> value < (r + 1) * (r + 1)"
    by (rule sqrt_iters_value) (use False assms in \<open>simp_all add: is_s32_def\<close>)
  then show ?thesis using False by (auto simp: WebRtcSpl_SqrtFloor_def drop_bit_eq_div)
qed

theorem sqrt_floor_correct_witness:
  "WebRtcSpl_SqrtFloor 1000 = 31"
proof -
  have "\<exists>r. WebRtcSpl_SqrtFloor 1000 = r \<and> 0 \<le> r \<and> r * r \<le> 1000 \<and> 1000 < (r + 1) * (r + 1)"
    using sqrt_floor_correct [of 1000] by (simp add: is_s32_def)
  then obtain r where r: "WebRtcSpl_SqrtFloor 1000 = r" "0 \<le> r" "r * r \<le> 1000" "1000 < (r + 1) * (r + 1)"
    by blast
  have "r < 32" using mult_mono [of 32 r 32 r] r by (cases "r < 32") simp_all
  moreover have "31 \<le> r" using mult_mono [of "r + 1" 31 "r + 1" 31] r by (cases "31 \<le> r") simp_all
  ultimately show ?thesis using r(1) by simp
qed

subsection \<open>The random numbers\<close>

lemma IncreaseSeed_mod: "IncreaseSeed seed = (seed * 69069 + 1) mod 2 ^ 31"
proof -
  have m: "2147483647 = (mask 31 :: int)" by (simp add: mask_eq_exp_minus_1)
  have "IncreaseSeed seed = take_bit 31 (u32 (u32 (seed * 69069) + 1))"
    unfolding IncreaseSeed_def kMaxSeedUsed_def by (simp add: m take_bit_eq_mask)
  also have "\<dots> = ((seed * 69069 + 1) mod 2 ^ 32) mod 2 ^ 31"
    by (simp add: take_bit_eq_mod u32_def mod_simps)
  also have "\<dots> = (seed * 69069 + 1) mod 2 ^ 31" by (simp add: mod_mod_cancel)
  finally show ?thesis .
qed

lemma seed_permutation:
  assumes "0 \<le> a" "a < 2 ^ 31" "0 \<le> b" "b < 2 ^ 31" and "IncreaseSeed a = IncreaseSeed b"
  shows "a = b"
proof -
  have "2 ^ 31 dvd (a * 69069 + 1) - (b * 69069 + 1)"
    using assms(5) by (simp only: IncreaseSeed_mod mod_eq_dvd_iff)
  then have "(2::int) ^ 31 dvd (a - b) * 69069" by (simp add: algebra_simps)
  moreover have "coprime ((2::int) ^ 31) 69069" unfolding coprime_power_left_iff by simp
  ultimately have "2 ^ 31 dvd a - b" by (simp only: coprime_dvd_mult_left_iff)
  then obtain k where "a - b = 2 ^ 31 * k" by (rule dvdE)
  then have "a - b = 2147483648 * k" by simp
  moreover have "- 2147483648 < a - b" "a - b < 2147483648" using assms(1-4) by simp_all
  ultimately have "- 1 < k" "k < 1" by linarith+
  then have "k = 0" by simp
  then show ?thesis using \<open>a - b = 2147483648 * k\<close> by simp
qed

text \<open>
  the generator steps through the 31-bit seeds by a permutation, so no two seeds are merged,
  and both kinds of number are always drawn from inside their tables: a non-negative 16-bit value,
  or one of the 512 entries, of which only the first 256 are reachable.
\<close>

theorem random_draws:
  assumes "0 \<le> seed" and "seed < 2 ^ 31"
  shows "bij_betw IncreaseSeed {0..<2 ^ 31} {0..<2 ^ 31} \<and>
     0 \<le> snd (WebRtcSpl_RandU seed) \<and> snd (WebRtcSpl_RandU seed) < 2 ^ 15 \<and>
     (\<exists>i<256. snd (WebRtcSpl_RandN seed) = kRandNTable ! i) \<and> length kRandNTable = 512"
proof -
  have r: "0 \<le> IncreaseSeed x \<and> IncreaseSeed x < 2 ^ 31" for x by (simp add: IncreaseSeed_mod)
  have "inj_on IncreaseSeed {0..<2 ^ 31}" using seed_permutation by (auto intro!: inj_onI)
  moreover have "IncreaseSeed ` {0..<2 ^ 31} \<subseteq> {0..<2 ^ 31}" using r by auto
  ultimately have "bij_betw IncreaseSeed {0..<2 ^ 31} {0..<2 ^ 31}"
    by (simp add: bij_betw_def endo_inj_surj)
  moreover have "0 \<le> drop_bit 16 (IncreaseSeed seed) \<and> drop_bit 16 (IncreaseSeed seed) < 2 ^ 15"
    using r [of seed] int_div_less [of "IncreaseSeed seed" "2 ^ 15" "2 ^ 16"] by (simp add: drop_bit_eq_div pos_imp_zdiv_nonneg_iff)
  moreover have "0 \<le> drop_bit 23 (IncreaseSeed seed) \<and> drop_bit 23 (IncreaseSeed seed) < 256"
    using r [of seed] int_div_less [of "IncreaseSeed seed" 256 "2 ^ 23"] by (simp add: drop_bit_eq_div pos_imp_zdiv_nonneg_iff)
  moreover have "length kRandNTable = 512" by (simp add: kRandNTable_def)
  moreover have "s16 (drop_bit 16 (IncreaseSeed seed)) = drop_bit 16 (IncreaseSeed seed)"
    using \<open>0 \<le> drop_bit 16 _ \<and> _\<close> by (intro s16_id) linarith+
  ultimately show ?thesis
    by (auto simp: WebRtcSpl_RandU_def WebRtcSpl_RandN_def Let_def is_s16_def nat_less_iff
        intro!: exI [of _ "nat (drop_bit 23 (IncreaseSeed seed))"])
qed

theorem random_draws_witness:
  "0 \<le> snd (WebRtcSpl_RandU 42) \<and> length kRandNTable = 512"
  using random_draws [of 42] by simp

end
