(* ===== verification/StreamFilter.thy ===== *)
theory StreamFilter
  imports Prelude
begin

text \<open>
  The interface of the filters that are run over a stream in chunks and keep their state in
  between: whatever the chunks are, as long as they are made of whole blocks, the output is that of
  one run over the joined input. \<open>rate_filter\<close> adds the ratio of the two lengths.
\<close>

fun run_chunks :: "('s \<Rightarrow> 'a list \<Rightarrow> 's \<times> 'b list) \<Rightarrow> 's \<Rightarrow> 'a list list \<Rightarrow> 's \<times> 'b list" where
  "run_chunks run s [] = (s, [])"
| "run_chunks run s (c # cs) =
     (let (s1, out1) = run s c; (s2, out2) = run_chunks run s1 cs in (s2, out1 @ out2))"

definition joined :: "('s \<Rightarrow> 'a list \<Rightarrow> 's \<times> 'b list) \<Rightarrow> 's \<Rightarrow> 'a list \<Rightarrow> 'a list \<Rightarrow> 's \<times> 'b list" where
  "joined run s xs ys =
     (fst (run (fst (run s xs)) ys), snd (run s xs) @ snd (run (fst (run s xs)) ys))"

locale stream_filter =
  fixes run :: "'s \<Rightarrow> 'a list \<Rightarrow> 's \<times> 'b list" and block :: nat
  assumes run_nil: "run s [] = (s, [])"
    and run_append: "block dvd length xs \<Longrightarrow> block dvd length ys \<Longrightarrow> run s (xs @ ys) = joined run s xs ys"
begin

lemma dvd_concat: "\<forall>c\<in>set cs. block dvd length c \<Longrightarrow> block dvd length (concat cs)"
  by (induction cs) auto

lemma chunks:
  assumes "\<forall>c\<in>set cs. block dvd length c"
  shows "run_chunks run s cs = run s (concat cs)"
  using assms
proof (induction cs arbitrary: s)
  case Nil
  then show ?case by (simp add: run_nil)
next
  case (Cons c cs)
  then show ?case
    using run_append [of c "concat cs" s] dvd_concat [of cs]
    by (simp add: joined_def split_beta Let_def)
qed

lemma rechunk:
  assumes "\<forall>c\<in>set cs. block dvd length c" "\<forall>d\<in>set ds. block dvd length d" "concat cs = concat ds"
  shows "run_chunks run s cs = run_chunks run s ds"
  using assms by (simp add: chunks)

end

locale rate_filter = stream_filter run block
  for run :: "'s \<Rightarrow> 'a list \<Rightarrow> 's \<times> 'b list" and block :: nat +
  fixes up down :: nat
  assumes run_length: "block dvd length xs \<Longrightarrow> length (snd (run s xs)) * down = length xs * up"
begin

lemma chunks_length:
  assumes "\<forall>c\<in>set cs. block dvd length c"
  shows "length (snd (run_chunks run s cs)) * down = length (concat cs) * up"
  unfolding chunks [OF assms] by (rule run_length [OF dvd_concat [OF assms]])

end

text \<open>A filter that maps samples one by one, and one that maps pairs.\<close>

fun run_samples :: "('s \<Rightarrow> 'a \<Rightarrow> 's \<times> 'b) \<Rightarrow> 's \<Rightarrow> 'a list \<Rightarrow> 's \<times> 'b list" where
  "run_samples step s [] = (s, [])"
| "run_samples step s (x # xs) =
     (let (s1, y) = step s x; (s2, ys) = run_samples step s1 xs in (s2, y # ys))"

lemma run_samples_append:
  "run_samples step s (xs @ ys) = joined (run_samples step) s xs ys"
  by (induction xs arbitrary: s) (simp_all add: joined_def split_beta Let_def)

lemma run_samples_length [simp]: "length (snd (run_samples step s xs)) = length xs"
  by (induction xs arbitrary: s) (simp_all add: split_beta Let_def)

text \<open>The even and the odd positions, and back.\<close>

fun evens :: "'a list \<Rightarrow> 'a list" where
  "evens (x # y # xs) = x # evens xs"
| "evens xs = []"

fun odds :: "'a list \<Rightarrow> 'a list" where
  "odds (x # y # xs) = y # odds xs"
| "odds xs = []"

fun interleave :: "'a list \<Rightarrow> 'a list \<Rightarrow> 'a list" where
  "interleave (x # xs) (y # ys) = x # y # interleave xs ys"
| "interleave xs ys = []"

lemma length_evens [simp]: "length (evens xs) = length xs div 2"
  by (induction xs rule: evens.induct) simp_all

lemma length_odds [simp]: "length (odds xs) = length xs div 2"
  by (induction xs rule: odds.induct) simp_all

lemma length_interleave [simp]: "length xs = length ys \<Longrightarrow> length (interleave xs ys) = 2 * length xs"
  by (induction xs ys rule: interleave.induct) simp_all

lemma evens_append: "2 dvd length xs \<Longrightarrow> evens (xs @ ys) = evens xs @ evens ys"
  by (induction xs rule: evens.induct) simp_all

lemma odds_append: "2 dvd length xs \<Longrightarrow> odds (xs @ ys) = odds xs @ odds ys"
  by (induction xs rule: odds.induct) simp_all

lemma interleave_append:
  "length xs = length ys \<Longrightarrow> interleave (xs @ xs') (ys @ ys') = interleave xs ys @ interleave xs' ys'"
  by (induction xs ys rule: interleave.induct) simp_all

lemma interleave_evens_odds: "2 dvd length xs \<Longrightarrow> interleave (evens xs) (odds xs) = xs"
  by (induction xs rule: evens.induct) simp_all

end
