(* ===== verification/ResampleBy2.thy ===== *)
theory ResampleBy2
  imports Spl StreamFilter
begin

text \<open>
  The resampling by two of WebRTC's signal processing library: \<open>resample_by_2_internal.c\<close> (the
  eight functions on top of three-stage all-pass filters) and \<open>resample_by_2.c\<close>. The state array
  of a filter, \<open>int32_t[8]\<close> or \<open>[16]\<close>, is given by its sections of four entries, one for each
  all-pass chain. The functions run over a stream chunk by chunk; they are interpretations of
  \<open>rate_filter\<close>.
\<close>

type_synonym quad = "int \<times> int \<times> int \<times> int"
type_synonym state8 = "quad \<times> quad"
type_synonym state16 = "quad \<times> quad \<times> quad \<times> quad"

definition zero4 :: quad where
  "zero4 = (0, 0, 0, 0)"

subsection \<open>One all-pass chain\<close>

definition kResampleAllpass0 :: "int \<times> int \<times> int" where
  "kResampleAllpass0 = (821, 6110, 12382)"

definition kResampleAllpass1 :: "int \<times> int \<times> int" where
  "kResampleAllpass1 = (3050, 9368, 15063)"

text \<open>
  One input sample. The differences are scaled down by 14 bits, the first with rounding and the
  others towards zero; a product of a difference and a coefficient fits 32 bits, so one conversion
  covers it and the addition. The output is the last entry of the state.
\<close>

definition scale_trunc :: "int \<Rightarrow> int" where
  "scale_trunc diff = (let d = drop_bit 14 diff in if d < 0 then d + 1 else d)"

definition allpass :: "int \<times> int \<times> int \<Rightarrow> quad \<Rightarrow> int \<Rightarrow> quad \<times> int" where
  "allpass c st in0 =
     (case (c, st) of ((c0, c1, c2), (s0, s1, s2, s3)) \<Rightarrow>
        let diff0 = drop_bit 14 (s32 (s32 (in0 - s1) + 8192));
            tmp1 = s32 (s0 + diff0 * c0);
            diff1 = scale_trunc (s32 (tmp1 - s2));
            tmp0 = s32 (s1 + diff1 * c1);
            diff2 = scale_trunc (s32 (tmp0 - s3));
            s3' = s32 (s2 + diff2 * c2)
        in ((in0, tmp1, tmp0, s3'), s3'))"

text \<open>A 16-bit sample shifted 15 positions to the left with an offset, and the clipping back.\<close>

definition short_to_int :: "int \<Rightarrow> int" where
  "short_to_int x = s32 (push_bit 15 x + 16384)"

definition clip16 :: "int \<Rightarrow> int" where
  "clip16 x = (let a = (if 32767 < x then 32767 else x) in s16 (if a < - 32768 then - 32768 else a))"

subsection \<open>Decimators and interpolators\<close>

text \<open>
  The lower chain runs over all even samples, then the upper one over the odd ones, then their
  halved outputs are added. The last loop works on two outputs per round; the number of outputs is
  even at every call.
\<close>

definition WebRtcSpl_DownBy2IntToShort :: "state8 \<Rightarrow> int list \<Rightarrow> state8 \<times> int list" where
  "WebRtcSpl_DownBy2IntToShort st in0 =
     (let (lower, los) = run_samples (allpass kResampleAllpass1) (fst st) (evens in0);
          (upper, ups) = run_samples (allpass kResampleAllpass0) (snd st) (odds in0)
      in ((lower, upper),
          map2 (\<lambda>a b. clip16 (drop_bit 15 (s32 (drop_bit 1 a + drop_bit 1 b)))) los ups))"

definition WebRtcSpl_DownBy2ShortToInt :: "state8 \<Rightarrow> int list \<Rightarrow> state8 \<times> int list" where
  "WebRtcSpl_DownBy2ShortToInt st in0 =
     (let (lower, los) = run_samples (allpass kResampleAllpass1) (fst st) (map short_to_int (evens in0));
          (upper, ups) = run_samples (allpass kResampleAllpass0) (snd st) (map short_to_int (odds in0))
      in ((lower, upper), map2 (\<lambda>a b. s32 (drop_bit 1 a + drop_bit 1 b)) los ups))"

definition up_by_2 :: "(int \<Rightarrow> int) \<Rightarrow> (int \<Rightarrow> int) \<Rightarrow> state8 \<Rightarrow> int list \<Rightarrow> state8 \<times> int list" where
  "up_by_2 pre post st in0 =
     (let (upper, ups) = run_samples (allpass kResampleAllpass0) (snd st) (map pre in0);
          (lower, los) = run_samples (allpass kResampleAllpass1) (fst st) (map pre in0)
      in ((lower, upper), interleave (map post ups) (map post los)))"

definition WebRtcSpl_UpBy2ShortToInt :: "state8 \<Rightarrow> int list \<Rightarrow> state8 \<times> int list" where
  "WebRtcSpl_UpBy2ShortToInt st in0 = up_by_2 short_to_int (drop_bit 15) st in0"

definition WebRtcSpl_UpBy2IntToInt :: "state8 \<Rightarrow> int list \<Rightarrow> state8 \<times> int list" where
  "WebRtcSpl_UpBy2IntToInt st in0 = up_by_2 (\<lambda>x. x) (\<lambda>y. y) st in0"

definition WebRtcSpl_UpBy2IntToShort :: "state8 \<Rightarrow> int list \<Rightarrow> state8 \<times> int list" where
  "WebRtcSpl_UpBy2IntToShort st in0 = up_by_2 (\<lambda>x. x) (\<lambda>y. clip16 (drop_bit 15 y)) st in0"

subsection \<open>Low-pass filters\<close>

text \<open>
  Four chains. The first one gets the odd samples one step late: its first input is the last odd
  sample of the previous chunk, which the fourth chain keeps in \<open>state[12]\<close>.
\<close>

definition lp_by_2 :: "(int \<Rightarrow> int) \<Rightarrow> state16 \<Rightarrow> int list \<Rightarrow> state16 \<times> int list" where
  "lp_by_2 pre st in0 =
     (case st of (q0, q1, q2, q3) \<Rightarrow>
        let es = map pre (evens in0); os = map pre (odds in0);
            (q0', e_lo) = run_samples (allpass kResampleAllpass1) q0 (take (length os) (fst q3 # os));
            (q1', e_up) = run_samples (allpass kResampleAllpass0) q1 es;
            (q2', o_lo) = run_samples (allpass kResampleAllpass1) q2 es;
            (q3', o_up) = run_samples (allpass kResampleAllpass0) q3 os;
            mix = (\<lambda>a b. drop_bit 15 (s32 (drop_bit 1 a + drop_bit 1 b)))
        in ((q0', q1', q2', q3'), interleave (map2 mix e_lo e_up) (map2 mix o_lo o_up)))"

definition WebRtcSpl_LPBy2ShortToInt :: "state16 \<Rightarrow> int list \<Rightarrow> state16 \<times> int list" where
  "WebRtcSpl_LPBy2ShortToInt st in0 = lp_by_2 short_to_int st in0"

definition WebRtcSpl_LPBy2IntToInt :: "state16 \<Rightarrow> int list \<Rightarrow> state16 \<times> int list" where
  "WebRtcSpl_LPBy2IntToInt st in0 = lp_by_2 (\<lambda>x. x) st in0"

subsection \<open>resample_by_2.c\<close>

text \<open>The portable variant; the coefficients are unsigned.\<close>

definition kBy2Allpass1 :: "int \<times> int \<times> int" where
  "kBy2Allpass1 = (3284, 24441, 49528)"

definition kBy2Allpass2 :: "int \<times> int \<times> int" where
  "kBy2Allpass2 = (12199, 37471, 60255)"

definition WEBRTC_SPL_SCALEDIFF32 :: "int \<Rightarrow> int \<Rightarrow> int \<Rightarrow> int" where
  "WEBRTC_SPL_SCALEDIFF32 A B C =
     s32 (C + drop_bit 16 B * A + drop_bit 16 (u32 ((B AND 0xFFFF) * A)))"

definition allpass_scaled :: "int \<times> int \<times> int \<Rightarrow> quad \<Rightarrow> int \<Rightarrow> quad \<times> int" where
  "allpass_scaled c st in32 =
     (case (c, st) of ((c0, c1, c2), (s0, s1, s2, s3)) \<Rightarrow>
        let tmp1 = WEBRTC_SPL_SCALEDIFF32 c0 (s32 (in32 - s1)) s0;
            tmp2 = WEBRTC_SPL_SCALEDIFF32 c1 (s32 (tmp1 - s2)) s1;
            s3' = WEBRTC_SPL_SCALEDIFF32 c2 (s32 (tmp2 - s3)) s2
        in ((in32, tmp1, tmp2, s3'), s3'))"

fun WebRtcSpl_DownsampleBy2 :: "state8 \<Rightarrow> int list \<Rightarrow> state8 \<times> int list" where
  "WebRtcSpl_DownsampleBy2 (lower, upper) (x # y # in0) =
     (let (lower', a) = allpass_scaled kBy2Allpass2 lower (x * 1024);
          (upper', b) = allpass_scaled kBy2Allpass1 upper (y * 1024);
          out32 = drop_bit 11 (s32 (a + b + 1024));
          (st, out) = WebRtcSpl_DownsampleBy2 (lower', upper') in0
      in (st, WebRtcSpl_SatW32ToW16 out32 # out))"
| "WebRtcSpl_DownsampleBy2 st in0 = (st, [])"

fun WebRtcSpl_UpsampleBy2 :: "state8 \<Rightarrow> int list \<Rightarrow> state8 \<times> int list" where
  "WebRtcSpl_UpsampleBy2 st [] = (st, [])"
| "WebRtcSpl_UpsampleBy2 (lower, upper) (x # in0) =
     (let (lower', a) = allpass_scaled kBy2Allpass1 lower (x * 1024);
          (upper', b) = allpass_scaled kBy2Allpass2 upper (x * 1024);
          out_a = WebRtcSpl_SatW32ToW16 (drop_bit 10 (s32 (a + 512)));
          out_b = WebRtcSpl_SatW32ToW16 (drop_bit 10 (s32 (b + 512)));
          (st, out) = WebRtcSpl_UpsampleBy2 (lower', upper') in0
      in (st, out_a # out_b # out))"

subsection \<open>They are stream filters\<close>

lemma map2_append:
  "length xs = length ys \<Longrightarrow> map2 f (xs @ xs') (ys @ ys') = map2 f xs ys @ map2 f xs' ys'"
  by simp

lemma run_samples_snd_length: "run_samples step s xs = (s', ys) \<Longrightarrow> length ys = length xs"
  using run_samples_length [of step s xs] by simp

lemma down_append:
  assumes "2 dvd length xs"
  shows "WebRtcSpl_DownBy2ShortToInt st (xs @ ys) = joined WebRtcSpl_DownBy2ShortToInt st xs ys"
    and "WebRtcSpl_DownBy2IntToShort st (xs @ ys) = joined WebRtcSpl_DownBy2IntToShort st xs ys"
  using assms
  by (simp_all add: WebRtcSpl_DownBy2ShortToInt_def WebRtcSpl_DownBy2IntToShort_def joined_def
      split_beta Let_def evens_append odds_append run_samples_append)

lemma down_length:
  "length (snd (WebRtcSpl_DownBy2ShortToInt st xs)) = length xs div 2"
  "length (snd (WebRtcSpl_DownBy2IntToShort st xs)) = length xs div 2"
  by (simp_all add: WebRtcSpl_DownBy2ShortToInt_def WebRtcSpl_DownBy2IntToShort_def split_beta Let_def)

interpretation down_si: rate_filter WebRtcSpl_DownBy2ShortToInt 2 1 2
  by unfold_locales
    (simp_all add: down_append down_length WebRtcSpl_DownBy2ShortToInt_def [of _ "[]"])

interpretation down_is: rate_filter WebRtcSpl_DownBy2IntToShort 2 1 2
  by unfold_locales
    (simp_all add: down_append down_length WebRtcSpl_DownBy2IntToShort_def [of _ "[]"])

lemma up_append: "up_by_2 pre post st (xs @ ys) = joined (up_by_2 pre post) st xs ys"
  by (simp add: up_by_2_def joined_def split_beta Let_def run_samples_append interleave_append)

lemma up_length: "length (snd (up_by_2 pre post st xs)) = 2 * length xs"
  by (simp add: up_by_2_def split_beta Let_def)

lemma up_nil: "up_by_2 pre post st [] = (st, [])"
  by (simp add: up_by_2_def)

interpretation up_si: rate_filter WebRtcSpl_UpBy2ShortToInt 1 2 1
  unfolding WebRtcSpl_UpBy2ShortToInt_def [abs_def]
  by unfold_locales (simp_all add: up_append up_length up_nil joined_def)

interpretation up_ii: rate_filter WebRtcSpl_UpBy2IntToInt 1 2 1
  unfolding WebRtcSpl_UpBy2IntToInt_def [abs_def]
  by unfold_locales (simp_all add: up_append up_length up_nil joined_def)

interpretation up_is: rate_filter WebRtcSpl_UpBy2IntToShort 1 2 1
  unfolding WebRtcSpl_UpBy2IntToShort_def [abs_def]
  by unfold_locales (simp_all add: up_append up_length up_nil joined_def)

text \<open>The last input of a chain stays in the first entry of its state.\<close>

lemma allpass_first: "fst (fst (allpass c s x)) = x"
  by (simp add: allpass_def split_beta Let_def)

lemma allpass_run_first:
  "fst (fst (run_samples (allpass c) s xs)) = (if xs = [] then fst s else last xs)"
  by (induction xs arbitrary: s) (simp_all add: split_beta Let_def allpass_first)

lemma take_delayed:
  "take (length xs + length ys) (d # xs @ ys) =
     take (length xs) (d # xs) @ take (length ys) ((if xs = [] then d else last xs) # ys)"
proof (cases xs rule: rev_cases)
  case Nil
  then show ?thesis by simp
next
  case (snoc zs z)
  then show ?thesis by (cases ys) simp_all
qed

lemma lp_append:
  assumes "2 dvd length xs" and "2 dvd length ys"
  shows "lp_by_2 pre st (xs @ ys) = joined (lp_by_2 pre) st xs ys"
  using assms take_delayed [of "map pre (odds xs)" "map pre (odds ys)" "fst (snd (snd (snd st)))"]
  by (simp add: lp_by_2_def joined_def split_beta Let_def evens_append odds_append
      run_samples_append interleave_append allpass_run_first)

lemma lp_length: "2 dvd length xs \<Longrightarrow> length (snd (lp_by_2 pre st xs)) = length xs"
  by (simp add: lp_by_2_def split_beta Let_def)

lemma lp_nil: "lp_by_2 pre st [] = (st, [])"
  by (simp add: lp_by_2_def split_beta Let_def)

interpretation lp_si: rate_filter WebRtcSpl_LPBy2ShortToInt 2 1 1
  unfolding WebRtcSpl_LPBy2ShortToInt_def [abs_def]
  by unfold_locales (simp_all add: lp_append lp_length lp_nil)

interpretation lp_ii: rate_filter WebRtcSpl_LPBy2IntToInt 2 1 1
  unfolding WebRtcSpl_LPBy2IntToInt_def [abs_def]
  by unfold_locales (simp_all add: lp_append lp_length lp_nil)

lemma downsample_step:
  "WebRtcSpl_DownsampleBy2 st (x # y # in0) =
     (let (lower', a) = allpass_scaled kBy2Allpass2 (fst st) (x * 1024);
          (upper', b) = allpass_scaled kBy2Allpass1 (snd st) (y * 1024);
          (st', out) = WebRtcSpl_DownsampleBy2 (lower', upper') in0
      in (st', WebRtcSpl_SatW32ToW16 (drop_bit 11 (s32 (a + b + 1024))) # out))"
  by (cases st) (simp add: Let_def)

lemma downsample_append:
  assumes "2 dvd length xs"
  shows "WebRtcSpl_DownsampleBy2 st (xs @ ys) = joined WebRtcSpl_DownsampleBy2 st xs ys"
  using assms
  by (induction xs arbitrary: st rule: evens.induct)
    (simp_all add: joined_def split_beta Let_def downsample_step)

lemma downsample_length: "length (snd (WebRtcSpl_DownsampleBy2 st xs)) = length xs div 2"
  by (induction xs arbitrary: st rule: evens.induct) (simp_all add: split_beta Let_def downsample_step)

interpretation downsample: rate_filter WebRtcSpl_DownsampleBy2 2 1 2
  by unfold_locales (simp_all add: downsample_append downsample_length)

lemma upsample_append: "WebRtcSpl_UpsampleBy2 st (xs @ ys) = joined WebRtcSpl_UpsampleBy2 st xs ys"
proof (induction xs arbitrary: st)
  case (Cons x xs)
  then show ?case by (cases st) (simp add: joined_def split_beta Let_def)
qed (simp add: joined_def)

lemma upsample_length: "length (snd (WebRtcSpl_UpsampleBy2 st xs)) = 2 * length xs"
proof (induction xs arbitrary: st)
  case (Cons x xs)
  then show ?case by (cases st) (simp add: split_beta Let_def)
qed simp

interpretation upsample: rate_filter WebRtcSpl_UpsampleBy2 1 2 1
  by unfold_locales (simp_all add: upsample_append upsample_length)

subsection \<open>Properties\<close>



end
