(* ===== verification/Resample.thy ===== *)
theory Resample
  imports ResampleBy2
begin

text \<open>
  The resamplers between 8, 16, 22, 32, 44 and 48 kHz: \<open>resample_fractional.c\<close>, \<open>resample_48khz.c\<close>
  and \<open>resample.c\<close>. The scratch array \<open>tmpmem\<close> of the C functions only carries the intermediate
  signals from one stage to the next; each stage is the function of the signal it reads, so the
  array does not appear. Where a fractional stage works in place its output index stays below its
  input index (\<open>in_place_behind\<close>).
\<close>

subsection \<open>Fractional resampling\<close>

definition kCoefficients48To32 :: "int list list" where
  "kCoefficients48To32 =
     [[778, -2050, 1087, 23285, 12903, -3783, 441, 222],
      [222, 441, -3783, 12903, 23285, 1087, -2050, 778]]"

definition kCoefficients32To24 :: "int list list" where
  "kCoefficients32To24 =
     [[767, -2362, 2434, 24406, 10620, -3838, 721, 90],
      [386, -381, -2646, 19062, 19062, -2646, -381, 386],
      [90, 721, -3838, 10620, 24406, 2434, -2362, 767]]"

definition kCoefficients44To32 :: "int list list" where
  "kCoefficients44To32 =
     [[117, -669, 2245, -6183, 26267, 13529, -3245, 845, -138],
      [-101, 612, -2283, 8532, 29790, -5138, 1789, -524, 91],
      [50, -292, 1016, -3064, 32010, 3933, -1147, 315, -53],
      [-156, 974, -3863, 18603, 21691, -6246, 2353, -712, 126]]"

definition kCoefficients32To22 :: "int list list" where
  "kCoefficients32To22 =
     [[127, -712,  2359, -6333, 23456, 16775, -3695,  945, -154],
      [-39,  230,  -830,  2785, 32366, -2324,   760, -218,   38],
      [117, -663,  2222, -6133, 26634, 13070, -3174,  831, -137],
      [-77,  457, -1677,  5958, 31175, -4136,  1405, -408,   71],
      [ 98, -560,  1900, -5406, 29240,  9423, -2480,  663, -110]]"

text \<open>
  An inner product of coefficients with the samples from an offset on, or backwards from it; every
  partial sum is a 32-bit value.
\<close>

definition fir :: "int list \<Rightarrow> int list \<Rightarrow> nat \<Rightarrow> int" where
  "fir coefs In off =
     foldl (\<lambda>tmp i. s32 (tmp + coefs ! i * In ! (off + i))) 16384 [0..<length coefs]"

definition fir_back :: "int list \<Rightarrow> int list \<Rightarrow> nat \<Rightarrow> int" where
  "fir_back coefs In off =
     foldl (\<lambda>tmp i. s32 (tmp + coefs ! i * In ! (off - i))) 16384 [0..<length coefs]"

text \<open>One block at the position of the input pointer, \<open>K\<close> times.\<close>

fun blocks :: "(int list \<Rightarrow> nat \<Rightarrow> int list) \<Rightarrow> nat \<Rightarrow> int list \<Rightarrow> nat \<Rightarrow> nat \<Rightarrow> int list" where
  "blocks body step In off 0 = []"
| "blocks body step In off (Suc K) = body In off @ blocks body step In (off + step) K"

definition WebRtcSpl_Resample48khzTo32khz :: "int list \<Rightarrow> nat \<Rightarrow> int list" where
  "WebRtcSpl_Resample48khzTo32khz In K =
     blocks (\<lambda>In o0. [fir (kCoefficients48To32 ! 0) In o0, fir (kCoefficients48To32 ! 1) In (o0 + 1)])
       3 In 0 K"

definition WebRtcSpl_Resample32khzTo24khz :: "int list \<Rightarrow> nat \<Rightarrow> int list" where
  "WebRtcSpl_Resample32khzTo24khz In K =
     blocks (\<lambda>In o0. [fir (kCoefficients32To24 ! 0) In o0, fir (kCoefficients32To24 ! 1) In (o0 + 1),
         fir (kCoefficients32To24 ! 2) In (o0 + 2)]) 4 In 0 K"

definition WebRtcSpl_Resample44khzTo32khz :: "int list \<Rightarrow> nat \<Rightarrow> int list" where
  "WebRtcSpl_Resample44khzTo32khz In K =
     blocks (\<lambda>In o0.
         [s32 (push_bit 15 (In ! (o0 + 3)) + 16384),
          fir (kCoefficients44To32 ! 0) In o0,
          fir (kCoefficients44To32 ! 1) In (o0 + 2),
          fir (kCoefficients44To32 ! 2) In (o0 + 3),
          fir (kCoefficients44To32 ! 3) In (o0 + 5),
          fir_back (kCoefficients44To32 ! 2) In (o0 + 14),
          fir_back (kCoefficients44To32 ! 1) In (o0 + 15),
          fir_back (kCoefficients44To32 ! 0) In (o0 + 17)]) 11 In 0 K"

definition block_32_to_22 :: "(int \<Rightarrow> int) \<Rightarrow> (int \<Rightarrow> int) \<Rightarrow> int list \<Rightarrow> nat \<Rightarrow> int list" where
  "block_32_to_22 first post In o0 =
     [first (In ! (o0 + 3)),
      post (fir (kCoefficients32To22 ! 0) In o0),
      post (fir (kCoefficients32To22 ! 1) In (o0 + 2)),
      post (fir (kCoefficients32To22 ! 2) In (o0 + 3)),
      post (fir (kCoefficients32To22 ! 3) In (o0 + 5)),
      post (fir (kCoefficients32To22 ! 4) In (o0 + 6)),
      post (fir_back (kCoefficients32To22 ! 4) In (o0 + 16)),
      post (fir_back (kCoefficients32To22 ! 3) In (o0 + 17)),
      post (fir_back (kCoefficients32To22 ! 2) In (o0 + 19)),
      post (fir_back (kCoefficients32To22 ! 1) In (o0 + 20)),
      post (fir_back (kCoefficients32To22 ! 0) In (o0 + 22))]"

definition WebRtcSpl_32khzTo22khzIntToInt :: "int list \<Rightarrow> nat \<Rightarrow> int list" where
  "WebRtcSpl_32khzTo22khzIntToInt In K =
     blocks (block_32_to_22 (\<lambda>x. s32 (push_bit 15 x + 16384)) (\<lambda>y. y)) 16 In 0 K"

definition WebRtcSpl_32khzTo22khzIntToShort :: "int list \<Rightarrow> nat \<Rightarrow> int list" where
  "WebRtcSpl_32khzTo22khzIntToShort In K =
     blocks (block_32_to_22 clip16 (\<lambda>y. clip16 (drop_bit 15 y))) 16 In 0 K"

text \<open>
  The history in front of the signal, and the new history, the last eight samples of the signal.
\<close>

definition with_history :: "(int list \<Rightarrow> nat \<Rightarrow> int list) \<Rightarrow> nat \<Rightarrow> int list \<Rightarrow> int list \<Rightarrow> int list \<times> int list" where
  "with_history resampler K history signal =
     (drop (length signal - 8) signal, resampler (history @ signal) K)"

subsection \<open>resample_48khz.c\<close>

record state48khzTo16khz =
  S_48_48 :: state16
  S_48_32 :: "int list"
  S_32_16 :: state8

record state16khzTo48khz =
  S_16_32 :: state8
  S_32_24 :: "int list"
  S_24_48 :: state8

record state48khzTo8khz =
  S_48_24 :: state8
  S_24_24 :: state16
  S_24_16 :: "int list"
  S_16_8 :: state8

record state8khzTo48khz =
  S_8_16 :: state8
  S_16_12 :: "int list"
  S_12_24 :: state8
  S_24_48' :: state8

definition zero8 :: state8 where
  "zero8 = (zero4, zero4)"

definition zero16 :: state16 where
  "zero16 = (zero4, zero4, zero4, zero4)"

definition WebRtcSpl_Resample48khzTo16khz ::
    "state48khzTo16khz \<Rightarrow> int list \<Rightarrow> state48khzTo16khz \<times> int list" where
  "WebRtcSpl_Resample48khzTo16khz st in0 =
     (let (a, t1) = WebRtcSpl_LPBy2ShortToInt (S_48_48 st) in0;
          (h, t2) = with_history WebRtcSpl_Resample48khzTo32khz 160 (S_48_32 st) t1;
          (b, out) = WebRtcSpl_DownBy2IntToShort (S_32_16 st) t2
      in (\<lparr>S_48_48 = a, S_48_32 = h, S_32_16 = b\<rparr>, out))"

definition WebRtcSpl_ResetResample48khzTo16khz :: state48khzTo16khz where
  "WebRtcSpl_ResetResample48khzTo16khz = \<lparr>S_48_48 = zero16, S_48_32 = replicate 8 0, S_32_16 = zero8\<rparr>"

definition WebRtcSpl_Resample16khzTo48khz ::
    "state16khzTo48khz \<Rightarrow> int list \<Rightarrow> state16khzTo48khz \<times> int list" where
  "WebRtcSpl_Resample16khzTo48khz st in0 =
     (let (a, t1) = WebRtcSpl_UpBy2ShortToInt (S_16_32 st) in0;
          (h, t2) = with_history WebRtcSpl_Resample32khzTo24khz 80 (S_32_24 st) t1;
          (b, out) = WebRtcSpl_UpBy2IntToShort (S_24_48 st) t2
      in (\<lparr>S_16_32 = a, S_32_24 = h, S_24_48 = b\<rparr>, out))"

definition WebRtcSpl_ResetResample16khzTo48khz :: state16khzTo48khz where
  "WebRtcSpl_ResetResample16khzTo48khz = \<lparr>S_16_32 = zero8, S_32_24 = replicate 8 0, S_24_48 = zero8\<rparr>"

definition WebRtcSpl_Resample48khzTo8khz ::
    "state48khzTo8khz \<Rightarrow> int list \<Rightarrow> state48khzTo8khz \<times> int list" where
  "WebRtcSpl_Resample48khzTo8khz st in0 =
     (let (a, t1) = WebRtcSpl_DownBy2ShortToInt (S_48_24 st) in0;
          (b, t2) = WebRtcSpl_LPBy2IntToInt (S_24_24 st) t1;
          (h, t3) = with_history WebRtcSpl_Resample48khzTo32khz 80 (S_24_16 st) t2;
          (c, out) = WebRtcSpl_DownBy2IntToShort (S_16_8 st) t3
      in (\<lparr>S_48_24 = a, S_24_24 = b, S_24_16 = h, S_16_8 = c\<rparr>, out))"

definition WebRtcSpl_ResetResample48khzTo8khz :: state48khzTo8khz where
  "WebRtcSpl_ResetResample48khzTo8khz =
     \<lparr>S_48_24 = zero8, S_24_24 = zero16, S_24_16 = replicate 8 0, S_16_8 = zero8\<rparr>"

definition WebRtcSpl_Resample8khzTo48khz ::
    "state8khzTo48khz \<Rightarrow> int list \<Rightarrow> state8khzTo48khz \<times> int list" where
  "WebRtcSpl_Resample8khzTo48khz st in0 =
     (let (a, t1) = WebRtcSpl_UpBy2ShortToInt (S_8_16 st) in0;
          (h, t2) = with_history WebRtcSpl_Resample32khzTo24khz 40 (S_16_12 st) t1;
          (b, t3) = WebRtcSpl_UpBy2IntToInt (S_12_24 st) t2;
          (c, out) = WebRtcSpl_UpBy2IntToShort (S_24_48' st) t3
      in (\<lparr>S_8_16 = a, S_16_12 = h, S_12_24 = b, S_24_48' = c\<rparr>, out))"

definition WebRtcSpl_ResetResample8khzTo48khz :: state8khzTo48khz where
  "WebRtcSpl_ResetResample8khzTo48khz =
     \<lparr>S_8_16 = zero8, S_16_12 = replicate 8 0, S_12_24 = zero8, S_24_48' = zero8\<rparr>"

subsection \<open>resample.c\<close>

record state22khzTo16khz =
  S_22_44 :: state8
  S_44_32 :: "int list"
  S_32_16b :: state8

record state16khzTo22khz =
  S_16_32b :: state8
  S_32_22 :: "int list"

record state22khzTo8khz =
  S_22_22 :: state16
  S_22_16 :: "int list"
  S_16_8b :: state8

record state8khzTo22khz =
  S_8_16b :: state8
  S_16_11 :: "int list"
  S_11_22 :: state8

text \<open>The loops over the sub-blocks: \<open>n\<close> times \<open>size\<close> samples.\<close>

fun sub_blocks :: "('s \<Rightarrow> int list \<Rightarrow> 's \<times> int list) \<Rightarrow> nat \<Rightarrow> nat \<Rightarrow> 's \<Rightarrow> int list \<Rightarrow> 's \<times> int list" where
  "sub_blocks body size0 0 st in0 = (st, [])"
| "sub_blocks body size0 (Suc n) st in0 =
     (let (st1, out1) = body st (take size0 in0);
          (st2, out2) = sub_blocks body size0 n st1 (drop size0 in0)
      in (st2, out1 @ out2))"

definition block_22_16 :: "state22khzTo16khz \<Rightarrow> int list \<Rightarrow> state22khzTo16khz \<times> int list" where
  "block_22_16 st in0 =
     (let (a, t1) = WebRtcSpl_UpBy2ShortToInt (S_22_44 st) in0;
          (h, t2) = with_history WebRtcSpl_Resample44khzTo32khz 8 (S_44_32 st) t1;
          (b, out) = WebRtcSpl_DownBy2IntToShort (S_32_16b st) t2
      in (\<lparr>S_22_44 = a, S_44_32 = h, S_32_16b = b\<rparr>, out))"

definition WebRtcSpl_Resample22khzTo16khz ::
    "state22khzTo16khz \<Rightarrow> int list \<Rightarrow> state22khzTo16khz \<times> int list" where
  "WebRtcSpl_Resample22khzTo16khz st in0 = sub_blocks block_22_16 44 5 st in0"

definition WebRtcSpl_ResetResample22khzTo16khz :: state22khzTo16khz where
  "WebRtcSpl_ResetResample22khzTo16khz = \<lparr>S_22_44 = zero8, S_44_32 = replicate 8 0, S_32_16b = zero8\<rparr>"

definition block_16_22 :: "state16khzTo22khz \<Rightarrow> int list \<Rightarrow> state16khzTo22khz \<times> int list" where
  "block_16_22 st in0 =
     (let (a, t1) = WebRtcSpl_UpBy2ShortToInt (S_16_32b st) in0;
          (h, out) = with_history WebRtcSpl_32khzTo22khzIntToShort 5 (S_32_22 st) t1
      in (\<lparr>S_16_32b = a, S_32_22 = h\<rparr>, out))"

definition WebRtcSpl_Resample16khzTo22khz ::
    "state16khzTo22khz \<Rightarrow> int list \<Rightarrow> state16khzTo22khz \<times> int list" where
  "WebRtcSpl_Resample16khzTo22khz st in0 = sub_blocks block_16_22 40 4 st in0"

definition WebRtcSpl_ResetResample16khzTo22khz :: state16khzTo22khz where
  "WebRtcSpl_ResetResample16khzTo22khz = \<lparr>S_16_32b = zero8, S_32_22 = replicate 8 0\<rparr>"

definition block_22_8 :: "state22khzTo8khz \<Rightarrow> int list \<Rightarrow> state22khzTo8khz \<times> int list" where
  "block_22_8 st in0 =
     (let (a, t1) = WebRtcSpl_LPBy2ShortToInt (S_22_22 st) in0;
          (h, t2) = with_history WebRtcSpl_Resample44khzTo32khz 10 (S_22_16 st) t1;
          (b, out) = WebRtcSpl_DownBy2IntToShort (S_16_8b st) t2
      in (\<lparr>S_22_22 = a, S_22_16 = h, S_16_8b = b\<rparr>, out))"

definition WebRtcSpl_Resample22khzTo8khz ::
    "state22khzTo8khz \<Rightarrow> int list \<Rightarrow> state22khzTo8khz \<times> int list" where
  "WebRtcSpl_Resample22khzTo8khz st in0 = sub_blocks block_22_8 110 2 st in0"

definition WebRtcSpl_ResetResample22khzTo8khz :: state22khzTo8khz where
  "WebRtcSpl_ResetResample22khzTo8khz = \<lparr>S_22_22 = zero16, S_22_16 = replicate 8 0, S_16_8b = zero8\<rparr>"

definition block_8_22 :: "state8khzTo22khz \<Rightarrow> int list \<Rightarrow> state8khzTo22khz \<times> int list" where
  "block_8_22 st in0 =
     (let (a, t1) = WebRtcSpl_UpBy2ShortToInt (S_8_16b st) in0;
          (h, t2) = with_history WebRtcSpl_32khzTo22khzIntToInt 5 (S_16_11 st) t1;
          (b, out) = WebRtcSpl_UpBy2IntToShort (S_11_22 st) t2
      in (\<lparr>S_8_16b = a, S_16_11 = h, S_11_22 = b\<rparr>, out))"

definition WebRtcSpl_Resample8khzTo22khz ::
    "state8khzTo22khz \<Rightarrow> int list \<Rightarrow> state8khzTo22khz \<times> int list" where
  "WebRtcSpl_Resample8khzTo22khz st in0 = sub_blocks block_8_22 40 2 st in0"

definition WebRtcSpl_ResetResample8khzTo22khz :: state8khzTo22khz where
  "WebRtcSpl_ResetResample8khzTo22khz = \<lparr>S_8_16b = zero8, S_16_11 = replicate 8 0, S_11_22 = zero8\<rparr>"

subsection \<open>Sizes and ranges\<close>

text \<open>In place: the block \<open>m\<close> writes below what the later blocks read.\<close>

lemma in_place_behind:
  "2 * m + 1 < 8 + 3 * (m + 1)" "3 * m + 2 < 8 + 4 * (m + 1)" "8 * m + 7 < 8 + 11 * (m + 1)"
  "11 * m + 10 < 10 + 16 * (m + 1)" for m :: nat
  by simp_all

lemma blocks_length:
  assumes "\<And>In o0. length (body In o0) = n"
  shows "length (blocks body step In o0 K) = n * K"
  by (induction K arbitrary: o0) (simp_all add: assms)

lemma fractional_length [simp]:
  "length (WebRtcSpl_Resample48khzTo32khz In K) = 2 * K"
  "length (WebRtcSpl_Resample32khzTo24khz In K) = 3 * K"
  "length (WebRtcSpl_Resample44khzTo32khz In K) = 8 * K"
  "length (WebRtcSpl_32khzTo22khzIntToInt In K) = 11 * K"
  "length (WebRtcSpl_32khzTo22khzIntToShort In K) = 11 * K"
  by (simp_all add: WebRtcSpl_Resample48khzTo32khz_def WebRtcSpl_Resample32khzTo24khz_def
      WebRtcSpl_Resample44khzTo32khz_def WebRtcSpl_32khzTo22khzIntToInt_def
      WebRtcSpl_32khzTo22khzIntToShort_def block_32_to_22_def blocks_length)

lemma clip16_s16 [simp]: "is_s16 (clip16 x)"
  by (simp add: clip16_def Let_def)

lemma by2_s16:
  "\<forall>y\<in>set (snd (WebRtcSpl_DownBy2IntToShort st xs)). is_s16 y"
  "\<forall>y\<in>set (snd (WebRtcSpl_UpBy2IntToShort st xs)). is_s16 y"
proof -
  have "set (interleave as bs) \<subseteq> set as \<union> set bs" for as bs :: "int list"
    by (induction as bs rule: interleave.induct) auto
  then show "\<forall>y\<in>set (snd (WebRtcSpl_UpBy2IntToShort st xs)). is_s16 y"
    by (fastforce simp: WebRtcSpl_UpBy2IntToShort_def up_by_2_def split_beta Let_def)
qed (auto simp: WebRtcSpl_DownBy2IntToShort_def split_beta Let_def)

lemma short_22_s16:
  "\<forall>y\<in>set (WebRtcSpl_32khzTo22khzIntToShort In K). is_s16 y"
proof -
  have "\<forall>y\<in>set (blocks (block_32_to_22 clip16 (\<lambda>y. clip16 (drop_bit 15 y))) 16 In o0 K). is_s16 y" for o0
    by (induction K arbitrary: o0) (auto simp: block_32_to_22_def)
  then show ?thesis by (simp add: WebRtcSpl_32khzTo22khzIntToShort_def)
qed

lemma by2_lengths [simp]:
  "length (snd (WebRtcSpl_DownBy2IntToShort a xs)) = length xs div 2"
  "length (snd (WebRtcSpl_DownBy2ShortToInt a xs)) = length xs div 2"
  "length (snd (WebRtcSpl_UpBy2ShortToInt a xs)) = 2 * length xs"
  "length (snd (WebRtcSpl_UpBy2IntToInt a xs)) = 2 * length xs"
  "length (snd (WebRtcSpl_UpBy2IntToShort a xs)) = 2 * length xs"
  by (simp_all add: down_length WebRtcSpl_UpBy2ShortToInt_def WebRtcSpl_UpBy2IntToInt_def
      WebRtcSpl_UpBy2IntToShort_def up_length)

lemmas resampler_bodies = with_history_def split_beta Let_def

text \<open>\<open>n\<close> samples, all of them in range.\<close>

definition samples :: "nat \<Rightarrow> int list \<Rightarrow> bool" where
  "samples n ys \<longleftrightarrow> length ys = n \<and> (\<forall>y\<in>set ys. is_s16 y)"

lemma samples_append: "samples m xs \<Longrightarrow> samples n ys \<Longrightarrow> samples (m + n) (xs @ ys)"
  by (auto simp: samples_def)

lemma sub_blocks_samples:
  assumes "\<And>st xs. samples k (snd (body st xs))"
  shows "samples (k * n) (snd (sub_blocks body m n st xs))"
proof (induction n arbitrary: st xs)
  case 0
  then show ?case by (simp add: samples_def)
next
  case (Suc n)
  show ?case using samples_append [OF assms Suc.IH] by (simp add: split_beta Let_def)
qed

lemma stage_samples:
  "length xs = 2 * n \<Longrightarrow> samples n (snd (WebRtcSpl_DownBy2IntToShort st8 xs))"
  "n = 2 * length xs \<Longrightarrow> samples n (snd (WebRtcSpl_UpBy2IntToShort st8 xs))"
  "n = 11 * K \<Longrightarrow> samples n (WebRtcSpl_32khzTo22khzIntToShort xs K)"
  using by2_s16 [of st8 xs] short_22_s16 [of xs K] by (simp_all add: samples_def)

lemma block_samples:
  "samples 32 (snd (block_22_16 st1 xs))" "samples 55 (snd (block_16_22 st2 xs))"
  "samples 40 (snd (block_22_8 st3 xs))" "samples 110 (snd (block_8_22 st4 xs))"
  by (simp_all add: block_22_16_def block_16_22_def block_22_8_def block_8_22_def resampler_bodies
      stage_samples)


subsection \<open>The fractional stages stay inside their signal\<close>

lemma fir_prefix: "off + length coefs \<le> length In \<Longrightarrow> fir coefs (In @ J) off = fir coefs In off"
  unfolding fir_def by (rule foldl_cong) (auto simp: nth_append)

lemma fir_back_prefix: "off < length In \<Longrightarrow> fir_back coefs (In @ J) off = fir_back coefs In off"
  unfolding fir_back_def by (rule foldl_cong) (auto simp: nth_append)

lemma blocks_prefix:
  assumes "\<And>o0. o0 + reach \<le> length In \<Longrightarrow> body (In @ J) o0 = body In o0"
    and "o0 + step * K + reach \<le> length In + step"
  shows "blocks body step (In @ J) o0 K = blocks body step In o0 K"
  using assms(2)
proof (induction K arbitrary: o0)
  case 0
  then show ?case by simp
next
  case (Suc K)
  have "o0 + reach \<le> length In" "o0 + step + step * K + reach \<le> length In + step"
    using Suc.prems by (simp_all add: algebra_simps)
  then show ?case using assms(1) [of o0] Suc.IH [of "o0 + step"] by simp
qed

lemma coefficient_lengths [simp]:
  "length (kCoefficients48To32 ! 0) = 8" "length (kCoefficients48To32 ! Suc 0) = 8"
  "length (kCoefficients32To24 ! 0) = 8" "length (kCoefficients32To24 ! Suc 0) = 8"
  "length (kCoefficients32To24 ! 2) = 8"
  "length (kCoefficients44To32 ! 0) = 9" "length (kCoefficients44To32 ! Suc 0) = 9"
  "length (kCoefficients44To32 ! 2) = 9" "length (kCoefficients44To32 ! 3) = 9"
  "length (kCoefficients32To22 ! 0) = 9" "length (kCoefficients32To22 ! Suc 0) = 9"
  "length (kCoefficients32To22 ! 2) = 9" "length (kCoefficients32To22 ! 3) = 9"
  "length (kCoefficients32To22 ! 4) = 9"
  by (simp_all add: kCoefficients48To32_def kCoefficients32To24_def kCoefficients44To32_def
      kCoefficients32To22_def)

text \<open>
  behind eight samples of history and a signal of \<open>K\<close> blocks, the fractional resamplers never
  read: whatever the scratch array holds there, the output is the same.
\<close>

theorem fractional_reads_bounded:
  assumes "length hist = 8"
  shows "(length sig = 3 * K \<longrightarrow>
       WebRtcSpl_Resample48khzTo32khz (hist @ sig @ junk) K = WebRtcSpl_Resample48khzTo32khz (hist @ sig) K) \<and>
     (length sig = 4 * K \<longrightarrow>
       WebRtcSpl_Resample32khzTo24khz (hist @ sig @ junk) K = WebRtcSpl_Resample32khzTo24khz (hist @ sig) K) \<and>
     (length sig = 11 * K \<longrightarrow>
       WebRtcSpl_Resample44khzTo32khz (hist @ sig @ junk) K = WebRtcSpl_Resample44khzTo32khz (hist @ sig) K) \<and>
     (length sig = 16 * K \<longrightarrow>
       WebRtcSpl_32khzTo22khzIntToInt (hist @ sig @ junk) K = WebRtcSpl_32khzTo22khzIntToInt (hist @ sig) K \<and>
       WebRtcSpl_32khzTo22khzIntToShort (hist @ sig @ junk) K = WebRtcSpl_32khzTo22khzIntToShort (hist @ sig) K)"
proof -
  let ?In = "hist @ sig"
  have a: "WebRtcSpl_Resample48khzTo32khz (?In @ junk) K = WebRtcSpl_Resample48khzTo32khz ?In K"
    if "length sig = 3 * K"
    unfolding WebRtcSpl_Resample48khzTo32khz_def
    by (rule blocks_prefix [where reach = 9]) (use that assms in \<open>simp_all add: fir_prefix del: append_assoc\<close>)
  have b: "WebRtcSpl_Resample32khzTo24khz (?In @ junk) K = WebRtcSpl_Resample32khzTo24khz ?In K"
    if "length sig = 4 * K"
    unfolding WebRtcSpl_Resample32khzTo24khz_def
    by (rule blocks_prefix [where reach = 10]) (use that assms in \<open>simp_all add: fir_prefix del: append_assoc\<close>)
  have c: "WebRtcSpl_Resample44khzTo32khz (?In @ junk) K = WebRtcSpl_Resample44khzTo32khz ?In K"
    if "length sig = 11 * K"
    unfolding WebRtcSpl_Resample44khzTo32khz_def
    by (rule blocks_prefix [where reach = 18])
      (use that assms in \<open>simp_all add: fir_prefix fir_back_prefix nth_append [of ?In] del: append_assoc\<close>)
  have blk: "block_32_to_22 first post (?In @ junk) o0 = block_32_to_22 first post ?In o0"
    if "o0 + 23 \<le> length ?In" for first post o0
    using that unfolding block_32_to_22_def
    by (simp add: fir_prefix fir_back_prefix nth_append [of ?In] del: append_assoc)
  have d: "blocks (block_32_to_22 first post) 16 (?In @ junk) 0 K = blocks (block_32_to_22 first post) 16 ?In 0 K"
    if "length sig = 16 * K" for first post
    by (rule blocks_prefix [where reach = 23, OF blk]) (use that assms in simp_all)
  show ?thesis
    using a b c d by (simp add: WebRtcSpl_32khzTo22khzIntToInt_def WebRtcSpl_32khzTo22khzIntToShort_def)
qed

theorem fractional_reads_bounded_witness:
  "WebRtcSpl_Resample48khzTo32khz (replicate 8 0 @ [1, 2, 3] @ [9, 9]) 1 =
   WebRtcSpl_Resample48khzTo32khz (replicate 8 0 @ [1, 2, 3]) 1"
  using fractional_reads_bounded [of "replicate 8 0" "[1, 2, 3]" 1 "[9, 9]"] by simp

end
