(* ===== verification/VadInst.thy ===== *)
theory VadInst
  imports Resample
begin

text \<open>
  The state of the voice activity detector (\<open>src/src/webrtc/common_audio/vad/vad_core.h\<close>). The two
  Gaussians of the six channels are held in arrays of twelve, Gaussian \<open>k\<close> of a channel at
  \<open>channel + k * 6\<close>; the sixteen smallest values of a channel are a window of an array of 96.
\<close>

definition kNumChannels :: nat where
  "kNumChannels = 6"

definition kNumGaussians :: nat where
  "kNumGaussians = 2"

definition kTableSize :: nat where
  "kTableSize = kNumChannels * kNumGaussians"

definition kMinEnergy :: int where
  "kMinEnergy = 10"

record VadInstT =
  vad :: int
  downsampling_filter_states :: "int list"
  state_48_to_8 :: state48khzTo8khz
  noise_means :: "int list"
  speech_means :: "int list"
  noise_stds :: "int list"
  speech_stds :: "int list"
  frame_counter :: int
  over_hang :: int
  num_of_speech :: int
  index_vector :: "int list"
  low_value_vector :: "int list"
  mean_value :: "int list"
  upper_state :: "int list"
  lower_state :: "int list"
  hp_filter_state :: quad
  over_hang_max_1 :: "int list"
  over_hang_max_2 :: "int list"
  individual :: "int list"
  total :: "int list"
  init_flag :: int

end
