(* ===== verification/SplVector.thy ===== *)
theory SplVector
  imports Spl
begin

text \<open>
  The vector routines of the signal processing library: \<open>min_max_operations.c\<close>, \<open>energy.c\<close>,
  \<open>get_scaling_square.c\<close>, \<open>vector_scaling_operations.c\<close>, \<open>vector_operations.c\<close>,
  \<open>copy_set_operations.c\<close>, \<open>cross_correlation.c\<close> and \<open>dot_product_with_scale.cc\<close>. An input
  array is a list, and where a function writes an output array of the same length, that list is its
  value.
\<close>

subsection \<open>Minima and maxima\<close>

definition WebRtcSpl_MaxAbsValueW16C :: "int list \<Rightarrow> int" where
  "WebRtcSpl_MaxAbsValueW16C vector =
     (let maximum = foldl (\<lambda>maximum x. if maximum < \<bar>x\<bar> then \<bar>x\<bar> else maximum) 0 vector
      in if 32767 < maximum then 32767 else maximum)"

definition WebRtcSpl_MaxAbsValueW32C :: "int list \<Rightarrow> int" where
  "WebRtcSpl_MaxAbsValueW32C vector =
     (let maximum = foldl (\<lambda>maximum x.
            let absolute = (if x \<noteq> - 2147483648 then \<bar>x\<bar> else 2147483648)
            in if maximum < absolute then absolute else maximum) 0 vector
      in if maximum < 2147483647 then maximum else 2147483647)"

text \<open>The loops that keep the largest or the smallest element, and where it was found.\<close>

definition max_loop :: "int \<Rightarrow> int list \<Rightarrow> int" where
  "max_loop start vector = foldl (\<lambda>maximum x. if maximum < x then x else maximum) start vector"

definition min_loop :: "int \<Rightarrow> int list \<Rightarrow> int" where
  "min_loop start vector = foldl (\<lambda>minimum x. if x < minimum then x else minimum) start vector"

fun index_loop :: "(int \<Rightarrow> int \<Rightarrow> bool) \<Rightarrow> nat \<Rightarrow> nat \<Rightarrow> int \<Rightarrow> int list \<Rightarrow> nat" where
  "index_loop better i index best [] = index"
| "index_loop better i index best (x # xs) =
     (if better x best then index_loop better (Suc i) i x xs
      else index_loop better (Suc i) index best xs)"

definition WebRtcSpl_MaxValueW16C :: "int list \<Rightarrow> int" where
  "WebRtcSpl_MaxValueW16C vector = max_loop (- 32768) vector"

definition WebRtcSpl_MaxValueW32C :: "int list \<Rightarrow> int" where
  "WebRtcSpl_MaxValueW32C vector = max_loop (- 2147483648) vector"

definition WebRtcSpl_MinValueW16C :: "int list \<Rightarrow> int" where
  "WebRtcSpl_MinValueW16C vector = min_loop 32767 vector"

definition WebRtcSpl_MinValueW32C :: "int list \<Rightarrow> int" where
  "WebRtcSpl_MinValueW32C vector = min_loop 2147483647 vector"

definition WebRtcSpl_MaxAbsIndexW16 :: "int list \<Rightarrow> nat" where
  "WebRtcSpl_MaxAbsIndexW16 vector = index_loop (>) 0 0 0 (map abs vector)"

definition WebRtcSpl_MinMaxW16 :: "int list \<Rightarrow> int \<times> int" where
  "WebRtcSpl_MinMaxW16 vector =
     foldl (\<lambda>(minimum, maximum) x. (if x < minimum then x else minimum,
                                   if maximum < x then x else maximum)) (32767, - 32768) vector"

definition WebRtcSpl_MaxAbsElementW16 :: "int list \<Rightarrow> int" where
  "WebRtcSpl_MaxAbsElementW16 vector =
     (case WebRtcSpl_MinMaxW16 vector of (min_val, max_val) \<Rightarrow>
        if min_val = max_val \<or> min_val < - max_val then min_val else max_val)"

definition WebRtcSpl_MaxIndexW16 :: "int list \<Rightarrow> nat" where
  "WebRtcSpl_MaxIndexW16 vector = index_loop (>) 0 0 (- 32768) vector"

definition WebRtcSpl_MaxIndexW32 :: "int list \<Rightarrow> nat" where
  "WebRtcSpl_MaxIndexW32 vector = index_loop (>) 0 0 (- 2147483648) vector"

definition WebRtcSpl_MinIndexW16 :: "int list \<Rightarrow> nat" where
  "WebRtcSpl_MinIndexW16 vector = index_loop (<) 0 0 32767 vector"

definition WebRtcSpl_MinIndexW32 :: "int list \<Rightarrow> nat" where
  "WebRtcSpl_MinIndexW32 vector = index_loop (<) 0 0 2147483647 vector"

subsection \<open>Energy\<close>

text \<open>The negation of the smallest 16-bit value wraps around to itself.\<close>

definition square_max :: "int list \<Rightarrow> int" where
  "square_max vector =
     foldl (\<lambda>smax x. let sabs = s16 (if 0 < x then x else - x) in if smax < sabs then sabs else smax)
       (- 1) vector"

definition WebRtcSpl_GetScalingSquare :: "int list \<Rightarrow> nat \<Rightarrow> int" where
  "WebRtcSpl_GetScalingSquare in_vector ntimes =
     (let nbits = WebRtcSpl_GetSizeInBits (u32 (int ntimes));
          smax = square_max in_vector;
          t = WebRtcSpl_NormW32 (s32 (smax * smax))
      in if smax = 0 then 0 else if nbits < t then 0 else s16 (nbits - t))"

definition WebRtcSpl_Energy :: "int list \<Rightarrow> int \<times> int" where
  "WebRtcSpl_Energy vector =
     (let scaling = WebRtcSpl_GetScalingSquare vector (length vector)
      in (foldl (\<lambda>en x. s32 (en + drop_bit (nat scaling) (x * x))) 0 vector, scaling))"

subsection \<open>Vectors\<close>

definition WebRtcSpl_VectorBitShiftW16 :: "int list \<Rightarrow> int \<Rightarrow> int list" where
  "WebRtcSpl_VectorBitShiftW16 xs right_shifts =
     (if 0 < right_shifts then map (\<lambda>x. drop_bit (nat right_shifts) x) xs
      else map (\<lambda>x. s16 (x * push_bit (nat (- right_shifts)) 1)) xs)"

definition WebRtcSpl_VectorBitShiftW32 :: "int list \<Rightarrow> int \<Rightarrow> int list" where
  "WebRtcSpl_VectorBitShiftW32 xs right_shifts =
     (if 0 < right_shifts then map (\<lambda>x. drop_bit (nat right_shifts) x) xs
      else map (\<lambda>x. s32 (push_bit (nat (- right_shifts)) x)) xs)"

definition WebRtcSpl_VectorBitShiftW32ToW16 :: "int list \<Rightarrow> int \<Rightarrow> int list" where
  "WebRtcSpl_VectorBitShiftW32ToW16 xs right_shifts =
     (if 0 \<le> right_shifts then map (\<lambda>x. WebRtcSpl_SatW32ToW16 (drop_bit (nat right_shifts) x)) xs
      else map (\<lambda>x. WebRtcSpl_SatW32ToW16 (s32 (push_bit (nat (- right_shifts)) x))) xs)"

definition WebRtcSpl_ScaleVector :: "int list \<Rightarrow> int \<Rightarrow> nat \<Rightarrow> int list" where
  "WebRtcSpl_ScaleVector in_vector gain right_shifts =
     map (\<lambda>x. s16 (drop_bit right_shifts (x * gain))) in_vector"

definition WebRtcSpl_ScaleVectorWithSat :: "int list \<Rightarrow> int \<Rightarrow> nat \<Rightarrow> int list" where
  "WebRtcSpl_ScaleVectorWithSat in_vector gain right_shifts =
     map (\<lambda>x. WebRtcSpl_SatW32ToW16 (drop_bit right_shifts (x * gain))) in_vector"

definition WebRtcSpl_ScaleAndAddVectors ::
    "int list \<Rightarrow> int \<Rightarrow> nat \<Rightarrow> int list \<Rightarrow> int \<Rightarrow> nat \<Rightarrow> int list" where
  "WebRtcSpl_ScaleAndAddVectors in1 gain1 shift1 in2 gain2 shift2 =
     map2 (\<lambda>x y. s16 (s16 (drop_bit shift1 (gain1 * x)) + s16 (drop_bit shift2 (gain2 * y)))) in1 in2"

text \<open>\<open>None\<close> for an argument is \<open>NULL\<close>; the result is \<open>None\<close> where the C function returns -1.\<close>

definition WebRtcSpl_ScaleAndAddVectorsWithRoundC ::
    "int list option \<Rightarrow> int \<Rightarrow> int list option \<Rightarrow> int \<Rightarrow> int \<Rightarrow> nat \<Rightarrow> int list option" where
  "WebRtcSpl_ScaleAndAddVectorsWithRoundC in_vector1 scale1 in_vector2 scale2 right_shifts n =
     (case (in_vector1, in_vector2) of
        (Some xs, Some ys) \<Rightarrow>
          if n = 0 \<or> right_shifts < 0 then None
          else
            (let round_value = drop_bit 1 (s32 (push_bit (nat right_shifts) 1))
             in Some (map2 (\<lambda>x y. s16 (drop_bit (nat right_shifts) (s32 (x * scale1 + y * scale2 + round_value))))
                  (take n xs) (take n ys)))
      | _ \<Rightarrow> None)"

definition WebRtcSpl_ReverseOrderMultArrayElements :: "int list \<Rightarrow> int list \<Rightarrow> nat \<Rightarrow> nat \<Rightarrow> int list" where
  "WebRtcSpl_ReverseOrderMultArrayElements xs win w right_shifts =
     map (\<lambda>i. s16 (drop_bit right_shifts (xs ! i * win ! (w - i)))) [0..<length xs]"

definition WebRtcSpl_ElementwiseVectorMult :: "int list \<Rightarrow> int list \<Rightarrow> nat \<Rightarrow> int list" where
  "WebRtcSpl_ElementwiseVectorMult xs win right_shifts =
     map2 (\<lambda>x w. s16 (drop_bit right_shifts (x * w))) xs win"

definition WebRtcSpl_AddVectorsAndShift :: "int list \<Rightarrow> int list \<Rightarrow> nat \<Rightarrow> int list" where
  "WebRtcSpl_AddVectorsAndShift in1 in2 right_shifts =
     map2 (\<lambda>x y. s16 (drop_bit right_shifts (x + y))) in1 in2"

definition WebRtcSpl_AddAffineVectorToVector :: "int list \<Rightarrow> int list \<Rightarrow> int \<Rightarrow> int \<Rightarrow> nat \<Rightarrow> int list" where
  "WebRtcSpl_AddAffineVectorToVector out xs gain add_constant right_shifts =
     map2 (\<lambda>o1 x. s16 (o1 + s16 (drop_bit right_shifts (s32 (x * gain + add_constant))))) out xs"

definition WebRtcSpl_AffineTransformVector :: "int list \<Rightarrow> int \<Rightarrow> int \<Rightarrow> nat \<Rightarrow> int list" where
  "WebRtcSpl_AffineTransformVector xs gain add_constant right_shifts =
     map (\<lambda>x. s16 (drop_bit right_shifts (s32 (x * gain + add_constant)))) xs"

definition WebRtcSpl_MemSetW16 :: "int list \<Rightarrow> int \<Rightarrow> nat \<Rightarrow> int list" where
  "WebRtcSpl_MemSetW16 ptr set_value n = mem_write ptr 0 (replicate n set_value)"

definition WebRtcSpl_MemSetW32 :: "int list \<Rightarrow> int \<Rightarrow> nat \<Rightarrow> int list" where
  "WebRtcSpl_MemSetW32 ptr set_value n = mem_write ptr 0 (replicate n set_value)"

text \<open>\<open>d\<close> is the index that \<open>dest\<close> points to in its array.\<close>

fun copy_reversed :: "int list \<Rightarrow> nat \<Rightarrow> int list \<Rightarrow> int list" where
  "copy_reversed dest d [] = dest"
| "copy_reversed dest d (x # xs) = copy_reversed (dest[d := x]) (d - 1) xs"

definition WebRtcSpl_MemCpyReversedOrder :: "int list \<Rightarrow> nat \<Rightarrow> int list \<Rightarrow> int list" where
  "WebRtcSpl_MemCpyReversedOrder dest d source = copy_reversed dest d source"

definition WebRtcSpl_CopyFromEndW16 :: "int list \<Rightarrow> nat \<Rightarrow> int list \<Rightarrow> int list" where
  "WebRtcSpl_CopyFromEndW16 vector_in samples vector_out =
     mem_write vector_out 0 (take samples (drop (length vector_in - samples) vector_in))"

definition WebRtcSpl_ZerosArrayW16 :: "int list \<Rightarrow> nat \<Rightarrow> int list" where
  "WebRtcSpl_ZerosArrayW16 vector n = WebRtcSpl_MemSetW16 vector 0 n"

definition WebRtcSpl_ZerosArrayW32 :: "int list \<Rightarrow> nat \<Rightarrow> int list" where
  "WebRtcSpl_ZerosArrayW32 vector n = WebRtcSpl_MemSetW32 vector 0 n"

text \<open>The start of \<open>seq2\<close> moves on by \<open>step_seq2\<close>, which may be negative, for each correlation.\<close>

definition WebRtcSpl_CrossCorrelationC ::
    "int list \<Rightarrow> int list \<Rightarrow> nat \<Rightarrow> nat \<Rightarrow> nat \<Rightarrow> nat \<Rightarrow> int \<Rightarrow> int list" where
  "WebRtcSpl_CrossCorrelationC seq1 seq2 start dim_seq dim_cross_correlation right_shifts step_seq2 =
     map (\<lambda>i. foldl (\<lambda>corr j. s32 (corr + drop_bit right_shifts
                 (seq1 ! j * seq2 ! nat (int start + int i * step_seq2 + int j)))) 0 [0..<dim_seq])
       [0..<dim_cross_correlation]"

text \<open>\<open>dot_product_with_scale.cc\<close>: four products per round, and the rest one by one.\<close>

fun dot_loop :: "int list \<Rightarrow> int list \<Rightarrow> nat \<Rightarrow> int \<Rightarrow> int" where
  "dot_loop (a # b # c # d # xs) (e # f # g # h # ys) scaling acc =
     dot_loop xs ys scaling
       (s64 (s64 (s64 (s64 (acc + drop_bit scaling (a * e)) + drop_bit scaling (b * f))
          + drop_bit scaling (c * g)) + drop_bit scaling (d * h)))"
| "dot_loop xs ys scaling acc =
     foldl (\<lambda>acc (x, y). s64 (acc + drop_bit scaling (x * y))) acc (zip xs ys)"

definition WebRtcSpl_DotProductWithScale :: "int list \<Rightarrow> int list \<Rightarrow> nat \<Rightarrow> int" where
  "WebRtcSpl_DotProductWithScale vector1 vector2 scaling =
     (let total = dot_loop vector1 vector2 scaling 0
      in if total < - 2147483648 then - 2147483648 else if 2147483647 < total then 2147483647 else total)"

subsection \<open>The loops\<close>

lemma max_loop_Max: "max_loop start xs = Max (insert start (set xs))"
proof (induction xs arbitrary: start)
  case Nil
  then show ?case by (simp add: max_loop_def)
next
  case (Cons x xs)
  have "max_loop start (x # xs) = max_loop (max start x) xs"
    by (simp add: max_loop_def max_def)
  also have "\<dots> = Max (insert (max start x) (set xs))" by (rule Cons.IH)
  also have "\<dots> = Max (insert start (set (x # xs)))"
    by (cases "xs = []") (simp_all add: Max_insert max.assoc)
  finally show ?case .
qed

lemma min_loop_Min: "min_loop start xs = Min (insert start (set xs))"
proof (induction xs arbitrary: start)
  case Nil
  then show ?case by (simp add: min_loop_def)
next
  case (Cons x xs)
  have "min_loop start (x # xs) = min_loop (min start x) xs"
    by (simp add: min_loop_def min_def not_less)
  also have "\<dots> = Min (insert (min start x) (set xs))" by (rule Cons.IH)
  also have "\<dots> = Min (insert start (set (x # xs)))"
    by (cases "xs = []") (simp_all add: Min_insert min.assoc)
  finally show ?case .
qed

lemma max_loop_range:
  assumes "xs \<noteq> []" "\<forall>x\<in>set xs. start \<le> x"
  shows "max_loop start xs = Max (set xs)"
  using assms by (simp add: max_loop_Max Max_insert max_absorb2)

lemma min_loop_range:
  assumes "xs \<noteq> []" "\<forall>x\<in>set xs. x \<le> start"
  shows "min_loop start xs = Min (set xs)"
  using assms by (simp add: min_loop_Min Min_insert min_absorb2)

lemma minmax_fold:
  "foldl (\<lambda>(minimum, maximum) x. (if x < minimum then x else minimum, if maximum < x then x else maximum))
     (a, b) xs = (min_loop a xs, max_loop b xs)"
  by (induction xs arbitrary: a b) (simp_all add: min_loop_def max_loop_def)

text \<open>The index loop returns the first position of a largest element, if it beats the start value.\<close>

lemma index_loop_max:
  assumes "\<forall>x\<in>set xs. x \<le> best"
  shows "index_loop (>) i index best xs = index"
  using assms by (induction xs arbitrary: i) auto

lemma index_loop_first:
  assumes "n < length xs" "best < xs ! n" "\<forall>x\<in>set xs. x \<le> xs ! n" "\<forall>m<n. xs ! m < xs ! n"
  shows "index_loop (>) i index best xs = i + n"
  using assms
proof (induction xs arbitrary: n i index best)
  case Nil
  then show ?case by simp
next
  case (Cons x xs)
  show ?case
  proof (cases n)
    case 0
    then show ?thesis using Cons.prems by (simp add: index_loop_max)
  next
    case (Suc m)
    have x: "x < xs ! m" using Cons.prems(4) Suc by force
    have b: "best < xs ! m" and rest: "m < length xs" "\<forall>x\<in>set xs. x \<le> xs ! m"
      using Suc Cons.prems(1-3) by simp_all
    have lt: "\<forall>k<m. xs ! k < xs ! m"
    proof (intro allI impI)
      fix k assume "k < m"
      then show "xs ! k < xs ! m" using Cons.prems(4) [rule_format, of "Suc k"] Suc by simp
    qed
    show ?thesis
      using Suc Cons.IH [OF rest(1) x rest(2) lt] Cons.IH [OF rest(1) b rest(2) lt] by simp
  qed
qed

subsection \<open>Properties of the extrema\<close>

text \<open>
  on a non-empty 16-bit vector the minimum and maximum loops, separate or fused, return the
  smallest and the largest element, and the index loop the first position of the largest.
\<close>

theorem extrema_correct:
  assumes "v \<noteq> []" and "\<forall>x\<in>set v. is_s16 x"
  shows "WebRtcSpl_MinMaxW16 v = (Min (set v), Max (set v)) \<and>
     WebRtcSpl_MaxValueW16C v = Max (set v) \<and> WebRtcSpl_MinValueW16C v = Min (set v) \<and>
     WebRtcSpl_MaxAbsValueW16C v = min 32767 (Max (abs ` set v)) \<and>
     (- 32768 < Max (set v) \<longrightarrow> WebRtcSpl_MaxIndexW16 v = (LEAST i. i < length v \<and> v ! i = Max (set v)))"
proof -
  have lo: "\<forall>x\<in>set v. - 32768 \<le> x" and hi: "\<forall>x\<in>set v. x \<le> 32767"
    using assms(2) by (auto simp: is_s16_def)
  have mx: "max_loop (- 32768) v = Max (set v)" by (rule max_loop_range [OF assms(1) lo])
  have mn: "min_loop 32767 v = Min (set v)" by (rule min_loop_range [OF assms(1) hi])
  have ab: "foldl (\<lambda>maximum x. if maximum < \<bar>x\<bar> then \<bar>x\<bar> else maximum) a v = max_loop a (map abs v)" for a
    unfolding max_loop_def by (induction v arbitrary: a) simp_all
  have abs: "max_loop 0 (map abs v) = Max (abs ` set v)"
    using max_loop_range [of "map abs v" 0] assms(1) by auto
  have idx: "WebRtcSpl_MaxIndexW16 v = (LEAST i. i < length v \<and> v ! i = Max (set v))" if "- 32768 < Max (set v)"
  proof -
    let ?P = "\<lambda>i. i < length v \<and> v ! i = Max (set v)"
    obtain j where "?P j" using Max_in [of "set v"] assms(1) by (auto simp: in_set_conv_nth)
    then have n: "?P (LEAST i. ?P i)" by (rule LeastI)
    have "v ! m < v ! (LEAST i. ?P i)" if "m < (LEAST i. ?P i)" for m
    proof -
      have "m < length v" using that n by linarith
      moreover have "v ! m \<noteq> Max (set v)" using not_less_Least [OF that] \<open>m < length v\<close> by blast
      ultimately show ?thesis using n by (metis Max_ge List.finite_set nth_mem order_le_less)
    qed
    then show ?thesis
      unfolding WebRtcSpl_MaxIndexW16_def using n that
      by (subst index_loop_first [of "LEAST i. ?P i"]) auto
  qed
  show ?thesis
    using mx mn abs idx
    by (simp add: WebRtcSpl_MinMaxW16_def minmax_fold WebRtcSpl_MaxValueW16C_def
        WebRtcSpl_MinValueW16C_def WebRtcSpl_MaxAbsValueW16C_def ab min_def Let_def)
qed

theorem extrema_correct_witness:
  "WebRtcSpl_MinMaxW16 [3, - 7, 5] = (- 7, 5) \<and> WebRtcSpl_MaxAbsValueW16C [3, - 7, 5] = 7"
  using extrema_correct [of "[3, - 7, 5]"] by (simp add: is_s16_def)

subsection \<open>The energy does not overflow\<close>

lemma sum_list_bound:
  assumes "\<forall>x\<in>set xs. 0 \<le> f x \<and> f x \<le> (m :: int)"
  shows "0 \<le> (\<Sum>x\<leftarrow>xs. f x)" "(\<Sum>x\<leftarrow>xs. f x) \<le> int (length xs) * m"
  using assms by (induction xs) (auto simp: algebra_simps)

lemma fold_exact:
  assumes "\<forall>x\<in>set xs. 0 \<le> f x" and "0 \<le> a" and "a + (\<Sum>x\<leftarrow>xs. f x) < 2 ^ 31"
  shows "foldl (\<lambda>en x. s32 (en + f x)) a xs = a + (\<Sum>x\<leftarrow>xs. f x)"
  using assms
proof (induction xs arbitrary: a)
  case Nil
  then show ?case by simp
next
  case (Cons x xs)
  have "0 \<le> (\<Sum>x\<leftarrow>xs. f x)" using Cons.prems(1) by (intro sum_list_nonneg) auto
  then have "s32 (a + f x) = a + f x" using Cons.prems by (intro s32_nonneg) simp_all
  then show ?case using Cons.IH [of "a + f x"] Cons.prems by (simp add: ac_simps)
qed

text \<open>Without the smallest 16-bit value, the loop finds the largest magnitude.\<close>

lemma square_max_value:
  assumes "v \<noteq> []" and "\<forall>x\<in>set v. is_s16 x \<and> x \<noteq> - 32768"
  shows "square_max v = Max (abs ` set v)"
proof -
  have "foldl (\<lambda>smax x. let sabs = s16 (if 0 < x then x else - x) in if smax < sabs then sabs else smax) a v =
      max_loop a (map abs v)" for a
    using assms(2)
  proof (induction v arbitrary: a)
    case Nil
    then show ?case by (simp add: max_loop_def)
  next
    case (Cons x v)
    have "s16 (if 0 < x then x else - x) = \<bar>x\<bar>"
      using Cons.prems by (auto simp: is_s16_def intro!: s16_is)
    then show ?case using Cons by (simp add: max_loop_def Let_def)
  qed
  moreover have "\<forall>x\<in>set (map abs v). - 1 \<le> x"
  proof
    fix x assume "x \<in> set (map abs v)"
    then have "0 \<le> x" by auto
    then show "- 1 \<le> x" by linarith
  qed
  ultimately show ?thesis
    unfolding square_max_def using max_loop_range [of "map abs v" "- 1"] assms(1) by simp
qed

lemma scaled_sum_bound:
  assumes "a < 2 ^ j" "(0 :: int) \<le> a" "int n < 2 ^ b" "j + b \<le> 31 + s"
  shows "int n * (a div 2 ^ s) < 2 ^ 31"
proof (cases "a div 2 ^ s = 0 \<or> n = 0")
  case True
  then show ?thesis by auto
next
  case False
  have "a div 2 ^ s * 2 ^ s \<le> a"
  proof -
    have "0 \<le> a mod 2 ^ s" by simp
    then show ?thesis using div_mult_mod_eq [of a "2 ^ s"] by linarith
  qed
  moreover have "0 \<le> a div 2 ^ s" using assms(2) by (simp add: pos_imp_zdiv_nonneg_iff)
  ultimately have d: "0 < a div 2 ^ s" "a div 2 ^ s * 2 ^ s < 2 ^ j" using False assms(1) by linarith+
  have "int n * (a div 2 ^ s * 2 ^ s) < 2 ^ b * 2 ^ j"
    by (rule mult_strict_mono) (use d assms(3) False in simp_all)
  also have "\<dots> = 2 ^ (j + b)" by (simp add: power_add)
  also have "\<dots> \<le> 2 ^ (31 + s)" using assms(4) by (intro power_increasing) simp_all
  finally have "(int n * (a div 2 ^ s)) * 2 ^ s < 2 ^ 31 * 2 ^ s" by (simp add: power_add ac_simps)
  then show ?thesis by (simp only: mult_less_cancel_right zero_less_power) simp
qed

lemma scaling_value:
  assumes "v \<noteq> []" and "\<forall>x\<in>set v. is_s16 x \<and> x \<noteq> - 32768" and "length v < 2 ^ 31"
    and m: "m = Max (abs ` set v)" and "m \<noteq> 0"
  shows "WebRtcSpl_GetScalingSquare v (length v) =
     max 0 (int (bit_length (length v)) - (31 - int (bit_length (nat (m * m)))))"
    and "0 < m" "m \<le> 32767"
proof -
  have "m \<in> abs ` set v" using assms(1) m by simp
  then have r: "0 \<le> m" "m \<le> 32767" using assms(2) by (auto simp: is_s16_def)
  then show pos: "0 < m" "m \<le> 32767" using assms(5) by linarith+
  have "m * m \<le> 32767 * 32767" using r by (intro mult_mono) simp_all
  then have sq: "0 < m * m" "m * m < 2 ^ 31" using pos by simp_all
  have n: "WebRtcSpl_NormW32 (m * m) = 31 - int (bit_length (nat (m * m)))"
    by (rule norm_w32_value [OF sq])
  have "int (length v) < 2 ^ 31" using assms(3) by simp
  then have u: "u32 (int (length v)) = int (length v)" by (intro u32_id) simp_all
  have b: "WebRtcSpl_GetSizeInBits (int (length v)) = int (bit_length (length v))"
    using size_in_bits_value [of "int (length v)"] assms(3) by simp
  have l: "bit_length (length v) \<le> 31" using assms(3) by (simp add: bit_length_le)
  have k: "bit_length (nat (m * m)) \<le> 31"
    using nat_lt_power [of "m * m" 31] sq by (simp add: bit_length_le)
  have q: "s32 (m * m) = m * m" using sq by (intro s32_nonneg) simp_all
  have "s16 (int (bit_length (length v)) - (31 - int (bit_length (nat (m * m))))) =
      int (bit_length (length v)) - (31 - int (bit_length (nat (m * m))))"
    using l k by (intro s16_is) (simp add: is_s16_def)
  then show "WebRtcSpl_GetScalingSquare v (length v) =
      max 0 (int (bit_length (length v)) - (31 - int (bit_length (nat (m * m)))))"
    unfolding WebRtcSpl_GetScalingSquare_def Let_def u b
      square_max_value [OF assms(1,2)] m [symmetric] q n
    using assms(5) by simp
qed

lemma energy_value:
  assumes "v \<noteq> []" and "\<forall>x\<in>set v. is_s16 x \<and> x \<noteq> - 32768" and "length v < 2 ^ 31"
  obtains s where "WebRtcSpl_Energy v = ((\<Sum>x\<leftarrow>v. (x * x) div 2 ^ s), int s)"
    and "0 \<le> (\<Sum>x\<leftarrow>v. (x * x) div 2 ^ s)" and "(\<Sum>x\<leftarrow>v. (x * x) div 2 ^ s) < 2 ^ 31"
    and "s \<le> bit_length (length v)"
proof -
  define m where "m = Max (abs ` set v)"
  let ?sc = "WebRtcSpl_GetScalingSquare v (length v)"
  define s where "s = nat ?sc"
  have le: "x * x \<le> m * m" if "x \<in> set v" for x
  proof -
    have "\<bar>x\<bar> \<le> m" unfolding m_def using that by simp
    then show ?thesis using abs_mult_self_eq [of x] mult_mono [of "\<bar>x\<bar>" m "\<bar>x\<bar>" m] by simp
  qed
  have B: "0 \<le> ?sc \<and> int (length v) * (m * m div 2 ^ s) < 2 ^ 31 \<and> s \<le> bit_length (length v)"
  proof (cases "m = 0")
    case True
    then have "square_max v = 0" using square_max_value [OF assms(1,2)] by (simp add: m_def)
    then have "?sc = 0" by (simp add: WebRtcSpl_GetScalingSquare_def Let_def)
    then show ?thesis using True by (simp add: s_def)
  next
    case False
    note sv = scaling_value [OF assms m_def False]
    have p: "m * m < 2 ^ bit_length (nat (m * m))"
      using bit_length_lt [of "nat (m * m)"] by (simp add: nat_less_iff)
    have l: "int (length v) < 2 ^ bit_length (length v)"
      using bit_length_lt [of "length v"] of_nat_less_iff [of "length v" "2 ^ bit_length (length v)"]
      by (simp del: of_nat_less_iff)
    have "bit_length (nat (m * m)) + bit_length (length v) \<le> 31 + s"
      unfolding s_def sv(1) by simp
    moreover have "bit_length (nat (m * m)) \<le> 31"
    proof -
      have "m * m \<le> 32767 * 32767" using sv(2,3) by (intro mult_mono) simp_all
      then show ?thesis by (simp add: bit_length_le nat_less_iff)
    qed
    then have "s \<le> bit_length (length v)" unfolding s_def sv(1) by simp
    ultimately show ?thesis using scaled_sum_bound [OF p _ l, of s] sv by simp
  qed
  have b: "\<forall>x\<in>set v. 0 \<le> (x * x) div 2 ^ s \<and> (x * x) div 2 ^ s \<le> m * m div 2 ^ s"
    using le by (simp add: pos_imp_zdiv_nonneg_iff zdiv_mono1)
  note sb = sum_list_bound [OF b]
  have "foldl (\<lambda>en x. s32 (en + x * x div 2 ^ s)) 0 v = (\<Sum>x\<leftarrow>v. (x * x) div 2 ^ s)"
    using fold_exact [of v "\<lambda>x. x * x div 2 ^ s" 0] b sb B by simp
  then have "WebRtcSpl_Energy v = ((\<Sum>x\<leftarrow>v. (x * x) div 2 ^ s), int s)"
    using B by (simp add: WebRtcSpl_Energy_def Let_def drop_bit_eq_div s_def)
  then show thesis using sb B by (intro that [of s]) simp_all
qed

text \<open>
  C39: for any vector that does not hold -32768 the scaling is just enough: the energy is the exact
  sum of the scaled squares, no 32-bit addition overflows, and the result is not negative.
\<close>

theorem energy_exact:
  assumes "v \<noteq> []" and "\<forall>x\<in>set v. is_s16 x \<and> x \<noteq> - 32768" and "length v < 2 ^ 31"
  shows "\<exists>s. WebRtcSpl_Energy v = ((\<Sum>x\<leftarrow>v. (x * x) div 2 ^ s), int s) \<and>
     0 \<le> (\<Sum>x\<leftarrow>v. (x * x) div 2 ^ s) \<and> (\<Sum>x\<leftarrow>v. (x * x) div 2 ^ s) < 2 ^ 31"
  by (rule energy_value [OF assms]) blast

theorem energy_exact_witness:
  "\<exists>s. WebRtcSpl_Energy [1000, - 2000] = ((1000 * 1000) div 2 ^ s + (2000 * 2000) div 2 ^ s, int s)"
  using energy_exact [of "[1000, - 2000]"] by (auto simp: is_s16_def)

text \<open>Two samples of -32768 are enough to make the energy negative.\<close>

lemma energy_overflow: "WebRtcSpl_Energy [- 32768, - 32768] = (- 2147483648, 0)"
  by (simp add: WebRtcSpl_Energy_def WebRtcSpl_GetScalingSquare_def square_max_def
      WebRtcSpl_GetSizeInBits_def WebRtcSpl_CountLeadingZeros32_def WebRtcSpl_NormW32_def
      bit_length.simps s16_def s32_def u32_def Let_def)

subsection \<open>The unrolled dot product\<close>

lemma dot_loop_fold:
  "dot_loop xs ys sc acc = foldl (\<lambda>acc (x, y). s64 (acc + drop_bit sc (x * y))) acc (zip xs ys)"
  by (induction xs ys sc acc rule: dot_loop.induct) simp_all

lemma fold64_exact:
  assumes "\<forall>x\<in>set xs. \<bar>f x\<bar> \<le> 2 ^ 30" and "\<bar>a\<bar> + int (length xs) * 2 ^ 30 < 2 ^ 63"
  shows "foldl (\<lambda>acc x. s64 (acc + f x)) a xs = a + (\<Sum>x\<leftarrow>xs. f x)"
  using assms
proof (induction xs arbitrary: a)
  case Nil
  then show ?case by simp
next
  case (Cons x xs)
  have f: "\<bar>f x\<bar> \<le> 2 ^ 30" using Cons.prems(1) by simp
  have "\<bar>a + f x\<bar> + int (length xs) * 2 ^ 30 < 2 ^ 63"
    using abs_triangle_ineq [of a "f x"] f Cons.prems(2) by (simp add: algebra_simps)
  moreover have "0 \<le> int (length xs) * 2 ^ 30" by simp
  ultimately have "s64 (a + f x) = a + f x" by (intro s64_id) linarith+
  then show ?case using Cons.IH [of "a + f x"] Cons.prems \<open>\<bar>a + f x\<bar> + _ < _\<close> by (simp add: ac_simps)
qed

text \<open>
  the dot product, unrolled four at a time in 64 bits, is the exact sum of the scaled products
  clamped once to 32 bits.
\<close>

theorem dot_product_clamped:
  assumes "length xs = length ys" and "length xs < 2 ^ 32"
    and "\<forall>x\<in>set xs. is_s16 x" and "\<forall>y\<in>set ys. is_s16 y"
  shows "WebRtcSpl_DotProductWithScale xs ys sc =
     max (- (2 ^ 31)) (min (2 ^ 31 - 1) (\<Sum>(x, y)\<leftarrow>zip xs ys. (x * y) div 2 ^ sc))"
proof -
  have p: "\<bar>drop_bit sc (x * y)\<bar> \<le> 2 ^ 30" if "(x, y) \<in> set (zip xs ys)" for x y :: int
  proof -
    have "is_s16 x" "is_s16 y"
      using assms(3,4) set_zip_leftD [OF that] set_zip_rightD [OF that] by blast+
    then have "\<bar>x\<bar> \<le> 2 ^ 15" "\<bar>y\<bar> \<le> 2 ^ 15" by (simp_all add: is_s16_def abs_le_iff)
    then have "\<bar>x\<bar> * \<bar>y\<bar> \<le> 2 ^ 15 * 2 ^ 15" by (intro mult_mono) simp_all
    then have "\<bar>x * y\<bar> \<le> 2 ^ 30" by (simp add: abs_mult)
    then have "- (2 ^ 30) \<le> x * y" "x * y < 2 ^ 30 + 1" by linarith+
    from shr_lower [OF this(1), of sc] shr_upper [OF this(2), of sc] show ?thesis by simp
  qed
  have "\<forall>z\<in>set (zip xs ys). \<bar>case z of (x, y) \<Rightarrow> drop_bit sc (x * y)\<bar> \<le> 2 ^ 30"
    using p by auto
  moreover have "int (length (zip xs ys)) * 2 ^ 30 < 2 ^ 63"
  proof -
    have "int (length (zip xs ys)) < 4294967296" using assms(1,2) by simp
    then show ?thesis by simp
  qed
  ultimately have "foldl (\<lambda>acc z. s64 (acc + (case z of (x, y) \<Rightarrow> drop_bit sc (x * y)))) 0 (zip xs ys) =
      0 + (\<Sum>z\<leftarrow>zip xs ys. case z of (x, y) \<Rightarrow> drop_bit sc (x * y))"
    by (intro fold64_exact) simp_all
  moreover have "(\<lambda>acc (x, y). s64 (acc + drop_bit sc (x * y))) =
      (\<lambda>acc z. s64 (acc + (case z of (x, y) \<Rightarrow> drop_bit sc (x * y))))" by (auto simp: fun_eq_iff)
  ultimately have "dot_loop xs ys sc 0 = (\<Sum>(x, y)\<leftarrow>zip xs ys. (x * y) div 2 ^ sc)"
    by (simp add: dot_loop_fold drop_bit_eq_div)
  then show ?thesis by (simp add: WebRtcSpl_DotProductWithScale_def Let_def)
qed

theorem dot_product_clamped_witness:
  "WebRtcSpl_DotProductWithScale [1, 2, 3, 4, 5] [1, 1, 1, 1, 2] 0 = 20"
  using dot_product_clamped [of "[1, 2, 3, 4, 5]" "[1, 1, 1, 1, 2]" 0] by (simp add: is_s16_def)

end
