(* ===== verification/VadSp.thy ===== *)
theory VadSp
  imports VadInst SplVector "HOL-Library.Multiset"
begin

text \<open>
  \<open>src/src/webrtc/common_audio/vad/vad_sp.c\<close>: the down-sampling in front of the detector, and the
  tracking of the smallest feature values of the last hundred frames.
\<close>

subsection \<open>Down-sampling by two\<close>

definition kAllPassCoefsQ13 :: "int \<times> int" where
  "kAllPassCoefsQ13 = (5243, 1392)"

definition kSmoothingDown :: int where
  "kSmoothingDown = 6553"

definition kSmoothingUp :: int where
  "kSmoothingUp = 32439"

fun vad_downsample :: "int \<times> int \<Rightarrow> int list \<Rightarrow> (int \<times> int) \<times> int list" where
  "vad_downsample (tmp32_1, tmp32_2) (x # y # signal) =
     (let tmp16_1 = s16 (s32 (drop_bit 1 tmp32_1 + drop_bit 14 (fst kAllPassCoefsQ13 * x)));
          tmp32_1' = s32 (x - drop_bit 12 (fst kAllPassCoefsQ13 * tmp16_1));
          tmp16_2 = s16 (s32 (drop_bit 1 tmp32_2 + drop_bit 14 (snd kAllPassCoefsQ13 * y)));
          tmp32_2' = s32 (y - drop_bit 12 (snd kAllPassCoefsQ13 * tmp16_2));
          (st, out) = vad_downsample (tmp32_1', tmp32_2') signal
      in (st, s16 (tmp16_1 + tmp16_2) # out))"
| "vad_downsample st signal = (st, [])"

text \<open>\<open>p\<close> is where the filter's two states start in the state array.\<close>

definition WebRtcVad_Downsampling :: "int list \<Rightarrow> nat \<Rightarrow> int list \<Rightarrow> int list \<times> int list" where
  "WebRtcVad_Downsampling filter_state p signal_in =
     (case vad_downsample (filter_state ! p, filter_state ! (p + 1)) signal_in of
        ((a, b), out) \<Rightarrow> (filter_state[p := a, p + 1 := b], out))"

subsection \<open>The sixteen smallest values\<close>

text \<open>Moving the entries from \<open>i + 1\<close> on one place down, and from \<open>position\<close> on one place up.\<close>

definition shift_down :: "nat \<Rightarrow> int list \<Rightarrow> int list" where
  "shift_down i xs = foldl (\<lambda>ys j. ys[j := ys ! (j + 1)]) xs [i..<15]"

definition shift_up :: "nat \<Rightarrow> int list \<Rightarrow> int list" where
  "shift_up position xs = foldl (\<lambda>ys i. ys[i := ys ! (i - 1)]) xs (rev [position + 1..<16])"

definition age_step :: "int list \<times> int list \<Rightarrow> nat \<Rightarrow> int list \<times> int list" where
  "age_step w i =
     (case w of (age, smallest_values) \<Rightarrow>
        if age ! i \<noteq> 100 then (age[i := s16 (age ! i + 1)], smallest_values)
        else ((shift_down i age)[15 := 101], (shift_down i smallest_values)[15 := 10000]))"

definition age_all :: "int list \<times> int list \<Rightarrow> int list \<times> int list" where
  "age_all w = foldl age_step w [0..<16]"

text \<open>The decision tree; -1 where no stored value is larger.\<close>

definition find_position :: "int \<Rightarrow> int list \<Rightarrow> int" where
  "find_position feature_value v =
     (if feature_value < v ! 7 then
        if feature_value < v ! 3 then
          if feature_value < v ! 1 then (if feature_value < v ! 0 then 0 else 1)
          else if feature_value < v ! 2 then 2 else 3
        else if feature_value < v ! 5 then (if feature_value < v ! 4 then 4 else 5)
        else if feature_value < v ! 6 then 6 else 7
      else if feature_value < v ! 15 then
        if feature_value < v ! 11 then
          if feature_value < v ! 9 then (if feature_value < v ! 8 then 8 else 9)
          else if feature_value < v ! 10 then 10 else 11
        else if feature_value < v ! 13 then (if feature_value < v ! 12 then 12 else 13)
        else if feature_value < v ! 14 then 14 else 15
      else - 1)"

definition insert_value :: "int \<Rightarrow> int list \<times> int list \<Rightarrow> int list \<times> int list" where
  "insert_value feature_value w =
     (let position = find_position feature_value (snd w)
      in if - 1 < position
         then ((shift_up (nat position) (fst w))[nat position := 1],
               (shift_up (nat position) (snd w))[nat position := feature_value])
         else w)"

definition current_median :: "int \<Rightarrow> int list \<Rightarrow> int" where
  "current_median counter smallest_values =
     (if 2 < counter then smallest_values ! 2 else if 0 < counter then smallest_values ! 0 else 1600)"

definition smooth_median :: "int \<Rightarrow> int \<Rightarrow> int \<Rightarrow> int" where
  "smooth_median counter median mean =
     (let alpha = (if 0 < counter then (if median < mean then kSmoothingDown else kSmoothingUp) else 0)
      in s16 (drop_bit 15 (s32 ((alpha + 1) * mean + (32767 - alpha) * median + 16384))))"

definition WebRtcVad_FindMinimum :: "VadInstT \<Rightarrow> int \<Rightarrow> nat \<Rightarrow> VadInstT \<times> int" where
  "WebRtcVad_FindMinimum self feature_value channel =
     (let offset = channel * 16;
          w = (mem_read (index_vector self) offset 16, mem_read (low_value_vector self) offset 16);
          (age, smallest_values) = insert_value feature_value (age_all w);
          mean = smooth_median (frame_counter self)
                   (current_median (frame_counter self) smallest_values) (mean_value self ! channel)
      in (self\<lparr>index_vector := mem_write (index_vector self) offset age,
               low_value_vector := mem_write (low_value_vector self) offset smallest_values,
               mean_value := (mean_value self)[channel := mean]\<rparr>, mean))"

text \<open>The decimator is a filter in the sense of \<open>StreamFilter\<close>: frames may be cut anywhere at even positions.\<close>

lemma vad_downsample_step:
  "vad_downsample st (x # y # signal) =
     (let tmp16_1 = s16 (s32 (drop_bit 1 (fst st) + drop_bit 14 (fst kAllPassCoefsQ13 * x)));
          tmp16_2 = s16 (s32 (drop_bit 1 (snd st) + drop_bit 14 (snd kAllPassCoefsQ13 * y)));
          (st', out) = vad_downsample (s32 (x - drop_bit 12 (fst kAllPassCoefsQ13 * tmp16_1)),
            s32 (y - drop_bit 12 (snd kAllPassCoefsQ13 * tmp16_2))) signal
      in (st', s16 (tmp16_1 + tmp16_2) # out))"
  by (cases st) (simp add: Let_def)

lemma vad_downsample_append:
  assumes "2 dvd length xs"
  shows "vad_downsample st (xs @ ys) = joined vad_downsample st xs ys"
  using assms
  by (induction xs arbitrary: st rule: evens.induct)
    (simp_all add: joined_def split_beta Let_def vad_downsample_step del: vad_downsample.simps(1))

lemma vad_downsample_length: "length (snd (vad_downsample st xs)) = length xs div 2"
  by (induction xs arbitrary: st rule: evens.induct)
    (simp_all add: split_beta Let_def vad_downsample_step del: vad_downsample.simps(1))

interpretation vad_down: rate_filter vad_downsample 2 1 2
  by unfold_locales (simp_all add: vad_downsample_append vad_downsample_length)

subsection \<open>Shifting\<close>

lemma shift_down_value:
  assumes "length xs = 16" and "i < 16"
  shows "(shift_down i xs)[15 := z] = take i xs @ drop (Suc i) xs @ [z]"
proof -
  have len: "length (foldl (\<lambda>ys j. ys[j := ys ! (j + 1)]) xs js) = 16" for js
    by (induction js rule: rev_induct) (simp_all add: assms(1))
  have key: "n \<le> 15 \<Longrightarrow> i \<le> n \<Longrightarrow> k < 16 \<Longrightarrow>
      foldl (\<lambda>ys j. ys[j := ys ! (j + 1)]) xs [i..<n] ! k = (if i \<le> k \<and> k < n then xs ! (k + 1) else xs ! k)" for n k
  proof (induction n arbitrary: k)
    case 0
    then show ?case by simp
  next
    case (Suc n)
    show ?case
    proof (cases "i \<le> n")
      case True
      then show ?thesis using Suc len [of "[i..<n]"] by (simp add: nth_list_update)
    next
      case False
      then show ?thesis using Suc.prems by auto
    qed
  qed
  show ?thesis
  proof (rule nth_equalityI)
    show "length ((shift_down i xs)[15 := z]) = length (take i xs @ drop (Suc i) xs @ [z])"
      using assms len by (simp add: shift_down_def)
    fix k assume "k < length ((shift_down i xs)[15 := z])"
    then have k: "k < 16" using len by (simp add: shift_down_def)
    show "(shift_down i xs)[15 := z] ! k = (take i xs @ drop (Suc i) xs @ [z]) ! k"
      using k assms len key [of 15 k]
      by (auto simp: shift_down_def nth_list_update nth_append)
  qed
qed

lemma shift_up_value:
  assumes "length xs = 16" and "p < 16"
  shows "(shift_up p xs)[p := z] = take p xs @ z # take (15 - p) (drop p xs)"
proof -
  have len: "length (foldl (\<lambda>ys i. ys[i := ys ! (i - 1)]) xs js) = 16" for js
    by (induction js rule: rev_induct) (simp_all add: assms(1))
  have key: "p \<le> n \<Longrightarrow> n \<le> 15 \<Longrightarrow> k < 16 \<Longrightarrow>
      foldl (\<lambda>ys i. ys[i := ys ! (i - 1)]) xs (rev [n + 1..<16]) ! k = (if n < k then xs ! (k - 1) else xs ! k)" for n k
  proof (induction "15 - n" arbitrary: n k)
    case 0
    then show ?case by simp
  next
    case (Suc m)
    have n: "n + 1 < 16" "Suc n \<le> 15" "m = 15 - Suc n" "p \<le> Suc n" using Suc.hyps(2) Suc.prems by simp_all
    have e: "rev [n + 1..<16] = rev [Suc n + 1..<16] @ [n + 1]" using n(1) by (simp add: upt_conv_Cons)
    show ?case
      using Suc.hyps(1) [OF n(3,4,2)] Suc.prems n(1) len [of "rev [Suc n + 1..<16]"]
      unfolding e foldl_append by (auto simp: nth_list_update)
  qed
  show ?thesis
  proof (rule nth_equalityI)
    show "length ((shift_up p xs)[p := z]) = length (take p xs @ z # take (15 - p) (drop p xs))"
      using assms len by (simp add: shift_up_def)
    fix k assume "k < length ((shift_up p xs)[p := z])"
    then have k: "k < 16" using len by (simp add: shift_up_def)
    show "(shift_up p xs)[p := z] ! k = (take p xs @ z # take (15 - p) (drop p xs)) ! k"
      using k assms len key [of p k]
      by (auto simp: shift_up_def nth_list_update nth_append nth_Cons')
  qed
qed


subsection \<open>The window of a channel\<close>

text \<open>
  What one call does to the entries of a channel, as a list of ages and values: an entry of age 100
  goes, and the entry behind it moves into its place, which the loop has passed, so it is neither
  aged nor removed. The window is filled up with entries of value 10000.
\<close>

fun expire :: "(int \<times> int) list \<Rightarrow> (int \<times> int) list" where
  "expire [] = []"
| "expire ((a, v) # xs) =
     (if a \<noteq> 100 then (s16 (a + 1), v) # expire xs
      else case xs of [] \<Rightarrow> [] | y # ys \<Rightarrow> y # expire ys)"

lemma age_step_pairs:
  assumes "length z = 16" and "i < 16"
  shows "age_step (map fst z, map snd z) i =
     (let z' = (if fst (z ! i) \<noteq> 100 then z[i := (s16 (fst (z ! i) + 1), snd (z ! i))]
        else take i z @ drop (Suc i) z @ [(101, 10000)])
      in (map fst z', map snd z'))"
proof -
  have "map snd z = (map snd z)[i := snd (z ! i)]"
    using assms by (metis list_update_id nth_map)
  then show ?thesis
    using assms by (simp add: age_step_def shift_down_value map_update take_map drop_map)
qed

text \<open>
  After \<open>i\<close> steps: the entries that were passed, those to come, and the filling; where none is to
  come, the rest of the steps ages the filling.
\<close>

definition age_inv :: "(int \<times> int) list \<Rightarrow> nat \<Rightarrow> int list \<times> int list \<Rightarrow> bool" where
  "age_inv es i w =
     (\<exists>A B C. w = (map fst (A @ B @ C), map snd (A @ B @ C)) \<and> length (A @ B @ C) = 16 \<and>
        (length A = i \<or> length A \<le> i \<and> B = []) \<and>
        (\<forall>j<length C. snd (C ! j) = 10000 \<and> (i \<le> length A + length B + j \<longrightarrow> fst (C ! j) = 101)) \<and>
        expire es = A @ expire B)"

lemma age_inv_step:
  assumes "age_inv es i w" and i: "i < 16"
  shows "age_inv es (Suc i) (age_step w i)"
proof -
  obtain A B C where w: "w = (map fst (A @ B @ C), map snd (A @ B @ C))"
    and len: "length (A @ B @ C) = 16" and AB: "length A = i \<or> length A \<le> i \<and> B = []"
    and C: "\<And>j. j < length C \<Longrightarrow> snd (C ! j) = 10000 \<and> (i \<le> length A + length B + j \<longrightarrow> fst (C ! j) = 101)"
    and e: "expire es = A @ expire B"
    using assms(1) unfolding age_inv_def by blast
  note step = age_step_pairs [OF len i, folded w]
  show ?thesis
  proof (cases B)
    case Nil
    then have j: "length A \<le> i" "i - length A < length C" using AB len i by auto
    define C' where "C' = C[i - length A := (s16 102, 10000)]"
    have zi: "(A @ B @ C) ! i = (101, 10000)"
      using j C [of "i - length A"] Nil by (simp add: nth_append prod_eq_iff)
    have "(A @ B @ C)[i := (s16 102, 10000)] = A @ [] @ C'"
      using j Nil by (simp add: C'_def list_update_append)
    then have "age_step w i = (map fst (A @ [] @ C'), map snd (A @ [] @ C'))"
      using step by (simp add: zi Let_def)
    moreover have "\<forall>j<length C'. snd (C' ! j) = 10000 \<and> (Suc i \<le> length A + length [] + j \<longrightarrow> fst (C' ! j) = 101)"
      using C j Nil by (auto simp: C'_def nth_list_update)
    ultimately show ?thesis
      using len j e Nil unfolding age_inv_def C'_def
      by (intro exI [of _ A] exI [of _ "[]"] exI [of _ "C[i - length A := (s16 102, 10000)]"]) simp
  next
    case (Cons b B')
    then have iA: "length A = i" using AB by simp
    have zi: "(A @ B @ C) ! i = b" using iA Cons by (simp add: nth_append)
    show ?thesis
    proof (cases "fst b = 100")
      case False
      define b' where "b' = (s16 (fst b + 1), snd b)"
      have "age_step w i = (map fst ((A @ [b']) @ B' @ C), map snd ((A @ [b']) @ B' @ C))"
        using step unfolding zi Let_def using False iA Cons by (simp add: b'_def list_update_append)
      moreover have "expire es = (A @ [b']) @ expire B'"
        using e Cons False by (cases b) (simp add: b'_def)
      ultimately show ?thesis
        using len iA Cons C unfolding age_inv_def
        by (intro exI [of _ "A @ [b']"] exI [of _ B'] exI [of _ C]) simp
    next
      case True
      define C' where "C' = C @ [(101, 10000)]"
      have st: "age_step w i = (map fst (A @ B' @ C'), map snd (A @ B' @ C'))"
        using step unfolding zi Let_def using True iA Cons by (simp add: C'_def)
      have C': "snd (C' ! j) = 10000 \<and> (Suc i \<le> Suc (length A + length B' + j) \<longrightarrow> fst (C' ! j) = 101)"
        if "j < length C'" for j
        using that C [of j] iA Cons by (auto simp: C'_def nth_append less_Suc_eq)
      show ?thesis
      proof (cases B')
        case Nil
        have "expire es = A @ expire []" using e Cons Nil True by (cases b) simp
        then show ?thesis
          using st C' len iA Cons Nil unfolding age_inv_def
          by (intro exI [of _ A] exI [of _ "[]"] exI [of _ C']) (simp add: C'_def)
      next
        case (Cons y ys)
        have "expire es = (A @ [y]) @ expire ys"
          using e \<open>B = b # B'\<close> Cons True by (cases b) simp
        then show ?thesis
          using st C' len iA \<open>B = b # B'\<close> Cons unfolding age_inv_def
          by (intro exI [of _ "A @ [y]"] exI [of _ ys] exI [of _ C']) (simp add: C'_def)
      qed
    qed
  qed
qed

lemma age_all_value:
  assumes "length age = 16" and "length vals = 16"
  shows "length (fst (age_all (age, vals))) = 16 \<and>
     length (snd (age_all (age, vals))) = 16 \<and>
     snd (age_all (age, vals)) =
       map snd (expire (zip age vals)) @ replicate (16 - length (expire (zip age vals))) 10000"
proof -
  let ?es = "zip age vals"
  have "age_inv ?es 0 (age, vals)"
    unfolding age_inv_def using assms
    by (intro exI [of _ "[]"] exI [of _ ?es] exI [of _ "[]"]) simp
  then have "age_inv ?es n (foldl age_step (age, vals) [0..<n])" if "n \<le> 16" for n
    using that by (induction n) (simp_all add: age_inv_step)
  from this [of 16] have "age_inv ?es 16 (age_all (age, vals))" by (simp add: age_all_def)
  then obtain A B C where a: "age_all (age, vals) = (map fst (A @ B @ C), map snd (A @ B @ C))"
    and len: "length (A @ B @ C) = 16" and AB: "length A = 16 \<or> length A \<le> 16 \<and> B = []"
    and C: "\<And>j. j < length C \<Longrightarrow> snd (C ! j) = 10000" and e: "expire ?es = A @ expire B"
    unfolding age_inv_def by blast
  have B: "B = []" using AB len by auto
  have "map snd C = replicate (length C) 10000"
    using C by (intro nth_equalityI) simp_all
  then show ?thesis using a len e B by (auto simp: min_def)
qed

text \<open>The decision tree finds where the value belongs in the sorted window.\<close>

lemma find_position_value:
  assumes v: "sorted v" "length v = 16"
  shows "(find_position f v = - 1 \<and> insort f v = v @ [f]) \<or>
     (\<exists>p<16. find_position f v = int p \<and> insort f v = take p v @ f # drop p v)"
proof -
  have key: "insort f v = take p v @ f # drop p v"
    if p: "p \<le> 16" "p < 16 \<Longrightarrow> f < v ! p" "0 < p \<Longrightarrow> v ! (p - 1) \<le> f" for p
  proof -
    have lo: "\<forall>x\<in>set (take p v). x \<le> f"
    proof
      fix x assume "x \<in> set (take p v)"
      then obtain i where "x = v ! i" "i < p" by (auto simp: in_set_conv_nth)
      then show "x \<le> f" using p sorted_nth_mono [OF v(1), of i "p - 1"] v(2) by fastforce
    qed
    have hi: "\<forall>x\<in>set (drop p v). f \<le> x"
    proof
      fix x assume "x \<in> set (drop p v)"
      then obtain i where "x = v ! (p + i)" "p + i < 16" using v(2) by (auto simp: in_set_conv_nth)
      then show "f \<le> x" using p sorted_nth_mono [OF v(1), of p "p + i"] v(2) by fastforce
    qed
    have "sorted (take p v @ drop p v)" using v by simp
    then have "sorted (take p v @ f # drop p v)" using lo hi unfolding sorted_append by fastforce
    moreover have "sorted (insort f v)" using v by (simp add: sorted_insort)
    moreover have "mset (take p v) + mset (drop p v) = mset v"
      by (metis append_take_drop_id mset_append)
    then have "mset (take p v @ f # drop p v) = mset (insort f v)" by simp
    ultimately show ?thesis by (metis properties_for_sort sorted_sort_id)
  qed
  have "(find_position f v = - 1 \<and> v ! 15 \<le> f) \<or>
      (\<exists>p<16. find_position f v = int p \<and> f < v ! p \<and> (0 < p \<longrightarrow> v ! (p - 1) \<le> f))"
    unfolding find_position_def by (simp add: numeral_nat)
  then show ?thesis
    using key [of 16] key v(2) by auto
qed

definition window :: "int list \<Rightarrow> nat \<Rightarrow> int list" where
  "window a channel = mem_read a (channel * 16) 16"

lemma window_length: "length a = 96 \<Longrightarrow> channel < 6 \<Longrightarrow> length (window a channel) = 16"
  by (simp add: window_def mem_read_def)

lemma window_write:
  assumes "length a = 96" and "c < 6" and "channel < 6" and "length xs = 16"
  shows "window (mem_write a (channel * 16) xs) c = (if c = channel then xs else window a c)"
proof -
  consider "c < channel" | "c = channel" | "channel < c" by linarith
  then show ?thesis
  proof cases
    case 1
    then have "c * 16 + 16 \<le> channel * 16" "16 \<le> channel * 16 - c * 16" by linarith+
    then show ?thesis using assms 1
      by (simp add: window_def mem_read_def mem_write_def drop_take min_def)
  next
    case 2
    then show ?thesis using assms by (simp add: window_def mem_read_def mem_write_def)
  next
    case 3
    then have "channel * 16 + 16 \<le> c * 16" by linarith
    then show ?thesis using assms 3
      by (simp add: window_def mem_read_def mem_write_def)
  qed
qed

lemma insert_value_window:
  assumes "length (fst w) = 16" and "length (snd w) = 16" and "sorted (snd w)"
  shows "snd (insert_value f w) = take 16 (insort f (snd w)) \<and> length (fst (insert_value f w)) = 16"
  using find_position_value [OF assms(3,2), of f]
proof (elim disjE exE conjE)
  fix p :: nat assume "p < 16" "find_position f (snd w) = int p" "insort f (snd w) = take p (snd w) @ f # drop p (snd w)"
  moreover have "16 - p = Suc (15 - p)" using \<open>p < 16\<close> by simp
  ultimately show ?thesis
    using assms by (simp add: insert_value_def Let_def shift_up_value)
qed (use assms in \<open>simp add: insert_value_def\<close>)

lemma expire_subset: "(\<And>x. x \<in> set (map snd (expire xs)) \<Longrightarrow> x \<in> set (map snd xs))"
proof (induction xs rule: expire.induct)
  case (2 a v xs)
  then show ?case by (cases "a = 100"; cases xs) auto
qed simp

lemma expire_sorted: "sorted (map snd xs) \<Longrightarrow> sorted (map snd (expire xs))"
proof (induction xs rule: expire.induct)
  case 1
  then show ?case by simp
next
  case (2 a v xs)
  have le: "v' \<le> x" if "x \<in> set (map snd (expire ys))" "sorted (v' # map snd ys)" for v' x ys
    using expire_subset [OF that(1)] that(2) by auto
  show ?case
  proof (cases "a = 100")
    case True
    then show ?thesis using "2.IH"(2) "2.prems" le [of _ "tl xs"] by (cases xs) auto
  next
    case False
    then show ?thesis using "2.IH"(1) "2.prems" le [of _ xs] by simp
  qed
qed

text \<open>What the windows of the six channels satisfy between two frames.\<close>

definition window_ok :: "int list \<Rightarrow> bool" where
  "window_ok v = (length v = 16 \<and> sorted v \<and> (\<forall>x\<in>set v. x \<le> 10000))"

lemma insort_window_ok: "window_ok v \<Longrightarrow> window_ok (take 16 (insort f v))"
proof -
  assume v: "window_ok v"
  from find_position_value [of v f] v have
    "take 16 (insort f v) = v \<or> (\<exists>p<16. insort f v = take p v @ f # drop p v)"
    by (auto simp: window_ok_def)
  then show "window_ok (take 16 (insort f v))"
  proof (elim disjE exE conjE)
    fix p assume p: "p < 16" "insort f v = take p v @ f # drop p v"
    have s: "sorted (insort f v)" using v by (simp add: window_ok_def sorted_insort)
    have "v ! p \<in> set (drop p v)" using v p
      by (metis Cons_nth_drop_Suc list.set_intros(1) window_ok_def)
    then have "f \<le> v ! p" "v ! p \<le> 10000" using s v p
      by (auto simp: sorted_append window_ok_def dest: in_set_dropD)
    then have "\<forall>x\<in>set (insort f v). x \<le> 10000" using v by (auto simp: window_ok_def set_insort_key)
    then show ?thesis using s v by (auto simp: window_ok_def sorted_wrt_take dest: in_set_takeD)
  qed (use v in simp)
qed

definition kept_values :: "int list \<Rightarrow> int list \<Rightarrow> int list" where
  "kept_values age vals = map snd (expire (zip age vals))"

definition aged_window :: "int list \<Rightarrow> int list \<Rightarrow> int list" where
  "aged_window age vals =
     kept_values age vals @ replicate (16 - length (kept_values age vals)) 10000"

lemma aged_window_value:
  assumes "length age = 16" and "length vals = 16"
  shows "length (fst (age_all (age, vals))) = 16 \<and> snd (age_all (age, vals)) = aged_window age vals \<and>
     length (aged_window age vals) = 16"
proof -
  note v = age_all_value [OF assms]
  moreover from v have "length (snd (age_all (age, vals))) = length (aged_window age vals)"
    by (simp only: aged_window_def kept_values_def length_map)
  ultimately show ?thesis by (simp add: aged_window_def kept_values_def)
qed

lemma aged_window_ok:
  assumes "length age = 16" and "window_ok vals"
  shows "window_ok (aged_window age vals)"
proof -
  have "set (kept_values age vals) \<subseteq> set vals" "sorted (kept_values age vals)"
    using assms expire_subset [of _ "zip age vals"] expire_sorted [of "zip age vals"]
    by (auto simp: kept_values_def window_ok_def)
  then show ?thesis
    using aged_window_value [of age vals] assms
    by (auto simp: window_ok_def aged_window_def sorted_append)
qed

lemma smooth_median_between:
  assumes "is_s16 mean" and "is_s16 median"
  shows "min mean median \<le> smooth_median counter median mean \<and>
     smooth_median counter median mean \<le> max mean median"
proof -
  define alpha where "alpha = (if 0 < counter then (if median < mean then kSmoothingDown else kSmoothingUp) else 0)"
  have a: "0 \<le> alpha" "alpha \<le> 32767"
    by (simp_all add: alpha_def kSmoothingDown_def kSmoothingUp_def)
  have e: "smooth_median counter median mean =
      s16 (drop_bit 15 (s32 ((alpha + 1) * mean + (32767 - alpha) * median + 16384)))"
    by (simp only: smooth_median_def Let_def alpha_def)
  define t where "t = (alpha + 1) * mean + (32767 - alpha) * median"
  have "(alpha + 1) * min mean median \<le> (alpha + 1) * mean" "(alpha + 1) * mean \<le> (alpha + 1) * max mean median"
    "(32767 - alpha) * min mean median \<le> (32767 - alpha) * median"
    "(32767 - alpha) * median \<le> (32767 - alpha) * max mean median"
    using a by (simp_all add: mult_left_mono)
  then have t: "32768 * min mean median \<le> t" "t \<le> 32768 * max mean median"
    by (simp_all add: t_def algebra_simps)
  have m: "- 32768 \<le> min mean median" "max mean median \<le> 32767" using assms by (auto simp: is_s16_def)
  have "- 2147483648 \<le> t + 16384" "t + 16384 < 2147483648" using t m by linarith+
  then have "s32 (t + 16384) = t + 16384" by (intro s32_id) simp_all
  moreover have "min mean median \<le> (t + 16384) div 32768" "(t + 16384) div 32768 \<le> max mean median"
    using t by linarith+
  moreover from this have "- 32768 \<le> (t + 16384) div 32768" "(t + 16384) div 32768 < 32768"
    using m by linarith+
  then have "s16 ((t + 16384) div 32768) = (t + 16384) div 32768" by (intro s16_id) simp_all
  ultimately show ?thesis unfolding e t_def [symmetric] by (simp add: drop_bit_eq_div)
qed


text \<open>The state after a call, by its windows; \<open>w\<close> is the window of the channel afterwards.\<close>

lemma find_minimum_state:
  assumes len: "length (index_vector self) = 96" "length (low_value_vector self) = 96" and c: "channel < 6"
    and ok: "window_ok (window (low_value_vector self) channel)"
  obtains age w mean where
    "WebRtcVad_FindMinimum self feature channel =
       (self\<lparr>index_vector := mem_write (index_vector self) (channel * 16) age,
             low_value_vector := mem_write (low_value_vector self) (channel * 16) w,
             mean_value := (mean_value self)[channel := mean]\<rparr>, mean)"
    and "mean = smooth_median (frame_counter self) (current_median (frame_counter self) w) (mean_value self ! channel)"
    and "w = take 16 (insort feature (aged_window (window (index_vector self) channel) (window (low_value_vector self) channel)))"
    and "window_ok w" and "length age = 16"
    and "length (mem_write (low_value_vector self) (channel * 16) w) = 96"
    and "\<forall>c<6. window (mem_write (low_value_vector self) (channel * 16) w) c =
           (if c = channel then w else window (low_value_vector self) c)"
proof -
  let ?age = "window (index_vector self) channel" and ?vals = "window (low_value_vector self) channel"
  define w where "w = insert_value feature (age_all (?age, ?vals))"
  have l: "length ?age = 16" "length ?vals = 16" using len c by (simp_all add: window_length)
  have ok: "window_ok (aged_window ?age ?vals)" using aged_window_ok l(1) ok by blast
  have w: "snd w = take 16 (insort feature (aged_window ?age ?vals))" "length (fst w) = 16"
    using insert_value_window [of "age_all (?age, ?vals)" feature] aged_window_value [OF l] ok
    by (simp_all add: w_def window_ok_def)
  have ok': "window_ok (snd w)" unfolding w by (rule insort_window_ok [OF ok])
  have l': "length (mem_write (low_value_vector self) (channel * 16) (snd w)) = 96"
    using ok' len c by (simp add: window_ok_def mem_write_def)
  have e: "WebRtcVad_FindMinimum self feature channel =
       (self\<lparr>index_vector := mem_write (index_vector self) (channel * 16) (fst w),
             low_value_vector := mem_write (low_value_vector self) (channel * 16) (snd w),
             mean_value := (mean_value self)[channel := smooth_median (frame_counter self)
               (current_median (frame_counter self) (snd w)) (mean_value self ! channel)]\<rparr>,
        smooth_median (frame_counter self) (current_median (frame_counter self) (snd w)) (mean_value self ! channel))"
    by (simp add: WebRtcVad_FindMinimum_def w_def window_def Let_def split_beta)
  have win: "\<forall>c<6. window (mem_write (low_value_vector self) (channel * 16) (snd w)) c =
           (if c = channel then snd w else window (low_value_vector self) c)"
    using window_write [OF len(2) _ c] ok' by (auto simp: window_ok_def)
  show thesis by (rule that [OF e refl w(1) ok' w(2) l' win])
qed

text \<open>
  the tracking of the smallest features of a channel. The window stays sorted and below 10000:
  it is the sixteen smallest of the new value and the values that have not expired; the windows of
  the other channels do not change. The smoothed value lies between its old value and the median
  the counter selects, and no computation overflows.
\<close>

theorem find_minimum_window:
  assumes "length (index_vector self) = 96" and "length (low_value_vector self) = 96" and "channel < 6"
    and "window_ok (window (low_value_vector self) channel)"
    and "(self', mean) = WebRtcVad_FindMinimum self feature channel"
    and "is_s16 (mean_value self ! channel)"
  shows "window (low_value_vector self') channel =
       take 16 (insort feature (aged_window (window (index_vector self) channel) (window (low_value_vector self) channel))) \<and>
     window_ok (window (low_value_vector self') channel) \<and>
     (\<forall>c<6. c = channel \<or> window (low_value_vector self') c = window (low_value_vector self) c) \<and>
     (let median = current_median (frame_counter self) (window (low_value_vector self') channel)
      in is_s16 median \<longrightarrow> min (mean_value self ! channel) median \<le> mean \<and>
           mean \<le> max (mean_value self ! channel) median)"
proof -
  obtain age w m where
    e: "WebRtcVad_FindMinimum self feature channel =
       (self\<lparr>index_vector := mem_write (index_vector self) (channel * 16) age,
             low_value_vector := mem_write (low_value_vector self) (channel * 16) w,
             mean_value := (mean_value self)[channel := m]\<rparr>, m)"
    and m: "m = smooth_median (frame_counter self) (current_median (frame_counter self) w) (mean_value self ! channel)"
    and w: "w = take 16 (insort feature (aged_window (window (index_vector self) channel) (window (low_value_vector self) channel)))"
      "window_ok w" "length age = 16"
      "length (mem_write (low_value_vector self) (channel * 16) w) = 96"
      "\<forall>c<6. window (mem_write (low_value_vector self) (channel * 16) w) c =
           (if c = channel then w else window (low_value_vector self) c)"
    by (rule find_minimum_state [OF assms(1-4), of feature])
  have "window (low_value_vector self') channel = w"
    "\<forall>c<6. c = channel \<or> window (low_value_vector self') c = window (low_value_vector self) c"
    using assms(3,5) w(5) unfolding e by auto
  then show ?thesis
    using w m assms(5) smooth_median_between [OF assms(6)] unfolding e by (auto simp: Let_def)
qed

end
