(* ===== verification/VadFilterbank.thy ===== *)
theory VadFilterbank
  imports VadInst SplVector
begin

text \<open>
  \<open>src/src/webrtc/common_audio/vad/vad_filterbank.c\<close>: the splitting of a frame of 8 kHz speech into
  six bands and the logarithm of the energy of each band, the features of the detector.
\<close>

definition kLogConst :: int where
  "kLogConst = 24660"

definition kLogEnergyIntPart :: int where
  "kLogEnergyIntPart = 14336"

definition kHpZeroCoefs :: "int \<times> int \<times> int" where
  "kHpZeroCoefs = (6631, - 13262, 6631)"

definition kHpPoleCoefs :: "int \<times> int \<times> int" where
  "kHpPoleCoefs = (16384, - 7756, 5620)"

definition kAllPassCoefsQ15 :: "int \<times> int" where
  "kAllPassCoefsQ15 = (20972, 5571)"

definition kOffsetVector :: "int list" where
  "kOffsetVector = [368, 368, 272, 176, 176, 176]"

subsection \<open>Filters\<close>

definition high_pass_step :: "quad \<Rightarrow> int \<Rightarrow> quad \<times> int" where
  "high_pass_step filter_state x =
     (case (filter_state, kHpZeroCoefs, kHpPoleCoefs) of ((f0, f1, f2, f3), (z0, z1, z2), (p0, p1, p2)) \<Rightarrow>
        let tmp32 = s32 (z0 * x + z1 * f0 + z2 * f1);
            tmp32' = s32 (s32 (tmp32 - p1 * f2) - p2 * f3);
            y = s16 (drop_bit 14 tmp32')
        in ((x, f0, y, f2), y))"

definition HighPassFilter :: "quad \<Rightarrow> int list \<Rightarrow> quad \<times> int list" where
  "HighPassFilter filter_state data_in = run_samples high_pass_step filter_state data_in"

interpretation high_pass: rate_filter HighPassFilter 1 1 1
  by unfold_locales (simp_all add: HighPassFilter_def run_samples_append joined_def)

text \<open>
  The list is that of the samples the filter reads, every second one. Between two calls only the
  upper half of the 32-bit state is kept.
\<close>

definition all_pass_step :: "int \<Rightarrow> int \<Rightarrow> int \<Rightarrow> int \<times> int" where
  "all_pass_step filter_coefficient state32 x =
     (let tmp32 = s32 (state32 + filter_coefficient * x);
          tmp16 = s16 (drop_bit 16 tmp32)
      in (s32 (2 * s32 (x * 16384 - filter_coefficient * tmp16)), tmp16))"

definition AllPassFilter :: "int \<Rightarrow> int \<Rightarrow> int list \<Rightarrow> int \<times> int list" where
  "AllPassFilter filter_coefficient filter_state data_in =
     (let (state32, out) = run_samples (all_pass_step filter_coefficient) (filter_state * 65536) data_in
      in (s16 (drop_bit 16 state32), out))"

text \<open>The result: the two filter states, the upper band and the lower band.\<close>

definition SplitFilter :: "int list \<Rightarrow> int \<Rightarrow> int \<Rightarrow> (int \<times> int) \<times> int list \<times> int list" where
  "SplitFilter data_in upper lower =
     (let (upper', hp_data_out) = AllPassFilter (fst kAllPassCoefsQ15) upper (evens data_in);
          (lower', lp_data_out) = AllPassFilter (snd kAllPassCoefsQ15) lower (odds data_in)
      in ((upper', lower'), map2 (\<lambda>h l. s16 (h - l)) hp_data_out lp_data_out,
          map2 (\<lambda>h l. s16 (l + h)) hp_data_out lp_data_out))"

subsection \<open>The energy of a band\<close>

text \<open>The pair of the total energy and the logarithm.\<close>

definition LogOfEnergy :: "int list \<Rightarrow> int \<Rightarrow> int \<Rightarrow> int \<times> int" where
  "LogOfEnergy data_in offset total_energy =
     (let (en, rshifts) = WebRtcSpl_Energy data_in; energy = u32 en
      in if energy = 0 then (total_energy, offset)
         else
           let normalizing_rshifts = 17 - WebRtcSpl_NormU32 energy;
               tot_rshifts = rshifts + normalizing_rshifts;
               energy' = (if normalizing_rshifts < 0 then u32 (push_bit (nat (- normalizing_rshifts)) energy)
                          else drop_bit (nat normalizing_rshifts) energy);
               log2_energy = s16 (kLogEnergyIntPart + s16 (drop_bit 4 (energy' AND 0x3FFF)));
               log_energy = s16 (drop_bit 19 (kLogConst * log2_energy) + drop_bit 9 (tot_rshifts * kLogConst));
               log_energy' = s16 ((if log_energy < 0 then 0 else log_energy) + offset)
           in (if total_energy \<le> kMinEnergy then
                 if 0 \<le> tot_rshifts then s16 (total_energy + (kMinEnergy + 1))
                 else s16 (total_energy + s16 (drop_bit (nat (- tot_rshifts)) energy'))
               else total_energy, log_energy'))"

subsection \<open>The features\<close>

text \<open>Splitting one band with the filter states of a number, and taking the states over.\<close>

definition split_band :: "VadInstT \<Rightarrow> nat \<Rightarrow> int list \<Rightarrow> VadInstT \<times> int list \<times> int list" where
  "split_band self frequency_band in_ptr =
     (let ((u, l), hp, lp) =
            SplitFilter in_ptr (upper_state self ! frequency_band) (lower_state self ! frequency_band)
      in (self\<lparr>upper_state := (upper_state self)[frequency_band := u],
               lower_state := (lower_state self)[frequency_band := l]\<rparr>, hp, lp))"

definition WebRtcVad_CalculateFeatures :: "VadInstT \<Rightarrow> int list \<Rightarrow> VadInstT \<times> int \<times> int list" where
  "WebRtcVad_CalculateFeatures self data_in =
     (let (self, hp_120, lp_120) = split_band self 0 data_in;
          (self, hp_60, lp_60) = split_band self 1 hp_120;
          (total_energy, f5) = LogOfEnergy hp_60 (kOffsetVector ! 5) 0;
          (total_energy, f4) = LogOfEnergy lp_60 (kOffsetVector ! 4) total_energy;
          (self, hp_60, lp_60) = split_band self 2 lp_120;
          (total_energy, f3) = LogOfEnergy hp_60 (kOffsetVector ! 3) total_energy;
          (self, hp_120, lp_120) = split_band self 3 lp_60;
          (total_energy, f2) = LogOfEnergy hp_120 (kOffsetVector ! 2) total_energy;
          (self, hp_60, lp_60) = split_band self 4 lp_120;
          (total_energy, f1) = LogOfEnergy hp_60 (kOffsetVector ! 1) total_energy;
          (hp, hp_120) = HighPassFilter (hp_filter_state self) lp_60;
          (total_energy, f0) = LogOfEnergy hp_120 (kOffsetVector ! 0) total_energy
      in (self\<lparr>hp_filter_state := hp\<rparr>, total_energy, [f0, f1, f2, f3, f4, f5]))"

subsection \<open>The logarithm of the energy\<close>

text \<open>A positive number normalised to 15 bits: one shift to the left or to the right.\<close>

definition normalised :: "int \<Rightarrow> int" where
  "normalised en = (en * 2 ^ 15) div 2 ^ bit_length (nat en)"

lemma normalised_range:
  assumes "0 < en"
  shows "16384 \<le> normalised en \<and> normalised en < 32768"
proof -
  define b where "b = bit_length (nat en)"
  have "2 ^ (b - 1) \<le> nat en" "nat en < 2 ^ b"
    using bit_length_ge [of "nat en"] bit_length_lt [of "nat en"] assms by (simp_all add: b_def)
  then have e: "2 ^ (b - 1) \<le> en" "en < 2 ^ b"
    using assms by (simp_all add: le_nat_iff nat_less_iff)
  have "b \<noteq> 0" using e assms by (intro notI) simp
  then obtain k where k: "b = Suc k" by (cases b) auto
  have "16384 * 2 ^ b \<le> en * 2 ^ 15" "en * 2 ^ 15 < 32768 * 2 ^ b" using e by (simp_all add: k)
  then show ?thesis
    using zdiv_mono1 [of "16384 * 2 ^ b" "en * 2 ^ 15" "2 ^ b"] int_div_less [of "en * 2 ^ 15" 32768 "2 ^ b"]
    by (simp add: normalised_def b_def)
qed

lemma normalising_shift:
  assumes "0 < en" and "en < 2 ^ 31" and "r = 17 - WebRtcSpl_NormU32 en"
  shows "r = int (bit_length (nat en)) - 15 \<and>
     (if r < 0 then u32 (push_bit (nat (- r)) en) else drop_bit (nat r) en) = normalised en"
proof -
  define b where "b = bit_length (nat en)"
  have "b \<le> 32" using assms nat_lt_power [of en 32] by (simp add: b_def bit_length_le nat_less_iff)
  then have r: "r = int b - 15"
    using assms by (simp add: WebRtcSpl_NormU32_def clz32_value b_def is_s16_def)
  have rg: "16384 \<le> normalised en" "normalised en < 32768" using normalised_range [OF assms(1)] by simp_all
  show ?thesis
  proof (cases "r < 0")
    case True
    then have "b + nat (- r) = 15" using r by simp
    then have "(2 :: int) ^ 15 = 2 ^ b * 2 ^ nat (- r)" by (simp only: power_add [symmetric])
    then have "en * 2 ^ 15 = (en * 2 ^ nat (- r)) * 2 ^ b" by (simp only: ac_simps)
    then have "normalised en = en * 2 ^ nat (- r)"
      unfolding normalised_def b_def [symmetric] by (simp only: nonzero_mult_div_cancel_right) simp
    then show ?thesis using True r rg by (simp add: b_def push_bit_eq_mult u32_id)
  next
    case False
    then have "nat r + 15 = b" using r by simp
    then have "(2 :: int) ^ b = 2 ^ nat r * 2 ^ 15" by (simp only: power_add [symmetric])
    then have "normalised en = en div 2 ^ nat r"
      by (simp add: normalised_def b_def [symmetric])
    then show ?thesis using False r by (simp add: b_def drop_bit_eq_div)
  qed
qed

text \<open>
  the energy of a band of at most 240 samples, none of them -32768. With the exact energy
  \<open>E * 2^s\<close>, where \<open>b\<close> is the length of \<open>E\<close> in bits, the feature is the fixed point value of
  \<open>160 * log10 2 * log2\<close> of it, taken as zero below and put above the offset; it exceeds the offset
  by at most 1900, and the energy indicator grows while it is at most \<open>kMinEnergy\<close>, without overflow.
\<close>

theorem log_energy_value:
  assumes "data_in \<noteq> []" and "length data_in \<le> 240" and "\<forall>x\<in>set data_in. is_s16 x \<and> x \<noteq> - 32768"
    and "0 \<le> offset" and "offset \<le> 368" and "0 \<le> tot" and "tot \<le> 32767"
  shows "\<exists>s. let E = (\<Sum>x\<leftarrow>data_in. (x * x) div 2 ^ s); b = int (bit_length (nat E));
       lg = kLogConst * (kLogEnergyIntPart + (normalised E - 16384) div 16) div 2 ^ 19 +
         (int s + b - 15) * kLogConst div 2 ^ 9;
       (tot', feature) = LogOfEnergy data_in offset tot
     in (if E = 0 then tot' = tot \<and> feature = offset else feature = max 0 lg + offset) \<and>
       offset \<le> feature \<and> feature \<le> offset + 1900 \<and> tot \<le> tot' \<and> tot' \<le> 32767 \<and>
       (kMinEnergy < tot \<longrightarrow> tot' = tot)"
proof -
  have "length data_in < 2 ^ 31" using assms(2) by simp
  obtain s where en: "WebRtcSpl_Energy data_in = ((\<Sum>x\<leftarrow>data_in. (x * x) div 2 ^ s), int s)"
    and E0: "0 \<le> (\<Sum>x\<leftarrow>data_in. (x * x) div 2 ^ s)" "(\<Sum>x\<leftarrow>data_in. (x * x) div 2 ^ s) < 2 ^ 31"
    and sl: "s \<le> bit_length (length data_in)"
    by (rule energy_value [OF assms(1,3) \<open>length data_in < 2 ^ 31\<close>])
  define E where "E = (\<Sum>x\<leftarrow>data_in. (x * x) div 2 ^ s)"
  define b where "b = bit_length (nat E)"
  define tr where "tr = int s + (int b - 15)"
  define m where "m = normalised E"
  define lg where "lg = kLogConst * (kLogEnergyIntPart + (m - 16384) div 16) div 2 ^ 19 + tr * kLogConst div 2 ^ 9"
  have "bit_length (length data_in) \<le> 8" using assms(2) by (simp add: bit_length_le)
  then have s8: "s \<le> 8" using sl by simp
  have b31: "b \<le> 31" using E0 nat_lt_power [of E 31] by (simp add: b_def bit_length_le E_def)
  have uE: "u32 E = E" using E0 by (intro u32_id) (simp_all add: E_def)
  show ?thesis
  proof (cases "E = 0")
    case True
    then have "LogOfEnergy data_in offset tot = (tot, offset)"
      using en uE by (simp add: LogOfEnergy_def E_def Let_def)
    then show ?thesis using True assms by (intro exI [of _ s]) (simp add: E_def [symmetric] Let_def)
  next
    case False
    then have pos: "0 < E" using E0 by (simp add: E_def)
    note n = normalising_shift [OF pos, of "17 - WebRtcSpl_NormU32 E", OF _ refl]
    have mr: "16384 \<le> m" "m < 32768" using normalised_range [OF pos] by (simp_all add: m_def)
    define q where "q = (m - 16384) div 16"
    have q: "0 \<le> q" "q \<le> 1023" using mr by (simp_all add: q_def)
    have "m AND 0x3FFF = m - 16384"
    proof -
      have "m AND 0x3FFF = m mod 16384" using take_bit_eq_mask [of 14 m] by (simp add: mask_eq_exp_minus_1 take_bit_eq_mod)
      also have "\<dots> = m - 16384 * (m div 16384)" by (simp add: minus_mult_div_eq_mod)
      also have "m div 16384 = 1" using mr by linarith
      finally show ?thesis by simp
    qed
    then have frac: "s16 (drop_bit 4 (m AND 0x3FFF)) = q" using q by (simp add: drop_bit_eq_div q_def is_s16_def)
    have l2: "s16 (kLogEnergyIntPart + q) = kLogEnergyIntPart + q" using q by (simp add: kLogEnergyIntPart_def is_s16_def)
    have tr: "- 14 \<le> tr" "tr \<le> 24"
    proof -
      have "b \<noteq> 0" using pos bit_length_lt [of "nat E"] by (intro notI) (simp add: b_def)
      then show "- 14 \<le> tr" "tr \<le> 24" using s8 b31 by (simp_all add: tr_def)
    qed
    have "674 \<le> kLogConst * (kLogEnergyIntPart + q) div 2 ^ 19" "kLogConst * (kLogEnergyIntPart + q) div 2 ^ 19 \<le> 722"
      "- 675 \<le> tr * kLogConst div 2 ^ 9" "tr * kLogConst div 2 ^ 9 \<le> 1155"
      using q tr by (simp_all add: kLogConst_def kLogEnergyIntPart_def)
    then have lgr: "- 1 \<le> lg" "lg \<le> 1877" by (simp_all add: lg_def q_def [symmetric])
    have lge: "s16 (drop_bit 19 (kLogConst * (kLogEnergyIntPart + q)) + drop_bit 9 (tr * kLogConst)) = lg"
      using lgr by (simp add: lg_def q_def drop_bit_eq_div is_s16_def)
    have n1: "17 - WebRtcSpl_NormU32 E = int b - 15" using n E0 by (simp add: E_def [symmetric] b_def)
    have n': "(if int b - 15 < 0 then u32 (push_bit (nat (- (int b - 15))) E) else drop_bit (nat (int b - 15)) E) = m"
      unfolding m_def n1 [symmetric] using n E0 by (simp add: E_def [symmetric])
    define tot' where "tot' = (if tot \<le> kMinEnergy then if 0 \<le> tr then s16 (tot + (kMinEnergy + 1))
        else s16 (tot + s16 (drop_bit (nat (- tr)) m)) else tot)"
    have lgo: "s16 ((if lg < 0 then 0 else lg) + offset) = max 0 lg + offset"
      using lgr assms(4,5) by (auto simp: is_s16_def)
    have "LogOfEnergy data_in offset tot = (tot', max 0 lg + offset)"
      unfolding LogOfEnergy_def en E_def [symmetric] split_conv Let_def uE n1
      unfolding n' tr_def [symmetric] frac l2 lge lgo tot'_def
      using False by simp
    moreover have "tot \<le> tot' \<and> tot' \<le> 32767 \<and> (kMinEnergy < tot \<longrightarrow> tot' = tot)"
    proof -
      have d: "0 \<le> drop_bit (nat (- tr)) m \<and> drop_bit (nat (- tr)) m < 16384" if "tr < 0"
      proof -
        have "nat (- tr) = Suc (nat (- tr - 1))" using that by simp
        then have "drop_bit (nat (- tr)) m = drop_bit (nat (- tr - 1)) (m div 2)"
          by (simp add: drop_bit_eq_div zdiv_zmult2_eq)
        then show ?thesis
          using mr shr_lower [of 0 "m div 2"] shr_upper [of "m div 2" 16384] by simp
      qed
      show ?thesis
      proof (cases "tot \<le> kMinEnergy \<and> tr < 0")
        case True
        then have b: "0 \<le> drop_bit (nat (- tr)) m" "drop_bit (nat (- tr)) m < 16384" "tot \<le> 10"
          using d by (simp_all add: kMinEnergy_def)
        then have "is_s16 (drop_bit (nat (- tr)) m)" "is_s16 (tot + drop_bit (nat (- tr)) m)"
          unfolding is_s16_def using assms(6) by linarith+
        then have "s16 (drop_bit (nat (- tr)) m) = drop_bit (nat (- tr)) m"
          "s16 (tot + drop_bit (nat (- tr)) m) = tot + drop_bit (nat (- tr)) m" by simp_all
        then show ?thesis using True d assms(6) by (simp add: tot'_def kMinEnergy_def)
      next
        case False
        then show ?thesis using assms(6,7) by (auto simp: tot'_def kMinEnergy_def is_s16_def)
      qed
    qed
    ultimately show ?thesis
      using False lgr by (intro exI [of _ s]) (simp add: E_def [symmetric] Let_def m_def lg_def tr_def b_def add_diff_eq)
  qed
qed

theorem log_energy_value_witness:
  "\<exists>tot' feature. LogOfEnergy [3000, - 4000, 500] 176 0 = (tot', feature) \<and> 176 \<le> feature \<and> feature \<le> 2076"
proof -
  obtain t f where "LogOfEnergy [3000, - 4000, 500] 176 0 = (t, f)" by fastforce
  then show ?thesis
    using log_energy_value [of "[3000, - 4000, 500]" 176 0] by (auto simp: is_s16_def Let_def)
qed

end
