(* ===== verification/VadGmm.thy ===== *)
theory VadGmm
  imports Spl
begin

text \<open>
  \<open>src/src/webrtc/common_audio/vad/vad_gmm.c\<close>: the probability of a feature under a normal
  distribution, in fixed point.
\<close>

definition kCompVar :: int where
  "kCompVar = 22005"

definition kLog2Exp :: int where
  "kLog2Exp = 5909"

text \<open>\<open>exp_value\<close> for an exponent in Q10; the exclusive or with \<open>0xFFFF\<close> is on 16 bits.\<close>

definition exp_value :: "int \<Rightarrow> int" where
  "exp_value tmp32 =
     (if tmp32 < kCompVar then
        let tmp16 = s16 (drop_bit 12 (s32 (kLog2Exp * tmp32)));
            tmp16 = s16 (- tmp16);
            e = s16 (0x0400 OR (tmp16 AND 0x03FF));
            tmp16 = s16 (u16 tmp16 XOR 0xFFFF);
            tmp16 = s16 (drop_bit 10 tmp16 + 1)
        in s16 (drop_bit (nat tmp16) e)
      else 0)"

text \<open>The pair of the probability and \<open>delta\<close>.\<close>

definition WebRtcVad_GaussianProbability :: "int \<Rightarrow> int \<Rightarrow> int \<Rightarrow> int \<times> int" where
  "WebRtcVad_GaussianProbability input0 mean std =
     (let tmp32 = 131072 + drop_bit 1 std;
          inv_std = s16 (WebRtcSpl_DivW32W16 tmp32 std);
          tmp16 = drop_bit 2 inv_std;
          inv_std2 = s16 (drop_bit 2 (tmp16 * tmp16));
          tmp16 = s16 (push_bit 3 input0);
          tmp16 = s16 (tmp16 - mean);
          delta = s16 (drop_bit 10 (inv_std2 * tmp16))
      in (s32 (inv_std * exp_value (drop_bit 9 (delta * tmp16))), delta))"

lemma u16_complement: "s16 (u16 x XOR 0xFFFF) = s16 (- x - 1)"
proof -
  have "u16 x XOR 0xFFFF = take_bit 16 (NOT x)"
  proof (rule bit_eqI)
    fix n
    have "(0xFFFF :: int) = mask 16" by (simp add: mask_eq_exp_minus_1)
    then have "bit (0xFFFF :: int) n \<longleftrightarrow> n < 16" by (metis bit_mask_iff possible_bit_int)
    moreover have "u16 x = take_bit 16 x" by (simp add: u16_def take_bit_eq_mod)
    ultimately show "bit (u16 x XOR 0xFFFF) n \<longleftrightarrow> bit (take_bit 16 (NOT x)) n"
      by (auto simp only: bit_simps possible_bit_int)
  qed
  then have "s16 (u16 x XOR 0xFFFF) = ((- x - 1) mod 2 ^ 16 + 2 ^ 15) mod 2 ^ 16 - 2 ^ 15"
    by (simp add: s16_def take_bit_eq_mod not_int_def)
  then show ?thesis by (simp add: s16_def mod_add_left_eq)
qed

text \<open>
  A power of two in fixed point: with \<open>a\<close> the exponent times the logarithm of \<open>e\<close>, in Q10, its
  fractional part gives the mantissa and its integer part the shift, which is at most 31.
\<close>

lemma exp_value_value:
  assumes "0 \<le> t" and "t < 22005" and "a = (5909 * t) div 4096"
  shows "exp_value t = (1024 OR ((- a) mod 1024)) div 2 ^ nat ((a - 1) div 1024 + 1) \<and>
     0 \<le> (a - 1) div 1024 + 1 \<and> (a - 1) div 1024 + 1 \<le> 31"
proof -
  have a: "0 \<le> a" "a \<le> 31743" using assms by linarith+
  have m: "(- a) AND 1023 = (- a) mod 1024"
    using take_bit_eq_mask [of 10 "- a"] by (simp add: mask_eq_exp_minus_1 take_bit_eq_mod)
  have "0 \<le> (- a) mod 1024" "(- a) mod 1024 < 1024" by simp_all
  then have e: "0 \<le> 1024 OR ((- a) mod 1024)" "1024 OR ((- a) mod 1024) < 2048"
    using OR_upper [of 1024 11 "(- a) mod 1024"] by simp_all
  have sh: "0 \<le> (a - 1) div 1024 + 1" "(a - 1) div 1024 + 1 \<le> 31" using a by linarith+
  let ?n = "nat ((a - 1) div 1024 + 1)"
  have d: "drop_bit ?n (1024 OR ((- a) mod 1024)) < 2048" "0 \<le> drop_bit ?n (1024 OR ((- a) mod 1024))"
    using shr_upper [OF e(2)] shr_lower [of 0 "1024 OR ((- a) mod 1024)"] e(1) by simp_all
  have "s32 (5909 * t) = 5909 * t" by (rule s32_id) (use assms in simp_all)
  then have log: "s16 (drop_bit 12 (s32 (kLog2Exp * t))) = a"
    using a by (simp add: kLog2Exp_def drop_bit_eq_div assms(3) [symmetric] is_s16_def)
  have neg: "s16 (- a) = - a" "s16 (- (- a) - 1) = a - 1" using a by (simp_all add: is_s16_def)
  have mant: "s16 (0x0400 OR ((- a) AND 0x03FF)) = 1024 OR ((- a) mod 1024)"
    unfolding m by (rule s16_is) (use e in \<open>unfold is_s16_def, linarith\<close>)
  have shift: "s16 (drop_bit 10 (a - 1) + 1) = (a - 1) div 1024 + 1"
    using sh by (simp add: drop_bit_eq_div is_s16_def)
  have res: "s16 (drop_bit ?n (1024 OR ((- a) mod 1024))) = drop_bit ?n (1024 OR ((- a) mod 1024))"
    by (rule s16_is) (use d in \<open>unfold is_s16_def, linarith\<close>)
  have "exp_value t = drop_bit ?n (1024 OR ((- a) mod 1024))"
    using assms(2) unfolding exp_value_def Let_def log neg u16_complement mant shift res by (simp add: kCompVar_def)
  then show ?thesis using sh by (simp add: drop_bit_eq_div)
qed

lemma exp_value_bounds:
  assumes "0 \<le> t"
  shows "0 \<le> exp_value t \<and> exp_value t \<le> 1024"
proof (cases "t < 22005")
  case False
  then show ?thesis by (simp add: exp_value_def kCompVar_def)
next
  case True
  define a where "a = (5909 * t) div 4096"
  define e where "e = 1024 OR ((- a) mod 1024)"
  have a: "0 \<le> a" using assms by (simp add: a_def)
  have e: "0 \<le> e" "e < 2048" using OR_upper [of 1024 11 "(- a) mod 1024"] by (simp_all add: e_def)
  have v: "exp_value t = e div 2 ^ nat ((a - 1) div 1024 + 1)"
    using exp_value_value [OF assms True a_def] by (simp add: e_def)
  show ?thesis
  proof (cases "a = 0")
    case True
    then show ?thesis using v by (simp add: e_def)
  next
    case False
    then have "1 \<le> nat ((a - 1) div 1024 + 1)" using a by (simp add: pos_imp_zdiv_nonneg_iff)
    then obtain k where k: "nat ((a - 1) div 1024 + 1) = Suc k" by (cases "nat ((a - 1) div 1024 + 1)") auto
    have "exp_value t = drop_bit k (e div 2)"
      by (simp add: v k drop_bit_eq_div zdiv_zmult2_eq)
    moreover have "0 \<le> e div 2" "e div 2 < 1024" using e by linarith+
    ultimately show ?thesis
      using shr_upper [of "e div 2" 1024 k] shr_lower [of 0 "e div 2" k] by simp
  qed
qed

text \<open>
  the fixed point probability of a feature that is not too far from the mean, for a standard
  deviation as the detector keeps them: with the distance \<open>d\<close> in Q7, no intermediate value
  overflows, so the result is that of the formula over the integers; it is not negative, at most
  the inverse of the standard deviation in Q20, and the density is computed with a shift that is
  between 0 and 31.
\<close>

theorem gaussian_probability_exact:
  assumes "378 \<le> std" and "std \<le> 32767" and "is_s16 (8 * input0)"
    and "d = 8 * input0 - mean" and "\<bar>d\<bar> \<le> 18000"
    and "inv_std = (131072 + std div 2) div std" and "inv_std2 = (inv_std div 4)\<^sup>2 div 4"
    and "delta = inv_std2 * d div 1024"
  shows "WebRtcVad_GaussianProbability input0 mean std = (inv_std * exp_value (delta * d div 512), delta) \<and>
     0 \<le> inv_std * exp_value (delta * d div 512) \<and> inv_std * exp_value (delta * d div 512) \<le> inv_std * 1024 \<and>
     0 < inv_std \<and> inv_std \<le> 347 \<and> is_s16 delta"
proof -
  have i: "3 \<le> inv_std" "inv_std \<le> 347"
  proof -
    have "3 * std \<le> 131072 + std div 2" "131072 + std div 2 < 348 * std" using assms(1,2) by linarith+
    then show "3 \<le> inv_std" "inv_std \<le> 347"
      using assms(1,6) zdiv_mono1 [of "3 * std" "131072 + std div 2" std]
        int_div_less [of "131072 + std div 2" 348 std] by simp_all
  qed
  have q: "0 \<le> inv_std div 4" "inv_std div 4 \<le> 86" using i by linarith+
  then have "(inv_std div 4)\<^sup>2 \<le> 86\<^sup>2" by (intro power_mono)
  then have "0 \<le> (inv_std div 4)\<^sup>2" "(inv_std div 4)\<^sup>2 \<le> 7396" by simp_all
  then have i2: "0 \<le> inv_std2" "inv_std2 \<le> 1849" unfolding assms(7) by linarith+
  have "\<bar>inv_std2 * d\<bar> \<le> 1849 * 18000" unfolding abs_mult using i2 assms(5) by (intro mult_mono) simp_all
  then have dl: "- 32503 \<le> delta" "delta \<le> 32502" unfolding assms(8) by linarith+
  have "0 \<le> delta * d"
  proof (cases "0 \<le> d")
    case True
    then have "0 \<le> delta" using i2(1) assms(8) by (simp add: pos_imp_zdiv_nonneg_iff)
    then show ?thesis using True by simp
  next
    case False
    then have "inv_std2 * d \<le> 0" using i2(1) by (simp add: mult_nonneg_nonpos)
    then have "delta \<le> 0" unfolding assms(8) by linarith
    then show ?thesis using False by (simp add: mult_nonpos_nonpos)
  qed
  then have ex: "0 \<le> exp_value (delta * d div 512)" "exp_value (delta * d div 512) \<le> 1024"
    using exp_value_bounds [of "delta * d div 512"] by (simp_all add: pos_imp_zdiv_nonneg_iff)
  have p: "0 \<le> inv_std * exp_value (delta * d div 512)"
    "inv_std * exp_value (delta * d div 512) \<le> inv_std * 1024"
    using ex i by (simp_all add: mult_left_mono)
  have "WebRtcSpl_DivW32W16 (131072 + drop_bit 1 std) std = s32 inv_std"
    using assms(1) by (simp add: WebRtcSpl_DivW32W16_def c_div_nonneg assms(6) drop_bit_eq_div)
  then have e1: "s16 (WebRtcSpl_DivW32W16 (131072 + drop_bit 1 std) std) = inv_std"
    using i by (simp add: is_s16_def is_s32_def)
  have e2: "s16 (drop_bit 2 (drop_bit 2 inv_std * drop_bit 2 inv_std)) = inv_std2"
    using i2 assms(7) by (simp add: drop_bit_eq_div power2_eq_square is_s16_def)
  have e3: "s16 (s16 (push_bit 3 input0) - mean) = d"
  proof -
    have "s16 (push_bit 3 input0) = 8 * input0" using assms(3) by (simp add: push_bit_eq_mult mult.commute)
    moreover have "is_s16 d" unfolding is_s16_def using assms(5) by linarith
    ultimately show ?thesis using assms(4) by simp
  qed
  have e4: "s16 (drop_bit 10 (inv_std2 * d)) = delta"
    using dl assms(8) by (simp add: drop_bit_eq_div is_s16_def)
  have e5: "s32 (inv_std * exp_value (drop_bit 9 (delta * d))) = inv_std * exp_value (delta * d div 512)"
  proof -
    have "inv_std * 1024 \<le> 347 * 1024" using i by (intro mult_right_mono) simp_all
    then have "inv_std * exp_value (delta * d div 512) \<le> 355328" using p(2) by linarith
    then show ?thesis using p(1) by (simp add: drop_bit_eq_div is_s32_def)
  qed
  have "WebRtcVad_GaussianProbability input0 mean std = (inv_std * exp_value (delta * d div 512), delta)"
    by (simp only: WebRtcVad_GaussianProbability_def Let_def e1 e2 e3 e4 e5)
  then show ?thesis using p i dl by (simp add: is_s16_def)
qed

theorem gaussian_probability_exact_witness:
  "WebRtcVad_GaussianProbability 800 6738 378 = (347 * exp_value ((1849 * (- 338) div 1024) * (- 338) div 512), 1849 * (- 338) div 1024)"
  using gaussian_probability_exact [OF _ _ _ refl _ refl refl refl, of 378 800 6738]
  by (simp add: is_s16_def)

end
