(* ===== verification/VadCore.thy ===== *)
theory VadCore
  imports VadSp VadFilterbank VadGmm
begin

text \<open>
  \<open>src/src/webrtc/common_audio/vad/vad_core.c\<close>: the decision about a frame from two Gaussian
  mixture models, for noise and for speech, and the update of the models. The function
  \<open>GmmProbability\<close> is split at its two loops over the channels, at the loop over the two Gaussians
  of a channel and at the final smoothing.
\<close>

subsection \<open>Tables\<close>

definition kSpectrumWeight :: "int list" where
  "kSpectrumWeight = [6, 8, 10, 12, 14, 16]"

definition kNoiseUpdateConst :: int where
  "kNoiseUpdateConst = 655"

definition kSpeechUpdateConst :: int where
  "kSpeechUpdateConst = 6554"

definition kBackEta :: int where
  "kBackEta = 154"

definition kMinimumDifference :: "int list" where
  "kMinimumDifference = [544, 544, 576, 576, 576, 576]"

definition kMaximumSpeech :: "int list" where
  "kMaximumSpeech = [11392, 11392, 11520, 11520, 11520, 11520]"

definition kMinimumMean :: "int list" where
  "kMinimumMean = [640, 768]"

definition kMaximumNoise :: "int list" where
  "kMaximumNoise = [9216, 9088, 8960, 8832, 8704, 8576]"

definition kNoiseDataWeights :: "int list" where
  "kNoiseDataWeights = [34, 62, 72, 66, 53, 25, 94, 66, 56, 62, 75, 103]"

definition kSpeechDataWeights :: "int list" where
  "kSpeechDataWeights = [48, 82, 45, 87, 50, 47, 80, 46, 83, 41, 78, 81]"

definition kNoiseDataMeans :: "int list" where
  "kNoiseDataMeans = [6738, 4892, 7065, 6715, 6771, 3369, 7646, 3863, 7820, 7266, 5020, 4362]"

definition kSpeechDataMeans :: "int list" where
  "kSpeechDataMeans = [8306, 10085, 10078, 11823, 11843, 6309, 9473, 9571, 10879, 7581, 8180, 7483]"

definition kNoiseDataStds :: "int list" where
  "kNoiseDataStds = [378, 1064, 493, 582, 688, 593, 474, 697, 475, 688, 421, 455]"

definition kSpeechDataStds :: "int list" where
  "kSpeechDataStds = [555, 505, 567, 524, 585, 1231, 509, 828, 492, 1540, 1079, 850]"

definition kMaxSpeechFrames :: int where
  "kMaxSpeechFrames = 6"

definition kMinStd :: int where
  "kMinStd = 384"

definition kDefaultMode :: int where
  "kDefaultMode = 0"

definition kInitCheck :: int where
  "kInitCheck = 42"

text \<open>\<open>kOverHangMax1\<close>, \<open>kOverHangMax2\<close>, \<open>kLocalThreshold\<close>, \<open>kGlobalThreshold\<close> of the four modes.\<close>

definition kModes :: "(int list \<times> int list \<times> int list \<times> int list) list" where
  "kModes =
     [([8, 4, 3], [14, 7, 5], [24, 21, 24], [57, 48, 57]),
      ([8, 4, 3], [14, 7, 5], [37, 32, 37], [100, 80, 100]),
      ([6, 3, 2], [9, 5, 3], [82, 78, 82], [285, 260, 285]),
      ([6, 3, 2], [9, 5, 3], [94, 94, 94], [1100, 1050, 1100])]"

subsection \<open>The likelihoods\<close>

text \<open>The means of a channel are moved by an offset before they are averaged.\<close>

definition WeightedAverage :: "int list \<Rightarrow> nat \<Rightarrow> int \<Rightarrow> int list \<Rightarrow> int list \<times> int" where
  "WeightedAverage data channel offset weights =
     foldl (\<lambda>(d, wa) k.
         let g = channel + k * kNumChannels; d = d[g := s16 (d ! g + offset)]
         in (d, s32 (wa + d ! g * weights ! g))) (data, 0) [0..<kNumGaussians]"

definition OverflowingMulS16ByS32ToS32 :: "int \<Rightarrow> int \<Rightarrow> int" where
  "OverflowingMulS16ByS32ToS32 a b = s32 (a * b)"

text \<open>Gaussian \<open>k\<close> of the channel under both hypotheses: the weighted probability and \<open>delta\<close>.\<close>

definition noise_gaussian :: "VadInstT \<Rightarrow> int list \<Rightarrow> nat \<Rightarrow> nat \<Rightarrow> int \<times> int" where
  "noise_gaussian self features channel k =
     (let g = channel + k * kNumChannels;
          (p, delta) = WebRtcVad_GaussianProbability (features ! channel) (noise_means self ! g) (noise_stds self ! g)
      in (s32 (kNoiseDataWeights ! g * p), delta))"

definition speech_gaussian :: "VadInstT \<Rightarrow> int list \<Rightarrow> nat \<Rightarrow> nat \<Rightarrow> int \<times> int" where
  "speech_gaussian self features channel k =
     (let g = channel + k * kNumChannels;
          (p, delta) = WebRtcVad_GaussianProbability (features ! channel) (speech_means self ! g) (speech_stds self ! g)
      in (s32 (kSpeechDataWeights ! g * p), delta))"

definition h_test :: "(nat \<Rightarrow> int \<times> int) \<Rightarrow> int" where
  "h_test gauss = foldl (\<lambda>h k. s32 (h + fst (gauss k))) 0 [0..<kNumGaussians]"

definition shifts :: "int \<Rightarrow> int" where
  "shifts h = (if h = 0 then 31 else WebRtcSpl_NormW32 h)"

definition log_likelihood_ratio :: "VadInstT \<Rightarrow> int list \<Rightarrow> nat \<Rightarrow> int" where
  "log_likelihood_ratio self features channel =
     s16 (shifts (h_test (noise_gaussian self features channel)) -
          shifts (h_test (speech_gaussian self features channel)))"

text \<open>
  The conditional probability of each of the two Gaussians; \<open>first\<close> is the value for the first one
  where the hypothesis is improbable.
\<close>

definition conditional :: "int \<Rightarrow> (nat \<Rightarrow> int \<times> int) \<Rightarrow> nat \<Rightarrow> int" where
  "conditional first gauss k =
     (let h = s16 (drop_bit 12 (h_test gauss));
          g0 = s16 (WebRtcSpl_DivW32W16 (s32 (push_bit 2 (u32 (fst (gauss 0)) AND 0xFFFFF000))) h)
      in if 0 < h then (if k = 0 then g0 else s16 (16384 - g0)) else (if k = 0 then first else 0))"

definition sum_log_likelihood_ratios :: "VadInstT \<Rightarrow> int list \<Rightarrow> int" where
  "sum_log_likelihood_ratios self features =
     foldl (\<lambda>acc c. s32 (acc + log_likelihood_ratio self features c * kSpectrumWeight ! c)) 0 [0..<kNumChannels]"

text \<open>The decision: one channel or all of them together.\<close>

definition decide :: "VadInstT \<Rightarrow> int list \<Rightarrow> int \<Rightarrow> int \<Rightarrow> int" where
  "decide self features individualTest totalTest =
     (if list_ex (\<lambda>c. individualTest < log_likelihood_ratio self features c * 4) [0..<kNumChannels] \<or>
         totalTest \<le> sum_log_likelihood_ratios self features then 1 else 0)"

subsection \<open>The update of the models\<close>

text \<open>
  The mean of a noise Gaussian: moved towards the feature in a noise frame, corrected towards the
  minimum, and clamped. \<open>noise_global\<close> is the weighted mean in Q8.
\<close>

definition update_noise_mean :: "int \<Rightarrow> nat \<Rightarrow> nat \<Rightarrow> int \<Rightarrow> int \<Rightarrow> int \<Rightarrow> int \<Rightarrow> int \<Rightarrow> int" where
  "update_noise_mean vadflag channel k ngpr deltaN feature_minimum noise_global nmk =
     (let delt = s16 (drop_bit 11 (ngpr * deltaN));
          nmk2 = (if vadflag = 0 then s16 (nmk + s16 (drop_bit 22 (delt * kNoiseUpdateConst))) else nmk);
          ndelt = s16 (push_bit 4 feature_minimum - noise_global);
          nmk3 = s16 (nmk2 + s16 (drop_bit 9 (ndelt * kBackEta)));
          lo = s16 (push_bit 7 (int k + 5));
          nmk3 = (if nmk3 < lo then lo else nmk3);
          hi = s16 (push_bit 7 (72 + int k - int channel))
      in if hi < nmk3 then hi else nmk3)"

definition update_speech_mean :: "int \<Rightarrow> nat \<Rightarrow> int \<Rightarrow> int \<Rightarrow> int \<Rightarrow> int" where
  "update_speech_mean maxspe k sgpr deltaS smk =
     (let delt = s16 (drop_bit 11 (sgpr * deltaS));
          tmp_s16 = s16 (drop_bit 21 (delt * kSpeechUpdateConst));
          smk2 = s16 (smk + drop_bit 1 (tmp_s16 + 1));
          maxmu = s16 (maxspe + 640);
          smk2 = (if smk2 < kMinimumMean ! k then kMinimumMean ! k else smk2)
      in if maxmu < smk2 then maxmu else smk2)"

text \<open>The quotient of the absolute value, with the sign put back, in 16 bits.\<close>

definition signed_quotient :: "int \<Rightarrow> int \<Rightarrow> int" where
  "signed_quotient num den =
     (if 0 < num then s16 (WebRtcSpl_DivW32W16 num den)
      else s16 (- s16 (WebRtcSpl_DivW32W16 (s32 (- num)) den)))"

definition update_speech_std :: "int \<Rightarrow> int \<Rightarrow> int \<Rightarrow> int \<Rightarrow> int \<Rightarrow> int" where
  "update_speech_std feature sgpr deltaS smk ssk =
     (let tmp_s16 = s16 (feature - s16 (drop_bit 3 (smk + 4)));
          tmp2_s32 = s32 (drop_bit 3 (deltaS * tmp_s16) - 4096);
          tmp1_s32 = s32 (drop_bit 2 sgpr * tmp2_s32);
          tmp_s16 = s16 (signed_quotient (drop_bit 4 tmp1_s32) (s16 (ssk * 10)) + 128);
          ssk = s16 (ssk + drop_bit 8 tmp_s16)
      in if ssk < kMinStd then kMinStd else ssk)"

definition update_noise_std :: "int \<Rightarrow> int \<Rightarrow> int \<Rightarrow> int \<Rightarrow> int \<Rightarrow> int" where
  "update_noise_std feature ngpr deltaN nmk nsk =
     (let tmp_s16 = s16 (feature - drop_bit 3 nmk);
          tmp1_s32 = s32 (drop_bit 3 (deltaN * tmp_s16) - 4096);
          tmp2_s32 = OverflowingMulS16ByS32ToS32 (s16 (drop_bit 2 (ngpr + 2))) tmp1_s32;
          tmp_s16 = s16 (signed_quotient (drop_bit 14 tmp2_s32) nsk + 32);
          nsk = s16 (nsk + drop_bit 6 tmp_s16)
      in if nsk < kMinStd then kMinStd else nsk)"

text \<open>
  What the first loop has computed for Gaussian \<open>k\<close> of a channel: \<open>ngprvec\<close>, \<open>deltaN\<close>, \<open>sgprvec\<close>,
  \<open>deltaS\<close>.
\<close>

type_synonym evidence = "nat \<Rightarrow> nat \<Rightarrow> int \<times> int \<times> int \<times> int"

definition gather :: "VadInstT \<Rightarrow> int list \<Rightarrow> evidence" where
  "gather self features channel k =
     (let noise = noise_gaussian self features channel; speech = speech_gaussian self features channel
      in (conditional 16384 noise k, snd (noise k), conditional 0 speech k, snd (speech k)))"

definition update_gaussian ::
    "int list \<Rightarrow> int \<Rightarrow> evidence \<Rightarrow> int \<Rightarrow> nat \<Rightarrow> int \<Rightarrow> int \<Rightarrow> VadInstT \<Rightarrow> nat \<Rightarrow> VadInstT" where
  "update_gaussian features vadflag ev maxspe channel feature_minimum noise_global self k =
     (let g = channel + k * kNumChannels;
          nmk = noise_means self ! g; smk = speech_means self ! g;
          nsk = noise_stds self ! g; ssk = speech_stds self ! g;
          (ngpr, deltaN, sgpr, deltaS) = ev channel k;
          self = self\<lparr>noise_means := (noise_means self)[g :=
            update_noise_mean vadflag channel k ngpr deltaN feature_minimum noise_global nmk]\<rparr>
      in if vadflag \<noteq> 0
         then self\<lparr>speech_means := (speech_means self)[g := update_speech_mean maxspe k sgpr deltaS smk],
                speech_stds := (speech_stds self)[g := update_speech_std (features ! channel) sgpr deltaS smk ssk]\<rparr>
         else self\<lparr>noise_stds := (noise_stds self)[g := update_noise_std (features ! channel) ngpr deltaN nmk nsk]\<rparr>)"

text \<open>Separating the two models of a channel; the result has the two weighted means as well.\<close>

definition separate_models :: "nat \<Rightarrow> VadInstT \<Rightarrow> VadInstT \<times> int \<times> int" where
  "separate_models channel self =
     (let (_, noise_global_mean) = WeightedAverage (noise_means self) channel 0 kNoiseDataWeights;
          (_, speech_global_mean) = WeightedAverage (speech_means self) channel 0 kSpeechDataWeights;
          diff = s16 (s16 (drop_bit 9 speech_global_mean) - s16 (drop_bit 9 noise_global_mean))
      in if diff < kMinimumDifference ! channel then
           let tmp_s16 = s16 (kMinimumDifference ! channel - diff);
               tmp1_s16 = s16 (drop_bit 2 (13 * tmp_s16));
               tmp2_s16 = s16 (drop_bit 2 (3 * tmp_s16));
               (sm, speech_global_mean) = WeightedAverage (speech_means self) channel tmp1_s16 kSpeechDataWeights;
               (nm, noise_global_mean) = WeightedAverage (noise_means self) channel (s16 (- tmp2_s16)) kNoiseDataWeights
           in (self\<lparr>speech_means := sm, noise_means := nm\<rparr>, noise_global_mean, speech_global_mean)
         else (self, noise_global_mean, speech_global_mean))"

definition shift_means :: "nat \<Rightarrow> int \<Rightarrow> int list \<Rightarrow> int list" where
  "shift_means channel d means =
     foldl (\<lambda>ms k. let g = channel + k * kNumChannels in ms[g := s16 (ms ! g - d)]) means [0..<kNumGaussians]"

definition limit_means :: "nat \<Rightarrow> int \<Rightarrow> int \<Rightarrow> VadInstT \<Rightarrow> VadInstT" where
  "limit_means channel noise_global_mean speech_global_mean self =
     (let sp = s16 (drop_bit 7 speech_global_mean); no = s16 (drop_bit 7 noise_global_mean);
          self = (if kMaximumSpeech ! channel < sp
            then self\<lparr>speech_means := shift_means channel (s16 (sp - kMaximumSpeech ! channel)) (speech_means self)\<rparr>
            else self)
      in if kMaximumNoise ! channel < no
         then self\<lparr>noise_means := shift_means channel (s16 (no - kMaximumNoise ! channel)) (noise_means self)\<rparr>
         else self)"

text \<open>The second loop; \<open>maxspe\<close> is the limit of the channel before.\<close>

definition update_channel :: "int list \<Rightarrow> int \<Rightarrow> evidence \<Rightarrow> VadInstT \<times> int \<Rightarrow> nat \<Rightarrow> VadInstT \<times> int" where
  "update_channel features vadflag ev st channel =
     (let (self, maxspe) = st;
          (self, feature_minimum) = WebRtcVad_FindMinimum self (features ! channel) channel;
          (_, noise_global_mean) = WeightedAverage (noise_means self) channel 0 kNoiseDataWeights;
          tmp1_s16 = s16 (drop_bit 6 noise_global_mean);
          self = foldl (update_gaussian features vadflag ev maxspe channel feature_minimum tmp1_s16) self [0..<kNumGaussians];
          (self, noise_global_mean, speech_global_mean) = separate_models channel self
      in (limit_means channel noise_global_mean speech_global_mean self, kMaximumSpeech ! channel))"

definition update_models :: "int list \<Rightarrow> int \<Rightarrow> evidence \<Rightarrow> VadInstT \<Rightarrow> VadInstT" where
  "update_models features vadflag ev self =
     (let self = fst (foldl (update_channel features vadflag ev) (self, 12800) [0..<kNumChannels])
      in self\<lparr>frame_counter := s32 (frame_counter self + 1)\<rparr>)"

subsection \<open>The decision of a frame\<close>

text \<open>A decision for noise is held back while \<open>over_hang\<close> counts down.\<close>

definition smooth_decision :: "int \<Rightarrow> int \<Rightarrow> int \<Rightarrow> VadInstT \<Rightarrow> VadInstT \<times> int" where
  "smooth_decision overhead1 overhead2 vadflag self =
     (if vadflag = 0 then
        let (self, flag) = (if 0 < over_hang self
              then (self\<lparr>over_hang := s16 (over_hang self - 1)\<rparr>, s16 (2 + over_hang self)) else (self, 0))
        in (self\<lparr>num_of_speech := 0\<rparr>, flag)
      else
        let n = s16 (num_of_speech self + 1)
        in if kMaxSpeechFrames < n
           then (self\<lparr>num_of_speech := kMaxSpeechFrames, over_hang := overhead2\<rparr>, vadflag)
           else (self\<lparr>num_of_speech := n, over_hang := overhead1\<rparr>, vadflag))"

definition length_index :: "nat \<Rightarrow> nat" where
  "length_index frame_length = (if frame_length = 80 then 0 else if frame_length = 160 then 1 else 2)"

definition GmmProbability :: "VadInstT \<Rightarrow> int list \<Rightarrow> int \<Rightarrow> nat \<Rightarrow> VadInstT \<times> int" where
  "GmmProbability self features total_power frame_length =
     (let i = length_index frame_length;
          overhead1 = over_hang_max_1 self ! i; overhead2 = over_hang_max_2 self ! i;
          individualTest = individual self ! i; totalTest = total self ! i;
          (self, vadflag) =
            (if kMinEnergy < total_power then
               let vadflag = decide self features individualTest totalTest
               in (update_models features vadflag (gather self features) self, vadflag)
             else (self, 0))
      in smooth_decision overhead1 overhead2 vadflag self)"

subsection \<open>Initialisation and frames\<close>

definition WebRtcVad_set_mode_core :: "VadInstT \<Rightarrow> int \<Rightarrow> VadInstT \<times> int" where
  "WebRtcVad_set_mode_core self mode =
     (if mode \<in> {0, 1, 2, 3} then
        (case kModes ! nat mode of (m1, m2, i, t) \<Rightarrow>
           (self\<lparr>over_hang_max_1 := m1, over_hang_max_2 := m2, individual := i, total := t\<rparr>, 0))
      else (self, - 1))"

definition WebRtcVad_InitCore :: "VadInstT \<Rightarrow> VadInstT \<times> int" where
  "WebRtcVad_InitCore self =
     (let self = self\<lparr>vad := 1, frame_counter := 0, over_hang := 0, num_of_speech := 0,
            downsampling_filter_states := replicate 4 0,
            state_48_to_8 := WebRtcSpl_ResetResample48khzTo8khz,
            noise_means := kNoiseDataMeans, speech_means := kSpeechDataMeans,
            noise_stds := kNoiseDataStds, speech_stds := kSpeechDataStds,
            low_value_vector := replicate (16 * kNumChannels) 10000,
            index_vector := replicate (16 * kNumChannels) 0,
            upper_state := replicate 5 0, lower_state := replicate 5 0, hp_filter_state := zero4,
            mean_value := replicate kNumChannels 1600\<rparr>;
          (self, r) = WebRtcVad_set_mode_core self kDefaultMode
      in if r \<noteq> 0 then (self, - 1) else (self\<lparr>init_flag := kInitCheck\<rparr>, 0))"

definition WebRtcVad_CalcVad8khz :: "VadInstT \<Rightarrow> int list \<Rightarrow> nat \<Rightarrow> VadInstT \<times> int" where
  "WebRtcVad_CalcVad8khz inst speech_frame frame_length =
     (let (inst, total_power, feature_vector) = WebRtcVad_CalculateFeatures inst (take frame_length speech_frame);
          (inst, v) = GmmProbability inst feature_vector total_power frame_length
      in (inst\<lparr>vad := v\<rparr>, v))"

definition WebRtcVad_CalcVad16khz :: "VadInstT \<Rightarrow> int list \<Rightarrow> nat \<Rightarrow> VadInstT \<times> int" where
  "WebRtcVad_CalcVad16khz inst speech_frame frame_length =
     (let (states, speechNB) = WebRtcVad_Downsampling (downsampling_filter_states inst) 0 (take frame_length speech_frame)
      in WebRtcVad_CalcVad8khz (inst\<lparr>downsampling_filter_states := states\<rparr>) speechNB (frame_length div 2))"

definition WebRtcVad_CalcVad32khz :: "VadInstT \<Rightarrow> int list \<Rightarrow> nat \<Rightarrow> VadInstT \<times> int" where
  "WebRtcVad_CalcVad32khz inst speech_frame frame_length =
     (let (states, speechWB) = WebRtcVad_Downsampling (downsampling_filter_states inst) 2 (take frame_length speech_frame);
          (states, speechNB) = WebRtcVad_Downsampling states 0 (take (frame_length div 2) speechWB)
      in WebRtcVad_CalcVad8khz (inst\<lparr>downsampling_filter_states := states\<rparr>) speechNB (frame_length div 2 div 2))"

text \<open>The loop resamples the first 480 samples again and again: it does not advance the pointer.\<close>

fun resample_frames :: "nat \<Rightarrow> state48khzTo8khz \<Rightarrow> int list \<Rightarrow> state48khzTo8khz \<times> int list" where
  "resample_frames 0 st speech_frame = (st, [])"
| "resample_frames (Suc n) st speech_frame =
     (let (st, out) = WebRtcSpl_Resample48khzTo8khz st (take 480 speech_frame);
          (st, rest) = resample_frames n st speech_frame
      in (st, out @ rest))"

definition WebRtcVad_CalcVad48khz :: "VadInstT \<Rightarrow> int list \<Rightarrow> nat \<Rightarrow> VadInstT \<times> int" where
  "WebRtcVad_CalcVad48khz inst speech_frame frame_length =
     (let (st, speech_nb) = resample_frames (frame_length div 480) (state_48_to_8 inst) speech_frame
      in WebRtcVad_CalcVad8khz (inst\<lparr>state_48_to_8 := st\<rparr>) speech_nb (frame_length div 6))"

subsection \<open>The state between two frames\<close>

text \<open>A list of a length with its entries in a range.\<close>

definition ranged :: "nat \<Rightarrow> int \<Rightarrow> int \<Rightarrow> int list \<Rightarrow> bool" where
  "ranged n lo hi xs = (length xs = n \<and> (\<forall>x\<in>set xs. lo \<le> x \<and> x \<le> hi))"

named_theorems ranged

lemma ranged_update [ranged]:
  "ranged n lo hi xs \<Longrightarrow> lo \<le> x \<Longrightarrow> x \<le> hi \<Longrightarrow> ranged n lo hi (xs[i := x])"
  using set_update_subset_insert [of xs i x] by (auto simp: ranged_def)

lemma ranged_length: "ranged n lo hi xs \<Longrightarrow> length xs = n"
  by (simp add: ranged_def)

lemma ranged_nth: "ranged n lo hi xs \<Longrightarrow> i < n \<Longrightarrow> lo \<le> xs ! i \<and> xs ! i \<le> hi"
  by (auto simp: ranged_def)

lemma s16_bounds [ranged]: "- 32768 \<le> s16 x" "s16 x \<le> 32767"
  using is_s16_s16 [of x] by (auto simp: is_s16_def)

text \<open>
  The invariant of an initialised detector: the arrays have their lengths and 16-bit entries, no
  standard deviation is below the smallest initial one, the windows of the six channels are sorted,
  the hysteresis is within its limits and the thresholds are those of a mode.
\<close>

definition vad_ok :: "VadInstT \<Rightarrow> bool" where
  "vad_ok self \<longleftrightarrow>
     init_flag self = kInitCheck \<and>
     length (downsampling_filter_states self) = 4 \<and> length (upper_state self) = 5 \<and> length (lower_state self) = 5 \<and>
     ranged 12 (- 32768) 32767 (noise_means self) \<and> ranged 12 (- 32768) 32767 (speech_means self) \<and>
     ranged 12 378 32767 (noise_stds self) \<and> ranged 12 378 32767 (speech_stds self) \<and>
     ranged 6 (- 32768) 32767 (mean_value self) \<and>
     length (index_vector self) = 96 \<and> length (low_value_vector self) = 96 \<and>
     (\<forall>c<6. window_ok (window (low_value_vector self) c)) \<and>
     0 \<le> over_hang self \<and> over_hang self \<le> 14 \<and> 0 \<le> num_of_speech self \<and> num_of_speech self \<le> 6 \<and>
     (over_hang_max_1 self, over_hang_max_2 self, individual self, total self) \<in> set kModes"

lemma weighted_average_means:
  assumes "ranged 12 (- 32768) 32767 data"
  shows "ranged 12 (- 32768) 32767 (fst (WeightedAverage data channel offset weights))"
proof -
  have "ranged 12 (- 32768) 32767 (fst (foldl (\<lambda>(d, wa) k.
         let g = channel + k * kNumChannels; d = d[g := s16 (d ! g + offset)]
         in (d, s32 (wa + d ! g * weights ! g))) st ks))" if "ranged 12 (- 32768) 32767 (fst st)" for st ks
    using that by (induction ks arbitrary: st) (auto simp: Let_def ranged split: prod.splits)
  from this [of "(data, 0)"] show ?thesis using assms by (simp add: WeightedAverage_def)
qed

lemma shift_means_means:
  "ranged 12 (- 32768) 32767 means \<Longrightarrow> ranged 12 (- 32768) 32767 (shift_means channel d means)"
proof -
  have "ranged 12 (- 32768) 32767 (foldl (\<lambda>ms k. let g = channel + k * kNumChannels in ms[g := s16 (ms ! g - d)]) ms ks)"
    if "ranged 12 (- 32768) 32767 ms" for ms ks
    using that by (induction ks arbitrary: ms) (auto simp: Let_def ranged)
  then show "ranged 12 (- 32768) 32767 means \<Longrightarrow> ?thesis" by (simp add: shift_means_def)
qed

lemma update_std_range:
  "378 \<le> update_speech_std f p d m s \<and> update_speech_std f p d m s \<le> 32767"
  "378 \<le> update_noise_std f p d m s \<and> update_noise_std f p d m s \<le> 32767"
  by (auto simp: update_speech_std_def update_noise_std_def Let_def kMinStd_def s16_bounds)

lemma update_mean_range:
  "- 32768 \<le> update_noise_mean v c k p d m n x \<and> update_noise_mean v c k p d m n x \<le> 32767"
  "k < 2 \<Longrightarrow> - 32768 \<le> update_speech_mean mx k p d x \<and> update_speech_mean mx k p d x \<le> 32767"
  by (auto simp: update_noise_mean_def update_speech_mean_def Let_def s16_bounds kMinimumMean_def less_Suc_eq numeral_2_eq_2)

lemma update_gaussian_ok:
  assumes "vad_ok self" and "k < 2"
  shows "vad_ok (update_gaussian features vadflag ev maxspe channel fmin ng self k)"
  using assms by (auto simp: vad_ok_def update_gaussian_def Let_def ranged update_std_range update_mean_range
      split: prod.splits)

lemma find_minimum_ok:
  assumes "vad_ok self" and "channel < 6"
  shows "vad_ok (fst (WebRtcVad_FindMinimum self feature channel))"
proof -
  have len: "length (index_vector self) = 96" "length (low_value_vector self) = 96"
    "window_ok (window (low_value_vector self) channel)"
    using assms by (auto simp: vad_ok_def)
  obtain age w m where
    e: "WebRtcVad_FindMinimum self feature channel =
       (self\<lparr>index_vector := mem_write (index_vector self) (channel * 16) age,
             low_value_vector := mem_write (low_value_vector self) (channel * 16) w,
             mean_value := (mean_value self)[channel := m]\<rparr>, m)"
    and m: "m = smooth_median (frame_counter self) (current_median (frame_counter self) w) (mean_value self ! channel)"
    and w: "w = take 16 (insort feature (aged_window (window (index_vector self) channel) (window (low_value_vector self) channel)))"
      "window_ok w" "length age = 16"
      "length (mem_write (low_value_vector self) (channel * 16) w) = 96"
      "\<forall>c<6. window (mem_write (low_value_vector self) (channel * 16) w) c =
           (if c = channel then w else window (low_value_vector self) c)"
    by (rule find_minimum_state [OF len(1,2) assms(2) len(3), of feature])
  have "- 32768 \<le> m" "m \<le> 32767" unfolding m smooth_median_def Let_def by (rule s16_bounds)+
  moreover have "length (mem_write (index_vector self) (channel * 16) age) = 96"
    using assms w(3) by (simp add: mem_write_def vad_ok_def)
  ultimately show ?thesis using assms(1) w unfolding e by (auto simp: vad_ok_def ranged)
qed

lemma separate_models_ok: "vad_ok self \<Longrightarrow> vad_ok (fst (separate_models channel self))"
  using weighted_average_means [of "noise_means self"] weighted_average_means [of "speech_means self"]
  by (simp add: vad_ok_def separate_models_def Let_def split_beta)

lemma limit_means_ok: "vad_ok self \<Longrightarrow> vad_ok (limit_means channel n s self)"
  by (simp add: vad_ok_def limit_means_def Let_def shift_means_means)

lemma foldl_ok:
  "P s \<Longrightarrow> (\<And>s k. P s \<Longrightarrow> k \<in> set ks \<Longrightarrow> P (f s k)) \<Longrightarrow> P (foldl f s ks)"
  by (induction ks arbitrary: s) simp_all

lemma update_channel_ok:
  assumes "vad_ok self" and "channel < 6"
  shows "vad_ok (fst (update_channel features vadflag ev (self, maxspe) channel))"
proof -
  have "vad_ok (foldl (update_gaussian features vadflag ev maxspe channel fmin ng) s [0..<kNumGaussians])"
    if "vad_ok s" for s fmin ng
    using that by (rule foldl_ok) (simp add: update_gaussian_ok kNumGaussians_def)
  then show ?thesis
    using find_minimum_ok [OF assms] separate_models_ok limit_means_ok
    by (simp add: update_channel_def Let_def split_beta)
qed

lemma update_models_ok: "vad_ok self \<Longrightarrow> vad_ok (update_models features vadflag ev self)"
proof -
  assume "vad_ok self"
  then have "vad_ok (fst (foldl (update_channel features vadflag ev) (self, 12800) [0..<kNumChannels]))"
    using update_channel_ok
    by (intro foldl_ok [of "\<lambda>st. vad_ok (fst st)"]) (auto simp: kNumChannels_def)
  then show ?thesis by (simp add: update_models_def Let_def vad_ok_def)
qed

lemma modes_hangover:
  "(m1, m2, i, t) \<in> set kModes \<Longrightarrow> j < 3 \<Longrightarrow> 0 \<le> m1 ! j \<and> m1 ! j \<le> 8 \<and> 0 \<le> m2 ! j \<and> m2 ! j \<le> 14"
  by (auto simp: kModes_def less_Suc_eq numeral_3_eq_3)

lemma smooth_decision_ok:
  assumes "vad_ok self" and "0 \<le> o1 \<and> o1 \<le> 14" and "0 \<le> o2 \<and> o2 \<le> 14" and "0 \<le> flag \<and> flag \<le> 1"
  shows "vad_ok (fst (smooth_decision o1 o2 flag self)) \<and>
     0 \<le> snd (smooth_decision o1 o2 flag self) \<and> snd (smooth_decision o1 o2 flag self) \<le> 16"
proof -
  have "s16 (over_hang self - 1) = over_hang self - 1" if "0 < over_hang self"
    using that assms(1) by (intro s16_id) (auto simp: vad_ok_def)
  moreover have "s16 (2 + over_hang self) = 2 + over_hang self"
    "s16 (num_of_speech self + 1) = num_of_speech self + 1"
    using assms(1) by (intro s16_id; auto simp: vad_ok_def)+
  ultimately show ?thesis using assms
    by (auto simp: smooth_decision_def Let_def vad_ok_def kMaxSpeechFrames_def)
qed

lemma init_core_ok:
  "snd (WebRtcVad_InitCore self) = 0 \<and> vad_ok (fst (WebRtcVad_InitCore self))"
proof -
  have "window (replicate 96 10000) c = replicate 16 10000" if "c < 6" for c
    using that by (simp add: window_def mem_read_def min_def)
  moreover have "ranged 12 (- 32768) 32767 kNoiseDataMeans" "ranged 12 (- 32768) 32767 kSpeechDataMeans"
    "ranged 12 378 32767 kNoiseDataStds" "ranged 12 378 32767 kSpeechDataStds"
    by (simp_all add: ranged_def kNoiseDataMeans_def kSpeechDataMeans_def kNoiseDataStds_def kSpeechDataStds_def)
  ultimately show ?thesis
    by (simp add: WebRtcVad_InitCore_def WebRtcVad_set_mode_core_def kModes_def kDefaultMode_def Let_def
        vad_ok_def ranged_def kNumChannels_def window_ok_def)
qed

text \<open>Memory that is all zero, and a detector that is initialised in it.\<close>

definition zero_memory :: VadInstT where
  "zero_memory =
     \<lparr>vad = 0, downsampling_filter_states = replicate 4 0,
      state_48_to_8 = WebRtcSpl_ResetResample48khzTo8khz,
      noise_means = replicate 12 0, speech_means = replicate 12 0, noise_stds = replicate 12 0,
      speech_stds = replicate 12 0, frame_counter = 0, over_hang = 0, num_of_speech = 0,
      index_vector = replicate 96 0, low_value_vector = replicate 96 0, mean_value = replicate 6 0,
      upper_state = replicate 5 0, lower_state = replicate 5 0, hp_filter_state = zero4,
      over_hang_max_1 = replicate 3 0, over_hang_max_2 = replicate 3 0, individual = replicate 3 0,
      total = replicate 3 0, init_flag = 0\<rparr>"

definition fresh_vad :: VadInstT where
  "fresh_vad = fst (WebRtcVad_InitCore zero_memory)"

lemma fresh_vad_ok: "vad_ok fresh_vad"
  using init_core_ok by (simp add: fresh_vad_def)

theorem find_minimum_window_witness:
  "window_ok (window (low_value_vector (fst (WebRtcVad_FindMinimum fresh_vad 700 0))) 0)"
proof -
  have w: "window_ok (window (low_value_vector fresh_vad) 0)" "is_s16 (mean_value fresh_vad ! 0)"
    "length (index_vector fresh_vad) = 96" "length (low_value_vector fresh_vad) = 96"
    using fresh_vad_ok ranged_nth [of 6 "- 32768" 32767 "mean_value fresh_vad" 0]
    by (auto simp: vad_ok_def is_s16_def)
  show ?thesis
    by (rule conjunct1 [OF conjunct2 [OF find_minimum_window [OF w(3,4) _ w(1) prod.collapse w(2)]]]) simp
qed

subsection \<open>Hysteresis\<close>

abbreviation smoothed :: "int \<Rightarrow> int \<Rightarrow> VadInstT \<Rightarrow> int list \<Rightarrow> VadInstT \<times> int list" where
  "smoothed overhead1 overhead2 \<equiv> run_samples (\<lambda>self flag. smooth_decision overhead1 overhead2 flag self)"

lemma speech_run:
  assumes "0 \<le> num_of_speech self" and "num_of_speech self \<le> 6"
  shows "snd (smoothed o1 o2 self (replicate n 1)) = replicate n 1 \<and>
     num_of_speech (fst (smoothed o1 o2 self (replicate n 1))) = min 6 (num_of_speech self + int n) \<and>
     over_hang (fst (smoothed o1 o2 self (replicate n 1))) =
       (if n = 0 then over_hang self else if 6 < num_of_speech self + int n then o2 else o1)"
  using assms
proof (induction n arbitrary: self)
  case (Suc n)
  define s where "s = fst (smooth_decision o1 o2 1 self)"
  have "s16 (num_of_speech self + 1) = num_of_speech self + 1"
    using Suc.prems by (intro s16_id) simp_all
  then have s: "smooth_decision o1 o2 1 self = (s, 1)" "num_of_speech s = min 6 (num_of_speech self + 1)"
    "over_hang s = (if 6 < num_of_speech self + 1 then o2 else o1)"
    using Suc.prems by (auto simp: s_def smooth_decision_def Let_def kMaxSpeechFrames_def)
  have "0 \<le> num_of_speech s" "num_of_speech s \<le> 6" using s Suc.prems by simp_all
  from Suc.IH [OF this] s show ?case using Suc.prems
    by (auto simp: split_beta)
qed simp

lemma noise_run:
  assumes "0 \<le> over_hang self" and "over_hang self \<le> 14"
  shows "map (\<lambda>v. if 0 < v then 1 else v) (snd (smoothed o1 o2 self (replicate k 0))) =
     replicate (min k (nat (over_hang self))) 1 @ replicate (k - nat (over_hang self)) 0"
  using assms
proof (induction k arbitrary: self)
  case (Suc k)
  define s where "s = fst (smooth_decision o1 o2 0 self)"
  have "s16 (over_hang self - 1) = over_hang self - 1" if "0 < over_hang self"
    using Suc.prems that by (intro s16_id) simp_all
  moreover have "s16 (2 + over_hang self) = 2 + over_hang self"
    using Suc.prems by (intro s16_id) simp_all
  ultimately have s: "over_hang s = max 0 (over_hang self - 1)"
    "smooth_decision o1 o2 0 self = (s, if 0 < over_hang self then 2 + over_hang self else 0)"
    using Suc.prems by (auto simp: s_def smooth_decision_def Let_def)
  show ?case
  proof (cases "over_hang self = 0")
    case True
    then show ?thesis using Suc.IH [of s] s by (simp add: split_beta)
  next
    case False
    then have "nat (over_hang self) = Suc (nat (over_hang s))" using s Suc.prems by simp
    then show ?thesis using Suc.IH [of s] s Suc.prems False by (simp add: split_beta)
  qed
qed simp

text \<open>
  C36: the hysteresis. After a run of speech frames the detector keeps reporting speech for
  \<open>overhead1\<close> more frames, or for \<open>overhead2\<close> of them where the run was longer than six frames, and
  then it reports noise for as long as no speech comes.
\<close>

theorem hangover:
  assumes "num_of_speech self = 0" and "0 < n"
    and "0 \<le> overhead1" and "overhead1 \<le> 14" and "0 \<le> overhead2" and "overhead2 \<le> 14"
  shows "map (\<lambda>v. if 0 < v then 1 else v)
       (snd (smoothed overhead1 overhead2 self (replicate n 1 @ replicate k 0))) =
     (let h = nat (if 6 < n then overhead2 else overhead1)
      in replicate (n + min k h) 1 @ replicate (k - h) 0)"
  using speech_run [of self overhead1 overhead2 n] assms
    noise_run [of "fst (smoothed overhead1 overhead2 self (replicate n 1))" overhead1 overhead2 k]
  by (simp add: run_samples_append joined_def Let_def replicate_add)

theorem hangover_witness:
  "map (\<lambda>v. if 0 < v then 1 else v) (snd (smoothed 8 14 fresh_vad (replicate 2 1 @ replicate 10 0))) =
     replicate 10 1 @ replicate 2 0"
  using hangover [of fresh_vad 2 8 14 10]
  by (simp add: fresh_vad_def WebRtcVad_InitCore_def WebRtcVad_set_mode_core_def kModes_def kDefaultMode_def Let_def
      eval_nat_numeral)

end
