(* ===== verification/WebRtcVad.thy ===== *)
theory WebRtcVad
  imports VadCore
begin

text \<open>
  The interface of the voice activity detector: \<open>src/src/webrtc/common_audio/vad/webrtc_vad.c\<close> and
  the class \<open>VadImpl\<close> of \<open>vad.cc\<close>. A handle is \<open>None\<close> where the pointer is null, and so is a frame.
  A function returns the state behind the handle with its result.
\<close>

subsection \<open>webrtc_vad.c\<close>

definition kValidRates :: "int list" where
  "kValidRates = [8000, 16000, 32000, 48000]"

definition kMaxFrameLengthMs :: int where
  "kMaxFrameLengthMs = 30"

text \<open>Only the flag of the new instance is set; \<open>mem\<close> is what \<open>malloc\<close> returns, not null.\<close>

definition WebRtcVad_Create :: "VadInstT \<Rightarrow> VadInstT" where
  "WebRtcVad_Create mem = mem\<lparr>init_flag := 0\<rparr>"

definition WebRtcVad_Init :: "VadInstT option \<Rightarrow> VadInstT option \<times> int" where
  "WebRtcVad_Init handle =
     (case handle of None \<Rightarrow> (None, - 1)
      | Some self \<Rightarrow> let (self, r) = WebRtcVad_InitCore self in (Some self, r))"

definition WebRtcVad_set_mode :: "VadInstT option \<Rightarrow> int \<Rightarrow> VadInstT option \<times> int" where
  "WebRtcVad_set_mode handle mode =
     (case handle of None \<Rightarrow> (None, - 1)
      | Some self \<Rightarrow>
          if init_flag self \<noteq> kInitCheck then (handle, - 1)
          else let (self, r) = WebRtcVad_set_mode_core self mode in (Some self, r))"

text \<open>The first rate that matches decides; its lengths are tried in steps of 10 ms.\<close>

definition WebRtcVad_ValidRateAndFrameLength :: "int \<Rightarrow> nat \<Rightarrow> int" where
  "WebRtcVad_ValidRateAndFrameLength rate frame_length =
     (case List.find (\<lambda>r. r = rate) kValidRates of
        None \<Rightarrow> - 1
      | Some r \<Rightarrow>
          if list_ex (\<lambda>ms. frame_length = nat (r div 1000 * ms)) [10, 20, kMaxFrameLengthMs] then 0 else - 1)"

definition calc_vad :: "VadInstT \<Rightarrow> int \<Rightarrow> int list \<Rightarrow> nat \<Rightarrow> VadInstT \<times> int" where
  "calc_vad self fs audio_frame frame_length =
     (if fs = 48000 then WebRtcVad_CalcVad48khz self audio_frame frame_length
      else if fs = 32000 then WebRtcVad_CalcVad32khz self audio_frame frame_length
      else if fs = 16000 then WebRtcVad_CalcVad16khz self audio_frame frame_length
      else if fs = 8000 then WebRtcVad_CalcVad8khz self audio_frame frame_length
      else (self, - 1))"

definition WebRtcVad_Process ::
    "VadInstT option \<Rightarrow> int \<Rightarrow> int list option \<Rightarrow> nat \<Rightarrow> VadInstT option \<times> int" where
  "WebRtcVad_Process handle fs audio_frame frame_length =
     (case (handle, audio_frame) of
        (Some self, Some frame) \<Rightarrow>
          if init_flag self \<noteq> kInitCheck then (handle, - 1)
          else if WebRtcVad_ValidRateAndFrameLength fs frame_length \<noteq> 0 then (handle, - 1)
          else let (self, v) = calc_vad self fs frame frame_length
               in (Some self, if 0 < v then 1 else v)
      | _ \<Rightarrow> (handle, - 1))"

subsection \<open>vad.cc\<close>

datatype Activity = kPassive | kActive | kError

datatype Aggressiveness = kVadNormal | kVadLowBitrate | kVadAggressive | kVadVeryAggressive

fun Aggressiveness_int :: "Aggressiveness \<Rightarrow> int" where
  "Aggressiveness_int kVadNormal = 0"
| "Aggressiveness_int kVadLowBitrate = 1"
| "Aggressiveness_int kVadAggressive = 2"
| "Aggressiveness_int kVadVeryAggressive = 3"

text \<open>\<open>Reset\<close> makes a new instance; \<open>None\<close> where one of its checks aborts the program.\<close>

definition VadImpl_Reset :: "VadInstT \<Rightarrow> Aggressiveness \<Rightarrow> VadInstT option" where
  "VadImpl_Reset mem aggressiveness =
     (let (handle, r) = WebRtcVad_Init (Some (WebRtcVad_Create mem))
      in if r \<noteq> 0 then None
         else let (handle, r) = WebRtcVad_set_mode handle (Aggressiveness_int aggressiveness)
              in if r \<noteq> 0 then None else handle)"

definition VoiceActivity :: "VadInstT option \<Rightarrow> int list \<Rightarrow> nat \<Rightarrow> int \<Rightarrow> VadInstT option \<times> Activity" where
  "VoiceActivity handle audio num_samples sample_rate_hz =
     (let (handle, ret) = WebRtcVad_Process handle sample_rate_hz (Some audio) num_samples
      in (handle, if ret = 0 then kPassive else if ret = 1 then kActive else kError))"

subsection \<open>The state is kept\<close>

lemma split_band_ok: "vad_ok self \<Longrightarrow> vad_ok (fst (split_band self i xs))"
  by (simp add: split_band_def vad_ok_def split_beta Let_def)

lemma features_ok: "vad_ok self \<Longrightarrow> vad_ok (fst (WebRtcVad_CalculateFeatures self xs))"
proof -
  have "vad_ok (s\<lparr>hp_filter_state := h\<rparr>)" if "vad_ok s" for s h
    using that by (simp add: vad_ok_def)
  then show "vad_ok self \<Longrightarrow> ?thesis"
    by (simp add: WebRtcVad_CalculateFeatures_def Let_def split_beta split_band_ok)
qed

lemma gmm_ok:
  assumes "vad_ok self"
  shows "vad_ok (fst (GmmProbability self features tp len)) \<and>
     0 \<le> snd (GmmProbability self features tp len) \<and> snd (GmmProbability self features tp len) \<le> 16"
proof -
  let ?i = "length_index len"
  have i: "?i < 3" by (simp add: length_index_def)
  have o: "0 \<le> over_hang_max_1 self ! ?i \<and> over_hang_max_1 self ! ?i \<le> 14"
    "0 \<le> over_hang_max_2 self ! ?i \<and> over_hang_max_2 self ! ?i \<le> 14"
    using assms modes_hangover [OF _ i] by (fastforce simp: vad_ok_def)+
  have d: "0 \<le> decide self features a b \<and> decide self features a b \<le> 1" for a b
    by (simp add: decide_def)
  show ?thesis
    using smooth_decision_ok [OF update_models_ok [OF assms] o d] smooth_decision_ok [OF assms o, of 0]
    by (simp add: GmmProbability_def Let_def split_beta)
qed

lemma vad8_ok:
  assumes "vad_ok inst"
  shows "vad_ok (fst (WebRtcVad_CalcVad8khz inst frame n)) \<and>
     0 \<le> snd (WebRtcVad_CalcVad8khz inst frame n) \<and> snd (WebRtcVad_CalcVad8khz inst frame n) \<le> 16"
proof -
  have "vad_ok (s\<lparr>vad := v\<rparr>)" if "vad_ok s" for s v
    using that by (simp add: vad_ok_def)
  then show ?thesis
    using gmm_ok [OF features_ok [OF assms]] by (simp add: WebRtcVad_CalcVad8khz_def split_beta Let_def)
qed

lemma downsampling_states:
  "length (fst (WebRtcVad_Downsampling states p xs)) = length states"
  by (simp add: WebRtcVad_Downsampling_def split: prod.split)

lemma calc_vad_ok:
  assumes "vad_ok self" and "fs \<in> set kValidRates"
  shows "vad_ok (fst (calc_vad self fs frame n)) \<and> 0 \<le> snd (calc_vad self fs frame n) \<and> snd (calc_vad self fs frame n) \<le> 16"
proof -
  have st: "vad_ok (self\<lparr>downsampling_filter_states := states\<rparr>)" if "length states = 4" for states
    using assms(1) that by (simp add: vad_ok_def)
  have st': "vad_ok (self\<lparr>state_48_to_8 := x\<rparr>)" for x
    using assms(1) by (simp add: vad_ok_def)
  have len: "length (downsampling_filter_states self) = 4" using assms(1) by (simp add: vad_ok_def)
  consider "fs = 48000" | "fs = 32000" | "fs = 16000" | "fs = 8000"
    using assms(2) by (auto simp: kValidRates_def)
  then show ?thesis
  proof cases
    case 1
    then show ?thesis using vad8_ok [OF st'] by (simp add: calc_vad_def WebRtcVad_CalcVad48khz_def split_beta)
  next
    case 2
    then show ?thesis
      using vad8_ok [OF st] len
      by (simp add: calc_vad_def WebRtcVad_CalcVad32khz_def split_beta downsampling_states Let_def)
  next
    case 3
    then show ?thesis
      using vad8_ok [OF st] len
      by (simp add: calc_vad_def WebRtcVad_CalcVad16khz_def split_beta downsampling_states)
  next
    case 4
    then show ?thesis using vad8_ok [OF assms(1)] by (simp add: calc_vad_def)
  qed
qed

text \<open>The frames that are accepted, as a list of rates and lengths.\<close>

definition valid_frames :: "(int \<times> nat) list" where
  "valid_frames = [(8000, 80), (8000, 160), (8000, 240), (16000, 160), (16000, 320), (16000, 480),
     (32000, 320), (32000, 640), (32000, 960), (48000, 480), (48000, 960), (48000, 1440)]"

lemma valid_frames_value:
  "WebRtcVad_ValidRateAndFrameLength fs n = (if (fs, n) \<in> set valid_frames then 0 else - 1)"
  by (auto simp: WebRtcVad_ValidRateAndFrameLength_def kValidRates_def kMaxFrameLengthMs_def valid_frames_def)

lemma valid_frame_rate: "(fs, n) \<in> set valid_frames \<Longrightarrow> fs \<in> set kValidRates"
  by (auto simp: valid_frames_def kValidRates_def)

lemma process_ok:
  assumes "vad_ok self"
  obtains self' ret where "WebRtcVad_Process (Some self) fs frame n = (Some self', ret)" and "vad_ok self'"
    and "if frame = None \<or> (fs, n) \<notin> set valid_frames then ret = - 1 \<and> self' = self else ret \<in> {0, 1}"
proof (cases "frame = None \<or> (fs, n) \<notin> set valid_frames")
  case True
  then show thesis using assms that [of self "- 1"]
    by (auto simp: WebRtcVad_Process_def valid_frames_value split: option.split)
next
  case False
  then obtain xs where f: "frame = Some xs" "(fs, n) \<in> set valid_frames" by auto
  define r where "r = calc_vad self fs xs n"
  have ok: "vad_ok (fst r)" "0 \<le> snd r" using calc_vad_ok [OF assms valid_frame_rate [OF f(2)], of xs n] by (simp_all add: r_def)
  have "init_flag self = kInitCheck" using assms by (simp add: vad_ok_def)
  then have "WebRtcVad_Process (Some self) fs frame n = (Some (fst r), if 0 < snd r then 1 else snd r)"
    by (simp add: WebRtcVad_Process_def f valid_frames_value split_beta r_def)
  then show thesis using that [OF _ ok(1)] False ok(2) by auto
qed

text \<open>
  C33: an initialised detector stays well formed over every call of \<open>Process\<close>, with any samples: the
  standard deviations do not fall to zero, the windows stay sorted, the hysteresis stays within its
  limits. The result is -1 exactly where the frame is null or its rate and length are not one of
  the twelve pairs, and then nothing has changed; otherwise it is 0 or 1.
\<close>

theorem process_keeps_state:
  assumes "vad_ok self"
  shows "\<exists>self' ret. WebRtcVad_Process (Some self) fs frame n = (Some self', ret) \<and> vad_ok self' \<and>
     (if frame = None \<or> (fs, n) \<notin> set valid_frames then ret = - 1 \<and> self' = self else ret \<in> {0, 1})"
  by (rule process_ok [OF assms, of fs frame n]) blast

theorem process_keeps_state_witness:
  "\<exists>self' ret. WebRtcVad_Process (Some fresh_vad) 16000 (Some (map int [0..<160])) 160 = (Some self', ret) \<and>
     vad_ok self' \<and> ret \<in> {0, 1}"
proof -
  have v: "(16000, 160) \<in> set valid_frames" by (simp add: valid_frames_def)
  show ?thesis
    using process_keeps_state [OF fresh_vad_ok, of 16000 "Some (map int [0..<160])" 160]
    by (simp only: v not_True_eq_False option.distinct if_False simp_thms)
qed

lemma set_mode_ok:
  "vad_ok self \<Longrightarrow> mode \<in> {0, 1, 2, 3} \<Longrightarrow>
     snd (WebRtcVad_set_mode_core self mode) = 0 \<and> vad_ok (fst (WebRtcVad_set_mode_core self mode))"
proof -
  assume ok: "vad_ok self" and mode: "mode \<in> {0, 1, 2, 3}"
  then have "nat mode < length kModes" by (auto simp: kModes_def)
  then have m: "kModes ! nat mode \<in> set kModes" by (rule nth_mem)
  obtain m1 m2 i t where e: "kModes ! nat mode = (m1, m2, i, t)" by (cases "kModes ! nat mode")
  have "vad_ok (self\<lparr>over_hang_max_1 := m1, over_hang_max_2 := m2, individual := i, total := t\<rparr>)"
    using ok m unfolding e by (simp add: vad_ok_def)
  then show ?thesis using mode by (simp add: WebRtcVad_set_mode_core_def e)
qed

text \<open>A stream of frames given to \<open>VoiceActivity\<close>: samples, number of samples, rate.\<close>

definition run_detector ::
    "VadInstT option \<Rightarrow> (int list \<times> nat \<times> int) list \<Rightarrow> VadInstT option \<times> Activity list" where
  "run_detector = run_samples (\<lambda>handle (audio, n, fs). VoiceActivity handle audio n fs)"


lemma resample_frames_first:
  "take 480 xs = take 480 ys \<Longrightarrow> resample_frames n st xs = resample_frames n st ys"
  by (induction n arbitrary: st) (simp_all add: split_beta)

text \<open>
  C35: a frame of 20 or 30 ms at 48 kHz is judged by its first 10 ms alone: two frames that agree on
  their first 480 samples give the same result and leave the same state.
\<close>

theorem first_10ms_only:
  assumes "take 480 xs = take 480 ys"
  shows "WebRtcVad_Process handle 48000 (Some xs) n = WebRtcVad_Process handle 48000 (Some ys) n"
  using resample_frames_first [OF assms]
  by (simp add: WebRtcVad_Process_def calc_vad_def WebRtcVad_CalcVad48khz_def split: option.split)

theorem first_10ms_only_witness:
  "WebRtcVad_Process (Some fresh_vad) 48000 (Some (replicate 480 5 @ replicate 480 0)) 960 =
   WebRtcVad_Process (Some fresh_vad) 48000 (Some (replicate 480 5 @ replicate 480 9000)) 960"
  using first_10ms_only [of "replicate 480 5 @ replicate 480 0" "replicate 480 5 @ replicate 480 9000"]
  by simp

end
