(* ===== verification/Spec2Isabelle.thy ===== *)
theory Spec2Isabelle
  imports AudioRender AudioFrameUtil WavFile AudioDevice ReaderFfmpeg Player SplScalar WebRtcVad
begin

text \<open>
  \<^bold>\<open>A media player library and the signal processing it uses\<close>

  \<^bold>\<open>The program.\<close> \<open>src/src/player\<close> plays a media file. A demuxer thread reads packets into one queue per
  stream (\<open>packet_queue.cc\<close>); a thread per stream asks the queue for packets, lets ffmpeg decode them
  (\<open>core/codec/decoder_ffmpeg.cc\<close>) and hands the frames to a renderer (\<open>decode_to_render.cc\<close>). The
  audio renderer (\<open>audio_render_impl.cc\<close>) converts nothing: it queues the bytes in a ring buffer
  (\<open>core/audio/audio_ring_buffer_io_impl.cc\<close>), from which the audio device reads. Seeking gives
  packets a new serial, and everything with an older serial is dropped. The ring buffer is built
  from byte queues (\<open>util/ring_buffer_wrapper.cc\<close>) over the ring buffer in C of webrtc
  (\<open>common_audio/ring_buffer.c\<close>). \<open>common_audio/signal_processing\<close> and \<open>common_audio/vad\<close> are the
  fixed point library and the voice activity detector that the repository carries with it.

  \<^bold>\<open>The theories.\<close>
  \<^item> \<open>Prelude\<close>: \<open>size_t\<close> and \<open>int\<close> arithmetic kept at its width, copies in memory, table look-up.
  \<^item> \<open>RingBuffer\<close>, \<open>RingBufferWrapper\<close>, \<open>FifoQueue\<close>: the two layers of byte queues. \<open>FifoQueue\<close> is the
    interface between them, a locale of a bounded queue, interpreted on both layers.
  \<^item> \<open>TimeClass\<close>, \<open>AudioFormat\<close>: durations, formats, and sizes in bytes and milliseconds.
  \<^item> \<open>CommonReader\<close>, \<open>AudioRingBufferIo\<close>: the audio queue; its blocking operations are steps of threads
    that wait on two condition variables.
  \<^item> \<open>AudioSource\<close>: the locale of the sources that the renderer and the mixer read from, interpreted on the
    audio queue and on files.
  \<^item> \<open>WavHeader\<close>, \<open>AudioFile\<close>, \<open>WavFile\<close>: the header of WAV files, files of samples as sources and sinks,
    and both together; the locale \<open>wav_source\<close> is what the header relies on, interpreted on files.
  \<^item> \<open>AudioFrame\<close>, \<open>AudioFrameUtil\<close>: frames over a block of memory, levels, ramps and layouts.
  \<^item> \<open>AudioConverter\<close>, \<open>ResampleIo\<close>, \<open>AudioMixer\<close>: the converter around libswresample, sources and sinks
    behind it, and the mixer of several sources. The functions of libswresample, the arithmetic of
    floats and the limiter of webrtc are parameters.
  \<^item> \<open>CallbackRegister\<close>, \<open>AudioDevice\<close>: the lists of callbacks, with a locale for what their users rely on, and
    the device that records and plays; its calls, the calls of the program and the tasks of its signal
    thread are steps. The audio device module of webrtc is a parameter.
  \<^item> \<open>AudioRender\<close>: the renderer between the decoder and the device.
  \<^item> \<open>PacketQueues\<close>, \<open>Decoder\<close>, \<open>PlayerTimer\<close>, \<open>Player\<close>: packets, decoding, clocks, and the player
    itself with its task queue. The functions of ffmpeg are parameters.
  \<^item> \<open>VideoFormat\<close>, \<open>ReaderFfmpeg\<close>: formats and frames of video, the conversion to RGB and the frame that
    the renderer keeps, and the demuxer. libyuv and libavformat are parameters.
  \<^item> \<open>Spl\<close>, \<open>SplVector\<close>, \<open>SplScalar\<close>, \<open>StreamFilter\<close>, \<open>ResampleBy2\<close>, \<open>Resample\<close>: the signal processing
    functions; \<open>StreamFilter\<close> is the locale of filters that do not depend on how the stream is cut.
  \<^item> \<open>VadInst\<close>, \<open>VadSp\<close>, \<open>VadFilterbank\<close>, \<open>VadGmm\<close>, \<open>VadCore\<close>, \<open>WebRtcVad\<close>: the detector, from its state to
    its interface.

  \<^bold>\<open>Conventions.\<close> A C struct or C++ class is a record, its methods are functions from the record and
  the arguments to the new record and the result; pointers into a block are offsets or the rest of the
  block, a null pointer is \<open>None\<close>. \<open>None\<close> as a result is a call that does not complete (a division by
  zero, a failed check, a loop that never ends). Unsigned arithmetic of \<open>size_t\<close> is written \<open>uadd\<close>,
  \<open>usub\<close>, \<open>umul\<close> on \<^typ>\<open>nat\<close>, modulo \<open>2 ^ 64\<close>; signed values are \<^typ>\<open>int\<close> with \<open>s16\<close>, \<open>s32\<close>, \<open>s64\<close> at every
  point where the code stores or converts one. \<open>RTC_DCHECK\<close> is empty, as in a release build. Each
  operation under a mutex is one step.

  \<^bold>\<open>What the lemmas show.\<close> The queues refine lists: what is read is what was written, in order, and
  full queues drop what their mode says. The audio queue refines a stream with a debt, no wake-up is
  lost, and the renderer takes a frame whole or not at all. Packet queues hand out packets in order,
  stale serials never pass, the clock runs from the last report, and the player's controls follow a
  specification of three states. Frames are bounded buffers, and their conversions round-trip; a
  converted frame holds what the resampler stored, the mix is the sum of the blocks read, and the
  device plays exactly while there are sources. A picture fits the frame of the renderer. The
  scalar functions are compared with plain arithmetic, the resamplers are independent of chunking,
  and the detector stays well formed on every input. Some theorems state what the code does where it
  does not do what it means to; the findings of the manifest name them.

  \<^bold>\<open>Bounds and fuel.\<close> Rings hold fewer than \<open>2 ^ 30\<close> elements (the code limits them to 50 MB); durations
  are below \<open>2 ^ 40\<close> ms where they are converted. No fuel is used: loops that may not end
  (\<open>expansion_loop\<close>, \<open>receive_loop\<close>) are partial functions whose value is \<open>None\<close> then, and
  \<open>expansion_loop_returns\<close> proves that the first one ends.

  \<^bold>\<open>Not modelled.\<close> The calls of OpenGL and JNI of the video renderer, logging, and the parts of
  webrtc that the player does not call (\<open>rtc_base\<close>, \<open>api\<close>, \<open>modules\<close>, \<open>sdk\<close>); variants in assembly or
  intrinsics of functions that are modelled from their C source. The manifest lists them.
\<close>

end
